(* ===== verification/Prelude.thy ===== *)
theory Prelude
  imports Complex_Main "HOL-Library.Multiset"
begin

text \<open>
  Shared vocabulary of the development: results of fallible Go functions, the
  theorem collections the component theories extend, and generic lemmas on lists,
  multisets and maps used by more than one component.
\<close>

section \<open>Results\<close>

text \<open>
  A Go function that returns \<open>(T, error)\<close> is modelled by a sum: \<open>Inl\<close> carries the
  error, \<open>Inr\<close> the value. A function that changes state besides returning such a
  pair returns the sum together with the new state.
\<close>

abbreviation Err :: "'e \<Rightarrow> 'e + 'a" where
  "Err e \<equiv> Inl e"

abbreviation Ok :: "'a \<Rightarrow> 'e + 'a" where
  "Ok x \<equiv> Inr x"

definition is_ok :: "'e + 'a \<Rightarrow> bool" where
  "is_ok r = (case r of Inl _ \<Rightarrow> False | Inr _ \<Rightarrow> True)"

lemma is_ok_simps [simp]:
  "is_ok (Inr x)"
  "\<not> is_ok (Inl e)"
  by (simp_all add: is_ok_def)

lemma is_ok_iff: "is_ok r \<longleftrightarrow> (\<exists>x. r = Inr x)"
  by (cases r) auto

named_theorems row_laws \<open>effect of the table operations on the rows of a table\<close>
named_theorems svc_defs \<open>definitions of the service operations\<close>
named_theorems bus_simps \<open>effect of the event bus operations\<close>

section \<open>Lists\<close>

lemma nth_in_take_drop:
  "i < length xs \<Longrightarrow> xs = take i xs @ xs ! i # drop (Suc i) xs"
  by (simp add: id_take_nth_drop)

lemma mset_drop_take: "mset (drop n xs) + mset (take n xs) = mset xs"
  by (metis append_take_drop_id mset_append union_commute)

lemma mset_page: "mset (take n (drop m ys)) \<subseteq># mset ys"
proof -
  have "mset ys = mset (take m ys) + (mset (take n (drop m ys)) + mset (drop n (drop m ys)))"
    by (metis append_take_drop_id mset_append)
  also have "\<dots> = mset (take n (drop m ys)) + (mset (take m ys) + mset (drop n (drop m ys)))"
    by (simp add: ac_simps)
  finally show ?thesis by simp
qed

lemma filter_all: "(\<And>x. x \<in> set xs \<Longrightarrow> P x) \<Longrightarrow> filter P xs = xs"
  by (induction xs) auto

lemma set_eq_if_mset_eq: "mset xs = M \<Longrightarrow> set xs = set_mset M"
  by auto

section \<open>Multisets of rows\<close>

lemma filter_image_if:
  assumes "\<And>r. r \<in># M \<Longrightarrow> P (f r) = P r"
  shows "filter_mset P (image_mset f M) = image_mset f (filter_mset P M)"
  using assms by (induction M) auto

lemma image_mset_id_if:
  assumes "\<And>r. r \<in># M \<Longrightarrow> \<not> c r"
  shows "image_mset (\<lambda>r. if c r then f r else r) M = M"
  using assms by (induction M) auto

lemma size_le_1_unique:
  assumes "size M \<le> 1" "a \<in># M" "b \<in># M"
  shows "a = b"
proof -
  obtain N where N: "M = add_mset a N" using assms(2) by (meson mset_add)
  with assms(1) have "N = {#}" by simp
  with N assms(3) show ?thesis by simp
qed

section \<open>Configuration defaults\<close>

text \<open>
  The contract of the functions that fill in a configuration: the result is usable, and a
  usable configuration is kept as it is.
\<close>

locale defaults =
  fixes fill :: "'c \<Rightarrow> 'c"
    and usable :: "'c \<Rightarrow> bool"
  assumes fill_usable: "usable (fill c)"
    and keeps: "usable c \<Longrightarrow> fill c = c"
begin

lemma fill_idem: "fill (fill c) = fill c"
  by (rule keeps [OF fill_usable])

lemma usable_iff: "usable c \<longleftrightarrow> fill c = c"
  using fill_usable [of c] keeps [of c] by metis

end

section \<open>Taking turns\<close>

text \<open>
  The contract of a round robin: the \<open>k\<close>-th turn takes the element at position \<open>k\<close>, modulo
  their number, of some fixed order of the candidates.
\<close>

locale turns =
  fixes order :: "'a list \<Rightarrow> 'a list"
    and turn :: "nat \<Rightarrow> 'a list \<Rightarrow> 'a"
  assumes order: "mset (order xs) = mset xs"
    and turn: "xs \<noteq> [] \<Longrightarrow> turn k xs = order xs ! (k mod length xs)"
begin

lemma length_order: "length (order xs) = length xs"
  using order by (metis size_mset)

text \<open>As many consecutive turns as there are candidates take each of them once.\<close>

lemma round_takes_each:
  assumes "xs \<noteq> []"
  shows "mset (map (\<lambda>k. turn (s + k) xs) [0..<length xs]) = mset xs"
proof -
  have "map (\<lambda>k. turn (s + k) xs) [0..<length xs] = rotate s (order xs)"
    by (rule nth_equalityI) (simp_all add: turn [OF assms] length_order nth_rotate)
  also have "mset \<dots> = mset (order xs)"
    by (simp add: rotate_drop_take mset_drop_take)
  finally show ?thesis by (simp add: order)
qed

lemma turn_mem: "xs \<noteq> [] \<Longrightarrow> turn k xs \<in> set xs"
  by (metis length_greater_0_conv length_order mod_less_divisor nth_mem order set_mset_mset turn)

end

end
