(* ===== verification/GoText.thy ===== *)
theory GoText
  imports Prelude "HOL-Library.Word"
begin

text \<open>
  The parts of Go's \<^verbatim>\<open>strings\<close>, \<^verbatim>\<open>strconv\<close>, \<^verbatim>\<open>fmt\<close> and \<^verbatim>\<open>unicode/utf8\<close> that the
  program uses. A Go string is a sequence of bytes, so it is a \<^typ>\<open>string\<close> here and
  \<^const>\<open>length\<close> is Go's \<^verbatim>\<open>len\<close>. Letter case is mapped for ASCII bytes; every other
  byte is kept.
\<close>

section \<open>Splitting\<close>

text \<open>\<^verbatim>\<open>strings.Split\<close> with a one-byte separator.\<close>

fun split_on :: "char \<Rightarrow> string \<Rightarrow> string list" where
  "split_on c [] = [[]]"
| "split_on c (x # xs) =
     (if x = c then [] # split_on c xs
      else (case split_on c xs of [] \<Rightarrow> [[x]] | w # ws \<Rightarrow> (x # w) # ws))"

text \<open>\<^verbatim>\<open>strings.SplitN\<close> with a one-byte separator: at most \<open>n\<close> parts.\<close>

fun split_n :: "char \<Rightarrow> nat \<Rightarrow> string \<Rightarrow> string list" where
  "split_n c 0 s = []"
| "split_n c (Suc 0) s = [s]"
| "split_n c (Suc (Suc n)) s =
     (if c \<in> set s
      then takeWhile (\<lambda>x. x \<noteq> c) s # split_n c (Suc n) (tl (dropWhile (\<lambda>x. x \<noteq> c) s))
      else [s])"

lemma split_on_not_Nil [simp]: "split_on c s \<noteq> []"
  by (induction s) (auto split: list.splits)

lemma split_on_no_sep [simp]: "c \<notin> set s \<Longrightarrow> split_on c s = [s]"
  by (induction s) auto

lemma split_on_append:
  "c \<notin> set s \<Longrightarrow> split_on c (s @ c # t) = s # split_on c t"
  by (induction s) auto

lemma split_on_parts: "w \<in> set (split_on c s) \<Longrightarrow> c \<notin> set w"
  by (induction s arbitrary: w) (auto split: list.splits if_splits)

lemma split_on_chars: "w \<in> set (split_on c s) \<Longrightarrow> set w \<subseteq> set s"
proof (induction s arbitrary: w)
  case (Cons x xs)
  then show ?case
    by (cases "split_on c xs") (fastforce split: if_splits)+
qed simp

lemma split_n_append:
  assumes "c \<notin> set s"
  shows "split_n c (Suc (Suc n)) (s @ c # t) = s # split_n c (Suc n) t"
proof -
  have "takeWhile (\<lambda>x. x \<noteq> c) (s @ c # t) = s" "dropWhile (\<lambda>x. x \<noteq> c) (s @ c # t) = c # t"
    using assms by (induction s) auto
  then show ?thesis by simp
qed

lemma split_n_bound: "n > 0 \<Longrightarrow> length (split_n c n s) \<le> n"
  by (induction c n s rule: split_n.induct) auto

section \<open>Prefixes, suffixes and letter case\<close>

definition has_suffix :: "string \<Rightarrow> string \<Rightarrow> bool" where
  "has_suffix s suf \<longleftrightarrow> length suf \<le> length s \<and> drop (length s - length suf) s = suf"

definition trim_suffix :: "string \<Rightarrow> string \<Rightarrow> string" where
  "trim_suffix s suf = (if has_suffix s suf then take (length s - length suf) s else s)"

definition has_prefix :: "string \<Rightarrow> string \<Rightarrow> bool" where
  "has_prefix s pre \<longleftrightarrow> take (length pre) s = pre"

definition lower_char :: "char \<Rightarrow> char" where
  "lower_char c = (if 65 \<le> (of_char c :: nat) \<and> (of_char c :: nat) \<le> 90
                   then char_of ((of_char c :: nat) + 32) else c)"

definition upper_char :: "char \<Rightarrow> char" where
  "upper_char c = (if 97 \<le> (of_char c :: nat) \<and> (of_char c :: nat) \<le> 122
                   then char_of ((of_char c :: nat) - 32) else c)"

definition to_lower :: "string \<Rightarrow> string" where
  "to_lower s = map lower_char s"

definition to_upper :: "string \<Rightarrow> string" where
  "to_upper s = map upper_char s"

lemma length_to_lower [simp]: "length (to_lower s) = length s"
  by (simp add: to_lower_def)

lemma to_lower_append [simp]: "to_lower (s @ t) = to_lower s @ to_lower t"
  by (simp add: to_lower_def)

lemma has_suffix_append [simp]: "has_suffix (s @ t) t"
  by (simp add: has_suffix_def)

lemma trim_suffix_append [simp]: "trim_suffix (s @ t) t = s"
  by (simp add: trim_suffix_def)

lemma has_suffix_exists: "has_suffix s t \<Longrightarrow> \<exists>p. s = p @ t"
  by (metis has_suffix_def append_take_drop_id)


section \<open>Runes\<close>

text \<open>
  \<^verbatim>\<open>for _, c := range s\<close> decodes UTF-8. \<open>rune_at\<close> gives the rune at the head of a
  non-empty byte sequence and its width in bytes; an invalid or truncated sequence
  yields U+FFFD with width 1, as \<^verbatim>\<open>utf8.DecodeRune\<close> does.
\<close>

abbreviation byte :: "char \<Rightarrow> nat" where
  "byte c \<equiv> of_char c"

definition cont_byte :: "nat \<Rightarrow> bool" where
  "cont_byte b \<longleftrightarrow> 128 \<le> b \<and> b \<le> 191"

fun rune2 :: "nat \<Rightarrow> nat list \<Rightarrow> nat \<times> nat" where
  "rune2 b0 (b1 # _) = (if cont_byte b1 then ((b0 - 192) * 64 + (b1 - 128), 2) else (65533, 1))"
| "rune2 b0 _ = (65533, 1)"

fun rune3 :: "nat \<Rightarrow> nat list \<Rightarrow> nat \<times> nat" where
  "rune3 b0 (b1 # b2 # _) =
     (if (if b0 = 224 then 160 else 128) \<le> b1 \<and> b1 \<le> (if b0 = 237 then 159 else 191) \<and> cont_byte b2
      then ((b0 - 224) * 4096 + (b1 - 128) * 64 + (b2 - 128), 3) else (65533, 1))"
| "rune3 b0 _ = (65533, 1)"

fun rune4 :: "nat \<Rightarrow> nat list \<Rightarrow> nat \<times> nat" where
  "rune4 b0 (b1 # b2 # b3 # _) =
     (if (if b0 = 240 then 144 else 128) \<le> b1 \<and> b1 \<le> (if b0 = 244 then 143 else 191)
         \<and> cont_byte b2 \<and> cont_byte b3
      then ((b0 - 240) * 262144 + (b1 - 128) * 4096 + (b2 - 128) * 64 + (b3 - 128), 4)
      else (65533, 1))"
| "rune4 b0 _ = (65533, 1)"

fun rune_at :: "nat list \<Rightarrow> nat \<times> nat" where
  "rune_at [] = (65533, 0)"
| "rune_at (b0 # bs) =
    (if b0 < 128 then (b0, 1)
     else if 194 \<le> b0 \<and> b0 \<le> 223 then rune2 b0 bs
     else if 224 \<le> b0 \<and> b0 \<le> 239 then rune3 b0 bs
     else if 240 \<le> b0 \<and> b0 \<le> 244 then rune4 b0 bs
     else (65533, 1))"

lemma rune_n_append_ascii:
  assumes "c < 128"
  shows "rune2 b0 (bs @ c # ys) = rune2 b0 bs \<and> snd (rune2 b0 bs) \<le> Suc (length bs)"
    and "rune3 b0 (bs @ c # ys) = rune3 b0 bs \<and> snd (rune3 b0 bs) \<le> Suc (length bs)"
    and "rune4 b0 (bs @ c # ys) = rune4 b0 bs \<and> snd (rune4 b0 bs) \<le> Suc (length bs)"
proof -
  from assms have c: "\<not> cont_byte c" "\<not> 128 \<le> c" "\<not> 144 \<le> c" "\<not> 160 \<le> c"
    by (simp_all add: cont_byte_def)
  show "rune2 b0 (bs @ c # ys) = rune2 b0 bs \<and> snd (rune2 b0 bs) \<le> Suc (length bs)"
    using c by (cases bs) simp_all
  show "rune3 b0 (bs @ c # ys) = rune3 b0 bs \<and> snd (rune3 b0 bs) \<le> Suc (length bs)"
    using c by (cases "(b0, bs)" rule: rune3.cases; cases ys) simp_all
  show "rune4 b0 (bs @ c # ys) = rune4 b0 bs \<and> snd (rune4 b0 bs) \<le> Suc (length bs)"
    using c by (cases "(b0, bs)" rule: rune4.cases; cases ys; cases "tl ys") simp_all
qed

lemma rune_n_width_pos:
  "0 < snd (rune2 b0 bs)" "0 < snd (rune3 b0 bs)" "0 < snd (rune4 b0 bs)"
  by (cases "(b0, bs)" rule: rune2.cases, simp_all,
      cases "(b0, bs)" rule: rune3.cases, simp_all,
      cases "(b0, bs)" rule: rune4.cases, simp_all)

lemma rune2_lead: "194 \<le> b0 \<Longrightarrow> 128 \<le> fst (rune2 b0 bs)"
  by (cases "(b0, bs)" rule: rune2.cases) auto

lemma rune3_lead: "224 \<le> b0 \<Longrightarrow> 128 \<le> fst (rune3 b0 bs)"
proof (cases "(b0, bs)" rule: rune3.cases)
  case (1 b b1 b2 r)
  assume "224 \<le> b0"
  then consider "b0 = 224" | "225 \<le> b0" by linarith
  then show ?thesis using 1 by cases auto
qed auto

lemma rune4_lead: "240 \<le> b0 \<Longrightarrow> 128 \<le> fst (rune4 b0 bs)"
proof (cases "(b0, bs)" rule: rune4.cases)
  case (1 b b1 b2 b3 r)
  assume "240 \<le> b0"
  then consider "b0 = 240" | "241 \<le> b0" by linarith
  then show ?thesis using 1 by cases auto
qed auto

lemma rune_at_width_pos: "xs \<noteq> [] \<Longrightarrow> 0 < snd (rune_at xs)"
  by (cases xs) (auto simp: rune_n_width_pos)

function runes :: "nat list \<Rightarrow> nat list" where
  "runes [] = []"
| "runes (b # bs) = fst (rune_at (b # bs)) # runes (drop (snd (rune_at (b # bs))) (b # bs))"
  by pat_completeness auto
termination
proof (relation "measure length")
  fix b bs
  have "0 < snd (rune_at (b # bs))" by (rule rune_at_width_pos) simp
  then show "(drop (snd (rune_at (b # bs))) (b # bs), b # bs) \<in> measure length"
    by (auto simp del: rune_at.simps)
qed simp

definition range_runes :: "string \<Rightarrow> nat list" where
  "range_runes s = runes (map of_char s)"

text \<open>\<^verbatim>\<open>string(c)\<close> for a rune: its UTF-8 encoding (surrogates and values beyond U+10FFFF
  encode as U+FFFD).\<close>

definition encode_rune :: "nat \<Rightarrow> nat list" where
  "encode_rune r =
    (if r < 128 then [r]
     else if r < 2048 then [192 + r div 64, 128 + r mod 64]
     else if 1114111 < r \<or> (55296 \<le> r \<and> r \<le> 57343) then [239, 191, 189]
     else if r < 65536 then [224 + r div 4096, 128 + r div 64 mod 64, 128 + r mod 64]
     else [240 + r div 262144, 128 + r div 4096 mod 64, 128 + r div 64 mod 64, 128 + r mod 64])"

definition rune_string :: "nat \<Rightarrow> string" where
  "rune_string r = map char_of (encode_rune r)"

definition ascii :: "string \<Rightarrow> bool" where
  "ascii s \<longleftrightarrow> (\<forall>c \<in> set s. byte c < 128)"

text \<open>A string that decoding and re-encoding leaves as it is.\<close>

definition valid_utf8 :: "string \<Rightarrow> bool" where
  "valid_utf8 s \<longleftrightarrow> concat (map rune_string (range_runes s)) = s"

lemma runes_ascii: "(\<forall>b \<in> set bs. b < 128) \<Longrightarrow> runes bs = bs"
  by (induction bs) auto

lemma range_runes_ascii: "ascii s \<Longrightarrow> range_runes s = map of_char s"
  by (simp add: range_runes_def ascii_def runes_ascii)

lemma rune_string_ascii: "byte c < 128 \<Longrightarrow> rune_string (of_char c) = [c]"
  by (simp add: rune_string_def encode_rune_def)

lemma ascii_valid_utf8: "ascii s \<Longrightarrow> valid_utf8 s"
proof -
  assume a: "ascii s"
  then have "concat (map (rune_string \<circ> of_char) s) = s"
    by (induction s) (auto simp: ascii_def rune_string_ascii)
  with a show ?thesis
    by (simp add: valid_utf8_def range_runes_ascii)
qed

text \<open>
  An ASCII byte is never part of a longer sequence: decoding can be cut there. This is
  what makes splitting on an ASCII separator rune by rune the same as byte by byte.
\<close>

lemma rune_at_append_ascii:
  assumes "xs \<noteq> []" "c < 128"
  shows "rune_at (xs @ c # ys) = rune_at xs \<and> snd (rune_at xs) \<le> length xs"
  using assms(1) rune_n_append_ascii [OF assms(2)] by (cases xs) auto

lemma runes_append_ascii:
  assumes "c < 128"
  shows "runes (xs @ c # ys) = runes xs @ c # runes ys"
proof (induction xs rule: runes.induct)
  case 1
  from assms show ?case by simp
next
  case (2 b bs)
  let ?x = "b # bs"
  let ?n = "snd (rune_at ?x)"
  have eq: "rune_at (?x @ c # ys) = rune_at ?x" and le: "?n \<le> length ?x"
    using rune_at_append_ascii [of ?x c ys] assms by simp_all
  have "runes (?x @ c # ys) = fst (rune_at (?x @ c # ys)) # runes (drop (snd (rune_at (?x @ c # ys))) (?x @ c # ys))"
    by (simp only: append_Cons runes.simps(2))
  also have "\<dots> = fst (rune_at ?x) # runes (drop ?n (?x @ c # ys))"
    by (simp only: eq)
  also have "drop ?n (?x @ c # ys) = drop ?n ?x @ c # ys"
    unfolding drop_append using le by (simp only: diff_is_0_eq [THEN iffD2] drop_0)
  also have "runes (drop ?n ?x @ c # ys) = runes (drop ?n ?x) @ c # runes ys"
    by (rule 2)
  finally show ?case by (simp only: runes.simps(2) append_Cons)
qed

lemma range_runes_append_ascii:
  "byte c < 128 \<Longrightarrow> range_runes (s @ c # t) = range_runes s @ of_char c # range_runes t"
  by (simp add: range_runes_def runes_append_ascii)

lemma rune_at_lead:
  assumes "128 \<le> b"
  shows "128 \<le> fst (rune_at (b # bs))"
  using assms rune2_lead rune3_lead rune4_lead by auto

lemma rune_at_ascii_mem:
  "xs \<noteq> [] \<Longrightarrow> fst (rune_at xs) < 128 \<Longrightarrow> fst (rune_at xs) \<in> set xs"
proof -
  assume "xs \<noteq> []" "fst (rune_at xs) < 128"
  moreover then obtain b bs where "xs = b # bs" by (cases xs) auto
  moreover have "b < 128"
    using calculation rune_at_lead [of b bs] by (simp only: linorder_not_le [symmetric]) blast
  ultimately show ?thesis by simp
qed

lemma runes_ascii_mem: "r \<in> set (runes bs) \<Longrightarrow> r < 128 \<Longrightarrow> r \<in> set bs"
proof (induction bs rule: runes.induct)
  case (2 b bs)
  from "2.prems"(1) consider "r = fst (rune_at (b # bs))"
    | "r \<in> set (runes (drop (snd (rune_at (b # bs))) (b # bs)))"
    by (auto simp del: rune_at.simps)
  then show ?case
  proof cases
    case 1
    with "2.prems"(2) show ?thesis using rune_at_ascii_mem [of "b # bs"] by blast
  next
    case 2
    then have "r \<in> set (drop (snd (rune_at (b # bs))) (b # bs))"
      using "2.IH" "2.prems"(2) by blast
    then show ?thesis by (rule in_set_dropD)
  qed
qed simp

lemma range_runes_no_ascii:
  "byte c < 128 \<Longrightarrow> c \<notin> set s \<Longrightarrow> of_char c \<notin> set (range_runes s)"
  using runes_ascii_mem [of "of_char c" "map of_char s"]
  by (auto simp: range_runes_def)

section \<open>Numbers\<close>

text \<open>\<^verbatim>\<open>strconv.Itoa\<close> and \<^verbatim>\<open>%d\<close>: decimal digits, with a sign for negative values.\<close>

fun digits10 :: "nat \<Rightarrow> string" where
  "digits10 n = (if n < 10 then [char_of (48 + n)] else digits10 (n div 10) @ [char_of (48 + n mod 10)])"

declare digits10.simps [simp del]

lemma digit_chars [simp]:
  "char_of (48 :: nat) = CHR ''0''" "char_of (49 :: nat) = CHR ''1''" "char_of (50 :: nat) = CHR ''2''"
  "char_of (51 :: nat) = CHR ''3''" "char_of (52 :: nat) = CHR ''4''" "char_of (53 :: nat) = CHR ''5''"
  "char_of (54 :: nat) = CHR ''6''" "char_of (55 :: nat) = CHR ''7''" "char_of (56 :: nat) = CHR ''8''"
  "char_of (57 :: nat) = CHR ''9''"
  by (simp_all add: char_of_def bit_0)

definition itoa :: "int \<Rightarrow> string" where
  "itoa i = (if i < 0 then CHR ''-'' # digits10 (nat (- i)) else digits10 (nat i))"

definition is_digit :: "char \<Rightarrow> bool" where
  "is_digit c \<longleftrightarrow> 48 \<le> byte c \<and> byte c \<le> 57"

definition digits_val :: "string \<Rightarrow> nat" where
  "digits_val s = foldl (\<lambda>n c. 10 * n + (byte c - 48)) 0 s"

text \<open>
  The value part of \<^verbatim>\<open>n, _ := strconv.Atoi(s)\<close>: 0 for a string that is not a number, the
  nearest bound for one out of the range of a 64-bit \<^verbatim>\<open>int\<close>.
\<close>

definition int64_max :: int where "int64_max = 9223372036854775807"
definition int64_min :: int where "int64_min = - 9223372036854775808"

text \<open>Go's 64-bit \<^verbatim>\<open>int\<close> arithmetic wraps around.\<close>

definition int64 :: "int \<Rightarrow> int" where
  "int64 x = sint (word_of_int x :: 64 word)"

lemma int64_id: "int64_min \<le> x \<Longrightarrow> x \<le> int64_max \<Longrightarrow> int64 x = x"
  by (simp add: int64_def int64_min_def int64_max_def signed_take_bit_int_eq_self sint_sbintrunc')

definition clamp64 :: "int \<Rightarrow> int" where
  "clamp64 i = max int64_min (min int64_max i)"

definition atoi :: "string \<Rightarrow> int" where
  "atoi s =
    (case s of
       [] \<Rightarrow> 0
     | c # cs \<Rightarrow>
       (let neg = (c = CHR ''-''); ds = (if c = CHR ''-'' \<or> c = CHR ''+'' then cs else s)
        in if ds = [] \<or> \<not> list_all is_digit ds then 0
           else clamp64 (if neg then - int (digits_val ds) else int (digits_val ds))))"

text \<open>The value part of \<^verbatim>\<open>strconv.ParseUint(s, 10, 64)\<close>.\<close>

definition parse_uint64 :: "string \<Rightarrow> nat" where
  "parse_uint64 s = (if s = [] \<or> \<not> list_all is_digit s then 0
                     else min (digits_val s) 18446744073709551615)"

text \<open>The value part of \<^verbatim>\<open>strconv.ParseBool\<close>.\<close>

definition parse_bool :: "string \<Rightarrow> bool" where
  "parse_bool s \<longleftrightarrow> s \<in> {''1'', ''t'', ''T'', ''true'', ''TRUE'', ''True''}"

lemma atoi_range: "int64_min \<le> atoi s \<and> atoi s \<le> int64_max"
  by (auto simp: atoi_def clamp64_def int64_min_def int64_max_def Let_def split: list.splits)

lemma byte_char_of_digit: "n < 10 \<Longrightarrow> byte (char_of (48 + n)) = 48 + n"
  by simp

lemma digits10_digit: "c \<in> set (digits10 n) \<Longrightarrow> is_digit c"
proof (induction n rule: digits10.induct)
  case (1 n)
  then show ?case
    by (subst (asm) digits10.simps) (auto simp: is_digit_def split: if_splits)
qed

lemma digits10_not_Nil [simp]: "digits10 n \<noteq> []"
  by (subst digits10.simps) simp

lemma digits_val_snoc: "digits_val (s @ [c]) = 10 * digits_val s + (byte c - 48)"
  by (simp add: digits_val_def)

lemma digits_val_digits10 [simp]: "digits_val (digits10 n) = n"
proof (induction n rule: digits10.induct)
  case (1 n)
  show ?case
  proof (cases "n < 10")
    case True
    then show ?thesis by (subst digits10.simps) (simp add: digits_val_def)
  next
    case False
    with 1 have "digits_val (digits10 (n div 10)) = n div 10" by simp
    with False show ?thesis
      by (subst digits10.simps) (simp add: digits_val_snoc)
  qed
qed

lemma digits10_inj: "digits10 m = digits10 n \<longleftrightarrow> m = n"
  by (metis digits_val_digits10)

lemma itoa_inj: "itoa i = itoa j \<Longrightarrow> i = j"
proof -
  have nd: "CHR ''-'' \<notin> set (digits10 n)" for n
    using digits10_digit [of "CHR ''-''" n] by (auto simp: is_digit_def)
  have head: "CHR ''-'' # s \<noteq> digits10 n" "digits10 n \<noteq> CHR ''-'' # s" for s n
    using nd [of n] by (metis list.set_intros(1))+
  assume "itoa i = itoa j"
  then have "(i < 0) = (j < 0) \<and> (i < 0 \<longrightarrow> nat (- i) = nat (- j)) \<and> (0 \<le> i \<longrightarrow> nat i = nat j)"
    using head by (simp add: itoa_def digits10_inj split: if_splits)
  then show ?thesis by auto
qed

lemma atoi_itoa:
  assumes "int64_min \<le> i" "i \<le> int64_max"
  shows "atoi (itoa i) = i"
proof -
  have all: "list_all is_digit (digits10 n)" for n
    using digits10_digit by (auto simp: list_all_iff)
  obtain d ds where d: "digits10 (nat i) = d # ds" by (cases "digits10 (nat i)") auto
  have "is_digit d" using all [of "nat i"] d by simp
  then have "d \<noteq> CHR ''-''" "d \<noteq> CHR ''+''" by (auto simp: is_digit_def)
  moreover have "digits_val (d # ds) = nat i" using digits_val_digits10 [of "nat i"] d by simp
  ultimately show ?thesis
    using all [of "nat i"] all [of "nat (- i)"] assms d
    by (auto simp: atoi_def itoa_def clamp64_def Let_def)
qed

section \<open>White space\<close>

text \<open>
  \<^verbatim>\<open>strings.TrimSpace\<close>: the runes that \<^verbatim>\<open>unicode.IsSpace\<close> accepts, as the bytes that encode
  them, are taken off at both ends for as long as there is one.
\<close>

definition is_space :: "char \<Rightarrow> bool" where
  "is_space c \<longleftrightarrow> byte c \<in> {9, 10, 11, 12, 13, 32}"

definition space_runes :: "nat list" where
  "space_runes = [9, 10, 11, 12, 13, 32, 133, 160, 5760, 8192, 8193, 8194, 8195, 8196, 8197, 8198, 8199, 8200,
     8201, 8202, 8232, 8233, 8239, 8287, 12288]"

definition spaces :: "string list" where
  "spaces = map rune_string space_runes"

definition starts_with :: "string list \<Rightarrow> string \<Rightarrow> string option" where
  "starts_with ws s = List.find (\<lambda>w. w \<noteq> [] \<and> take (length w) s = w) ws"

lemma starts_with_Some:
  assumes "starts_with ws s = Some w"
  shows "w \<in> set ws \<and> w \<noteq> [] \<and> take (length w) s = w \<and> s \<noteq> []"
proof -
  from assms have "w \<in> set ws" "w \<noteq> [] \<and> take (length w) s = w"
    by (auto simp: starts_with_def find_Some_iff)
  then show ?thesis by auto
qed

function strip_by :: "string list \<Rightarrow> string \<Rightarrow> string" where
  "strip_by ws s = (case starts_with ws s of None \<Rightarrow> s | Some w \<Rightarrow> strip_by ws (drop (length w) s))"
  by pat_completeness auto
termination
proof (relation "measure (\<lambda>(ws, s). length s)")
  fix ws s w
  assume "starts_with ws s = Some w"
  then have "w \<noteq> []" "s \<noteq> []" using starts_with_Some by blast+
  then show "((ws, drop (length w) s), ws, s) \<in> measure (\<lambda>(ws, s). length s)" by simp
qed simp

declare strip_by.simps [simp del]

definition trim_space :: "string \<Rightarrow> string" where
  "trim_space s = rev (strip_by (map rev spaces) (rev (strip_by spaces s)))"

lemma strip_by_suffix: "\<exists>p. s = p @ strip_by ws s"
proof (induction ws s rule: strip_by.induct)
  case (1 ws s)
  show ?case
  proof (cases "starts_with ws s")
    case (Some w)
    then obtain p where "drop (length w) s = p @ strip_by ws (drop (length w) s)" using 1 by blast
    then have "s = (take (length w) s @ p) @ strip_by ws s"
      using Some by (subst strip_by.simps) (metis append.assoc append_take_drop_id option.simps(5))
    then show ?thesis by blast
  qed (simp add: strip_by.simps)
qed

lemma strip_by_stops: "starts_with ws (strip_by ws s) = None"
proof (induction ws s rule: strip_by.induct)
  case (1 ws s)
  then show ?case by (subst strip_by.simps) (auto split: option.split)
qed

lemma strip_by_id: "starts_with ws s = None \<Longrightarrow> strip_by ws s = s"
  by (simp add: strip_by.simps)

lemma starts_with_take:
  assumes "starts_with ws (s @ t) = None"
  shows "starts_with ws s = None"
proof (rule ccontr)
  assume "starts_with ws s \<noteq> None"
  then obtain w where w: "w \<in> set ws" "w \<noteq> []" "take (length w) s = w" using starts_with_Some by blast
  from w(3) have "length w \<le> length s" by (metis length_take min.cobounded1)
  with w(3) have "take (length w) (s @ t) = w" by simp
  with w(1,2) assms show False by (auto simp: starts_with_def find_None_iff)
qed

lemma set_trim_space: "set (trim_space s) \<subseteq> set s"
proof -
  obtain p where "s = p @ strip_by spaces s" using strip_by_suffix by blast
  moreover obtain q where "rev (strip_by spaces s) = q @ strip_by (map rev spaces) (rev (strip_by spaces s))"
    using strip_by_suffix by blast
  ultimately show ?thesis unfolding trim_space_def
    by (metis Un_iff set_append set_rev subsetI)
qed

lemma trim_space_fixed: "starts_with spaces s = None \<Longrightarrow> starts_with (map rev spaces) (rev s) = None \<Longrightarrow> trim_space s = s"
  by (simp add: trim_space_def strip_by_id)

lemma trim_space_idem [simp]: "trim_space (trim_space s) = trim_space s"
proof (rule trim_space_fixed)
  obtain q where q: "rev (strip_by spaces s) = q @ strip_by (map rev spaces) (rev (strip_by spaces s))"
    using strip_by_suffix by blast
  then have "strip_by spaces s = trim_space s @ rev q" unfolding trim_space_def by (metis rev_append rev_rev_ident)
  then show "starts_with spaces (trim_space s) = None" using strip_by_stops [of spaces s] starts_with_take by metis
  show "starts_with (map rev spaces) (rev (trim_space s)) = None"
    by (simp add: trim_space_def strip_by_stops)
qed

lemma spaces_ends:
  assumes "w \<in> set spaces"
  shows "w \<noteq> []" "byte (hd w) < 128 \<Longrightarrow> is_space (hd w)" "byte (last w) < 128 \<Longrightarrow> is_space (last w)"
  using assms by (auto simp: spaces_def space_runes_def rune_string_def encode_rune_def is_space_def)

lemma trim_space_id:
  assumes "s \<noteq> []" "byte (hd s) < 128" "\<not> is_space (hd s)" "byte (last s) < 128" "\<not> is_space (last s)"
  shows "trim_space s = s"
proof (rule trim_space_fixed)
  show "starts_with spaces s = None"
  proof (rule ccontr)
    assume "starts_with spaces s \<noteq> None"
    then obtain w where w: "w \<in> set spaces" "w \<noteq> []" "take (length w) s = w" using starts_with_Some by blast
    then have "hd w = hd s" by (metis hd_take length_greater_0_conv)
    then show False using assms spaces_ends [OF w(1)] by simp
  qed
  show "starts_with (map rev spaces) (rev s) = None"
  proof (rule ccontr)
    assume "starts_with (map rev spaces) (rev s) \<noteq> None"
    then obtain w where w: "w \<in> set spaces" "w \<noteq> []" "take (length w) (rev s) = rev w"
      using starts_with_Some [of "map rev spaces" "rev s"] by fastforce
    then have "hd (rev w) = hd (rev s)" by (metis hd_take length_greater_0_conv rev_is_Nil_conv)
    then have "last w = last s" by (simp add: hd_rev)
    then show False using assms spaces_ends [OF w(1)] by simp
  qed
qed

end
