(* ===== verification/GoFloat.thy ===== *)
theory GoFloat
  imports Prelude "HOL-Library.Log_Nat"
begin

text \<open>
  Go's \<^verbatim>\<open>float64\<close>, as far as the instance weights use it: comparison, addition and
  multiplication with IEEE 754 rounding to nearest even. A finite value is the rational it
  denotes (the sign of zero is not kept: no comparison or sum in the program sees it);
  NaN compares false with everything, as the program's \<^verbatim>\<open><\<close>, \<^verbatim>\<open><=\<close> and \<^verbatim>\<open>></\<close> tests observe.
\<close>

datatype f64 = NaN | PInf | NInf | Fin rat

definition pow2 :: "int \<Rightarrow> rat" where
  "pow2 e = (if 0 \<le> e then 2 ^ nat e else 1 / 2 ^ nat (- e))"

text \<open>The exponent of the leading bit of a positive rational.\<close>

definition lead_exp :: "rat \<Rightarrow> int" where
  "lead_exp x = (let (p, q) = quotient_of x; d = bitlen p - bitlen q
                 in if pow2 d \<le> x then d else d - 1)"

definition round_even :: "rat \<Rightarrow> int" where
  "round_even x = (let f = \<lfloor>x\<rfloor>; d = x - of_int f
                   in if d < 1/2 then f else if 1/2 < d then f + 1 else if even f then f else f + 1)"

definition f64_round :: "rat \<Rightarrow> f64" where
  "f64_round x =
     (if x = 0 then Fin 0
      else let e = max (lead_exp \<bar>x\<bar> - 52) (- 1074);
               v = of_int (round_even (x / pow2 e)) * pow2 e
           in if pow2 1024 \<le> v then PInf else if v \<le> - pow2 1024 then NInf else Fin v)"

instantiation f64 :: "{ord, zero, one, plus, times}"
begin

definition zero_f64 :: f64 where "0 = Fin 0"

definition one_f64 :: f64 where "1 = Fin 1"

definition less_f64 :: "f64 \<Rightarrow> f64 \<Rightarrow> bool" where
  "a < b =
    (case (a, b) of
       (Fin x, Fin y) \<Rightarrow> x < y
     | (NInf, Fin _) \<Rightarrow> True | (NInf, PInf) \<Rightarrow> True | (Fin _, PInf) \<Rightarrow> True
     | _ \<Rightarrow> False)"

definition less_eq_f64 :: "f64 \<Rightarrow> f64 \<Rightarrow> bool" where
  "a \<le> b = (a < b \<or> (a = b \<and> a \<noteq> NaN))"

definition plus_f64 :: "f64 \<Rightarrow> f64 \<Rightarrow> f64" where
  "a + b =
    (case (a, b) of
       (NaN, _) \<Rightarrow> NaN | (_, NaN) \<Rightarrow> NaN
     | (PInf, NInf) \<Rightarrow> NaN | (NInf, PInf) \<Rightarrow> NaN
     | (PInf, _) \<Rightarrow> PInf | (_, PInf) \<Rightarrow> PInf
     | (NInf, _) \<Rightarrow> NInf | (_, NInf) \<Rightarrow> NInf
     | (Fin x, Fin y) \<Rightarrow> f64_round (x + y))"

definition times_f64 :: "f64 \<Rightarrow> f64 \<Rightarrow> f64" where
  "a * b =
    (case (a, b) of
       (NaN, _) \<Rightarrow> NaN | (_, NaN) \<Rightarrow> NaN
     | (Fin x, Fin y) \<Rightarrow> f64_round (x * y)
     | (Fin x, s) \<Rightarrow> if x = 0 then NaN else if (0 < x) = (s = PInf) then PInf else NInf
     | (s, Fin y) \<Rightarrow> if y = 0 then NaN else if (0 < y) = (s = PInf) then PInf else NInf
     | (s, t) \<Rightarrow> if s = t then PInf else NInf)"

instance ..

end

lemmas f64_defs = zero_f64_def one_f64_def less_f64_def less_eq_f64_def plus_f64_def times_f64_def

section \<open>Comparison\<close>

lemma f64_less_irrefl [simp]: "\<not> (a :: f64) < a"
  by (cases a) (simp_all add: less_f64_def)

lemma f64_less_trans: "(a :: f64) < b \<Longrightarrow> b < c \<Longrightarrow> a < c"
  by (cases a; cases b; cases c) (simp_all add: less_f64_def)

lemma f64_less_asym: "(a :: f64) < b \<Longrightarrow> \<not> b < a"
  by (cases a; cases b) (simp_all add: less_f64_def)

lemma f64_not_NaN_total:
  "a \<noteq> NaN \<Longrightarrow> b \<noteq> NaN \<Longrightarrow> a \<noteq> b \<Longrightarrow> (a :: f64) < b \<or> b < a"
  by (cases a; cases b) (auto simp: less_f64_def)

lemma f64_not_less: "a \<noteq> NaN \<Longrightarrow> b \<noteq> NaN \<Longrightarrow> \<not> (a :: f64) < b \<longleftrightarrow> b \<le> a"
  using f64_not_NaN_total [of a b] f64_less_asym [of b a] by (auto simp: less_eq_f64_def)

lemma f64_le_trans: "(a :: f64) \<le> b \<Longrightarrow> b \<le> c \<Longrightarrow> a \<le> c"
  using f64_less_trans [of a b c] by (auto simp: less_eq_f64_def)

lemma f64_less_not_NaN: "(a :: f64) < b \<Longrightarrow> a \<noteq> NaN \<and> b \<noteq> NaN"
  by (cases a; cases b) (simp_all add: less_f64_def)

lemma f64_NaN_compare [simp]: "\<not> NaN < a" "\<not> a < NaN" "\<not> NaN \<le> a" "\<not> a \<le> NaN"
  by (cases a; simp add: less_f64_def less_eq_f64_def)+

lemma f64_Fin_compare [simp]: "Fin x < Fin y \<longleftrightarrow> x < y" "Fin x \<le> Fin y \<longleftrightarrow> x \<le> y"
  by (auto simp: less_f64_def less_eq_f64_def)

section \<open>Rounding of small integers\<close>

lemma pow2_pos [simp]: "0 < pow2 e"
  by (simp add: pow2_def)

lemma round_even_of_int [simp]: "round_even (of_int n) = n"
  by (simp add: round_even_def Let_def)

lemma lead_exp_of_int:
  assumes "0 < n" "n < 2 ^ 53"
  shows "lead_exp (of_int n) \<le> 52"
proof -
  have "bitlen n \<le> 53" using assms bitlen_le_iff_power [of n 53] by simp
  moreover have "bitlen 1 = 1" by (simp add: bitlen_def compute_floorlog)
  ultimately show ?thesis by (auto simp: lead_exp_def Let_def quotient_of_int)
qed

lemma f64_round_of_int:
  assumes "\<bar>n\<bar> < 2 ^ 53"
  shows "f64_round (of_int n) = Fin (of_int n)"
proof (cases "n = 0")
  case False
  define e where "e = max (lead_exp \<bar>of_int n\<bar> - 52) (- 1074)"
  have "lead_exp (of_int \<bar>n\<bar>) \<le> 52" using lead_exp_of_int [of "\<bar>n\<bar>"] assms False by simp
  then have e: "e \<le> 0" by (simp add: e_def)
  then have "of_int n / pow2 e = (of_int (n * 2 ^ nat (- e)) :: rat)"
    by (cases "e = 0") (simp_all add: pow2_def)
  then have v: "of_int (round_even (of_int n / pow2 e)) * pow2 e = (of_int n :: rat)"
    by (metis round_even_of_int nonzero_mult_div_cancel_right pow2_pos less_irrefl times_divide_eq_left)
  have b: "\<bar>of_int n :: rat\<bar> < pow2 1024"
  proof -
    have "\<bar>of_int n :: rat\<bar> < 2 ^ 53" using assms by (metis of_int_abs of_int_less_iff of_int_numeral of_int_power)
    also have "(2 :: rat) ^ 53 \<le> 2 ^ 1024" by (rule power_increasing) simp_all
    finally show ?thesis by (simp add: pow2_def)
  qed
  show ?thesis
    using False b v by (auto simp: f64_round_def Let_def e_def [symmetric])
qed (simp add: f64_round_def)

lemma f64_add_int:
  "\<bar>m + n\<bar> < 2 ^ 53 \<Longrightarrow> Fin (of_int m) + Fin (of_int n) = Fin (of_int (m + n))"
  using f64_round_of_int [of "m + n"] by (simp add: plus_f64_def)

lemma f64_add_numeral:
  "(numeral m + numeral n :: int) < 2 ^ 53 \<Longrightarrow> Fin (numeral m) + Fin (numeral n) = Fin (numeral m + numeral n)"
  using f64_add_int [of "numeral m" "numeral n"] by simp

lemma f64_add_small [simp]:
  "Fin 0 + Fin 0 = Fin 0" "Fin 0 + Fin 1 = Fin 1" "Fin 1 + Fin 1 = Fin 2"
  "\<bar>numeral n :: int\<bar> < 2 ^ 53 \<Longrightarrow> Fin 0 + Fin (numeral n) = Fin (numeral n)"
  using f64_add_int [of 0 0] f64_add_int [of 0 1] f64_add_int [of 1 1] f64_add_int [of 0 "numeral n"]
  by simp_all

end
