(* ===== verification/Model.thy ===== *)
theory Model
  imports GoText GoFloat
begin

text \<open>
  The persistent data of the registry: the structs of \<^verbatim>\<open>src/pkg/model\<close> as records with the
  source's fields, the constants they use, and, for every struct, what its gorm tags say:
  the values substituted for zero fields on insertion (\<^verbatim>\<open>default:\<close>), the time stamps
  (\<^verbatim>\<open>autoCreateTime\<close>, \<^verbatim>\<open>autoUpdateTime\<close>) and the primary key. Times are integers in the
  resolution of the database columns (milliseconds), with 0 for Go's zero time.
\<close>

section \<open>Structs\<close>

record ServiceInstance =
  siID :: nat
  siNamespaceID :: string
  siGroupName :: string
  siServiceName :: string
  siClusterName :: string
  siIP :: string
  siPort :: int
  siWeight :: f64
  siHealthy :: bool
  siEnabled :: bool
  siEphemeral :: bool
  siMetadata :: string
  siLastBeat :: int
  siCreatedAt :: int
  siUpdatedAt :: int

record Service =
  svID :: nat
  svNamespaceID :: string
  svGroupName :: string
  svServiceName :: string
  svProtectThreshold :: f64
  svMetadata :: string
  svHealthCheckType :: string
  svHealthCheckProto :: string
  svHealthCheckPath :: string
  svHealthCheckPort :: int
  svActiveInterval :: int
  svPassiveWindow :: int
  svPassiveThreshold :: int
  svCreatedAt :: int
  svUpdatedAt :: int

record ConfigItem =
  ciID :: nat
  ciNamespaceID :: string
  ciGroupName :: string
  ciDataID :: string
  ciContent :: string
  ciMD5 :: string
  ciType :: string
  ciCreatedAt :: int
  ciUpdatedAt :: int

record ConfigHistory =
  chID :: nat
  chNamespaceID :: string
  chGroupName :: string
  chDataID :: string
  chContent :: string
  chMD5 :: string
  chOpType :: string
  chCreatedAt :: int

record Namespace =
  nsID :: string
  nsName :: string
  nsDescription :: string
  nsCreatedAt :: int
  nsUpdatedAt :: int

record ClusterNode =
  cnID :: nat
  cnAddress :: string
  cnState :: string
  cnLastBeat :: int
  cnCreatedAt :: int
  cnUpdatedAt :: int

section \<open>Constants\<close>

definition HealthCheckNone :: string where "HealthCheckNone = ''NONE''"
definition HealthCheckActive :: string where "HealthCheckActive = ''ACTIVE''"
definition HealthCheckPassive :: string where "HealthCheckPassive = ''PASSIVE''"
definition HealthCheckBoth :: string where "HealthCheckBoth = ''BOTH''"
definition HealthProtoTCP :: string where "HealthProtoTCP = ''TCP''"
definition HealthProtoHTTP :: string where "HealthProtoHTTP = ''HTTP''"
definition NodeStateUp :: string where "NodeStateUp = ''UP''"
definition NodeStateDown :: string where "NodeStateDown = ''DOWN''"

lemmas model_constants =
  HealthCheckNone_def HealthCheckActive_def HealthCheckPassive_def HealthCheckBoth_def
  HealthProtoTCP_def HealthProtoHTTP_def NodeStateUp_def NodeStateDown_def

lemma node_states_distinct [simp]: "NodeStateUp \<noteq> NodeStateDown" "NodeStateDown \<noteq> NodeStateUp"
  by (simp_all add: model_constants)

section \<open>Keys\<close>

definition InstanceKey :: "ServiceInstance \<Rightarrow> string" where
  "InstanceKey s =
     siNamespaceID s @ ''#'' @ siGroupName s @ ''#'' @ siServiceName s @ ''#'' @ siClusterName s
     @ ''#'' @ siIP s @ '':'' @ itoa (siPort s)"

text \<open>The zero struct, Go's \<^verbatim>\<open>ServiceInstance{}\<close>; likewise for the other structs.\<close>

definition zero_inst :: ServiceInstance where
  "zero_inst = \<lparr>siID = 0, siNamespaceID = [], siGroupName = [], siServiceName = [],
     siClusterName = [], siIP = [], siPort = 0, siWeight = 0, siHealthy = False,
     siEnabled = False, siEphemeral = False, siMetadata = [], siLastBeat = 0,
     siCreatedAt = 0, siUpdatedAt = 0\<rparr>"

definition zero_svc :: Service where
  "zero_svc = \<lparr>svID = 0, svNamespaceID = [], svGroupName = [], svServiceName = [],
     svProtectThreshold = 0, svMetadata = [], svHealthCheckType = [], svHealthCheckProto = [],
     svHealthCheckPath = [], svHealthCheckPort = 0, svActiveInterval = 0, svPassiveWindow = 0,
     svPassiveThreshold = 0, svCreatedAt = 0, svUpdatedAt = 0\<rparr>"

section \<open>What the gorm tags say\<close>

record 'r schema =
  sc_id :: "'r \<Rightarrow> nat"
  sc_set_id :: "nat \<Rightarrow> 'r \<Rightarrow> 'r"
  sc_defaults :: "'r \<Rightarrow> 'r"
  sc_stamp :: "int \<Rightarrow> 'r \<Rightarrow> 'r"
  sc_touch :: "int \<Rightarrow> 'r \<Rightarrow> 'r"

definition or_else :: "string \<Rightarrow> string \<Rightarrow> string" where
  "or_else v d = (if v = [] then d else v)"

definition or_int :: "int \<Rightarrow> int \<Rightarrow> int" where
  "or_int v d = (if v = 0 then d else v)"

lemma or_else_simps [simp]: "or_else [] d = d" "v \<noteq> [] \<Longrightarrow> or_else v d = v"
  by (simp_all add: or_else_def)

lemma or_else_idem [simp]: "or_else (or_else v d) d = or_else v d"
  by (simp add: or_else_def)

lemma or_else_not_Nil [simp]: "d \<noteq> [] \<Longrightarrow> or_else v d \<noteq> []"
  by (simp add: or_else_def)

definition inst_tag_defaults :: "ServiceInstance \<Rightarrow> ServiceInstance" where
  "inst_tag_defaults r = r\<lparr>
     siNamespaceID := or_else (siNamespaceID r) ''public'',
     siGroupName := or_else (siGroupName r) ''DEFAULT_GROUP'',
     siClusterName := or_else (siClusterName r) ''DEFAULT'',
     siWeight := (if siWeight r = 0 then 1 else siWeight r),
     siHealthy := True, siEnabled := True, siEphemeral := True\<rparr>"

definition inst_schema :: "ServiceInstance schema" where
  "inst_schema = \<lparr>sc_id = siID, sc_set_id = (\<lambda>i r. r\<lparr>siID := i\<rparr>),
     sc_defaults = inst_tag_defaults,
     sc_stamp = (\<lambda>t r. r\<lparr>siCreatedAt := or_int (siCreatedAt r) t, siUpdatedAt := or_int (siUpdatedAt r) t\<rparr>),
     sc_touch = (\<lambda>t r. r\<lparr>siUpdatedAt := t\<rparr>)\<rparr>"

definition svc_tag_defaults :: "Service \<Rightarrow> Service" where
  "svc_tag_defaults r = r\<lparr>
     svNamespaceID := or_else (svNamespaceID r) ''public'',
     svGroupName := or_else (svGroupName r) ''DEFAULT_GROUP'',
     svHealthCheckType := or_else (svHealthCheckType r) ''ACTIVE'',
     svHealthCheckProto := or_else (svHealthCheckProto r) ''TCP'',
     svActiveInterval := or_int (svActiveInterval r) 5,
     svPassiveWindow := or_int (svPassiveWindow r) 60,
     svPassiveThreshold := or_int (svPassiveThreshold r) 5\<rparr>"

definition svc_schema :: "Service schema" where
  "svc_schema = \<lparr>sc_id = svID, sc_set_id = (\<lambda>i r. r\<lparr>svID := i\<rparr>),
     sc_defaults = svc_tag_defaults,
     sc_stamp = (\<lambda>t r. r\<lparr>svCreatedAt := or_int (svCreatedAt r) t, svUpdatedAt := or_int (svUpdatedAt r) t\<rparr>),
     sc_touch = (\<lambda>t r. r\<lparr>svUpdatedAt := t\<rparr>)\<rparr>"

definition cfg_tag_defaults :: "ConfigItem \<Rightarrow> ConfigItem" where
  "cfg_tag_defaults r = r\<lparr>
     ciNamespaceID := or_else (ciNamespaceID r) ''public'',
     ciGroupName := or_else (ciGroupName r) ''DEFAULT_GROUP'',
     ciType := or_else (ciType r) ''text''\<rparr>"

definition cfg_schema :: "ConfigItem schema" where
  "cfg_schema = \<lparr>sc_id = ciID, sc_set_id = (\<lambda>i r. r\<lparr>ciID := i\<rparr>),
     sc_defaults = cfg_tag_defaults,
     sc_stamp = (\<lambda>t r. r\<lparr>ciCreatedAt := or_int (ciCreatedAt r) t, ciUpdatedAt := or_int (ciUpdatedAt r) t\<rparr>),
     sc_touch = (\<lambda>t r. r\<lparr>ciUpdatedAt := t\<rparr>)\<rparr>"

definition hist_tag_defaults :: "ConfigHistory \<Rightarrow> ConfigHistory" where
  "hist_tag_defaults r = r\<lparr>
     chNamespaceID := or_else (chNamespaceID r) ''public'',
     chGroupName := or_else (chGroupName r) ''DEFAULT_GROUP'',
     chOpType := or_else (chOpType r) ''U''\<rparr>"

definition hist_schema :: "ConfigHistory schema" where
  "hist_schema = \<lparr>sc_id = chID, sc_set_id = (\<lambda>i r. r\<lparr>chID := i\<rparr>),
     sc_defaults = hist_tag_defaults,
     sc_stamp = (\<lambda>t r. r\<lparr>chCreatedAt := or_int (chCreatedAt r) t\<rparr>),
     sc_touch = (\<lambda>t r. r)\<rparr>"

text \<open>A namespace has its string id as primary key; nothing is generated for it.\<close>

definition ns_schema :: "Namespace schema" where
  "ns_schema = \<lparr>sc_id = (\<lambda>_. 0), sc_set_id = (\<lambda>_ r. r), sc_defaults = (\<lambda>r. r),
     sc_stamp = (\<lambda>t r. r\<lparr>nsCreatedAt := or_int (nsCreatedAt r) t, nsUpdatedAt := or_int (nsUpdatedAt r) t\<rparr>),
     sc_touch = (\<lambda>t r. r\<lparr>nsUpdatedAt := t\<rparr>)\<rparr>"

definition node_tag_defaults :: "ClusterNode \<Rightarrow> ClusterNode" where
  "node_tag_defaults r = r\<lparr>cnState := or_else (cnState r) NodeStateUp\<rparr>"

definition node_schema :: "ClusterNode schema" where
  "node_schema = \<lparr>sc_id = cnID, sc_set_id = (\<lambda>i r. r\<lparr>cnID := i\<rparr>),
     sc_defaults = node_tag_defaults,
     sc_stamp = (\<lambda>t r. r\<lparr>cnCreatedAt := or_int (cnCreatedAt r) t, cnUpdatedAt := or_int (cnUpdatedAt r) t\<rparr>),
     sc_touch = (\<lambda>t r. r\<lparr>cnUpdatedAt := t\<rparr>)\<rparr>"

text \<open>Each schema by its fields; the definitions stay folded.\<close>

lemma inst_schema_simps [simp]:
  "sc_id inst_schema = siID"
  "sc_set_id inst_schema n r = r\<lparr>siID := n\<rparr>"
  "sc_defaults inst_schema = inst_tag_defaults"
  "sc_stamp inst_schema t r = r\<lparr>siCreatedAt := or_int (siCreatedAt r) t, siUpdatedAt := or_int (siUpdatedAt r) t\<rparr>"
  "sc_touch inst_schema t r = r\<lparr>siUpdatedAt := t\<rparr>"
  by (simp_all add: inst_schema_def)

lemma svc_schema_simps [simp]:
  "sc_id svc_schema = svID"
  "sc_set_id svc_schema n r = r\<lparr>svID := n\<rparr>"
  "sc_defaults svc_schema = svc_tag_defaults"
  "sc_stamp svc_schema t r = r\<lparr>svCreatedAt := or_int (svCreatedAt r) t, svUpdatedAt := or_int (svUpdatedAt r) t\<rparr>"
  "sc_touch svc_schema t r = r\<lparr>svUpdatedAt := t\<rparr>"
  by (simp_all add: svc_schema_def)

lemma cfg_schema_simps [simp]:
  "sc_id cfg_schema = ciID"
  "sc_set_id cfg_schema n r = r\<lparr>ciID := n\<rparr>"
  "sc_defaults cfg_schema = cfg_tag_defaults"
  "sc_stamp cfg_schema t r = r\<lparr>ciCreatedAt := or_int (ciCreatedAt r) t, ciUpdatedAt := or_int (ciUpdatedAt r) t\<rparr>"
  "sc_touch cfg_schema t r = r\<lparr>ciUpdatedAt := t\<rparr>"
  by (simp_all add: cfg_schema_def)

lemma hist_schema_simps [simp]:
  "sc_id hist_schema = chID"
  "sc_set_id hist_schema n r = r\<lparr>chID := n\<rparr>"
  "sc_defaults hist_schema = hist_tag_defaults"
  "sc_stamp hist_schema t r = r\<lparr>chCreatedAt := or_int (chCreatedAt r) t\<rparr>"
  "sc_touch hist_schema t r = r"
  by (simp_all add: hist_schema_def)

lemma ns_schema_simps [simp]:
  "sc_id ns_schema r = 0"
  "sc_set_id ns_schema n r = r"
  "sc_defaults ns_schema r = r"
  "sc_stamp ns_schema t r = r\<lparr>nsCreatedAt := or_int (nsCreatedAt r) t, nsUpdatedAt := or_int (nsUpdatedAt r) t\<rparr>"
  "sc_touch ns_schema t r = r\<lparr>nsUpdatedAt := t\<rparr>"
  by (simp_all add: ns_schema_def)

lemma node_schema_simps [simp]:
  "sc_id node_schema = cnID"
  "sc_set_id node_schema n r = r\<lparr>cnID := n\<rparr>"
  "sc_defaults node_schema = node_tag_defaults"
  "sc_stamp node_schema t r = r\<lparr>cnCreatedAt := or_int (cnCreatedAt r) t, cnUpdatedAt := or_int (cnUpdatedAt r) t\<rparr>"
  "sc_touch node_schema t r = r\<lparr>cnUpdatedAt := t\<rparr>"
  by (simp_all add: node_schema_def)

lemmas tag_defaults_defs =
  inst_tag_defaults_def svc_tag_defaults_def cfg_tag_defaults_def hist_tag_defaults_def
  node_tag_defaults_def

text \<open>Different instances of one service at different addresses have different keys.\<close>

lemma InstanceKey_port_inj:
  assumes "siNamespaceID a = siNamespaceID b" "siGroupName a = siGroupName b"
    "siServiceName a = siServiceName b" "siClusterName a = siClusterName b" "siIP a = siIP b"
    "InstanceKey a = InstanceKey b"
  shows "siPort a = siPort b"
  using assms itoa_inj [of "siPort a" "siPort b"] by (simp add: InstanceKey_def)

end
