(* ===== verification/Gorm.thy ===== *)
theory Gorm
  imports Model
begin

text \<open>
  The interface to the database. gorm and MySQL are not part of the repository, so a
  table is a handle: its operations are parameters (fields holding functions), together
  with the data they act on. What the program relies on is stated by \<open>gorm_table\<close>:
  documented behaviour of gorm's \<^verbatim>\<open>Find\<close>, \<^verbatim>\<open>First\<close>, \<^verbatim>\<open>Count\<close>, \<^verbatim>\<open>Create\<close>, \<^verbatim>\<open>OnConflict\<close>,
  \<^verbatim>\<open>Updates\<close> and \<^verbatim>\<open>Delete\<close> on a table. Any operation may fail; a failing one leaves the
  rows as they are. String columns are compared by the collation of the table
  (\<open>t_coll\<close>), an equivalence that need not be equality: the tables are created with
  \<^verbatim>\<open>utf8mb4_unicode_ci\<close>, which ignores case.
\<close>

datatype gerr = ErrRecordNotFound | ErrMissingWhereClause | ErrDB string

fun gerr_text :: "gerr \<Rightarrow> string" where
  "gerr_text ErrRecordNotFound = ''record not found''"
| "gerr_text ErrMissingWhereClause = ''WHERE conditions required''"
| "gerr_text (ErrDB m) = m"

text \<open>Errors of the services: one of the database, or a message made with \<^verbatim>\<open>errors.New\<close>.\<close>

datatype err = EDB gerr | EMsg string

fun err_text :: "err \<Rightarrow> string" where
  "err_text (EDB e) = gerr_text e"
| "err_text (EMsg m) = m"

definition lift_err :: "gerr + 'a \<Rightarrow> err + 'a" where
  "lift_err r = map_sum EDB id r"

lemma lift_err_simps [simp]:
  "lift_err (Inl e) = Inl (EDB e)" "lift_err (Inr x) = Inr x"
  "lift_err r = Inr x \<longleftrightarrow> r = Inr x" "lift_err r = Inl (EDB e) \<longleftrightarrow> r = Inl e"
  by (simp_all add: lift_err_def) (cases r; auto)+

text \<open>Both paged services normalise the page number and size alike; Go's 64-bit product wraps.\<close>

definition page_no :: "int \<Rightarrow> int" where "page_no n = (if n < 1 then 1 else n)"
definition page_size :: "int \<Rightarrow> int" where "page_size n = (if n < 1 then 20 else n)"

definition page_offset :: "int \<Rightarrow> int \<Rightarrow> int" where
  "page_offset pageNo pageSize = int64 ((page_no pageNo - 1) * page_size pageSize)"

record ('d, 'r) table =
  t_data :: 'd
  t_coll :: "string \<Rightarrow> string \<Rightarrow> bool"
  t_rows :: "'d \<Rightarrow> 'r multiset"
  t_find :: "('r \<Rightarrow> bool) \<Rightarrow> 'd \<Rightarrow> gerr + 'r list"
  t_page :: "('r \<Rightarrow> bool) \<Rightarrow> int \<Rightarrow> int \<Rightarrow> 'd \<Rightarrow> gerr + 'r list"
  t_page_desc :: "('r \<Rightarrow> bool) \<Rightarrow> int \<Rightarrow> int \<Rightarrow> 'd \<Rightarrow> gerr + 'r list"
  t_first :: "('r \<Rightarrow> bool) \<Rightarrow> 'd \<Rightarrow> gerr + 'r"
  t_count :: "('r \<Rightarrow> bool) \<Rightarrow> 'd \<Rightarrow> gerr + nat"
  t_insert :: "'r \<Rightarrow> 'd \<Rightarrow> gerr + 'd"
  t_upsert :: "('r \<Rightarrow> 'r \<Rightarrow> bool) \<Rightarrow> ('r \<Rightarrow> 'r \<Rightarrow> 'r) \<Rightarrow> 'r \<Rightarrow> 'd \<Rightarrow> gerr + 'd"
  t_update :: "('r \<Rightarrow> bool) option \<Rightarrow> (int \<Rightarrow> 'r \<Rightarrow> 'r) \<Rightarrow> 'd \<Rightarrow> gerr + 'd"
  t_delete :: "('r \<Rightarrow> bool) \<Rightarrow> 'd \<Rightarrow> gerr + 'd"

text \<open>
  \<open>t_upsert conf asg r\<close> is \<^verbatim>\<open>INSERT ... ON DUPLICATE KEY UPDATE\<close>: \<open>conf r\<close> recognises the
  row with the same unique key, \<open>asg old new\<close> assigns the listed columns. \<open>t_update c f\<close>
  updates the rows that satisfy \<open>c\<close>; \<open>f\<close> may use the database clock (\<^verbatim>\<open>NOW(3)\<close>); \<open>None\<close> is
  a statement without any condition.
\<close>

definition rows :: "('d, 'r) table \<Rightarrow> 'r multiset" where
  "rows T = t_rows T (t_data T)"

definition db_failure :: "gerr \<Rightarrow> bool" where
  "db_failure e \<longleftrightarrow> (\<exists>m. e = ErrDB m)"

section \<open>The operations on a handle\<close>

definition tb_find :: "('r \<Rightarrow> bool) \<Rightarrow> ('d, 'r) table \<Rightarrow> gerr + 'r list" where
  "tb_find c T = t_find T c (t_data T)"

definition tb_page :: "('r \<Rightarrow> bool) \<Rightarrow> int \<Rightarrow> int \<Rightarrow> ('d, 'r) table \<Rightarrow> gerr + 'r list" where
  "tb_page c off lmt T = t_page T c off lmt (t_data T)"

definition tb_page_desc :: "('r \<Rightarrow> bool) \<Rightarrow> int \<Rightarrow> int \<Rightarrow> ('d, 'r) table \<Rightarrow> gerr + 'r list" where
  "tb_page_desc c off lmt T = t_page_desc T c off lmt (t_data T)"

definition tb_first :: "('r \<Rightarrow> bool) \<Rightarrow> ('d, 'r) table \<Rightarrow> gerr + 'r" where
  "tb_first c T = t_first T c (t_data T)"

definition tb_count :: "('r \<Rightarrow> bool) \<Rightarrow> ('d, 'r) table \<Rightarrow> gerr + nat" where
  "tb_count c T = t_count T c (t_data T)"

definition put_data :: "('d, 'r) table \<Rightarrow> gerr + 'd \<Rightarrow> gerr + ('d, 'r) table" where
  "put_data T r = map_sum id (\<lambda>d. T\<lparr>t_data := d\<rparr>) r"

definition tb_insert :: "'r \<Rightarrow> ('d, 'r) table \<Rightarrow> gerr + ('d, 'r) table" where
  "tb_insert r T = put_data T (t_insert T r (t_data T))"

definition tb_upsert :: "('r \<Rightarrow> 'r \<Rightarrow> bool) \<Rightarrow> ('r \<Rightarrow> 'r \<Rightarrow> 'r) \<Rightarrow> 'r \<Rightarrow> ('d, 'r) table \<Rightarrow> gerr + ('d, 'r) table" where
  "tb_upsert conf asg r T = put_data T (t_upsert T conf asg r (t_data T))"

definition tb_update :: "('r \<Rightarrow> bool) option \<Rightarrow> (int \<Rightarrow> 'r \<Rightarrow> 'r) \<Rightarrow> ('d, 'r) table \<Rightarrow> gerr + ('d, 'r) table" where
  "tb_update c f T = put_data T (t_update T c f (t_data T))"

definition tb_delete :: "('r \<Rightarrow> bool) \<Rightarrow> ('d, 'r) table \<Rightarrow> gerr + ('d, 'r) table" where
  "tb_delete c T = put_data T (t_delete T c (t_data T))"

section \<open>What the program relies on\<close>

text \<open>
  A row that is inserted gets a fresh id: gorm leaves the choice to the database when the
  struct carries none (zero), and no caller in the program passes a struct with an id to an
  insertion or an upsert.
\<close>

definition upsert_effect ::
  "'r schema \<Rightarrow> ('r \<Rightarrow> 'r \<Rightarrow> bool) \<Rightarrow> ('r \<Rightarrow> 'r \<Rightarrow> 'r) \<Rightarrow> 'r \<Rightarrow> 'r multiset \<Rightarrow> 'r multiset \<Rightarrow> bool" where
  "upsert_effect sc conf asg r M M' \<longleftrightarrow>
     (\<exists>t i. let r' = sc_stamp sc t (sc_defaults sc r) in
        if \<exists>x \<in># M. conf r' x
        then M' = image_mset (\<lambda>x. if conf r' x then asg x r' else x) M
        else 0 < i \<and> i \<notin> sc_id sc ` set_mset M \<and> M' = add_mset (sc_set_id sc i r') M)"

definition update_effect ::
  "'r schema \<Rightarrow> ('r \<Rightarrow> bool) \<Rightarrow> (int \<Rightarrow> 'r \<Rightarrow> 'r) \<Rightarrow> 'r multiset \<Rightarrow> 'r multiset \<Rightarrow> bool" where
  "update_effect sc c f M M' \<longleftrightarrow>
     (\<exists>t u. M' = image_mset (\<lambda>x. if c x then sc_touch sc u (f t x) else x) M)"

definition read_laws :: "'r schema \<Rightarrow> ('d, 'r) table \<Rightarrow> bool" where
  "read_laws sc T \<longleftrightarrow>
     (\<forall>c d xs. t_find T c d = Inr xs \<longrightarrow> mset xs = filter_mset c (t_rows T d)) \<and>
     (\<forall>c d e. t_find T c d = Inl e \<longrightarrow> db_failure e) \<and>
     (\<forall>c off lmt d xs. 0 < lmt \<longrightarrow> t_page T c off lmt d = Inr xs \<longrightarrow>
        (\<exists>ys. mset ys = filter_mset c (t_rows T d) \<and> xs = take (nat lmt) (drop (nat off) ys))) \<and>
     (\<forall>c off lmt d xs. 0 < lmt \<longrightarrow> t_page_desc T c off lmt d = Inr xs \<longrightarrow>
        (\<exists>ys. mset ys = filter_mset c (t_rows T d) \<and> sorted_wrt (\<lambda>x y. sc_id sc y \<le> sc_id sc x) ys
              \<and> xs = take (nat lmt) (drop (nat off) ys))) \<and>
     (\<forall>c d r. t_first T c d = Inr r \<longrightarrow> r \<in># filter_mset c (t_rows T d)) \<and>
     (\<forall>c d e. t_first T c d = Inl e \<longrightarrow>
        e = ErrRecordNotFound \<and> filter_mset c (t_rows T d) = {#} \<or> db_failure e) \<and>
     (\<forall>c d n. t_count T c d = Inr n \<longrightarrow> n = size (filter_mset c (t_rows T d)))"

definition write_laws :: "'r schema \<Rightarrow> ('d, 'r) table \<Rightarrow> bool" where
  "write_laws sc T \<longleftrightarrow>
     (\<forall>r d d'. t_insert T r d = Inr d' \<longrightarrow>
        upsert_effect sc (\<lambda>_ _. False) (\<lambda>x _. x) r (t_rows T d) (t_rows T d')) \<and>
     (\<forall>conf asg r d d'. t_upsert T conf asg r d = Inr d' \<longrightarrow>
        upsert_effect sc conf asg r (t_rows T d) (t_rows T d')) \<and>
     (\<forall>c f d d'. t_update T (Some c) f d = Inr d' \<longrightarrow>
        update_effect sc c f (t_rows T d) (t_rows T d')) \<and>
     (\<forall>f d. t_update T None f d = Inl ErrMissingWhereClause) \<and>
     (\<forall>c d d'. t_delete T c d = Inr d' \<longrightarrow>
        t_rows T d' = filter_mset (\<lambda>x. \<not> c x) (t_rows T d))"

definition gorm_table :: "'r schema \<Rightarrow> ('d, 'r) table \<Rightarrow> bool" where
  "gorm_table sc T \<longleftrightarrow> equivp (t_coll T) \<and> read_laws sc T \<and> write_laws sc T"

lemma gorm_table_data [simp]: "gorm_table sc (T\<lparr>t_data := d\<rparr>) = gorm_table sc T"
  by (simp add: gorm_table_def read_laws_def write_laws_def)

text \<open>A database that is up: updates with a condition do not fail.\<close>

definition updates_succeed :: "('d, 'r) table \<Rightarrow> bool" where
  "updates_succeed T \<longleftrightarrow> (\<forall>c f d. is_ok (t_update T (Some c) f d))"

lemma updates_succeed_data [simp]: "updates_succeed (T\<lparr>t_data := d\<rparr>) = updates_succeed T"
  by (simp add: updates_succeed_def)

lemma put_data_Inr: "put_data T x = Inr T' \<longleftrightarrow> (\<exists>d. x = Inr d \<and> T' = T\<lparr>t_data := d\<rparr>)"
  by (cases x) (auto simp: put_data_def)

lemma put_data_Inl: "put_data T x = Inl e \<longleftrightarrow> x = Inl e"
  by (cases x) (auto simp: put_data_def)

lemma coll_refl: "gorm_table sc T \<Longrightarrow> t_coll T a a"
  by (simp add: gorm_table_def equivp_reflp)

lemma coll_sym: "gorm_table sc T \<Longrightarrow> t_coll T a b \<Longrightarrow> t_coll T b a"
  by (auto simp: gorm_table_def elim: equivp_symp)

lemma coll_trans: "gorm_table sc T \<Longrightarrow> t_coll T a b \<Longrightarrow> t_coll T b c \<Longrightarrow> t_coll T a c"
  by (auto simp: gorm_table_def elim: equivp_transp)

lemma tb_find_rows:
  "gorm_table sc T \<Longrightarrow> tb_find c T = Inr xs \<Longrightarrow> mset xs = filter_mset c (rows T)"
  by (simp add: gorm_table_def read_laws_def tb_find_def rows_def)

lemma tb_find_err: "gorm_table sc T \<Longrightarrow> tb_find c T = Inl e \<Longrightarrow> db_failure e"
  by (simp add: gorm_table_def read_laws_def tb_find_def)

lemma tb_page_rows:
  "gorm_table sc T \<Longrightarrow> 0 < lmt \<Longrightarrow> tb_page c off lmt T = Inr xs \<Longrightarrow>
   \<exists>ys. mset ys = filter_mset c (rows T) \<and> xs = take (nat lmt) (drop (nat off) ys)"
  by (simp add: gorm_table_def read_laws_def tb_page_def rows_def)

lemma tb_page_desc_rows:
  "gorm_table sc T \<Longrightarrow> 0 < lmt \<Longrightarrow> tb_page_desc c off lmt T = Inr xs \<Longrightarrow>
   \<exists>ys. mset ys = filter_mset c (rows T) \<and> sorted_wrt (\<lambda>x y. sc_id sc y \<le> sc_id sc x) ys
        \<and> xs = take (nat lmt) (drop (nat off) ys)"
  by (simp add: gorm_table_def read_laws_def tb_page_desc_def rows_def)

lemma tb_first_row: "gorm_table sc T \<Longrightarrow> tb_first c T = Inr r \<Longrightarrow> r \<in># rows T \<and> c r"
  unfolding gorm_table_def read_laws_def tb_first_def rows_def by (metis (mono_tags) count_filter_mset count_greater_zero_iff less_irrefl mem_Collect_eq set_mset_filter)

lemma tb_first_err:
  "gorm_table sc T \<Longrightarrow> tb_first c T = Inl e \<Longrightarrow> e = ErrRecordNotFound \<and> (\<forall>r \<in># rows T. \<not> c r) \<or> db_failure e"
  unfolding gorm_table_def read_laws_def tb_first_def rows_def by (metis filter_mset_eq_mempty_iff)

lemma tb_count_rows: "gorm_table sc T \<Longrightarrow> tb_count c T = Inr n \<Longrightarrow> n = size (filter_mset c (rows T))"
  by (simp add: gorm_table_def read_laws_def tb_count_def rows_def)

lemma tb_insert_rows:
  assumes "gorm_table sc T" "tb_insert r T = Inr T'"
  shows "gorm_table sc T' \<and> t_coll T' = t_coll T \<and> upsert_effect sc (\<lambda>_ _. False) (\<lambda>x _. x) r (rows T) (rows T')"
  using assms by (auto simp: tb_insert_def put_data_Inr rows_def) (simp add: gorm_table_def write_laws_def)

lemma tb_upsert_rows:
  assumes "gorm_table sc T" "tb_upsert conf asg r T = Inr T'"
  shows "gorm_table sc T' \<and> t_coll T' = t_coll T \<and> upsert_effect sc conf asg r (rows T) (rows T')"
  using assms by (auto simp: tb_upsert_def put_data_Inr rows_def) (simp add: gorm_table_def write_laws_def)

lemma tb_update_rows:
  assumes "gorm_table sc T" "tb_update (Some c) f T = Inr T'"
  shows "gorm_table sc T' \<and> t_coll T' = t_coll T \<and> update_effect sc c f (rows T) (rows T')"
  using assms by (auto simp: tb_update_def put_data_Inr rows_def) (simp add: gorm_table_def write_laws_def)

lemma tb_update_succeeds:
  assumes "updates_succeed T"
  obtains T' where "tb_update (Some c) f T = Inr T'"
  using assms unfolding updates_succeed_def is_ok_iff tb_update_def put_data_Inr by blast

lemma tb_update_keeps_up: "tb_update c f T = Inr T' \<Longrightarrow> updates_succeed T' = updates_succeed T"
  by (auto simp: tb_update_def put_data_Inr)

lemma tb_update_no_cond: "gorm_table sc T \<Longrightarrow> tb_update None f T = Inl ErrMissingWhereClause"
  by (simp add: tb_update_def put_data_Inl gorm_table_def write_laws_def)

lemma tb_delete_rows:
  assumes "gorm_table sc T" "tb_delete c T = Inr T'"
  shows "gorm_table sc T' \<and> t_coll T' = t_coll T \<and> rows T' = filter_mset (\<lambda>x. \<not> c x) (rows T)"
  using assms by (auto simp: tb_delete_def put_data_Inr rows_def) (simp add: gorm_table_def write_laws_def)

lemmas table_reads = tb_find_rows tb_first_row tb_count_rows
lemmas table_writes = tb_insert_rows tb_upsert_rows tb_update_rows tb_delete_rows

end
