(* ===== verification/Storage.thy ===== *)
theory Storage
  imports Gorm
begin

text \<open>
  The stores of \<^verbatim>\<open>src/pkg/storage\<close>: what each method asks of its table. The rows a method
  selects are a predicate on rows built from the collation of the table; the columns an
  upsert assigns are written out as record updates. Two locales state the contract of a
  store with a unique key (\<open>keyed_rows\<close>, and \<open>keyed_store\<close> where the store is read by the
  key), their lemmas are proved once, and the five stores interpret them.
\<close>

section \<open>InstanceStore\<close>

type_synonym inst_key = "string \<times> string \<times> string \<times> string \<times> string \<times> int"

definition inst_key :: "ServiceInstance \<Rightarrow> inst_key" where
  "inst_key r = (siNamespaceID r, siGroupName r, siServiceName r, siClusterName r, siIP r, siPort r)"

fun inst_where :: "(string \<Rightarrow> string \<Rightarrow> bool) \<Rightarrow> inst_key \<Rightarrow> ServiceInstance \<Rightarrow> bool" where
  "inst_where coll (ns, grp, svc, cl, ip, port) r \<longleftrightarrow>
     coll (siNamespaceID r) ns \<and> coll (siGroupName r) grp \<and> coll (siServiceName r) svc \<and>
     coll (siClusterName r) cl \<and> coll (siIP r) ip \<and> siPort r = port"

definition svc_where :: "(string \<Rightarrow> string \<Rightarrow> bool) \<Rightarrow> string \<Rightarrow> string \<Rightarrow> string \<Rightarrow> ServiceInstance \<Rightarrow> bool" where
  "svc_where coll ns grp svc r \<longleftrightarrow>
     coll (siNamespaceID r) ns \<and> coll (siGroupName r) grp \<and> coll (siServiceName r) svc"

definition inst_assign :: "ServiceInstance \<Rightarrow> ServiceInstance \<Rightarrow> ServiceInstance" where
  "inst_assign x n = x\<lparr>siWeight := siWeight n, siHealthy := siHealthy n, siEnabled := siEnabled n,
     siEphemeral := siEphemeral n, siMetadata := siMetadata n, siLastBeat := siLastBeat n,
     siUpdatedAt := siUpdatedAt n\<rparr>"

type_synonym 'd inst_table = "('d, ServiceInstance) table"

definition InstanceStore_Create :: "ServiceInstance \<Rightarrow> 'd inst_table \<Rightarrow> gerr + 'd inst_table" where
  "InstanceStore_Create inst T = tb_upsert (\<lambda>n. inst_where (t_coll T) (inst_key n)) inst_assign inst T"

definition InstanceStore_Delete :: "inst_key \<Rightarrow> 'd inst_table \<Rightarrow> gerr + 'd inst_table" where
  "InstanceStore_Delete k T = tb_delete (inst_where (t_coll T) k) T"

text \<open>
  \<^verbatim>\<open>db.Model(inst).Updates(...)\<close> selects by the primary key of \<^verbatim>\<open>inst\<close>; a zero key gives no
  condition at all.
\<close>

definition InstanceStore_Update :: "ServiceInstance \<Rightarrow> 'd inst_table \<Rightarrow> gerr + 'd inst_table" where
  "InstanceStore_Update inst T =
     tb_update (if siID inst = 0 then None else Some (\<lambda>x. siID x = siID inst))
       (\<lambda>_ x. x\<lparr>siWeight := siWeight inst, siHealthy := siHealthy inst, siEnabled := siEnabled inst,
               siMetadata := siMetadata inst, siLastBeat := siLastBeat inst\<rparr>) T"

definition InstanceStore_Get :: "inst_key \<Rightarrow> 'd inst_table \<Rightarrow> gerr + ServiceInstance" where
  "InstanceStore_Get k T = tb_first (inst_where (t_coll T) k) T"

definition InstanceStore_List :: "string \<Rightarrow> string \<Rightarrow> string \<Rightarrow> 'd inst_table \<Rightarrow> gerr + ServiceInstance list" where
  "InstanceStore_List ns grp svc T = tb_find (svc_where (t_coll T) ns grp svc) T"

definition InstanceStore_ListByClusters ::
  "string \<Rightarrow> string \<Rightarrow> string \<Rightarrow> string list \<Rightarrow> 'd inst_table \<Rightarrow> gerr + ServiceInstance list" where
  "InstanceStore_ListByClusters ns grp svc clusters T =
     tb_find (\<lambda>r. svc_where (t_coll T) ns grp svc r \<and>
                  (clusters = [] \<or> list_ex (t_coll T (siClusterName r)) clusters)) T"

definition InstanceStore_UpdateHeartbeat :: "inst_key \<Rightarrow> 'd inst_table \<Rightarrow> gerr + 'd inst_table" where
  "InstanceStore_UpdateHeartbeat k T =
     tb_update (Some (inst_where (t_coll T) k)) (\<lambda>now x. x\<lparr>siLastBeat := now\<rparr>) T"

definition InstanceStore_UpdateHealthy :: "nat \<Rightarrow> bool \<Rightarrow> 'd inst_table \<Rightarrow> gerr + 'd inst_table" where
  "InstanceStore_UpdateHealthy i h T =
     tb_update (Some (\<lambda>x. siID x = i)) (\<lambda>_ x. x\<lparr>siHealthy := h\<rparr>) T"

definition InstanceStore_ListAll :: "'d inst_table \<Rightarrow> gerr + ServiceInstance list" where
  "InstanceStore_ListAll T = tb_find (\<lambda>_. True) T"

definition InstanceStore_Count :: "'d inst_table \<Rightarrow> gerr + nat" where
  "InstanceStore_Count T = tb_count (\<lambda>_. True) T"

text \<open>
  \<^verbatim>\<open>CountGrouped\<close>: one aggregation over all rows, grouped by the three name columns (as the
  collation compares them; the names of a group are those of its first row), and the Go map
  made of its result.
\<close>

record ServiceInstanceCount =
  icNamespaceID :: string
  icGroupName :: string
  icServiceName :: string
  icTotal :: int
  icHealthy :: int

definition flag01 :: "bool \<Rightarrow> int" where
  "flag01 b = (if b then 1 else 0)"

fun count_row :: "(string \<Rightarrow> string \<Rightarrow> bool) \<Rightarrow> ServiceInstance \<Rightarrow> ServiceInstanceCount list \<Rightarrow> ServiceInstanceCount list" where
  "count_row coll x [] =
     [\<lparr>icNamespaceID = siNamespaceID x, icGroupName = siGroupName x, icServiceName = siServiceName x,
       icTotal = 1, icHealthy = flag01 (siHealthy x)\<rparr>]"
| "count_row coll x (c # cs) =
     (if svc_where coll (icNamespaceID c) (icGroupName c) (icServiceName c) x
      then c\<lparr>icTotal := icTotal c + 1, icHealthy := icHealthy c + flag01 (siHealthy x)\<rparr> # cs
      else c # count_row coll x cs)"

definition count_key :: "string \<Rightarrow> string \<Rightarrow> string \<Rightarrow> string" where
  "count_key ns grp svc = ns @ ''#'' @ grp @ ''#'' @ svc"

definition InstanceStore_CountGrouped :: "'d inst_table \<Rightarrow> gerr + (string \<rightharpoonup> ServiceInstanceCount)" where
  "InstanceStore_CountGrouped T =
     (case tb_find (\<lambda>_. True) T of
        Inl e \<Rightarrow> Inl e
      | Inr xs \<Rightarrow> Inr (fold (\<lambda>c m. m(count_key (icNamespaceID c) (icGroupName c) (icServiceName c) \<mapsto> c))
                       (fold (count_row (t_coll T)) xs []) Map.empty))"

section \<open>ServiceStore\<close>

type_synonym svc_key = "string \<times> string \<times> string"
type_synonym 'd svc_table = "('d, Service) table"

definition svc_key :: "Service \<Rightarrow> svc_key" where
  "svc_key r = (svNamespaceID r, svGroupName r, svServiceName r)"

fun service_where :: "(string \<Rightarrow> string \<Rightarrow> bool) \<Rightarrow> svc_key \<Rightarrow> Service \<Rightarrow> bool" where
  "service_where coll (ns, grp, svc) r \<longleftrightarrow>
     coll (svNamespaceID r) ns \<and> coll (svGroupName r) grp \<and> coll (svServiceName r) svc"

definition svc_assign :: "Service \<Rightarrow> Service \<Rightarrow> Service" where
  "svc_assign x n = x\<lparr>svProtectThreshold := svProtectThreshold n, svMetadata := svMetadata n,
     svHealthCheckType := svHealthCheckType n, svHealthCheckProto := svHealthCheckProto n,
     svHealthCheckPath := svHealthCheckPath n, svHealthCheckPort := svHealthCheckPort n,
     svActiveInterval := svActiveInterval n, svPassiveWindow := svPassiveWindow n,
     svPassiveThreshold := svPassiveThreshold n, svUpdatedAt := svUpdatedAt n\<rparr>"

definition ServiceStore_Create :: "Service \<Rightarrow> 'd svc_table \<Rightarrow> gerr + 'd svc_table" where
  "ServiceStore_Create svc T = tb_upsert (\<lambda>n. service_where (t_coll T) (svc_key n)) svc_assign svc T"

definition ServiceStore_Get :: "svc_key \<Rightarrow> 'd svc_table \<Rightarrow> gerr + Service" where
  "ServiceStore_Get k T = tb_first (service_where (t_coll T) k) T"

definition ServiceStore_Delete :: "svc_key \<Rightarrow> 'd svc_table \<Rightarrow> gerr + 'd svc_table" where
  "ServiceStore_Delete k T = tb_delete (service_where (t_coll T) k) T"

definition ServiceStore_List ::
  "string \<Rightarrow> string \<Rightarrow> int \<Rightarrow> int \<Rightarrow> 'd svc_table \<Rightarrow> gerr + (Service list \<times> nat)" where
  "ServiceStore_List ns grp off lmt T =
     (let q = (\<lambda>r. t_coll T (svNamespaceID r) ns \<and> (grp = [] \<or> t_coll T (svGroupName r) grp))
      in case tb_count q T of
           Inl e \<Rightarrow> Inl e
         | Inr tot \<Rightarrow> (case tb_page q off lmt T of Inl e \<Rightarrow> Inl e | Inr xs \<Rightarrow> Inr (xs, tot)))"

definition ServiceStore_ListAll :: "'d svc_table \<Rightarrow> gerr + Service list" where
  "ServiceStore_ListAll T = tb_find (\<lambda>_. True) T"

text \<open>
  The columns an HTTP request may set are given by a record of optional values: the
  \<^verbatim>\<open>map[string]interface{}\<close> the handler builds.
\<close>

record health_cols =
  hcType :: "string option"
  hcProto :: "string option"
  hcPath :: "string option"
  hcPort :: "int option"
  hcActiveInterval :: "int option"
  hcPassiveWindow :: "int option"
  hcPassiveThreshold :: "int option"

definition set_opt :: "'a option \<Rightarrow> 'a \<Rightarrow> 'a" where
  "set_opt v x = (case v of None \<Rightarrow> x | Some y \<Rightarrow> y)"

definition set_health_cols :: "health_cols \<Rightarrow> Service \<Rightarrow> Service" where
  "set_health_cols c x = x\<lparr>
     svHealthCheckType := set_opt (hcType c) (svHealthCheckType x),
     svHealthCheckProto := set_opt (hcProto c) (svHealthCheckProto x),
     svHealthCheckPath := set_opt (hcPath c) (svHealthCheckPath x),
     svHealthCheckPort := set_opt (hcPort c) (svHealthCheckPort x),
     svActiveInterval := set_opt (hcActiveInterval c) (svActiveInterval x),
     svPassiveWindow := set_opt (hcPassiveWindow c) (svPassiveWindow x),
     svPassiveThreshold := set_opt (hcPassiveThreshold c) (svPassiveThreshold x)\<rparr>"

definition ServiceStore_UpdateHealthConfig :: "svc_key \<Rightarrow> health_cols \<Rightarrow> 'd svc_table \<Rightarrow> gerr + 'd svc_table" where
  "ServiceStore_UpdateHealthConfig k c T =
     tb_update (Some (service_where (t_coll T) k)) (\<lambda>_. set_health_cols c) T"

definition ServiceStore_Count :: "'d svc_table \<Rightarrow> gerr + nat" where
  "ServiceStore_Count T = tb_count (\<lambda>_. True) T"


section \<open>ConfigStore\<close>

text \<open>
  The config store works on two tables in one transaction. \<open>cs_commit\<close> is the commit of
  the transaction: \<open>None\<close> when it succeeds. A transaction whose function or commit fails
  is rolled back: the caller keeps the store it had.
\<close>

type_synonym cfg_key = "string \<times> string \<times> string"

record ('d, 'h) config_store =
  cs_items :: "('d, ConfigItem) table"
  cs_hist :: "('h, ConfigHistory) table"
  cs_commit :: "'d \<Rightarrow> 'h \<Rightarrow> gerr option"

definition cfg_key :: "ConfigItem \<Rightarrow> cfg_key" where
  "cfg_key r = (ciNamespaceID r, ciGroupName r, ciDataID r)"

fun cfg_where :: "(string \<Rightarrow> string \<Rightarrow> bool) \<Rightarrow> cfg_key \<Rightarrow> ConfigItem \<Rightarrow> bool" where
  "cfg_where coll (ns, grp, did) r \<longleftrightarrow>
     coll (ciNamespaceID r) ns \<and> coll (ciGroupName r) grp \<and> coll (ciDataID r) did"

definition cfg_assign :: "ConfigItem \<Rightarrow> ConfigItem \<Rightarrow> ConfigItem" where
  "cfg_assign x n = x\<lparr>ciContent := ciContent n, ciMD5 := ciMD5 n, ciType := ciType n,
     ciUpdatedAt := ciUpdatedAt n\<rparr>"

definition cs_tx ::
  "('d, 'h) config_store \<Rightarrow> gerr + ('d, ConfigItem) table \<Rightarrow> ConfigHistory \<Rightarrow> gerr + ('d, 'h) config_store" where
  "cs_tx S step history =
     (case step of
        Inl e \<Rightarrow> Inl e
      | Inr items \<Rightarrow>
          (case tb_insert history (cs_hist S) of
             Inl e \<Rightarrow> Inl e
           | Inr hist \<Rightarrow>
               (case cs_commit S (t_data items) (t_data hist) of
                  Some e \<Rightarrow> Inl e
                | None \<Rightarrow> Inr (S\<lparr>cs_items := items, cs_hist := hist\<rparr>))))"

definition upsert_item :: "ConfigItem \<Rightarrow> ('d, ConfigItem) table \<Rightarrow> gerr + ('d, ConfigItem) table" where
  "upsert_item item T = tb_upsert (\<lambda>n. cfg_where (t_coll T) (cfg_key n)) cfg_assign item T"

definition delete_item :: "cfg_key \<Rightarrow> ('d, ConfigItem) table \<Rightarrow> gerr + ('d, ConfigItem) table" where
  "delete_item k T = tb_delete (cfg_where (t_coll T) k) T"

definition first_item :: "cfg_key \<Rightarrow> ('d, ConfigItem) table \<Rightarrow> gerr + ConfigItem" where
  "first_item k T = tb_first (cfg_where (t_coll T) k) T"

definition ConfigStore_Publish ::
  "ConfigItem \<Rightarrow> ConfigHistory \<Rightarrow> ('d, 'h) config_store \<Rightarrow> gerr + ('d, 'h) config_store" where
  "ConfigStore_Publish item history S = cs_tx S (upsert_item item (cs_items S)) history"

definition ConfigStore_Get :: "cfg_key \<Rightarrow> ('d, 'h) config_store \<Rightarrow> gerr + ConfigItem" where
  "ConfigStore_Get k S = first_item k (cs_items S)"

definition ConfigStore_Delete ::
  "cfg_key \<Rightarrow> ConfigHistory \<Rightarrow> ('d, 'h) config_store \<Rightarrow> gerr + ('d, 'h) config_store" where
  "ConfigStore_Delete k history S = cs_tx S (delete_item k (cs_items S)) history"

text \<open>\<^verbatim>\<open>data_id LIKE '%...%'\<close> is a parameter: pattern matching under the collation.\<close>

definition ConfigStore_List ::
  "(string \<Rightarrow> string \<Rightarrow> bool) \<Rightarrow> string \<Rightarrow> string \<Rightarrow> string \<Rightarrow> int \<Rightarrow> int \<Rightarrow> ('d, 'h) config_store
   \<Rightarrow> gerr + (ConfigItem list \<times> nat)" where
  "ConfigStore_List like ns grp did off lmt S =
     (let T = cs_items S;
          q = (\<lambda>r. t_coll T (ciNamespaceID r) ns \<and> (grp = [] \<or> t_coll T (ciGroupName r) grp) \<and>
                   (did = [] \<or> like (ciDataID r) (CHR ''%'' # did @ ''%'')))
      in case tb_count q T of
           Inl e \<Rightarrow> Inl e
         | Inr tot \<Rightarrow> (case tb_page q off lmt T of Inl e \<Rightarrow> Inl e | Inr xs \<Rightarrow> Inr (xs, tot)))"

text \<open>
  \<^verbatim>\<open>Select("namespace_id, group_name, data_id, md5")\<close>: the other fields of the returned
  structs are zero.
\<close>

definition ConfigStore_ListAllMD5 :: "string \<Rightarrow> ('d, 'h) config_store \<Rightarrow> gerr + ConfigItem list" where
  "ConfigStore_ListAllMD5 ns S =
     map_sum id (map (\<lambda>r. \<lparr>ciID = 0, ciNamespaceID = ciNamespaceID r, ciGroupName = ciGroupName r,
                          ciDataID = ciDataID r, ciContent = [], ciMD5 = ciMD5 r, ciType = [],
                          ciCreatedAt = 0, ciUpdatedAt = 0\<rparr>))
       (tb_find (\<lambda>r. t_coll (cs_items S) (ciNamespaceID r) ns) (cs_items S))"

definition ConfigStore_History ::
  "string \<Rightarrow> string \<Rightarrow> string \<Rightarrow> int \<Rightarrow> int \<Rightarrow> ('d, 'h) config_store \<Rightarrow> gerr + (ConfigHistory list \<times> nat)" where
  "ConfigStore_History ns grp did off lmt S =
     (let T = cs_hist S;
          q = (\<lambda>r. t_coll T (chNamespaceID r) ns \<and> t_coll T (chGroupName r) grp \<and> t_coll T (chDataID r) did)
      in case tb_count q T of
           Inl e \<Rightarrow> Inl e
         | Inr tot \<Rightarrow> (case tb_page_desc q off lmt T of Inl e \<Rightarrow> Inl e | Inr xs \<Rightarrow> Inr (xs, tot)))"

definition ConfigStore_Count :: "('d, 'h) config_store \<Rightarrow> gerr + nat" where
  "ConfigStore_Count S = tb_count (\<lambda>_. True) (cs_items S)"

section \<open>NamespaceStore\<close>

type_synonym 'd ns_table = "('d, Namespace) table"

definition NamespaceStore_Create :: "Namespace \<Rightarrow> 'd ns_table \<Rightarrow> gerr + 'd ns_table" where
  "NamespaceStore_Create ns T = tb_upsert (\<lambda>n x. t_coll T (nsID x) (nsID n)) (\<lambda>x _. x) ns T"

definition NamespaceStore_Get :: "string \<Rightarrow> 'd ns_table \<Rightarrow> gerr + Namespace" where
  "NamespaceStore_Get i T = tb_first (\<lambda>x. t_coll T (nsID x) i) T"

definition NamespaceStore_Delete :: "string \<Rightarrow> 'd ns_table \<Rightarrow> gerr + 'd ns_table" where
  "NamespaceStore_Delete i T = tb_delete (\<lambda>x. t_coll T (nsID x) i) T"

definition NamespaceStore_Update :: "Namespace \<Rightarrow> 'd ns_table \<Rightarrow> gerr + 'd ns_table" where
  "NamespaceStore_Update ns T =
     tb_update (if nsID ns = [] then None else Some (\<lambda>x. t_coll T (nsID x) (nsID ns)))
       (\<lambda>_ x. x\<lparr>nsName := nsName ns, nsDescription := nsDescription ns\<rparr>) T"

definition NamespaceStore_List :: "'d ns_table \<Rightarrow> gerr + Namespace list" where
  "NamespaceStore_List T = tb_find (\<lambda>_. True) T"

section \<open>ClusterNodeStore\<close>

type_synonym 'd node_table = "('d, ClusterNode) table"

definition node_assign :: "ClusterNode \<Rightarrow> ClusterNode \<Rightarrow> ClusterNode" where
  "node_assign x n = x\<lparr>cnState := cnState n, cnLastBeat := cnLastBeat n, cnUpdatedAt := cnUpdatedAt n\<rparr>"

definition ClusterNodeStore_Upsert :: "ClusterNode \<Rightarrow> 'd node_table \<Rightarrow> gerr + 'd node_table" where
  "ClusterNodeStore_Upsert node T =
     tb_upsert (\<lambda>n x. t_coll T (cnAddress x) (cnAddress n)) node_assign node T"

definition ClusterNodeStore_List :: "'d node_table \<Rightarrow> gerr + ClusterNode list" where
  "ClusterNodeStore_List T = tb_find (\<lambda>_. True) T"

definition ClusterNodeStore_MarkDown :: "string \<Rightarrow> 'd node_table \<Rightarrow> gerr + 'd node_table" where
  "ClusterNodeStore_MarkDown addr T =
     tb_update (Some (\<lambda>x. t_coll T (cnAddress x) addr)) (\<lambda>_ x. x\<lparr>cnState := NodeStateDown\<rparr>) T"

section \<open>The contract of a store with a unique key\<close>

definition key_unique ::
  "((string \<Rightarrow> string \<Rightarrow> bool) \<Rightarrow> 'k \<Rightarrow> 'r \<Rightarrow> bool) \<Rightarrow> ('r \<Rightarrow> 'k) \<Rightarrow> ('d, 'r) table \<Rightarrow> bool" where
  "key_unique keq key T \<longleftrightarrow> (\<forall>r \<in># rows T. size (filter_mset (keq (t_coll T) (key r)) (rows T)) \<le> 1)"

locale keyed_rows =
  fixes sc :: "'r schema"
    and keq :: "(string \<Rightarrow> string \<Rightarrow> bool) \<Rightarrow> 'k \<Rightarrow> 'r \<Rightarrow> bool"
    and key :: "'r \<Rightarrow> 'k"
    and asg :: "'r \<Rightarrow> 'r \<Rightarrow> 'r"
    and put :: "'r \<Rightarrow> ('d, 'r) table \<Rightarrow> gerr + ('d, 'r) table"
  assumes keq_refl: "equivp coll \<Longrightarrow> keq coll (key r) r"
    and keq_trans: "equivp coll \<Longrightarrow> keq coll k r \<Longrightarrow> keq coll k x = keq coll (key r) x"
    and key_stable: "keq coll k (asg x n) = keq coll k x" "key (asg x n) = key x"
      "key (sc_set_id sc i r) = key r" "key (sc_stamp sc t r) = key r" "key (sc_touch sc t r) = key r"
    and keq_stable: "keq coll k (sc_set_id sc i r) = keq coll k r" "keq coll k (sc_touch sc t r) = keq coll k r"
      "keq coll k (sc_stamp sc t r) = keq coll k r"
    and put_rows: "gorm_table sc T \<Longrightarrow> put r T = Inr T' \<Longrightarrow>
      gorm_table sc T' \<and> t_coll T' = t_coll T \<and>
      upsert_effect sc (\<lambda>n. keq (t_coll T) (key n)) asg r (rows T) (rows T')"
begin

text \<open>The row an upsert of \<open>r\<close> leaves under the key of \<open>r\<close>: the old one with the listed
  columns assigned, or \<open>r\<close> itself with a fresh id; \<open>r\<close> after the tag defaults.\<close>

definition stored :: "'r \<Rightarrow> 'r \<Rightarrow> bool" where
  "stored r x \<longleftrightarrow> (\<exists>t i y. let n = sc_stamp sc t (sc_defaults sc r) in x = asg y n \<or> x = sc_set_id sc i n)"

lemma coll_equivp: "gorm_table sc T \<Longrightarrow> equivp (t_coll T)"
  by (simp add: gorm_table_def)

lemma put_cases:
  assumes "gorm_table sc T" "put r T = Inr T'"
  obtains (update) t n where "n = sc_stamp sc t (sc_defaults sc r)"
      "\<exists>x \<in># rows T. keq (t_coll T) (key n) x"
      "rows T' = image_mset (\<lambda>x. if keq (t_coll T) (key n) x then asg x n else x) (rows T)"
  | (insert) t n i where "n = sc_stamp sc t (sc_defaults sc r)" "0 < i" "i \<notin> sc_id sc ` set_mset (rows T)"
      "\<forall>x \<in># rows T. \<not> keq (t_coll T) (key n) x"
      "rows T' = add_mset (sc_set_id sc i n) (rows T)"
proof -
  from put_rows [OF assms] obtain t i where
    "let n = sc_stamp sc t (sc_defaults sc r) in
        if \<exists>x \<in># rows T. keq (t_coll T) (key n) x
        then rows T' = image_mset (\<lambda>x. if keq (t_coll T) (key n) x then asg x n else x) (rows T)
        else 0 < i \<and> i \<notin> sc_id sc ` set_mset (rows T) \<and> rows T' = add_mset (sc_set_id sc i n) (rows T)"
    unfolding upsert_effect_def by blast
  then show ?thesis
    using that by (cases "\<exists>x \<in># rows T. keq (t_coll T) (key (sc_stamp sc t (sc_defaults sc r))) x")
      (auto simp: Let_def)
qed

lemma put_frame:
  assumes "gorm_table sc T" "put r T = Inr T'"
    and other: "\<not> keq (t_coll T) k (sc_defaults sc r)"
  shows "filter_mset (keq (t_coll T) k) (rows T') = filter_mset (keq (t_coll T) k) (rows T)"
  using assms(1,2)
proof (cases rule: put_cases)
  case (update t n)
  note eq = coll_equivp [OF assms(1)]
  have "\<not> keq (t_coll T) k x" if "keq (t_coll T) (key n) x" for x
  proof
    assume "keq (t_coll T) k x"
    then have "keq (t_coll T) k n = keq (t_coll T) (key x) n"
      by (rule keq_trans [OF eq])
    moreover have "keq (t_coll T) (key n) n = keq (t_coll T) (key x) n"
      using keq_trans [OF eq that] .
    moreover have "keq (t_coll T) (key n) n" by (rule keq_refl [OF eq])
    ultimately have "keq (t_coll T) k n" by simp
    with other show False by (simp add: update(1) keq_stable)
  qed
  then have "image_mset (\<lambda>x. if keq (t_coll T) (key n) x then asg x n else x) (filter_mset (keq (t_coll T) k) (rows T))
      = filter_mset (keq (t_coll T) k) (rows T)"
    by (intro image_mset_id_if) auto
  then show ?thesis
    unfolding update(3) by (subst filter_image_if) (auto simp: key_stable)
next
  case (insert t n i)
  then show ?thesis using other by (simp add: keq_stable)
qed

lemma put_row_keeps:
  assumes "gorm_table sc T" "put r T = Inr T'"
    and "x \<in># rows T'" "keq (t_coll T) (key (sc_defaults sc r)) x"
  shows "stored r x"
  using assms(1,2)
proof (cases rule: put_cases)
  case (update t n)
  have k: "key n = key (sc_defaults sc r)" by (simp add: update(1) key_stable)
  have "stored r (asg y n)" for y unfolding stored_def Let_def update(1) by blast
  with assms(3,4) show ?thesis by (auto simp: update(3) k [symmetric] key_stable split: if_splits)
next
  case (insert t n i)
  have k: "key n = key (sc_defaults sc r)" by (simp add: insert(1) key_stable)
  have "stored r (sc_set_id sc i n)" unfolding stored_def Let_def insert(1) by blast
  with assms(3,4) insert(4) show ?thesis by (auto simp: insert(5) k [symmetric])
qed

lemma put_row_exists:
  assumes "gorm_table sc T" "put r T = Inr T'"
  shows "\<exists>x \<in># rows T'. keq (t_coll T) (key (sc_defaults sc r)) x"
  using assms
proof (cases rule: put_cases)
  case (update t n)
  have k: "key n = key (sc_defaults sc r)" by (simp add: update(1) key_stable)
  from update(2) obtain x where x: "x \<in># rows T" "keq (t_coll T) (key n) x" by blast
  then have "asg x n \<in># rows T'" unfolding update(3) by (force intro: rev_image_eqI)
  moreover have "keq (t_coll T) (key n) (asg x n)" using x(2) by (simp add: key_stable)
  ultimately show ?thesis unfolding k by blast
next
  case (insert t n i)
  have k: "key n = key (sc_defaults sc r)" by (simp add: insert(1) key_stable)
  have "keq (t_coll T) (key n) (sc_set_id sc i n)"
    using keq_refl [OF coll_equivp [OF assms(1)], of n] by (simp add: keq_stable)
  then show ?thesis by (auto simp: insert(5) k [symmetric])
qed

lemma unique_at:
  assumes "gorm_table sc T" "key_unique keq key T"
  shows "size (filter_mset (keq (t_coll T) k) (rows T)) \<le> 1"
proof (cases "\<exists>x \<in># rows T. keq (t_coll T) k x")
  case True
  then obtain x where x: "x \<in># rows T" "keq (t_coll T) k x" by blast
  have "keq (t_coll T) k = keq (t_coll T) (key x)"
    using keq_trans [OF coll_equivp [OF assms(1)] x(2)] by (rule ext)
  with x(1) assms(2) show ?thesis by (simp add: key_unique_def)
next
  case False
  then have "filter_mset (keq (t_coll T) k) (rows T) = {#}" by simp
  then show ?thesis by (simp only: size_empty)
qed

theorem put_keeps_unique:
  assumes "gorm_table sc T" "key_unique keq key T" "put r T = Inr T'"
  shows "key_unique keq key T'"
proof -
  note eq = coll_equivp [OF assms(1)]
  have coll: "t_coll T' = t_coll T" using put_rows [OF assms(1,3)] by simp
  note old = unique_at [OF assms(1,2)]
  show ?thesis
    unfolding key_unique_def coll
  proof
    fix x
    assume "x \<in># rows T'"
    show "size (filter_mset (keq (t_coll T) (key x)) (rows T')) \<le> 1"
      using assms(1,3)
    proof (cases rule: put_cases)
      case (update t n)
      show ?thesis unfolding update(3) using old [of "key x"] by (subst filter_image_if) (auto simp: key_stable)
    next
      case (insert t n i)
      show ?thesis
      proof (cases "keq (t_coll T) (key x) n")
        case True
        have "keq (t_coll T) (key x) = keq (t_coll T) (key n)"
          using keq_trans [OF eq True] by (rule ext)
        then have "filter_mset (keq (t_coll T) (key x)) (rows T) = {#}" using insert(4) by simp
        then show ?thesis by (simp add: insert(5) del: filter_mset_eq_mempty_iff)
      next
        case False
        then show ?thesis using old [of "key x"] by (simp add: insert(5) keq_stable)
      qed
    qed
  qed
qed

end

text \<open>A store that is also read by the key.\<close>

locale keyed_store = keyed_rows sc keq key asg put
  for sc :: "'r schema"
    and keq :: "(string \<Rightarrow> string \<Rightarrow> bool) \<Rightarrow> 'k \<Rightarrow> 'r \<Rightarrow> bool"
    and key :: "'r \<Rightarrow> 'k"
    and asg :: "'r \<Rightarrow> 'r \<Rightarrow> 'r"
    and put :: "'r \<Rightarrow> ('d, 'r) table \<Rightarrow> gerr + ('d, 'r) table" +
  fixes get :: "'k \<Rightarrow> ('d, 'r) table \<Rightarrow> gerr + 'r"
  assumes get_row: "gorm_table sc T \<Longrightarrow> get k T = Inr r \<Longrightarrow> r \<in># rows T \<and> keq (t_coll T) k r"
    and get_err: "gorm_table sc T \<Longrightarrow> get k T = Inl e \<Longrightarrow>
      e = ErrRecordNotFound \<and> (\<forall>r \<in># rows T. \<not> keq (t_coll T) k r) \<or> db_failure e"
begin

theorem put_get:
  assumes "gorm_table sc T" "put r T = Inr T'"
  shows "get (key (sc_defaults sc r)) T' = Inr x \<Longrightarrow> stored r x"
    and "get (key (sc_defaults sc r)) T' = Inl e \<Longrightarrow> db_failure e"
proof -
  have T': "gorm_table sc T'" "t_coll T' = t_coll T" using put_rows [OF assms] by simp_all
  show "get (key (sc_defaults sc r)) T' = Inr x \<Longrightarrow> stored r x"
    using get_row [OF T'(1)] put_row_keeps [OF assms] T'(2) by simp
  show "get (key (sc_defaults sc r)) T' = Inl e \<Longrightarrow> db_failure e"
    using get_err [OF T'(1), of "key (sc_defaults sc r)" e] put_row_exists [OF assms] T'(2) by auto
qed

end


section \<open>The stores satisfy it\<close>

lemma equivp_simps:
  "equivp c \<Longrightarrow> c a a"
  "equivp c \<Longrightarrow> c a b \<Longrightarrow> c x a = c x b"
  by (simp add: equivp_reflp, metis equivp_symp equivp_transp)

lemma coll_join: "equivp c \<Longrightarrow> c u v \<Longrightarrow> c x v \<Longrightarrow> c x u"
  by (metis equivp_symp equivp_transp)

lemma coll_step: "equivp c \<Longrightarrow> c u v \<Longrightarrow> c x u \<Longrightarrow> c x v"
  by (metis equivp_transp)

lemma inst_where_trans:
  assumes "equivp c" "inst_where c k r"
  shows "inst_where c k x = inst_where c (inst_key r) x"
proof (cases k)
  case (fields a b d e f g)
  note tr = coll_join [OF assms(1)] coll_step [OF assms(1)]
  show ?thesis using assms(2) by (auto simp: fields inst_key_def intro: tr)
qed

lemma service_where_trans:
  assumes "equivp c" "service_where c k r"
  shows "service_where c k x = service_where c (svc_key r) x"
proof (cases k)
  case (fields a b d)
  note tr = coll_join [OF assms(1)] coll_step [OF assms(1)]
  show ?thesis using assms(2) by (auto simp: fields svc_key_def intro: tr)
qed

lemma cfg_where_trans:
  assumes "equivp c" "cfg_where c k r"
  shows "cfg_where c k x = cfg_where c (cfg_key r) x"
proof (cases k)
  case (fields a b d)
  note tr = coll_join [OF assms(1)] coll_step [OF assms(1)]
  show ?thesis using assms(2) by (auto simp: fields cfg_key_def intro: tr)
qed

lemma inst_where_simps [simp]:
  "inst_where c k (inst_assign x n) = inst_where c k x"
  "inst_key (inst_assign x n) = inst_key x"
  by (cases k; simp add: inst_assign_def) (simp add: inst_assign_def inst_key_def)

lemma service_where_simps [simp]:
  "service_where c k (svc_assign x n) = service_where c k x"
  "svc_key (svc_assign x n) = svc_key x"
  by (cases k; simp add: svc_assign_def) (simp add: svc_assign_def svc_key_def)

lemma cfg_where_simps [simp]:
  "cfg_where c k (cfg_assign x n) = cfg_where c k x"
  "cfg_key (cfg_assign x n) = cfg_key x"
  by (cases k; simp add: cfg_assign_def) (simp add: cfg_assign_def cfg_key_def)

lemma inst_schema_stable:
  "inst_key (r\<lparr>siID := i\<rparr>) = inst_key r" "inst_key (r\<lparr>siUpdatedAt := t\<rparr>) = inst_key r"
  "inst_key (r\<lparr>siCreatedAt := t\<rparr>) = inst_key r"
  "inst_where c k (r\<lparr>siID := i\<rparr>) = inst_where c k r"
  "inst_where c k (r\<lparr>siUpdatedAt := t\<rparr>) = inst_where c k r"
  "inst_where c k (r\<lparr>siCreatedAt := t\<rparr>) = inst_where c k r"
  by (cases k; simp add: inst_key_def)+

lemma svc_schema_stable:
  "svc_key (r\<lparr>svID := i\<rparr>) = svc_key r" "svc_key (r\<lparr>svUpdatedAt := t\<rparr>) = svc_key r"
  "svc_key (r\<lparr>svCreatedAt := t\<rparr>) = svc_key r"
  "service_where c k (r\<lparr>svID := i\<rparr>) = service_where c k r"
  "service_where c k (r\<lparr>svUpdatedAt := t\<rparr>) = service_where c k r"
  "service_where c k (r\<lparr>svCreatedAt := t\<rparr>) = service_where c k r"
  by (cases k; simp add: svc_key_def)+

lemma cfg_schema_stable:
  "cfg_key (r\<lparr>ciID := i\<rparr>) = cfg_key r" "cfg_key (r\<lparr>ciUpdatedAt := t\<rparr>) = cfg_key r"
  "cfg_key (r\<lparr>ciCreatedAt := t\<rparr>) = cfg_key r"
  "cfg_where c k (r\<lparr>ciID := i\<rparr>) = cfg_where c k r"
  "cfg_where c k (r\<lparr>ciUpdatedAt := t\<rparr>) = cfg_where c k r"
  "cfg_where c k (r\<lparr>ciCreatedAt := t\<rparr>) = cfg_where c k r"
  by (cases k; simp add: cfg_key_def)+

interpretation istore: keyed_store inst_schema inst_where inst_key inst_assign
  InstanceStore_Create InstanceStore_Get
proof (unfold_locales, goal_cases)
  case (1 c r) then show ?case by (simp add: inst_key_def equivp_simps)
next
  case (2 c k r x) then show ?case by (rule inst_where_trans)
next
  case (11 T r T')
  show ?case by (rule tb_upsert_rows [OF 11(1) 11(2) [unfolded InstanceStore_Create_def]])
next
  case (12 T k r)
  show ?case by (rule tb_first_row [OF 12(1) 12(2) [unfolded InstanceStore_Get_def]])
next
  case (13 T k e)
  show ?case by (rule tb_first_err [OF 13(1) 13(2) [unfolded InstanceStore_Get_def]])
qed (simp_all add: inst_schema_stable)

interpretation sstore: keyed_store svc_schema service_where svc_key svc_assign
  ServiceStore_Create ServiceStore_Get
proof (unfold_locales, goal_cases)
  case (1 c r) then show ?case by (simp add: svc_key_def equivp_simps)
next
  case (2 c k r x) then show ?case by (rule service_where_trans)
next
  case (11 T r T')
  show ?case by (rule tb_upsert_rows [OF 11(1) 11(2) [unfolded ServiceStore_Create_def]])
next
  case (12 T k r)
  show ?case by (rule tb_first_row [OF 12(1) 12(2) [unfolded ServiceStore_Get_def]])
next
  case (13 T k e)
  show ?case by (rule tb_first_err [OF 13(1) 13(2) [unfolded ServiceStore_Get_def]])
qed (simp_all add: svc_schema_stable)

interpretation cstore: keyed_store cfg_schema cfg_where cfg_key cfg_assign upsert_item first_item
proof (unfold_locales, goal_cases)
  case (1 c r) then show ?case by (simp add: cfg_key_def equivp_simps)
next
  case (2 c k r x) then show ?case by (rule cfg_where_trans)
next
  case (11 T r T')
  show ?case by (rule tb_upsert_rows [OF 11(1) 11(2) [unfolded upsert_item_def]])
next
  case (12 T k r)
  show ?case by (rule tb_first_row [OF 12(1) 12(2) [unfolded first_item_def]])
next
  case (13 T k e)
  show ?case by (rule tb_first_err [OF 13(1) 13(2) [unfolded first_item_def]])
qed (simp_all add: cfg_schema_stable)

interpretation nstore: keyed_store ns_schema "\<lambda>c k x. c (nsID x) k" nsID "\<lambda>x _. x"
  NamespaceStore_Create NamespaceStore_Get
proof (unfold_locales, goal_cases)
  case (1 c r) then show ?case by (simp add: equivp_simps)
next
  case (2 c k r x) then show ?case by (meson coll_join coll_step)
next
  case (11 T r T')
  show ?case by (rule tb_upsert_rows [OF 11(1) 11(2) [unfolded NamespaceStore_Create_def]])
next
  case (12 T k r)
  show ?case by (rule tb_first_row [OF 12(1) 12(2) [unfolded NamespaceStore_Get_def]])
next
  case (13 T k e)
  show ?case by (rule tb_first_err [OF 13(1) 13(2) [unfolded NamespaceStore_Get_def]])
qed (simp_all add: ns_schema_def)

interpretation dstore: keyed_rows node_schema "\<lambda>c k x. c (cnAddress x) k" cnAddress node_assign
  ClusterNodeStore_Upsert
proof (unfold_locales, goal_cases)
  case (1 c r) then show ?case by (simp add: equivp_simps)
next
  case (2 c k r x) then show ?case by (meson coll_join coll_step)
next
  case (11 T r T')
  show ?case by (rule tb_upsert_rows [OF 11(1) 11(2) [unfolded ClusterNodeStore_Upsert_def]])
qed (simp_all add: node_assign_def)

end
