(* ===== verification/EventBus.thy ===== *)
theory EventBus
  imports GoText
begin

text \<open>
  \<^verbatim>\<open>src/pkg/subscribe/eventbus.go\<close>: the in-memory publish/subscribe bus. A Go map from
  keys to slices of channels is a partial map to lists of channel numbers; the channels
  themselves (buffer of one token, closed or open) are a separate record, so that two
  subscriptions never share one by accident. A send on a closed channel or a second
  close is a panic of the process, recorded in \<open>ch_panic\<close>. Operations are atomic here;
  their interleaving is in theory \<^verbatim>\<open>EventRace\<close>.
\<close>

section \<open>Channels of type \<^verbatim>\<open>chan struct{}\<close> with capacity 1\<close>

record chans =
  ch_next :: nat
  ch_full :: "nat \<Rightarrow> bool"
  ch_closed :: "nat \<Rightarrow> bool"
  ch_panic :: bool

definition no_chans :: chans where
  "no_chans = \<lparr>ch_next = 0, ch_full = (\<lambda>_. False), ch_closed = (\<lambda>_. False), ch_panic = False\<rparr>"

definition make_chan :: "chans \<Rightarrow> chans \<times> nat" where
  "make_chan C = (C\<lparr>ch_next := Suc (ch_next C)\<rparr>, ch_next C)"

text \<open>\<^verbatim>\<open>select { case ch <- struct{}{}: default: }\<close>\<close>

definition try_send :: "nat \<Rightarrow> chans \<Rightarrow> chans" where
  "try_send c C = (if ch_closed C c then C\<lparr>ch_panic := True\<rparr> else C\<lparr>ch_full := (ch_full C)(c := True)\<rparr>)"

definition close_chan :: "nat \<Rightarrow> chans \<Rightarrow> chans" where
  "close_chan c C = (if ch_closed C c then C\<lparr>ch_panic := True\<rparr> else C\<lparr>ch_closed := (ch_closed C)(c := True)\<rparr>)"

text \<open>A receive that does not block: it takes the token, if there is one.\<close>

definition try_recv :: "nat \<Rightarrow> chans \<Rightarrow> chans \<times> bool" where
  "try_recv c C = (C\<lparr>ch_full := (ch_full C)(c := False)\<rparr>, ch_full C c)"

section \<open>The bus\<close>

type_synonym subs = "string \<rightharpoonup> nat list"

record bus =
  serviceSubs :: subs
  configSubs :: subs
  busChans :: chans

definition NewEventBus :: bus where
  "NewEventBus = \<lparr>serviceSubs = Map.empty, configSubs = Map.empty, busChans = no_chans\<rparr>"

definition serviceKey :: "string \<Rightarrow> string \<Rightarrow> string \<Rightarrow> string" where
  "serviceKey ns grp name = ns @ ''#'' @ grp @ ''#'' @ name"

definition subs_at :: "subs \<Rightarrow> string \<Rightarrow> nat list" where
  "subs_at m k = (case m k of None \<Rightarrow> [] | Some cs \<Rightarrow> cs)"

definition send_all :: "nat list \<Rightarrow> chans \<Rightarrow> chans" where
  "send_all cs C = fold try_send cs C"

definition PublishServiceChange :: "string \<Rightarrow> string \<Rightarrow> string \<Rightarrow> bus \<Rightarrow> bus" where
  "PublishServiceChange ns grp svc b =
     b\<lparr>busChans := send_all (subs_at (serviceSubs b) (serviceKey ns grp svc)) (busChans b)\<rparr>"

definition SubscribeService :: "string \<Rightarrow> string \<Rightarrow> string \<Rightarrow> bus \<Rightarrow> bus \<times> nat" where
  "SubscribeService ns grp svc b =
     (let k = serviceKey ns grp svc; (C, c) = make_chan (busChans b)
      in (b\<lparr>serviceSubs := (serviceSubs b)(k \<mapsto> subs_at (serviceSubs b) k @ [c]), busChans := C\<rparr>, c))"

definition UnsubscribeService :: "string \<Rightarrow> string \<Rightarrow> string \<Rightarrow> nat \<Rightarrow> bus \<Rightarrow> bus" where
  "UnsubscribeService ns grp svc c b =
     (let k = serviceKey ns grp svc; cs = subs_at (serviceSubs b) k
      in if c \<in> set cs
         then b\<lparr>serviceSubs := (serviceSubs b)(k \<mapsto> remove1 c cs), busChans := close_chan c (busChans b)\<rparr>
         else b)"

definition PublishConfigChange :: "string \<Rightarrow> string \<Rightarrow> string \<Rightarrow> bus \<Rightarrow> bus" where
  "PublishConfigChange ns grp did b =
     b\<lparr>busChans := send_all (subs_at (configSubs b) (serviceKey ns grp did)) (busChans b)\<rparr>"

definition SubscribeConfig :: "string \<Rightarrow> string \<Rightarrow> string \<Rightarrow> bus \<Rightarrow> bus \<times> nat" where
  "SubscribeConfig ns grp did b =
     (let k = serviceKey ns grp did; (C, c) = make_chan (busChans b)
      in (b\<lparr>configSubs := (configSubs b)(k \<mapsto> subs_at (configSubs b) k @ [c]), busChans := C\<rparr>, c))"

definition UnsubscribeConfig :: "string \<Rightarrow> string \<Rightarrow> string \<Rightarrow> nat \<Rightarrow> bus \<Rightarrow> bus" where
  "UnsubscribeConfig ns grp did c b =
     (let k = serviceKey ns grp did; cs = subs_at (configSubs b) k
      in if c \<in> set cs
         then b\<lparr>configSubs := (configSubs b)(k \<mapsto> remove1 c cs), busChans := close_chan c (busChans b)\<rparr>
         else b)"

section \<open>Listing the subscribers\<close>

record SubscriberInfo =
  siNs :: string
  siGrp :: string
  siSvc :: string
  siCnt :: nat

fun split_key :: "nat list \<Rightarrow> string \<Rightarrow> string list \<Rightarrow> string list" where
  "split_key [] cur parts = parts @ [cur]"
| "split_key (r # rs) cur parts =
     (if r = 35 then split_key rs [] (parts @ [cur]) else split_key rs (cur @ rune_string r) parts)"

definition parseKey :: "string \<Rightarrow> string \<times> string \<times> string" where
  "parseKey key =
     (case split_key (range_runes key) [] [] of
        p0 # p1 # p2 # _ \<Rightarrow> (p0, p1, p2)
      | _ \<Rightarrow> ([], [], key))"

text \<open>Go visits the keys of a map in no fixed order: \<open>order\<close> is the order of this visit.\<close>

definition GetServiceSubscribers :: "string list \<Rightarrow> bus \<Rightarrow> SubscriberInfo list" where
  "GetServiceSubscribers order b =
     map (\<lambda>k. case parseKey k of
            (ns, grp, svc) \<Rightarrow> \<lparr>siNs = ns, siGrp = grp, siSvc = svc, siCnt = length (subs_at (serviceSubs b) k)\<rparr>)
       (filter (\<lambda>k. subs_at (serviceSubs b) k \<noteq> []) order)"

section \<open>Sending\<close>

lemma subs_at_upd [simp]: "subs_at (m(k \<mapsto> v)) k' = (if k' = k then v else subs_at m k')"
  by (simp add: subs_at_def)

lemma send_all_open:
  assumes "\<forall>c \<in> set cs. \<not> ch_closed C c"
  shows "send_all cs C = C\<lparr>ch_full := (\<lambda>c. c \<in> set cs \<or> ch_full C c)\<rparr>"
  using assms unfolding send_all_def
proof (induction cs arbitrary: C)
  case (Cons a cs)
  have f: "ch_closed (try_send a C) = ch_closed C" using Cons.prems by (simp add: try_send_def)
  have "fold try_send cs (try_send a C) = (try_send a C)\<lparr>ch_full := (\<lambda>c. c \<in> set cs \<or> ch_full (try_send a C) c)\<rparr>"
    using Cons.prems f by (intro Cons.IH) simp
  also have "\<dots> = C\<lparr>ch_full := (\<lambda>c. c \<in> set (a # cs) \<or> ch_full C c)\<rparr>"
    using Cons.prems by (simp add: try_send_def fun_eq_iff)
  finally show ?case by simp
qed simp

section \<open>The contract of one kind of subscription\<close>

text \<open>
  Services and configs have the same three operations on their own map. The locale states
  what they do to the map and the channels; what follows is proved once for both.
\<close>

text \<open>Every subscribed channel has been made, is open, and is in one list at one place.\<close>

definition topic_ok :: "chans \<Rightarrow> subs \<Rightarrow> bool" where
  "topic_ok C m \<longleftrightarrow>
     (\<forall>k. distinct (subs_at m k)) \<and>
     (\<forall>k. \<forall>c \<in> set (subs_at m k). c < ch_next C \<and> \<not> ch_closed C c) \<and>
     (\<forall>k k'. k \<noteq> k' \<longrightarrow> set (subs_at m k) \<inter> set (subs_at m k') = {})"

definition apart :: "subs \<Rightarrow> subs \<Rightarrow> bool" where
  "apart m m' \<longleftrightarrow> (\<forall>k k'. set (subs_at m k) \<inter> set (subs_at m' k') = {})"

definition chans_ok :: "chans \<Rightarrow> bool" where
  "chans_ok C \<longleftrightarrow> \<not> ch_panic C \<and> (\<forall>c \<ge> ch_next C. \<not> ch_closed C c)"

definition bus_ok :: "bus \<Rightarrow> bool" where
  "bus_ok b \<longleftrightarrow> chans_ok (busChans b) \<and> topic_ok (busChans b) (serviceSubs b) \<and>
     topic_ok (busChans b) (configSubs b) \<and> apart (serviceSubs b) (configSubs b)"

lemma apart_sym: "apart m m' = apart m' m"
  by (auto simp: apart_def)

lemma topic_ok_open: "topic_ok C m \<Longrightarrow> c \<in> set (subs_at m k) \<Longrightarrow> c < ch_next C \<and> \<not> ch_closed C c"
  by (auto simp: topic_ok_def)

lemma topic_ok_cong: "ch_next C' = ch_next C \<Longrightarrow> ch_closed C' = ch_closed C \<Longrightarrow> topic_ok C' m = topic_ok C m"
  by (simp add: topic_ok_def)

lemma topic_ok_make: "topic_ok C m \<Longrightarrow> topic_ok (C\<lparr>ch_next := Suc (ch_next C)\<rparr>) m"
  by (auto simp: topic_ok_def less_SucI)

lemma topic_ok_add:
  assumes "topic_ok C m" "chans_ok C"
  shows "topic_ok (C\<lparr>ch_next := Suc (ch_next C)\<rparr>) (m(k \<mapsto> subs_at m k @ [ch_next C]))"
proof -
  have new: "ch_next C \<notin> set (subs_at m k')" for k' using assms(1) by (auto simp: topic_ok_def)
  show ?thesis
    using assms new unfolding topic_ok_def chans_ok_def by (auto simp: less_SucI)
qed

lemma topic_ok_close:
  assumes "topic_ok C m" "\<And>k. c \<notin> set (subs_at m k)"
  shows "topic_ok (close_chan c C) m"
  using assms by (auto simp: topic_ok_def close_chan_def)

lemma topic_ok_sub:
  assumes "topic_ok C m" "\<And>k. set (subs_at m' k) \<subseteq> set (subs_at m k)" "\<And>k. distinct (subs_at m' k)"
  shows "topic_ok C m'"
  unfolding topic_ok_def
proof (intro conjI allI ballI impI)
  fix k k' :: string
  assume "k \<noteq> k'"
  then have "set (subs_at m k) \<inter> set (subs_at m k') = {}" using assms(1) by (simp add: topic_ok_def)
  then show "set (subs_at m' k) \<inter> set (subs_at m' k') = {}" using assms(2) [of k] assms(2) [of k'] by blast
next
  fix k c assume "c \<in> set (subs_at m' k)"
  then have "c \<in> set (subs_at m k)" using assms(2) by blast
  then show "c < ch_next C" "\<not> ch_closed C c" using topic_ok_open [OF assms(1)] by blast+
qed (rule assms(3))

lemma topic_ok_remove:
  assumes "topic_ok C m" "c \<in> set (subs_at m k)"
  shows "topic_ok (close_chan c C) (m(k \<mapsto> remove1 c (subs_at m k)))"
proof -
  let ?m = "m(k \<mapsto> remove1 c (subs_at m k))"
  have "k' \<noteq> k \<Longrightarrow> c \<notin> set (subs_at m k')" for k'
    using assms unfolding topic_ok_def by (metis disjoint_iff)
  moreover have "distinct (subs_at m k)" using assms(1) by (simp add: topic_ok_def)
  ultimately have "c \<notin> set (subs_at ?m k')" for k' by simp
  moreover have "topic_ok C ?m"
    by (rule topic_ok_sub [OF assms(1)])
       (use assms(1) set_remove1_subset [of c "subs_at m k"] in \<open>auto simp: topic_ok_def distinct_remove1\<close>)
  ultimately show ?thesis by (intro topic_ok_close)
qed

lemma apart_add:
  assumes "apart m m'" "\<And>k'. c \<notin> set (subs_at m' k')"
  shows "apart (m(k \<mapsto> subs_at m k @ [c])) m'"
  using assms by (auto simp: apart_def)

lemma apart_remove: "apart m m' \<Longrightarrow> apart (m(k \<mapsto> remove1 c (subs_at m k))) m'"
  using set_remove1_subset [of c "subs_at m k"] unfolding apart_def by auto

lemma chans_ok_close:
  "chans_ok C \<Longrightarrow> \<not> ch_closed C c \<Longrightarrow> c < ch_next C \<Longrightarrow> chans_ok (close_chan c C)"
  by (auto simp: chans_ok_def close_chan_def)

lemma chans_ok_make: "chans_ok C \<Longrightarrow> chans_ok (C\<lparr>ch_next := Suc (ch_next C)\<rparr>)"
  by (simp add: chans_ok_def)

locale topic_bus =
  fixes subs :: "bus \<Rightarrow> subs"
    and others :: "bus \<Rightarrow> subs"
    and publish :: "string \<Rightarrow> string \<Rightarrow> string \<Rightarrow> bus \<Rightarrow> bus"
    and subscribe :: "string \<Rightarrow> string \<Rightarrow> string \<Rightarrow> bus \<Rightarrow> bus \<times> nat"
    and unsubscribe :: "string \<Rightarrow> string \<Rightarrow> string \<Rightarrow> nat \<Rightarrow> bus \<Rightarrow> bus"
  assumes ok_iff: "bus_ok b \<longleftrightarrow> chans_ok (busChans b) \<and> topic_ok (busChans b) (subs b) \<and>
      topic_ok (busChans b) (others b) \<and> apart (subs b) (others b)"
    and publish_subs: "subs (publish ns g n b) = subs b" "others (publish ns g n b) = others b"
    and publish_chans: "busChans (publish ns g n b) = send_all (subs_at (subs b) (serviceKey ns g n)) (busChans b)"
    and subscribe_subs: "subscribe ns g n b = (b', c) \<Longrightarrow>
       subs b' = (subs b)(serviceKey ns g n \<mapsto> subs_at (subs b) (serviceKey ns g n) @ [c]) \<and>
       others b' = others b \<and> make_chan (busChans b) = (busChans b', c)"
    and unsubscribe_subs: "c \<in> set (subs_at (subs b) (serviceKey ns g n)) \<Longrightarrow>
       subs (unsubscribe ns g n c b) =
         (subs b)(serviceKey ns g n \<mapsto> remove1 c (subs_at (subs b) (serviceKey ns g n))) \<and>
       others (unsubscribe ns g n c b) = others b \<and>
       busChans (unsubscribe ns g n c b) = close_chan c (busChans b)"
    and unsubscribe_other: "c \<notin> set (subs_at (subs b) (serviceKey ns g n)) \<Longrightarrow> unsubscribe ns g n c b = b"
begin

lemma ok_open: "bus_ok b \<Longrightarrow> c \<in> set (subs_at (subs b) k) \<Longrightarrow> \<not> ch_closed (busChans b) c"
  unfolding ok_iff using topic_ok_open by blast

lemma publish_effect:
  assumes "bus_ok b"
  shows "busChans (publish ns g n b) =
    (busChans b)\<lparr>ch_full := (\<lambda>c. c \<in> set (subs_at (subs b) (serviceKey ns g n)) \<or> ch_full (busChans b) c)\<rparr>"
  unfolding publish_chans by (rule send_all_open) (use ok_open [OF assms] in blast)

lemma publish_ok: "bus_ok b \<Longrightarrow> bus_ok (publish ns g n b)"
  using publish_effect [of b ns g n] unfolding ok_iff publish_subs
  by (simp add: ok_iff chans_ok_def) (simp add: topic_ok_def)

lemma subscribe_ok:
  assumes "bus_ok b" "subscribe ns g n b = (b', c)"
  shows "bus_ok b' \<and> c \<in> set (subs_at (subs b') (serviceKey ns g n)) \<and>
         ch_full (busChans b') = ch_full (busChans b)"
proof -
  from subscribe_subs [OF assms(2)] have s:
    "subs b' = (subs b)(serviceKey ns g n \<mapsto> subs_at (subs b) (serviceKey ns g n) @ [ch_next (busChans b)])"
    "others b' = others b" "c = ch_next (busChans b)"
    "busChans b' = (busChans b)\<lparr>ch_next := Suc (ch_next (busChans b))\<rparr>"
    by (auto simp: make_chan_def)
  have "ch_next (busChans b) \<notin> set (subs_at (others b) k)" for k
    using assms(1) topic_ok_open unfolding ok_iff by blast
  with assms(1) have "bus_ok b'"
    unfolding ok_iff s(1,2,4) by (blast intro: chans_ok_make topic_ok_add topic_ok_make apart_add)
  then show ?thesis by (simp add: s)
qed

lemma unsubscribe_ok:
  assumes "bus_ok b"
  shows "bus_ok (unsubscribe ns g n c b)"
proof (cases "c \<in> set (subs_at (subs b) (serviceKey ns g n))")
  case True
  note u = unsubscribe_subs [OF True]
  have c: "c < ch_next (busChans b) \<and> \<not> ch_closed (busChans b) c"
    using assms True topic_ok_open unfolding ok_iff by blast
  have "c \<notin> set (subs_at (others b) k)" for k
    using assms True unfolding ok_iff apart_def by blast
  then show ?thesis
    using assms c True unfolding ok_iff u [THEN conjunct1] u [THEN conjunct2, THEN conjunct1]
      u [THEN conjunct2, THEN conjunct2]
    by (blast intro: chans_ok_close topic_ok_remove topic_ok_close apart_remove)
next
  case False
  with assms show ?thesis by (simp add: unsubscribe_other)
qed

lemma unsubscribe_gone:
  assumes "bus_ok b" "c \<in> set (subs_at (subs b) (serviceKey ns g n))"
  shows "ch_closed (busChans (unsubscribe ns g n c b)) c"
    and "c \<notin> set (subs_at (subs (unsubscribe ns g n c b)) k)"
proof -
  note u = unsubscribe_subs [OF assms(2)]
  show cl: "ch_closed (busChans (unsubscribe ns g n c b)) c"
    using ok_open [OF assms] by (simp add: u close_chan_def)
  show "c \<notin> set (subs_at (subs (unsubscribe ns g n c b)) k)"
    using ok_open [OF unsubscribe_ok [OF assms(1)]] cl by blast
qed

end

lemmas topic_op_defs =
  PublishServiceChange_def SubscribeService_def UnsubscribeService_def
  PublishConfigChange_def SubscribeConfig_def UnsubscribeConfig_def

interpretation svc_bus: topic_bus serviceSubs configSubs
  PublishServiceChange SubscribeService UnsubscribeService
  by unfold_locales (auto simp: bus_ok_def topic_op_defs Let_def make_chan_def)

interpretation cfg_bus: topic_bus configSubs serviceSubs
  PublishConfigChange SubscribeConfig UnsubscribeConfig
  by unfold_locales (auto simp: bus_ok_def topic_op_defs Let_def make_chan_def apart_sym)

lemmas bus_ok_intros [intro] =
  svc_bus.publish_ok svc_bus.unsubscribe_ok cfg_bus.publish_ok cfg_bus.unsubscribe_ok

lemma NewEventBus_ok [simp]: "bus_ok NewEventBus"
  by (simp add: bus_ok_def NewEventBus_def no_chans_def subs_at_def chans_ok_def topic_ok_def apart_def)

section \<open>Runs of the bus\<close>

datatype bus_op =
    SubService string string string | UnsubService string string string nat | PubService string string string
  | SubConfig string string string | UnsubConfig string string string nat | PubConfig string string string
  | Receive nat

fun bus_step :: "bus_op \<Rightarrow> bus \<Rightarrow> bus" where
  "bus_step (SubService ns g n) b = fst (SubscribeService ns g n b)"
| "bus_step (UnsubService ns g n c) b = UnsubscribeService ns g n c b"
| "bus_step (PubService ns g n) b = PublishServiceChange ns g n b"
| "bus_step (SubConfig ns g n) b = fst (SubscribeConfig ns g n b)"
| "bus_step (UnsubConfig ns g n c) b = UnsubscribeConfig ns g n c b"
| "bus_step (PubConfig ns g n) b = PublishConfigChange ns g n b"
| "bus_step (Receive c) b = b\<lparr>busChans := fst (try_recv c (busChans b))\<rparr>"

lemma bus_step_ok: "bus_ok b \<Longrightarrow> bus_ok (bus_step a b)"
proof (cases a)
  case (SubService ns g n)
  assume "bus_ok b"
  then show ?thesis
    using svc_bus.subscribe_ok [of b ns g n] SubService by (cases "SubscribeService ns g n b") simp
next
  case (SubConfig ns g n)
  assume "bus_ok b"
  then show ?thesis
    using cfg_bus.subscribe_ok [of b ns g n] SubConfig by (cases "SubscribeConfig ns g n b") simp
next
  case (Receive c)
  assume "bus_ok b"
  then show ?thesis by (simp add: Receive bus_ok_def try_recv_def chans_ok_def topic_ok_def)
qed (auto intro: bus_ok_intros)

lemma bus_run_ok: "bus_ok b \<Longrightarrow> bus_ok (fold bus_step as b)"
  by (induction as arbitrary: b) (auto intro: bus_step_ok)

section \<open>Keys\<close>

lemma split_key_append:
  "35 \<notin> set rs \<Longrightarrow> split_key (rs @ 35 # rest) cur parts =
     split_key rest [] (parts @ [cur @ concat (map rune_string rs)])"
  by (induction rs arbitrary: cur) auto

lemma split_key_prefix: "\<exists>more. split_key rs cur parts = parts @ more"
proof (induction rs cur parts rule: split_key.induct)
  case (2 r rs cur parts)
  then show ?case by (cases "r = 35") (fastforce)+
qed simp

lemma split_key_last:
  "35 \<notin> set rs \<Longrightarrow> split_key rs cur parts = parts @ [cur @ concat (map rune_string rs)]"
  by (induction rs arbitrary: cur) auto

lemma byte_hash [simp]: "byte CHR ''#'' = 35"
  by simp

lemma runes_serviceKey:
  "range_runes (serviceKey ns g n) = range_runes ns @ 35 # range_runes g @ 35 # range_runes n"
  using range_runes_append_ascii [of "CHR ''#''" ns "g @ ''#'' @ n"]
    range_runes_append_ascii [of "CHR ''#''" g n]
  by (simp add: serviceKey_def)

lemma no_hash_runes: "CHR ''#'' \<notin> set s \<Longrightarrow> 35 \<notin> set (range_runes s)"
  using range_runes_no_ascii [of "CHR ''#''" s] by simp

lemma parseKey_serviceKey:
  assumes "valid_utf8 ns" "valid_utf8 g" "valid_utf8 n"
    and "CHR ''#'' \<notin> set ns" "CHR ''#'' \<notin> set g" "CHR ''#'' \<notin> set n"
  shows "parseKey (serviceKey ns g n) = (ns, g, n)"
  using assms
  by (simp add: parseKey_def runes_serviceKey split_key_append split_key_last no_hash_runes valid_utf8_def)

lemma serviceKey_inj:
  assumes "CHR ''#'' \<notin> set ns" "CHR ''#'' \<notin> set g" "CHR ''#'' \<notin> set ns'" "CHR ''#'' \<notin> set g'"
    and "serviceKey ns g n = serviceKey ns' g' n'"
  shows "ns = ns' \<and> g = g' \<and> n = n'"
proof -
  have cut: "a @ CHR ''#'' # r = a' @ CHR ''#'' # r' \<Longrightarrow> a = a' \<and> r = r'"
    if "CHR ''#'' \<notin> set a" "CHR ''#'' \<notin> set a'" for a a' r r'
    using that by (auto simp: append_eq_append_conv2 append_eq_Cons_conv Cons_eq_append_conv)
  have "ns = ns' \<and> g @ CHR ''#'' # n = g' @ CHR ''#'' # n'"
    using assms by (intro cut) (simp_all add: serviceKey_def)
  then show ?thesis using cut [of g g' n n'] assms by simp
qed

section \<open>What publishing does\<close>

text \<open>
  C20. As long as its operations do not overlap, the bus never panics and delivers exactly:
  after any sequence of subscriptions, cancellations, publications and receptions, for
  services and configurations, no channel has been sent on or closed after being closed;
  a publication then leaves a token with every current subscriber of its key and changes no
  other channel.
\<close>
theorem bus_delivers_exactly:
  "\<not> ch_panic (busChans (fold bus_step as NewEventBus)) \<and>
   ch_full (busChans (PublishServiceChange ns g n (fold bus_step as NewEventBus))) c =
     (c \<in> set (subs_at (serviceSubs (fold bus_step as NewEventBus)) (serviceKey ns g n)) \<or>
      ch_full (busChans (fold bus_step as NewEventBus)) c) \<and>
   ch_full (busChans (PublishConfigChange ns g n (fold bus_step as NewEventBus))) c =
     (c \<in> set (subs_at (configSubs (fold bus_step as NewEventBus)) (serviceKey ns g n)) \<or>
      ch_full (busChans (fold bus_step as NewEventBus)) c)"
proof -
  have ok: "bus_ok (fold bus_step as NewEventBus)" by (rule bus_run_ok) simp
  then have "\<not> ch_panic (busChans (fold bus_step as NewEventBus))" by (simp add: bus_ok_def chans_ok_def)
  with svc_bus.publish_effect [OF ok, of ns g n] cfg_bus.publish_effect [OF ok, of ns g n] show ?thesis by simp
qed

lemma subscribers_listed:
  assumes "k \<in> set order" "k = serviceKey ns g n" "subs_at (serviceSubs b) k \<noteq> []"
    and "valid_utf8 ns" "valid_utf8 g" "valid_utf8 n"
    and "CHR ''#'' \<notin> set ns" "CHR ''#'' \<notin> set g" "CHR ''#'' \<notin> set n"
  shows "\<lparr>siNs = ns, siGrp = g, siSvc = n, siCnt = length (subs_at (serviceSubs b) k)\<rparr> \<in> set (GetServiceSubscribers order b)"
  using assms(1,3) parseKey_serviceKey [OF assms(4-9)]
  by (auto simp: GetServiceSubscribers_def assms(2) intro!: rev_image_eqI)

end
