(* ===== verification/MemTable.thy ===== *)
theory MemTable
  imports Gorm
begin

text \<open>
  An executable table that satisfies \<^const>\<open>gorm_table\<close>: the rows are a list, an operation
  never fails, string columns are compared exactly and the clock stands at 1. It is what
  the witnesses of the properties run on.
\<close>

definition mem_stamp :: "'r schema \<Rightarrow> 'r \<Rightarrow> 'r" where
  "mem_stamp sc r = sc_stamp sc 1 (sc_defaults sc r)"

definition mem_fresh :: "'r schema \<Rightarrow> 'r list \<Rightarrow> nat" where
  "mem_fresh sc xs = Suc (foldr (\<lambda>x. max (sc_id sc x)) xs 0)"

definition mem_upsert :: "'r schema \<Rightarrow> ('r \<Rightarrow> 'r \<Rightarrow> bool) \<Rightarrow> ('r \<Rightarrow> 'r \<Rightarrow> 'r) \<Rightarrow> 'r \<Rightarrow> 'r list \<Rightarrow> 'r list" where
  "mem_upsert sc conf asg r xs =
     (let n = mem_stamp sc r in
      if list_ex (conf n) xs then map (\<lambda>x. if conf n x then asg x n else x) xs
      else xs @ [sc_set_id sc (mem_fresh sc xs) n])"

definition mem_first :: "('r \<Rightarrow> bool) \<Rightarrow> 'r list \<Rightarrow> gerr + 'r" where
  "mem_first c xs = (case filter c xs of [] \<Rightarrow> Inl ErrRecordNotFound | x # _ \<Rightarrow> Inr x)"

definition mem_update :: "'r schema \<Rightarrow> ('r \<Rightarrow> bool) option \<Rightarrow> (int \<Rightarrow> 'r \<Rightarrow> 'r) \<Rightarrow> 'r list \<Rightarrow> gerr + 'r list" where
  "mem_update sc c f xs =
     (case c of None \<Rightarrow> Inl ErrMissingWhereClause
      | Some p \<Rightarrow> Inr (map (\<lambda>x. if p x then sc_touch sc 1 (f 1 x) else x) xs))"

definition mem_table :: "'r schema \<Rightarrow> 'r list \<Rightarrow> ('r list, 'r) table" where
  "mem_table sc xs = \<lparr>t_data = xs, t_coll = (=), t_rows = mset,
     t_find = (\<lambda>c d. Inr (filter c d)),
     t_page = (\<lambda>c off lmt d. Inr (take (nat lmt) (drop (nat off) (filter c d)))),
     t_page_desc = (\<lambda>c off lmt d.
        Inr (take (nat lmt) (drop (nat off) (rev (sort_key (sc_id sc) (filter c d)))))),
     t_first = mem_first,
     t_count = (\<lambda>c d. Inr (length (filter c d))),
     t_insert = (\<lambda>r d. Inr (mem_upsert sc (\<lambda>_ _. False) (\<lambda>x _. x) r d)),
     t_upsert = (\<lambda>conf asg r d. Inr (mem_upsert sc conf asg r d)),
     t_update = mem_update sc,
     t_delete = (\<lambda>c d. Inr (filter (\<lambda>x. \<not> c x) d))\<rparr>"

lemma mem_fresh_gt: "x \<in> set xs \<Longrightarrow> sc_id sc x < mem_fresh sc xs"
  unfolding mem_fresh_def by (induction xs) (auto simp: less_Suc_eq_le)

lemma mem_upsert_effect: "upsert_effect sc conf asg r (mset xs) (mset (mem_upsert sc conf asg r xs))"
proof -
  let ?n = "sc_stamp sc 1 (sc_defaults sc r)"
  have "if \<exists>x \<in># mset xs. conf ?n x
        then mset (mem_upsert sc conf asg r xs) = image_mset (\<lambda>x. if conf ?n x then asg x ?n else x) (mset xs)
        else 0 < mem_fresh sc xs \<and> mem_fresh sc xs \<notin> sc_id sc ` set_mset (mset xs) \<and>
             mset (mem_upsert sc conf asg r xs) = add_mset (sc_set_id sc (mem_fresh sc xs) ?n) (mset xs)"
    using mem_fresh_gt [of _ xs sc]
    by (auto simp: mem_upsert_def mem_stamp_def Let_def list_ex_iff) (auto simp: mem_fresh_def)
  then show ?thesis
    unfolding upsert_effect_def Let_def by (rule exI [of _ 1, OF exI [of _ "mem_fresh sc xs"]])
qed

lemma mem_table_read: "read_laws sc (mem_table sc xs)"
proof -
  have ordered: "sorted_wrt (\<lambda>x y. sc_id sc y \<le> sc_id sc x) (rev (sort_key (sc_id sc) ys))" for ys
    using sorted_sort_key [of "sc_id sc" ys] by (simp add: sorted_wrt_rev sorted_wrt_map)
  have desc: "\<exists>ys. mset ys = filter_mset c (mset d) \<and> sorted_wrt (\<lambda>x y. sc_id sc y \<le> sc_id sc x) ys \<and>
      take n (drop m (rev (sort_key (sc_id sc) (filter c d)))) = take n (drop m ys)" for c d n m
    by (intro exI [of _ "rev (sort_key (sc_id sc) (filter c d))"] conjI ordered) simp_all
  have page: "\<exists>ys. mset ys = filter_mset c (mset d) \<and>
      take n (drop m (filter c d)) = take n (drop m ys)" for c d n m
    by (rule exI [of _ "filter c d"]) simp
  have first_row: "mem_first c d = Inr r \<Longrightarrow> r \<in> set d \<and> c r" for c d r
    by (auto simp: mem_first_def split: list.splits dest!: filter_eq_ConsD)
  have first_err: "mem_first c d = Inl e \<Longrightarrow> e = ErrRecordNotFound \<and> (\<forall>x. x \<in> set d \<longrightarrow> \<not> c x)" for c d e
    by (auto simp: mem_first_def filter_empty_conv split: list.splits)
  have len: "length (filter c d) = size (filter_mset c (mset d))" for c d
    by (metis mset_filter size_mset)
  show ?thesis
    unfolding read_laws_def mem_table_def
    using desc page len by (auto simp: mset_filter dest: first_row first_err)
qed

lemma mem_table_write: "write_laws sc (mem_table sc xs)"
proof -
  have upd: "\<exists>t u. mset (map (\<lambda>x. if c x then sc_touch sc 1 (f 1 x) else x) d) =
      image_mset (\<lambda>x. if c x then sc_touch sc u (f t x) else x) (mset d)" for c f d
    by (intro exI [of _ 1]) simp
  show ?thesis
    unfolding write_laws_def mem_table_def update_effect_def
    using upd by (auto simp: mem_upsert_effect mem_update_def)
qed

lemma mem_table_gorm [simp]: "gorm_table sc (mem_table sc xs)"
  by (simp add: gorm_table_def mem_table_read mem_table_write) (simp add: mem_table_def identity_equivp)

lemma mem_updates_succeed [simp]: "updates_succeed (mem_table sc xs)"
  by (simp add: updates_succeed_def mem_table_def mem_update_def)

lemma mem_rows [simp]: "rows (mem_table sc xs) = mset xs"
  by (simp add: rows_def mem_table_def)

text \<open>The operations on a memory table are again operations on a memory table.\<close>

lemma mem_ops:
  "tb_find c (mem_table sc xs) = Inr (filter c xs)"
  "tb_first c (mem_table sc xs) = mem_first c xs"
  "tb_count c (mem_table sc xs) = Inr (length (filter c xs))"
  "tb_page c off lmt (mem_table sc xs) = Inr (take (nat lmt) (drop (nat off) (filter c xs)))"
  "tb_insert r (mem_table sc xs) = Inr (mem_table sc (mem_upsert sc (\<lambda>_ _. False) (\<lambda>x _. x) r xs))"
  "tb_upsert conf asg r (mem_table sc xs) = Inr (mem_table sc (mem_upsert sc conf asg r xs))"
  "tb_delete c (mem_table sc xs) = Inr (mem_table sc (filter (\<lambda>x. \<not> c x) xs))"
  "tb_update None f (mem_table sc xs) = Inl ErrMissingWhereClause"
  "tb_update (Some p) f (mem_table sc xs) =
     Inr (mem_table sc (map (\<lambda>x. if p x then sc_touch sc 1 (f 1 x) else x) xs))"
  "t_coll (mem_table sc xs) = (=)"
  by (simp_all add: tb_find_def tb_first_def tb_count_def tb_page_def tb_insert_def tb_upsert_def
      tb_delete_def tb_update_def put_data_def mem_table_def mem_update_def)

text \<open>
  The tables that the program creates ignore case (\<^verbatim>\<open>utf8mb4_unicode_ci\<close>): the same table in
  memory with another comparison of its string columns.
\<close>

definition coll_table :: "(string \<Rightarrow> string \<Rightarrow> bool) \<Rightarrow> 'r schema \<Rightarrow> 'r list \<Rightarrow> ('r list, 'r) table" where
  "coll_table c sc xs = (mem_table sc xs)\<lparr>t_coll := c\<rparr>"

lemma coll_table_reads: "read_laws sc (coll_table c sc xs)"
proof -
  have "read_laws sc (coll_table c sc xs) = read_laws sc (mem_table sc xs)"
    by (simp add: coll_table_def read_laws_def)
  then show ?thesis by (simp add: mem_table_read)
qed

lemma coll_table_writes: "write_laws sc (coll_table c sc xs)"
proof -
  have "write_laws sc (coll_table c sc xs) = write_laws sc (mem_table sc xs)"
    by (simp add: coll_table_def write_laws_def)
  then show ?thesis by (simp add: mem_table_write)
qed

lemma coll_table_gorm: "equivp c \<Longrightarrow> gorm_table sc (coll_table c sc xs)"
  by (simp add: gorm_table_def coll_table_reads coll_table_writes) (simp add: coll_table_def)

lemma coll_ops:
  "tb_find p (coll_table c sc xs) = Inr (filter p xs)"
  "tb_first p (coll_table c sc xs) = mem_first p xs"
  "tb_insert r (coll_table c sc xs) = Inr (coll_table c sc (mem_upsert sc (\<lambda>_ _. False) (\<lambda>x _. x) r xs))"
  "tb_upsert conf asg r (coll_table c sc xs) = Inr (coll_table c sc (mem_upsert sc conf asg r xs))"
  "tb_delete p (coll_table c sc xs) = Inr (coll_table c sc (filter (\<lambda>x. \<not> p x) xs))"
  "t_coll (coll_table c sc xs) = c" "rows (coll_table c sc xs) = mset xs"
  by (simp_all add: tb_find_def tb_first_def tb_insert_def tb_upsert_def tb_delete_def put_data_def mem_table_def
      coll_table_def rows_def)

definition ignore_case :: "string \<Rightarrow> string \<Rightarrow> bool" where
  "ignore_case a b \<longleftrightarrow> to_lower a = to_lower b"

lemma ignore_case_equivp: "equivp ignore_case"
  by (rule equivpI) (auto simp: ignore_case_def reflp_def symp_def transp_def)

lemmas mem_eval = mem_ops mem_upsert_def mem_stamp_def mem_first_def mem_fresh_def Let_def

end
