(* ===== verification/Naming.thy ===== *)
theory Naming
  imports Storage EventBus MemTable
begin

text \<open>
  \<^verbatim>\<open>src/pkg/naming/naming.go\<close>: registration and discovery. The service holds the instance
  and service stores and the event bus; a method that changes them returns the new
  registry with its result. \<open>now\<close> is the value of \<^verbatim>\<open>time.Now()\<close> in the call.
\<close>

record ('i, 's) registry =
  rgInst :: "('i, ServiceInstance) table"
  rgSvc :: "('s, Service) table"
  rgBus :: bus

section \<open>Operations\<close>

definition register_defaults :: "int \<Rightarrow> ServiceInstance \<Rightarrow> ServiceInstance" where
  "register_defaults now inst = inst\<lparr>
     siNamespaceID := or_else (siNamespaceID inst) ''public'',
     siGroupName := or_else (siGroupName inst) ''DEFAULT_GROUP'',
     siClusterName := or_else (siClusterName inst) ''DEFAULT'',
     siWeight := (if siWeight inst \<le> 0 then 1 else siWeight inst),
     siHealthy := True, siEnabled := True, siLastBeat := now\<rparr>"

definition parent_service :: "ServiceInstance \<Rightarrow> Service" where
  "parent_service inst = zero_svc\<lparr>svNamespaceID := siNamespaceID inst,
     svGroupName := siGroupName inst, svServiceName := siServiceName inst\<rparr>"

text \<open>On success the caller's struct has been filled in: it is the value of the result.\<close>

definition RegisterInstance ::
  "int \<Rightarrow> ServiceInstance \<Rightarrow> ('i, 's) registry \<Rightarrow> ('i, 's) registry \<times> (err + ServiceInstance)" where
  "RegisterInstance now inst0 R =
     (if siServiceName inst0 = [] \<or> siIP inst0 = [] \<or> siPort inst0 \<le> 0
      then (R, Inl (EMsg ''serviceName, ip and port are required''))
      else let inst = register_defaults now inst0
           in case ServiceStore_Create (parent_service inst) (rgSvc R) of
                Inl e \<Rightarrow> (R, Inl (EDB e))
              | Inr S \<Rightarrow>
                  (case InstanceStore_Create inst (rgInst R) of
                     Inl e \<Rightarrow> (R\<lparr>rgSvc := S\<rparr>, Inl (EDB e))
                   | Inr I \<Rightarrow>
                       (R\<lparr>rgSvc := S, rgInst := I,
                          rgBus := PublishServiceChange (siNamespaceID inst) (siGroupName inst)
                                     (siServiceName inst) (rgBus R)\<rparr>, Inr inst)))"

definition DeregisterInstance ::
  "inst_key \<Rightarrow> ('i, 's) registry \<Rightarrow> ('i, 's) registry \<times> (err + unit)" where
  "DeregisterInstance k R =
     (case InstanceStore_Delete k (rgInst R) of
        Inl e \<Rightarrow> (R, Inl (EDB e))
      | Inr I \<Rightarrow>
          (case k of (ns, grp, svc, cl, ip, port) \<Rightarrow>
             (R\<lparr>rgInst := I, rgBus := PublishServiceChange ns grp svc (rgBus R)\<rparr>, Inr ())))"

definition UpdateInstance ::
  "ServiceInstance \<Rightarrow> ('i, 's) registry \<Rightarrow> ('i, 's) registry \<times> (err + unit)" where
  "UpdateInstance inst R =
     (case InstanceStore_Update inst (rgInst R) of
        Inl e \<Rightarrow> (R, Inl (EDB e))
      | Inr I \<Rightarrow>
          (R\<lparr>rgInst := I, rgBus := PublishServiceChange (siNamespaceID inst) (siGroupName inst)
                                     (siServiceName inst) (rgBus R)\<rparr>, Inr ()))"

definition GetInstance :: "inst_key \<Rightarrow> ('i, 's) registry \<Rightarrow> err + ServiceInstance" where
  "GetInstance k R = lift_err (InstanceStore_Get k (rgInst R))"

definition GetInstances ::
  "string \<Rightarrow> string \<Rightarrow> string \<Rightarrow> string list \<Rightarrow> bool \<Rightarrow> ('i, 's) registry \<Rightarrow> err + ServiceInstance list" where
  "GetInstances ns grp svc clusters healthyOnly R =
     (case InstanceStore_ListByClusters ns grp svc clusters (rgInst R) of
        Inl e \<Rightarrow> Inl (EDB e)
      | Inr xs \<Rightarrow> Inr (if healthyOnly then filter (\<lambda>i. siHealthy i \<and> siEnabled i) xs else xs))"

definition Heartbeat :: "inst_key \<Rightarrow> ('i, 's) registry \<Rightarrow> ('i, 's) registry \<times> (err + unit)" where
  "Heartbeat k R =
     (case InstanceStore_UpdateHeartbeat k (rgInst R) of
        Inl e \<Rightarrow> (R, Inl (EDB e))
      | Inr I \<Rightarrow> (R\<lparr>rgInst := I\<rparr>, Inr ()))"

definition GetService ::
  "string \<Rightarrow> string \<Rightarrow> string \<Rightarrow> ('i, 's) registry \<Rightarrow> err + (Service \<times> ServiceInstance list)" where
  "GetService ns grp svc R =
     (case ServiceStore_Get (ns, grp, svc) (rgSvc R) of
        Inl e \<Rightarrow> Inl (EDB e)
      | Inr s \<Rightarrow>
          (case InstanceStore_List ns grp svc (rgInst R) of
             Inl e \<Rightarrow> Inl (EDB e)
           | Inr xs \<Rightarrow> Inr (s, xs)))"

definition ListServices ::
  "string \<Rightarrow> string \<Rightarrow> int \<Rightarrow> int \<Rightarrow> ('i, 's) registry \<Rightarrow> err + (Service list \<times> nat)" where
  "ListServices ns grp pageNo pageSize R =
     lift_err (ServiceStore_List ns grp (page_offset pageNo pageSize) (page_size pageSize) (rgSvc R))"

definition CreateService :: "Service \<Rightarrow> ('i, 's) registry \<Rightarrow> ('i, 's) registry \<times> (err + unit)" where
  "CreateService svc R =
     (case ServiceStore_Create
             (svc\<lparr>svNamespaceID := or_else (svNamespaceID svc) ''public'',
                  svGroupName := or_else (svGroupName svc) ''DEFAULT_GROUP''\<rparr>) (rgSvc R) of
        Inl e \<Rightarrow> (R, Inl (EDB e))
      | Inr S \<Rightarrow> (R\<lparr>rgSvc := S\<rparr>, Inr ()))"

definition ParseClusters :: "string \<Rightarrow> string list" where
  "ParseClusters s = (if s = [] then [] else filter (\<lambda>p. p \<noteq> []) (map trim_space (split_on CHR '','' s)))"

lemmas naming_defs [svc_defs] =
  RegisterInstance_def DeregisterInstance_def UpdateInstance_def Heartbeat_def CreateService_def

section \<open>Registration\<close>

lemma register_Inr:
  assumes "RegisterInstance now inst0 R = (R', Inr inst)"
  shows "inst = register_defaults now inst0 \<and>
    ServiceStore_Create (parent_service inst) (rgSvc R) = Inr (rgSvc R') \<and>
    InstanceStore_Create inst (rgInst R) = Inr (rgInst R') \<and>
    rgBus R' = PublishServiceChange (siNamespaceID inst) (siGroupName inst) (siServiceName inst) (rgBus R) \<and>
    siServiceName inst0 \<noteq> [] \<and> siIP inst0 \<noteq> [] \<and> 0 < siPort inst0"
  using assms by (auto simp: RegisterInstance_def Let_def split: if_splits sum.splits)

lemma f64_one_pos: "\<not> (1 :: f64) \<le> 0" "(1 :: f64) \<noteq> 0"
  by (simp_all add: one_f64_def zero_f64_def)

lemma register_weight:
  "\<not> siWeight (register_defaults now inst0) \<le> 0"
  by (simp add: register_defaults_def f64_one_pos)

lemma zero_le_zero: "(0 :: f64) \<le> 0"
  by (simp add: zero_f64_def)

text \<open>What gorm's tag defaults do to a struct that registration has filled in: only the
  \<^verbatim>\<open>Ephemeral\<close> flag is left for them to change.\<close>

lemma register_tag_defaults:
  assumes "inst = register_defaults now inst0"
  shows "inst_tag_defaults inst = inst\<lparr>siEphemeral := True\<rparr>"
proof -
  have "siWeight inst \<noteq> 0" using register_weight [of now inst0] zero_le_zero assms by metis
  then show ?thesis
    by (simp add: assms inst_tag_defaults_def register_defaults_def)
qed

lemma stored_inst:
  assumes "inst = register_defaults now inst0" "istore.stored inst x"
  shows "siWeight x = siWeight inst \<and> siHealthy x \<and> siEnabled x \<and> siEphemeral x \<and>
         siMetadata x = siMetadata inst \<and> siLastBeat x = now"
proof -
  from assms(2) obtain t i y where x:
    "let n = sc_stamp inst_schema t (sc_defaults inst_schema inst)
     in x = inst_assign y n \<or> x = sc_set_id inst_schema i n"
    unfolding istore.stored_def by blast
  have r: "siHealthy inst" "siEnabled inst" "siLastBeat inst = now"
    by (simp_all add: assms(1) register_defaults_def)
  show ?thesis
    using x r by (auto simp: Let_def inst_assign_def register_tag_defaults [OF assms(1)])
qed

lemma inst_key_tag: "inst = register_defaults now inst0 \<Longrightarrow> inst_key (inst_tag_defaults inst) = inst_key inst"
  by (simp add: register_tag_defaults inst_key_def)

text \<open>
  C1. After a successful registration, looking the instance up under its (normalised) key
  finds it - unless the database itself fails - healthy, enabled, with the weight after
  defaulting, the metadata given, and the registration time as its last heartbeat. This
  holds whether or not the instance was registered before.
\<close>
theorem register_then_get:
  assumes "gorm_table inst_schema (rgInst R)"
    and "RegisterInstance now inst0 R = (R', Inr inst)"
  shows "case GetInstance (inst_key inst) R' of
           Inr x \<Rightarrow> siWeight x = siWeight inst \<and> siHealthy x \<and> siEnabled x \<and>
                    siMetadata x = siMetadata inst0 \<and> siLastBeat x = now
         | Inl e \<Rightarrow> \<exists>m. e = EDB (ErrDB m)"
proof -
  from register_Inr [OF assms(2)] have c: "InstanceStore_Create inst (rgInst R) = Inr (rgInst R')"
    and i: "inst = register_defaults now inst0"
    by blast+
  have k: "inst_key (sc_defaults inst_schema inst) = inst_key inst"
    using inst_key_tag [OF i] by simp
  have m: "siMetadata inst = siMetadata inst0" by (simp add: i register_defaults_def)
  show ?thesis
  proof (cases "InstanceStore_Get (inst_key inst) (rgInst R')")
    case (Inl e)
    then show ?thesis
      using istore.put_get(2) [OF assms(1) c, unfolded k] by (simp add: GetInstance_def db_failure_def)
  next
    case (Inr x)
    then show ?thesis
      using istore.put_get(1) [OF assms(1) c, unfolded k] stored_inst [OF i] by (simp add: GetInstance_def m)
  qed
qed

text \<open>A concrete registration: an empty registry, one instance.\<close>

definition demo_inst :: ServiceInstance where
  "demo_inst = zero_inst\<lparr>siServiceName := ''order'', siIP := ''10.0.0.1'', siPort := 8080, siMetadata := ''{}''\<rparr>"

definition demo_reg :: "(ServiceInstance list, Service list) registry" where
  "demo_reg = \<lparr>rgInst = mem_table inst_schema [], rgSvc = mem_table svc_schema [], rgBus = NewEventBus\<rparr>"

definition demo_row :: ServiceInstance where
  "demo_row = \<lparr>siID = 1, siNamespaceID = ''public'', siGroupName = ''DEFAULT_GROUP'',
     siServiceName = ''order'', siClusterName = ''DEFAULT'', siIP = ''10.0.0.1'', siPort = 8080,
     siWeight = 1, siHealthy = True, siEnabled = True, siEphemeral = True, siMetadata = ''{}'',
     siLastBeat = 7, siCreatedAt = 1, siUpdatedAt = 1\<rparr>"

definition demo_svc_row :: Service where
  "demo_svc_row = \<lparr>svID = 1, svNamespaceID = ''public'', svGroupName = ''DEFAULT_GROUP'',
     svServiceName = ''order'', svProtectThreshold = 0, svMetadata = [], svHealthCheckType = ''ACTIVE'',
     svHealthCheckProto = ''TCP'', svHealthCheckPath = [], svHealthCheckPort = 0,
     svActiveInterval = 5, svPassiveWindow = 60, svPassiveThreshold = 5, svCreatedAt = 1, svUpdatedAt = 1\<rparr>"

definition demo_reg1 :: "(ServiceInstance list, Service list) registry" where
  "demo_reg1 = \<lparr>rgInst = mem_table inst_schema [demo_row], rgSvc = mem_table svc_schema [demo_svc_row],
     rgBus = NewEventBus\<rparr>"

lemma publish_no_subs [simp]:
  "PublishServiceChange ns g n NewEventBus = NewEventBus"
  "PublishConfigChange ns g n NewEventBus = NewEventBus"
  by (simp_all add: PublishServiceChange_def PublishConfigChange_def NewEventBus_def subs_at_def send_all_def)

lemma demo_normalised:
  "register_defaults 7 demo_inst = demo_row\<lparr>siID := 0, siEphemeral := False, siCreatedAt := 0, siUpdatedAt := 0\<rparr>"
  by (simp add: demo_inst_def demo_row_def register_defaults_def zero_inst_def zero_le_zero)

lemma demo_register:
  "RegisterInstance 7 demo_inst demo_reg = (demo_reg1, Inr (register_defaults 7 demo_inst))"
proof -
  have s: "ServiceStore_Create (parent_service (register_defaults 7 demo_inst)) (rgSvc demo_reg)
      = Inr (mem_table svc_schema [demo_svc_row])"
    by (simp add: ServiceStore_Create_def demo_reg_def mem_eval parent_service_def demo_normalised
        demo_row_def demo_svc_row_def zero_svc_def svc_tag_defaults_def or_int_def)
  have i: "InstanceStore_Create (register_defaults 7 demo_inst) (rgInst demo_reg)
      = Inr (mem_table inst_schema [demo_row])"
    by (simp add: InstanceStore_Create_def demo_reg_def mem_eval demo_normalised demo_row_def
        inst_tag_defaults_def or_int_def f64_one_pos)
  show ?thesis
    by (simp add: RegisterInstance_def s i Let_def) (simp add: demo_reg_def demo_reg1_def demo_inst_def)
qed

theorem register_then_get_witness:
  "case GetInstance (inst_key (register_defaults 7 demo_inst)) demo_reg1 of
     Inr x \<Rightarrow> siWeight x = siWeight (register_defaults 7 demo_inst) \<and> siHealthy x \<and> siEnabled x \<and>
              siMetadata x = siMetadata demo_inst \<and> siLastBeat x = 7
   | Inl e \<Rightarrow> \<exists>m. e = EDB (ErrDB m)"
  by (rule register_then_get [OF _ demo_register]) (simp add: demo_reg_def)

text \<open>
  An instance cannot be registered as persistent: whatever \<^verbatim>\<open>ephemeral\<close> flag the
  request carries, the stored row is ephemeral, because the zero value \<^verbatim>\<open>false\<close> of a column
  tagged \<^verbatim>\<open>default:true\<close> is replaced on insertion.
\<close>
theorem register_always_ephemeral:
  assumes "gorm_table inst_schema (rgInst R)"
    and "RegisterInstance now inst0 R = (R', Inr inst)"
    and "GetInstance (inst_key inst) R' = Inr x"
  shows "siEphemeral x"
proof -
  from register_Inr [OF assms(2)] have c: "InstanceStore_Create inst (rgInst R) = Inr (rgInst R')"
    and i: "inst = register_defaults now inst0"
    by blast+
  have "inst_key (sc_defaults inst_schema inst) = inst_key inst" using inst_key_tag [OF i] by simp
  then have "istore.stored inst x"
    using istore.put_get(1) [OF assms(1) c] assms(3) by (simp add: GetInstance_def)
  with i show ?thesis using stored_inst by blast
qed

lemma demo_get: "GetInstance (inst_key (register_defaults 7 demo_inst)) demo_reg1 = Inr demo_row"
  by (simp add: GetInstance_def InstanceStore_Get_def demo_reg1_def mem_eval demo_normalised inst_key_def demo_row_def)

theorem register_always_ephemeral_witness:
  "\<not> siEphemeral demo_inst \<and> siEphemeral demo_row"
proof -
  have "siEphemeral demo_row"
    by (rule register_always_ephemeral [OF _ demo_register demo_get]) (simp add: demo_reg_def)
  then show ?thesis by (simp add: demo_inst_def zero_inst_def)
qed

section \<open>The parent service\<close>

lemma parent_tag_defaults:
  "siNamespaceID inst \<noteq> [] \<Longrightarrow> siGroupName inst \<noteq> [] \<Longrightarrow>
   svc_tag_defaults (parent_service inst) = (parent_service inst)\<lparr>svHealthCheckType := ''ACTIVE'',
     svHealthCheckProto := ''TCP'', svActiveInterval := 5, svPassiveWindow := 60, svPassiveThreshold := 5\<rparr>"
  by (simp add: svc_tag_defaults_def parent_service_def zero_svc_def or_int_def)

text \<open>
  Registering an instance overwrites the configuration of its service: afterwards the
  service has the default health check (active TCP probing, interval 5, window 60,
  threshold 5), no metadata and protection threshold 0, whatever was configured before.
\<close>
theorem register_resets_service:
  assumes "gorm_table svc_schema (rgSvc R)"
    and "RegisterInstance now inst0 R = (R', Inr inst)"
    and "ServiceStore_Get (siNamespaceID inst, siGroupName inst, siServiceName inst) (rgSvc R') = Inr s"
  shows "svHealthCheckType s = ''ACTIVE'' \<and> svHealthCheckProto s = ''TCP'' \<and> svHealthCheckPath s = [] \<and>
         svHealthCheckPort s = 0 \<and> svActiveInterval s = 5 \<and> svPassiveWindow s = 60 \<and>
         svPassiveThreshold s = 5 \<and> svProtectThreshold s = 0 \<and> svMetadata s = []"
proof -
  from register_Inr [OF assms(2)] have c: "ServiceStore_Create (parent_service inst) (rgSvc R) = Inr (rgSvc R')"
    and i: "inst = register_defaults now inst0"
    by blast+
  have tags: "svc_tag_defaults (parent_service inst) = (parent_service inst)\<lparr>svHealthCheckType := ''ACTIVE'',
     svHealthCheckProto := ''TCP'', svActiveInterval := 5, svPassiveWindow := 60, svPassiveThreshold := 5\<rparr>"
    by (rule parent_tag_defaults) (simp_all add: i register_defaults_def)
  have "svc_key (sc_defaults svc_schema (parent_service inst))
      = (siNamespaceID inst, siGroupName inst, siServiceName inst)"
    by (simp add: tags svc_key_def) (simp add: parent_service_def)
  then have "sstore.stored (parent_service inst) s"
    using sstore.put_get(1) [OF assms(1) c] assms(3) by simp
  then obtain t k y where "let n = sc_stamp svc_schema t (sc_defaults svc_schema (parent_service inst))
      in s = svc_assign y n \<or> s = sc_set_id svc_schema k n"
    unfolding sstore.stored_def by blast
  then show ?thesis
    by (auto simp: Let_def tags svc_assign_def) (simp_all add: parent_service_def zero_svc_def)
qed

definition custom_svc_row :: Service where
  "custom_svc_row = demo_svc_row\<lparr>svHealthCheckType := ''PASSIVE'', svPassiveThreshold := 2, svMetadata := ''team=a''\<rparr>"

definition custom_reg :: "(ServiceInstance list, Service list) registry" where
  "custom_reg = demo_reg\<lparr>rgSvc := mem_table svc_schema [custom_svc_row]\<rparr>"

lemma custom_register:
  "\<exists>R'. RegisterInstance 7 demo_inst custom_reg = (R', Inr (register_defaults 7 demo_inst)) \<and>
        rgSvc R' = mem_table svc_schema [demo_svc_row]"
proof -
  have s: "ServiceStore_Create (parent_service (register_defaults 7 demo_inst)) (rgSvc custom_reg)
      = Inr (mem_table svc_schema [demo_svc_row])"
    by (simp add: ServiceStore_Create_def custom_reg_def mem_eval parent_service_def demo_normalised
        demo_row_def demo_svc_row_def custom_svc_row_def zero_svc_def svc_tag_defaults_def
        or_int_def svc_key_def svc_assign_def)
  have i: "InstanceStore_Create (register_defaults 7 demo_inst) (rgInst custom_reg)
      = Inr (mem_table inst_schema [demo_row])"
    by (simp add: InstanceStore_Create_def custom_reg_def demo_reg_def mem_eval demo_normalised demo_row_def
        inst_tag_defaults_def or_int_def f64_one_pos)
  show ?thesis by (simp add: RegisterInstance_def s i Let_def) (simp add: demo_inst_def)
qed

theorem register_resets_service_witness:
  "svHealthCheckType custom_svc_row = ''PASSIVE'' \<and> svPassiveThreshold custom_svc_row = 2 \<and>
   (\<exists>R' s. RegisterInstance 7 demo_inst custom_reg = (R', Inr (register_defaults 7 demo_inst)) \<and>
      ServiceStore_Get (''public'', ''DEFAULT_GROUP'', ''order'') (rgSvc R') = Inr s \<and>
      svHealthCheckType s = ''ACTIVE'' \<and> svPassiveThreshold s = 5)"
proof -
  obtain R' where r: "RegisterInstance 7 demo_inst custom_reg = (R', Inr (register_defaults 7 demo_inst))"
    and s: "rgSvc R' = mem_table svc_schema [demo_svc_row]"
    using custom_register by blast
  have g: "ServiceStore_Get (siNamespaceID (register_defaults 7 demo_inst), siGroupName (register_defaults 7 demo_inst),
      siServiceName (register_defaults 7 demo_inst)) (rgSvc R') = Inr demo_svc_row"
    by (simp add: s ServiceStore_Get_def mem_eval demo_normalised demo_row_def demo_svc_row_def)
  have "gorm_table svc_schema (rgSvc custom_reg)" by (simp add: custom_reg_def)
  from register_resets_service [OF this r g] g r show ?thesis
    by (auto simp: demo_normalised demo_row_def custom_svc_row_def)
qed

section \<open>Uniqueness and independence of the rows\<close>

text \<open>
  C5. Registration keeps the table of instances free of duplicates: at most one row per
  key (namespace, group, service, cluster, ip, port), also when the same instance is
  registered again; and it leaves the rows of every other key as they are.
\<close>
theorem register_unique_and_frame:
  assumes "gorm_table inst_schema (rgInst R)"
    and "key_unique inst_where inst_key (rgInst R)"
    and "RegisterInstance now inst0 R = (R', Inr inst)"
  shows "key_unique inst_where inst_key (rgInst R') \<and>
    (\<forall>k. \<not> inst_where (t_coll (rgInst R)) k inst \<longrightarrow>
       filter_mset (inst_where (t_coll (rgInst R)) k) (rows (rgInst R')) =
       filter_mset (inst_where (t_coll (rgInst R)) k) (rows (rgInst R)))"
proof -
  from register_Inr [OF assms(3)] have c: "InstanceStore_Create inst (rgInst R) = Inr (rgInst R')"
    and i: "inst = register_defaults now inst0"
    by blast+
  have "inst_where coll k (inst_tag_defaults inst) = inst_where coll k inst" for coll k
    by (cases k) (simp add: register_tag_defaults [OF i])
  then show ?thesis
    using istore.put_keeps_unique [OF assms(1,2) c] istore.put_frame [OF assms(1) c] by simp
qed

lemma inst_where_eq: "inst_where (=) k r \<longleftrightarrow> inst_key r = k"
  by (cases k) (auto simp: inst_key_def)

theorem register_unique_and_frame_witness:
  "key_unique inst_where inst_key (rgInst demo_reg1) \<and>
   filter_mset (inst_where (=) (''public'', ''g'', ''s'', ''c'', ''1.1.1.1'', 1)) (rows (rgInst demo_reg1)) = {#}"
proof -
  have u: "key_unique inst_where inst_key (rgInst demo_reg)"
    by (simp add: key_unique_def demo_reg_def)
  have g: "gorm_table inst_schema (rgInst demo_reg)" by (simp add: demo_reg_def)
  have c: "t_coll (rgInst demo_reg) = (=)" by (simp add: demo_reg_def mem_ops)
  have "\<not> inst_where (=) (''public'', ''g'', ''s'', ''c'', ''1.1.1.1'', 1) (register_defaults 7 demo_inst)"
    by (simp add: demo_normalised demo_row_def)
  with register_unique_and_frame [OF g u demo_register] show ?thesis
    unfolding c by (simp add: demo_reg_def del: inst_where.simps)
qed

section \<open>Deregistration\<close>

text \<open>
  C11. After a successful deregistration the instance is gone: a lookup under its key
  reports that no record exists (or the database fails); every row of another key is
  still there, and every subscriber of the service has been notified.
\<close>
theorem deregister_removes:
  assumes "gorm_table inst_schema (rgInst R)" and "bus_ok (rgBus R)"
    and "DeregisterInstance (ns, grp, svc, cl, ip, port) R = (R', Inr ())"
  shows "(\<exists>e. GetInstance (ns, grp, svc, cl, ip, port) R' = Inl (EDB e) \<and> (e = ErrRecordNotFound \<or> db_failure e)) \<and>
         rows (rgInst R') = filter_mset (\<lambda>r. \<not> inst_where (t_coll (rgInst R)) (ns, grp, svc, cl, ip, port) r) (rows (rgInst R)) \<and>
         (\<forall>c \<in> set (subs_at (serviceSubs (rgBus R)) (serviceKey ns grp svc)). ch_full (busChans (rgBus R')) c)"
proof -
  let ?k = "(ns, grp, svc, cl, ip, port)"
  from assms(3) have d: "tb_delete (inst_where (t_coll (rgInst R)) ?k) (rgInst R) = Inr (rgInst R')"
    and b: "rgBus R' = PublishServiceChange ns grp svc (rgBus R)"
    by (auto simp: DeregisterInstance_def InstanceStore_Delete_def split: sum.splits)
  have T: "gorm_table inst_schema (rgInst R')" "t_coll (rgInst R') = t_coll (rgInst R)"
    "rows (rgInst R') = filter_mset (\<lambda>r. \<not> inst_where (t_coll (rgInst R)) ?k r) (rows (rgInst R))"
    using tb_delete_rows [OF assms(1) d] by simp_all
  have "\<exists>e. InstanceStore_Get ?k (rgInst R') = Inl e \<and> (e = ErrRecordNotFound \<or> db_failure e)"
  proof (cases "InstanceStore_Get ?k (rgInst R')")
    case (Inl e)
    then show ?thesis using istore.get_err [OF T(1) Inl] by blast
  next
    case (Inr r)
    then show ?thesis using istore.get_row [OF T(1) Inr] by (simp add: T(2,3) del: inst_where.simps)
  qed
  then show ?thesis
    using T(3) svc_bus.publish_effect [OF assms(2), of ns grp svc]
    by (auto simp: GetInstance_def b simp del: inst_where.simps)
qed

theorem deregister_removes_witness:
  "\<exists>R'. DeregisterInstance (inst_key demo_row) demo_reg1 = (R', Inr ()) \<and> rows (rgInst R') = {#}"
proof -
  define R' where "R' = demo_reg1\<lparr>rgInst := mem_table inst_schema []\<rparr>"
  have d: "DeregisterInstance (''public'', ''DEFAULT_GROUP'', ''order'', ''DEFAULT'', ''10.0.0.1'', 8080) demo_reg1
      = (R', Inr ())"
    by (simp add: DeregisterInstance_def InstanceStore_Delete_def demo_reg1_def mem_eval demo_row_def R'_def)
  have "gorm_table inst_schema (rgInst demo_reg1)" "bus_ok (rgBus demo_reg1)" by (simp_all add: demo_reg1_def)
  from deregister_removes [OF this d] have
    "rows (rgInst R') = filter_mset (\<lambda>r. \<not> inst_where (t_coll (rgInst demo_reg1))
       (''public'', ''DEFAULT_GROUP'', ''order'', ''DEFAULT'', ''10.0.0.1'', 8080) r) (rows (rgInst demo_reg1))"
    by blast
  then show ?thesis using d
    by (auto simp: demo_reg1_def demo_row_def mem_ops inst_key_def)
qed

section \<open>Discovery\<close>

text \<open>
  C6. Discovery is exact: the instances returned for a service are the rows of that
  service, each once, restricted to the requested clusters when there are any, and to the
  healthy and enabled ones when only those are asked for.
\<close>
theorem get_instances_exact:
  assumes "gorm_table inst_schema (rgInst R)"
    and "GetInstances ns grp svc clusters healthyOnly R = Inr xs"
  shows "mset xs = filter_mset
     (\<lambda>r. svc_where (t_coll (rgInst R)) ns grp svc r \<and>
          (clusters = [] \<or> (\<exists>cl \<in> set clusters. t_coll (rgInst R) (siClusterName r) cl)) \<and>
          (healthyOnly \<longrightarrow> siHealthy r \<and> siEnabled r)) (rows (rgInst R))"
proof -
  from assms(2) obtain ys where
    y: "InstanceStore_ListByClusters ns grp svc clusters (rgInst R) = Inr ys"
    and x: "xs = (if healthyOnly then filter (\<lambda>i. siHealthy i \<and> siEnabled i) ys else ys)"
    by (auto simp: GetInstances_def split: sum.splits)
  have "mset ys = filter_mset (\<lambda>r. svc_where (t_coll (rgInst R)) ns grp svc r \<and>
      (clusters = [] \<or> list_ex (t_coll (rgInst R) (siClusterName r)) clusters)) (rows (rgInst R))"
    using tb_find_rows [OF assms(1) y [unfolded InstanceStore_ListByClusters_def]] .
  then show ?thesis
    by (auto simp: x list_ex_iff filter_filter_mset conj_ac intro!: filter_mset_cong)
qed

theorem get_instances_exact_witness:
  "GetInstances ''public'' ''DEFAULT_GROUP'' ''order'' [''DEFAULT''] True demo_reg1 = Inr [demo_row] \<and>
   {#demo_row#} = filter_mset (\<lambda>r. svc_where (=) ''public'' ''DEFAULT_GROUP'' ''order'' r \<and>
      ([''DEFAULT''] = [] \<or> (\<exists>cl \<in> set [''DEFAULT'']. siClusterName r = cl)) \<and>
      (True \<longrightarrow> siHealthy r \<and> siEnabled r)) {#demo_row#}"
proof -
  have g: "GetInstances ''public'' ''DEFAULT_GROUP'' ''order'' [''DEFAULT''] True demo_reg1 = Inr [demo_row]"
    by (simp add: GetInstances_def InstanceStore_ListByClusters_def demo_reg1_def mem_eval svc_where_def demo_row_def)
  have t: "gorm_table inst_schema (rgInst demo_reg1)" by (simp add: demo_reg1_def)
  from get_instances_exact [OF t g] g show ?thesis
    unfolding demo_reg1_def by (simp only: mem_rows mem_ops registry.simps mset.simps)
qed

lemma ParseClusters_parts:
  "p \<in> set (ParseClusters s) \<Longrightarrow> p \<noteq> [] \<and> CHR '','' \<notin> set p \<and> trim_space p = p \<and> set p \<subseteq> set s"
  using split_on_parts [of _ "CHR '',''" s] split_on_chars [of _ "CHR '',''" s] set_trim_space
  by (fastforce simp: ParseClusters_def split: if_splits)

definition join_with :: "char \<Rightarrow> string list \<Rightarrow> string" where
  "join_with c ws = (case ws of [] \<Rightarrow> [] | w # rest \<Rightarrow> w @ concat (map (\<lambda>x. c # x) rest))"

lemma split_on_join:
  assumes "\<forall>w \<in> set (w # ws). c \<notin> set w"
  shows "split_on c (w @ concat (map (\<lambda>x. c # x) ws)) = w # ws"
  using assms
proof (induction ws arbitrary: w)
  case (Cons v vs)
  then have "split_on c (w @ c # (v @ concat (map (\<lambda>x. c # x) vs))) = w # v # vs"
    by (subst split_on_append) auto
  then show ?case by simp
qed simp

text \<open>
  Parsing a comma-separated cluster list inverts writing one: names that are not
  empty, hold no comma and neither begin nor end with white space come back as they were.
\<close>
theorem ParseClusters_join:
  assumes "\<forall>w \<in> set ws. w \<noteq> [] \<and> CHR '','' \<notin> set w \<and> trim_space w = w"
  shows "ParseClusters (join_with CHR '','' ws) = ws"
proof (cases ws)
  case Nil
  then show ?thesis by (simp add: join_with_def ParseClusters_def)
next
  case (Cons w rest)
  have j: "join_with CHR '','' ws = w @ concat (map (\<lambda>x. CHR '','' # x) rest)"
    by (simp add: join_with_def Cons)
  have "w \<noteq> []" using assms Cons by simp
  moreover have "split_on CHR '','' (join_with CHR '','' ws) = w # rest"
    unfolding j by (rule split_on_join) (use assms Cons in simp)
  moreover have "map trim_space ws = ws" "filter (\<lambda>p. p \<noteq> []) ws = ws"
    using assms by (auto intro: map_idI filter_all)
  ultimately show ?thesis by (simp only: ParseClusters_def Cons) (simp add: join_with_def)
qed

theorem ParseClusters_join_witness: "ParseClusters ''east,west 2'' = [''east'', ''west 2'']"
proof -
  have "ParseClusters (join_with CHR '','' [''east'', ''west 2'']) = [''east'', ''west 2'']"
    by (rule ParseClusters_join) (simp add: trim_space_id is_space_def)
  then show ?thesis by (simp add: join_with_def)
qed

section \<open>Updates and pages\<close>

text \<open>
  An update of an instance that does not carry the database id never succeeds: gorm
  refuses an update without a condition, the registry is unchanged and nobody is notified.
\<close>
theorem update_without_id_fails:
  assumes "gorm_table inst_schema (rgInst R)" and "siID inst = 0"
  shows "UpdateInstance inst R = (R, Inl (EDB ErrMissingWhereClause))"
  using tb_update_no_cond [OF assms(1)] assms(2)
  by (simp add: UpdateInstance_def InstanceStore_Update_def)

theorem update_without_id_fails_witness:
  "UpdateInstance (demo_row\<lparr>siID := 0, siWeight := 1\<rparr>) demo_reg1 = (demo_reg1, Inl (EDB ErrMissingWhereClause))"
  by (rule update_without_id_fails) (simp_all add: demo_reg1_def)

text \<open>
  A page of services never exceeds the page size (20 when the request gives none),
  holds only services of the namespace and group asked for, none more often than it is
  stored, and the total is the number of all such services.
\<close>
theorem list_services_page:
  assumes "gorm_table svc_schema (rgSvc R)"
    and "ListServices ns grp pageNo pageSize R = Inr (xs, n)"
  shows "length xs \<le> nat (page_size pageSize) \<and>
         (let M = filter_mset (\<lambda>r. t_coll (rgSvc R) (svNamespaceID r) ns \<and>
                    (grp = [] \<or> t_coll (rgSvc R) (svGroupName r) grp)) (rows (rgSvc R))
          in mset xs \<subseteq># M \<and> n = size M)"
proof -
  let ?q = "\<lambda>r. t_coll (rgSvc R) (svNamespaceID r) ns \<and> (grp = [] \<or> t_coll (rgSvc R) (svGroupName r) grp)"
  from assms(2) have c: "tb_count ?q (rgSvc R) = Inr n"
    and p: "tb_page ?q (page_offset pageNo pageSize) (page_size pageSize) (rgSvc R) = Inr xs"
    by (auto simp: ListServices_def ServiceStore_List_def Let_def split: sum.splits)
  have "0 < page_size pageSize" by (simp add: page_size_def)
  from tb_page_rows [OF assms(1) this p] obtain ys where
    y: "mset ys = filter_mset ?q (rows (rgSvc R))"
    "xs = take (nat (page_size pageSize)) (drop (nat (page_offset pageNo pageSize)) ys)"
    by blast
  have "mset xs \<subseteq># mset ys"
    unfolding y(2) by (rule mset_page)
  then show ?thesis
    using tb_count_rows [OF assms(1) c] by (simp add: y Let_def)
qed

theorem list_services_page_witness:
  "ListServices ''public'' [] 1 0 demo_reg1 = Inr ([demo_svc_row], 1) \<and>
   length [demo_svc_row] \<le> nat (page_size 0)"
proof -
  have g: "ListServices ''public'' [] 1 0 demo_reg1 = Inr ([demo_svc_row], 1)"
    by (simp add: ListServices_def ServiceStore_List_def demo_reg1_def mem_ops demo_svc_row_def page_size_def
        page_offset_def page_no_def int64_def Let_def)
  have t: "gorm_table svc_schema (rgSvc demo_reg1)" by (simp add: demo_reg1_def)
  from list_services_page [OF t g] g show ?thesis by blast
qed

end
