(* ===== verification/GoHash.thy ===== *)
theory GoHash
  imports GoText
begin

text \<open>
  The checksums of Go's standard library the program computes: \<^verbatim>\<open>crypto/md5\<close> (config
  contents), \<^verbatim>\<open>crypto/sha256\<close> under \<^verbatim>\<open>crypto/hmac\<close> (tokens) and \<^verbatim>\<open>hash/crc32\<close>
  (consistent hashing), and \<^verbatim>\<open>encoding/base64\<close> in its raw URL alphabet. Bytes are 8-bit
  words. All are executable; their lengths and the base64 round trip are proved.
\<close>

unbundle bit_operations_syntax

section \<open>Bytes\<close>

type_synonym bytes = "8 word list"

definition bytes_of :: "string \<Rightarrow> bytes" where
  "bytes_of s = map of_char s"

definition text_of :: "bytes \<Rightarrow> string" where
  "text_of bs = map (\<lambda>b. char_of (unat b)) bs"

text \<open>Big-endian bytes of a word, as \<^verbatim>\<open>binary.BigEndian\<close> writes and reads them.\<close>

fun be_bytes :: "nat \<Rightarrow> 'a::len word \<Rightarrow> bytes" where
  "be_bytes 0 w = []"
| "be_bytes (Suc n) w = be_bytes n (drop_bit 8 w) @ [ucast w]"

definition be_word :: "bytes \<Rightarrow> 'a::len word" where
  "be_word bs = fold (\<lambda>b acc. push_bit 8 acc OR ucast b) bs 0"

definition pad_zeros :: "nat \<Rightarrow> nat" where
  "pad_zeros n = (119 - n mod 64) mod 64"

function chunks :: "nat \<Rightarrow> 'a list \<Rightarrow> 'a list list" where
  "chunks n xs = (if n = 0 \<or> xs = [] then [] else take n xs # chunks n (drop n xs))"
  by pat_completeness auto
termination by (relation "measure (length \<circ> snd)") auto

declare chunks.simps [simp del]

definition bit_length64 :: "nat \<Rightarrow> bytes" where
  "bit_length64 n = be_bytes 8 (word_of_nat (8 * n) :: 64 word)"

definition hex_digit :: "nat \<Rightarrow> char" where
  "hex_digit n = (if n < 10 then char_of (48 + n) else char_of (87 + n))"

definition hex :: "bytes \<Rightarrow> string" where
  "hex bs = concat (map (\<lambda>b. [hex_digit (unat b div 16), hex_digit (unat b mod 16)]) bs)"

section \<open>MD5\<close>

definition md5_k :: "32 word list" where
  "md5_k =
    [0xD76AA478, 0xE8C7B756, 0x242070DB, 0xC1BDCEEE, 0xF57C0FAF, 0x4787C62A, 0xA8304613, 0xFD469501,
     0x698098D8, 0x8B44F7AF, 0xFFFF5BB1, 0x895CD7BE, 0x6B901122, 0xFD987193, 0xA679438E, 0x49B40821,
     0xF61E2562, 0xC040B340, 0x265E5A51, 0xE9B6C7AA, 0xD62F105D, 0x02441453, 0xD8A1E681, 0xE7D3FBC8,
     0x21E1CDE6, 0xC33707D6, 0xF4D50D87, 0x455A14ED, 0xA9E3E905, 0xFCEFA3F8, 0x676F02D9, 0x8D2A4C8A,
     0xFFFA3942, 0x8771F681, 0x6D9D6122, 0xFDE5380C, 0xA4BEEA44, 0x4BDECFA9, 0xF6BB4B60, 0xBEBFBC70,
     0x289B7EC6, 0xEAA127FA, 0xD4EF3085, 0x04881D05, 0xD9D4D039, 0xE6DB99E5, 0x1FA27CF8, 0xC4AC5665,
     0xF4292244, 0x432AFF97, 0xAB9423A7, 0xFC93A039, 0x655B59C3, 0x8F0CCC92, 0xFFEFF47D, 0x85845DD1,
     0x6FA87E4F, 0xFE2CE6E0, 0xA3014314, 0x4E0811A1, 0xF7537E82, 0xBD3AF235, 0x2AD7D2BB, 0xEB86D391]"

definition md5_s :: "nat list" where
  "md5_s = concat (replicate 4 [7, 12, 17, 22]) @ concat (replicate 4 [5, 9, 14, 20]) @
     concat (replicate 4 [4, 11, 16, 23]) @ concat (replicate 4 [6, 10, 15, 21])"

type_synonym md5_state = "32 word \<times> 32 word \<times> 32 word \<times> 32 word"

definition md5_mix :: "nat \<Rightarrow> 32 word \<Rightarrow> 32 word \<Rightarrow> 32 word \<Rightarrow> 32 word \<times> nat" where
  "md5_mix i b c d =
     (if i < 16 then ((b AND c) OR (NOT b AND d), i)
      else if i < 32 then ((d AND b) OR (NOT d AND c), (5 * i + 1) mod 16)
      else if i < 48 then (b XOR c XOR d, (3 * i + 5) mod 16)
      else (c XOR (b OR NOT d), (7 * i) mod 16))"

definition md5_step :: "32 word list \<Rightarrow> nat \<Rightarrow> md5_state \<Rightarrow> md5_state" where
  "md5_step m i s =
     (case s of (a, b, c, d) \<Rightarrow> case md5_mix i b c d of (f, g) \<Rightarrow>
        (d, b + word_rotl (md5_s ! i) (f + a + md5_k ! i + m ! g), b, c))"

definition md5_block :: "bytes \<Rightarrow> md5_state \<Rightarrow> md5_state" where
  "md5_block bs s =
     (let m = map (\<lambda>w. be_word (rev w)) (chunks 4 bs) in
      case (s, fold (md5_step m) [0..<64] s) of
        ((a, b, c, d), (a', b', c', d')) \<Rightarrow> (a + a', b + b', c + c', d + d'))"

definition md5_init :: md5_state where
  "md5_init = (0x67452301, 0xEFCDAB89, 0x98BADCFE, 0x10325476)"

definition md5 :: "bytes \<Rightarrow> bytes" where
  "md5 bs =
     (let msg = bs @ [0x80] @ replicate (pad_zeros (length bs)) 0 @ rev (bit_length64 (length bs)) in
      case fold md5_block (chunks 64 msg) md5_init of
        (a, b, c, d) \<Rightarrow> concat (map (\<lambda>w. rev (be_bytes 4 w)) [a, b, c, d]))"

section \<open>SHA-256 and HMAC\<close>

definition sha256_k :: "32 word list" where
  "sha256_k =
    [0x428A2F98, 0x71374491, 0xB5C0FBCF, 0xE9B5DBA5, 0x3956C25B, 0x59F111F1, 0x923F82A4, 0xAB1C5ED5,
     0xD807AA98, 0x12835B01, 0x243185BE, 0x550C7DC3, 0x72BE5D74, 0x80DEB1FE, 0x9BDC06A7, 0xC19BF174,
     0xE49B69C1, 0xEFBE4786, 0x0FC19DC6, 0x240CA1CC, 0x2DE92C6F, 0x4A7484AA, 0x5CB0A9DC, 0x76F988DA,
     0x983E5152, 0xA831C66D, 0xB00327C8, 0xBF597FC7, 0xC6E00BF3, 0xD5A79147, 0x06CA6351, 0x14292967,
     0x27B70A85, 0x2E1B2138, 0x4D2C6DFC, 0x53380D13, 0x650A7354, 0x766A0ABB, 0x81C2C92E, 0x92722C85,
     0xA2BFE8A1, 0xA81A664B, 0xC24B8B70, 0xC76C51A3, 0xD192E819, 0xD6990624, 0xF40E3585, 0x106AA070,
     0x19A4C116, 0x1E376C08, 0x2748774C, 0x34B0BCB5, 0x391C0CB3, 0x4ED8AA4A, 0x5B9CCA4F, 0x682E6FF3,
     0x748F82EE, 0x78A5636F, 0x84C87814, 0x8CC70208, 0x90BEFFFA, 0xA4506CEB, 0xBEF9A3F7, 0xC67178F2]"

definition sha256_init :: "32 word list" where
  "sha256_init =
    [0x6A09E667, 0xBB67AE85, 0x3C6EF372, 0xA54FF53A, 0x510E527F, 0x9B05688C, 0x1F83D9AB, 0x5BE0CD19]"

fun sha256_extend :: "nat \<Rightarrow> 32 word list \<Rightarrow> 32 word list" where
  "sha256_extend 0 w = w"
| "sha256_extend (Suc n) w =
     (let i = length w; x = w ! (i - 15); y = w ! (i - 2);
          s0 = word_rotr 7 x XOR word_rotr 18 x XOR drop_bit 3 x;
          s1 = word_rotr 17 y XOR word_rotr 19 y XOR drop_bit 10 y
      in sha256_extend n (w @ [w ! (i - 16) + s0 + w ! (i - 7) + s1]))"

definition sha256_step :: "32 word \<times> 32 word \<Rightarrow> 32 word list \<Rightarrow> 32 word list" where
  "sha256_step kw v =
     (case v of
        [a, b, c, d, e, f, g, h] \<Rightarrow>
          let s1 = word_rotr 6 e XOR word_rotr 11 e XOR word_rotr 25 e;
              ch = (e AND f) XOR (NOT e AND g);
              t1 = h + s1 + ch + fst kw + snd kw;
              s0 = word_rotr 2 a XOR word_rotr 13 a XOR word_rotr 22 a;
              maj = (a AND b) XOR (a AND c) XOR (b AND c)
          in [t1 + s0 + maj, a, b, c, d + t1, e, f, g]
      | _ \<Rightarrow> v)"

definition sha256_block :: "bytes \<Rightarrow> 32 word list \<Rightarrow> 32 word list" where
  "sha256_block bs v =
     (let w = sha256_extend 48 (map be_word (chunks 4 bs))
      in map2 (+) v (fold sha256_step (zip sha256_k w) v))"

definition sha256 :: "bytes \<Rightarrow> bytes" where
  "sha256 bs =
     (let msg = bs @ [0x80] @ replicate (pad_zeros (length bs)) 0 @ bit_length64 (length bs)
      in concat (map (be_bytes 4) (fold sha256_block (chunks 64 msg) sha256_init)))"

definition hmac_sha256 :: "bytes \<Rightarrow> bytes \<Rightarrow> bytes" where
  "hmac_sha256 key msg =
     (let k = (if 64 < length key then sha256 key else key);
          k = k @ replicate (64 - length k) 0
      in sha256 (map (\<lambda>b. b XOR 0x5C) k @ sha256 (map (\<lambda>b. b XOR 0x36) k @ msg)))"

section \<open>CRC-32\<close>

definition crc32_bit :: "32 word \<Rightarrow> 32 word" where
  "crc32_bit c = (if bit c 0 then drop_bit 1 c XOR 0xEDB88320 else drop_bit 1 c)"

definition crc32_byte :: "8 word \<Rightarrow> 32 word \<Rightarrow> 32 word" where
  "crc32_byte b c = (crc32_bit ^^ 8) (c XOR ucast b)"

definition crc32 :: "bytes \<Rightarrow> 32 word" where
  "crc32 bs = NOT (fold crc32_byte bs (NOT 0))"


section \<open>Base64, raw URL alphabet\<close>

definition b64_alphabet :: string where
  "b64_alphabet = ''ABCDEFGHIJKLMNOPQRSTUVWXYZabcdefghijklmnopqrstuvwxyz0123456789-_''"

definition b64_char :: "nat \<Rightarrow> char" where
  "b64_char n = b64_alphabet ! n"

definition b64_val :: "char \<Rightarrow> nat option" where
  "b64_val c = List.find (\<lambda>i. b64_alphabet ! i = c) [0..<64]"

fun b64_groups :: "nat list \<Rightarrow> nat list" where
  "b64_groups (a # b # c # r) =
     a div 4 # (a mod 4 * 16 + b div 16) # (b mod 16 * 4 + c div 64) # c mod 64 # b64_groups r"
| "b64_groups [a, b] = [a div 4, a mod 4 * 16 + b div 16, b mod 16 * 4]"
| "b64_groups [a] = [a div 4, a mod 4 * 16]"
| "b64_groups [] = []"

definition b64_encode :: "bytes \<Rightarrow> string" where
  "b64_encode bs = map b64_char (b64_groups (map unat bs))"

fun b64_ungroup :: "nat list \<Rightarrow> nat list option" where
  "b64_ungroup (x # y # z # w # r) =
     map_option (\<lambda>bs. (x * 4 + y div 16) # (y mod 16 * 16 + z div 4) # (z mod 4 * 64 + w) # bs) (b64_ungroup r)"
| "b64_ungroup [x, y, z] = Some [x * 4 + y div 16, y mod 16 * 16 + z div 4]"
| "b64_ungroup [x, y] = Some [x * 4 + y div 16]"
| "b64_ungroup [x] = None"
| "b64_ungroup [] = Some []"

text \<open>The decoder skips line breaks and does not look at the unused low bits of the last
  character (the encoding is not \<^verbatim>\<open>Strict\<close>).\<close>

definition b64_decode :: "string \<Rightarrow> bytes option" where
  "b64_decode s =
     Option.bind (those (map b64_val (filter (\<lambda>c. c \<noteq> CHR 0x0A \<and> c \<noteq> CHR 0x0D) s)))
       (\<lambda>vs. map_option (map word_of_nat) (b64_ungroup vs))"

section \<open>Properties\<close>

lemma length_be_bytes [simp]: "length (be_bytes n w) = n"
  by (induction n arbitrary: w) simp_all

lemma be_word_snoc: "(be_word (bs @ [b]) :: 'a::len word) = push_bit 8 (be_word bs) OR ucast b"
  by (simp add: be_word_def)

lemma be_word_be_bytes:
  "be_word (be_bytes n w) = take_bit (8 * n) (w :: 'a::len word)"
proof (induction n arbitrary: w)
  case 0
  show ?case by (simp add: be_word_def)
next
  case (Suc n)
  have "(be_word (be_bytes (Suc n) w) :: 'a word) =
      push_bit 8 (take_bit (8 * n) (drop_bit 8 w)) OR ucast (ucast w :: 8 word)"
    by (simp add: be_word_snoc Suc)
  also have "\<dots> = take_bit (8 * Suc n) w"
    by (rule bit_word_eqI) (auto simp: bit_simps)
  finally show ?case .
qed

lemma be_word_64 [simp]: "be_word (be_bytes 8 w) = (w :: 64 word)"
  using be_word_be_bytes [of 8 w] by (simp add: take_bit_word_eq_self)

lemma length_sha256 [simp]: "length (sha256 bs) = 32"
proof -
  have step: "length v = 8 \<Longrightarrow> length (sha256_step kw v) = 8" for kw v
    by (auto simp: sha256_step_def Let_def split: list.splits)
  have steps: "length v = 8 \<Longrightarrow> length (fold sha256_step kws v) = 8" for kws v
    by (induction kws arbitrary: v) (simp_all add: step)
  have block: "length v = 8 \<Longrightarrow> length (sha256_block b v) = 8" for b v
    by (simp add: sha256_block_def Let_def steps)
  have blocks: "length v = 8 \<Longrightarrow> length (fold sha256_block bss v) = 8" for bss v
    by (induction bss arbitrary: v) (simp_all add: block)
  have "length (concat (map (be_bytes 4) ws)) = 4 * length ws" for ws :: "32 word list"
    by (induction ws) simp_all
  then show ?thesis
    by (simp add: sha256_def Let_def blocks sha256_init_def)
qed

lemma length_hmac [simp]: "length (hmac_sha256 k m) = 32"
  by (simp add: hmac_sha256_def Let_def)

lemma b64_alphabet_length [simp]: "length b64_alphabet = 64"
  by (simp add: b64_alphabet_def)

lemma b64_alphabet_distinct: "distinct b64_alphabet"
  by (simp add: b64_alphabet_def)

lemma find_distinct_nth:
  assumes "distinct xs" "i < length xs"
  shows "List.find (\<lambda>j. xs ! j = xs ! i) [0..<length xs] = Some i"
proof -
  have "\<exists>!k. k < length [0..<length xs] \<and> xs ! ([0..<length xs] ! k) = xs ! i"
    using assms by (auto simp: nth_eq_iff_index_eq)
  moreover have "\<And>j. j < i \<Longrightarrow> xs ! j \<noteq> xs ! i"
    using assms by (auto simp: nth_eq_iff_index_eq)
  ultimately show ?thesis
    using assms(2) by (auto simp: find_Some_iff intro!: exI [of _ i])
qed

lemma b64_val_char [simp]: "n < 64 \<Longrightarrow> b64_val (b64_char n) = Some n"
  using find_distinct_nth [OF b64_alphabet_distinct, of n]
  by (simp only: b64_val_def b64_char_def b64_alphabet_length)

lemma b64_char_plain: "n < 64 \<Longrightarrow> b64_char n \<noteq> CHR 0x0A \<and> b64_char n \<noteq> CHR 0x0D"
proof -
  assume "n < 64"
  then have "b64_char n \<in> set b64_alphabet" by (simp add: b64_char_def)
  moreover have "CHR 0x0A \<notin> set b64_alphabet" "CHR 0x0D \<notin> set b64_alphabet"
    by (simp_all add: b64_alphabet_def)
  ultimately show ?thesis by metis
qed

lemma b64_groups_small:
  "\<forall>a \<in> set xs. a < 256 \<Longrightarrow> v \<in> set (b64_groups xs) \<Longrightarrow> v < 64"
  by (induction xs rule: b64_groups.induct) auto

lemma b64_first: "(b::nat) < 256 \<Longrightarrow> a div 4 * 4 + (a mod 4 * 16 + b div 16) div 16 = a"
  by (simp add: div_less)

lemma b64_second: "(b::nat) < 256 \<Longrightarrow> c < 256 \<Longrightarrow>
    (a mod 4 * 16 + b div 16) mod 16 * 16 + (b mod 16 * 4 + c div 64) div 4 = b"
  by simp

lemma b64_third: "(c::nat) < 256 \<Longrightarrow> (b mod 16 * 4 + c div 64) mod 4 * 64 + c mod 64 = c"
  by simp

lemma b64_short: "a div 4 * 4 + a mod 4 * 16 div 16 = (a::nat)"
  "(b::nat) < 256 \<Longrightarrow> (a mod 4 * 16 + b div 16) mod 16 * 16 + b mod 16 * 4 div 4 = b"
  by simp_all

lemma b64_ungroup_groups:
  "\<forall>a \<in> set xs. a < 256 \<Longrightarrow> b64_ungroup (b64_groups xs) = Some xs"
proof (induction xs rule: b64_groups.induct)
  case (1 a b c r)
  then show ?case
    using b64_first [of b a] b64_second [of b c a] b64_third [of c b]
    by (simp only: b64_groups.simps b64_ungroup.simps list.set ball_simps) simp
next
  case (2 a b)
  then show ?case
    using b64_first [of b a] b64_short(2) [of b a]
    by (simp only: b64_groups.simps b64_ungroup.simps list.set ball_simps)
next
  case (3 a)
  show ?case by (simp only: b64_groups.simps b64_ungroup.simps b64_short)
qed simp

lemma unat_byte [simp]: "unat (b :: 8 word) < 256"
  using unsigned_less [of b, where ?'a = nat] by simp

lemma b64_groups_bytes: "v \<in> set (b64_groups (map unat (bs :: bytes))) \<Longrightarrow> v < 64"
  by (rule b64_groups_small [rotated]) auto

theorem b64_decode_encode: "b64_decode (b64_encode bs) = Some bs"
proof -
  let ?g = "b64_groups (map unat bs)"
  have f: "filter (\<lambda>c. c \<noteq> CHR 0x0A \<and> c \<noteq> CHR 0x0D) (b64_encode bs) = b64_encode bs"
    by (rule filter_all) (auto simp: b64_encode_def dest: b64_groups_bytes b64_char_plain)
  have "map b64_val (b64_encode bs) = map Some ?g"
    by (auto simp: b64_encode_def dest: b64_groups_bytes)
  moreover have "those (map Some vs) = Some vs" for vs :: "nat list"
    by (induction vs) simp_all
  moreover have "b64_ungroup ?g = Some (map unat bs)"
    by (rule b64_ungroup_groups) auto
  ultimately show ?thesis
    unfolding b64_decode_def f by (simp add: comp_def)
qed

end
