(* ===== verification/ConfigSvc.thy ===== *)
theory ConfigSvc
  imports Storage EventBus MemTable GoHash "HOL-Library.AList"
begin

text \<open>
  \<^verbatim>\<open>src/pkg/config/config.go\<close>: publishing, reading and deleting configuration items, their
  history, and the long poll. A Go map is an association list read by \<^const>\<open>map_of\<close> and
  written by \<^const>\<open>AList.update\<close>. The long poll is a function of the sequence of
  events its \<^verbatim>\<open>select\<close> takes: a tick, with the store as it is at that time, or the
  deadline.
\<close>

type_synonym gomap = "(string \<times> string) list"

record ('d, 'h) cfg_service =
  cfStore :: "('d, 'h) config_store"
  cfBus :: bus

section \<open>Operations\<close>

definition CalcMD5 :: "string \<Rightarrow> string" where
  "CalcMD5 content = hex (md5 (bytes_of content))"

definition new_item :: "string \<Rightarrow> string \<Rightarrow> string \<Rightarrow> string \<Rightarrow> string \<Rightarrow> ConfigItem" where
  "new_item ns grp did content typ = \<lparr>ciID = 0, ciNamespaceID = ns, ciGroupName = grp, ciDataID = did,
     ciContent = content, ciMD5 = CalcMD5 content, ciType = typ, ciCreatedAt = 0, ciUpdatedAt = 0\<rparr>"

definition new_history :: "string \<Rightarrow> string \<Rightarrow> string \<Rightarrow> string \<Rightarrow> string \<Rightarrow> string \<Rightarrow> ConfigHistory" where
  "new_history ns grp did content md5sum op = \<lparr>chID = 0, chNamespaceID = ns, chGroupName = grp,
     chDataID = did, chContent = content, chMD5 = md5sum, chOpType = op, chCreatedAt = 0\<rparr>"

definition PublishConfig ::
  "string \<Rightarrow> string \<Rightarrow> string \<Rightarrow> string \<Rightarrow> string \<Rightarrow> ('d, 'h) cfg_service
   \<Rightarrow> ('d, 'h) cfg_service \<times> (err + unit)" where
  "PublishConfig ns0 grp0 did content typ0 S =
     (if did = [] then (S, Inl (EMsg ''dataId is required''))
      else let ns = or_else ns0 ''public''; grp = or_else grp0 ''DEFAULT_GROUP''; typ = or_else typ0 ''text''
           in case ConfigStore_Publish (new_item ns grp did content typ)
                     (new_history ns grp did content (CalcMD5 content) ''U'') (cfStore S) of
                Inl e \<Rightarrow> (S, Inl (EDB e))
              | Inr st \<Rightarrow> (\<lparr>cfStore = st, cfBus = PublishConfigChange ns grp did (cfBus S)\<rparr>, Inr ()))"

definition GetConfig :: "string \<Rightarrow> string \<Rightarrow> string \<Rightarrow> ('d, 'h) cfg_service \<Rightarrow> err + ConfigItem" where
  "GetConfig ns grp did S =
     lift_err (ConfigStore_Get (or_else ns ''public'', or_else grp ''DEFAULT_GROUP'', did) (cfStore S))"

definition DeleteConfig ::
  "string \<Rightarrow> string \<Rightarrow> string \<Rightarrow> ('d, 'h) cfg_service \<Rightarrow> ('d, 'h) cfg_service \<times> (err + unit)" where
  "DeleteConfig ns0 grp0 did S =
     (let ns = or_else ns0 ''public''; grp = or_else grp0 ''DEFAULT_GROUP'';
          (content, md5sum) = (case ConfigStore_Get (ns, grp, did) (cfStore S) of
             Inl e \<Rightarrow> ([], CalcMD5 []) | Inr it \<Rightarrow> (ciContent it, ciMD5 it))
      in case ConfigStore_Delete (ns, grp, did) (new_history ns grp did content md5sum ''D'') (cfStore S) of
           Inl e \<Rightarrow> (S, Inl (EDB e))
         | Inr st \<Rightarrow> (\<lparr>cfStore = st, cfBus = PublishConfigChange ns grp did (cfBus S)\<rparr>, Inr ()))"


definition ListConfigs ::
  "(string \<Rightarrow> string \<Rightarrow> bool) \<Rightarrow> string \<Rightarrow> string \<Rightarrow> string \<Rightarrow> int \<Rightarrow> int \<Rightarrow> ('d, 'h) cfg_service
   \<Rightarrow> err + (ConfigItem list \<times> nat)" where
  "ListConfigs like ns grp did pageNo pageSize S =
     lift_err (ConfigStore_List like (or_else ns ''public'') grp did
       (page_offset pageNo pageSize) (page_size pageSize) (cfStore S))"

definition ConfigHistoryPage ::
  "string \<Rightarrow> string \<Rightarrow> string \<Rightarrow> int \<Rightarrow> int \<Rightarrow> ('d, 'h) cfg_service \<Rightarrow> err + (ConfigHistory list \<times> nat)" where
  "ConfigHistoryPage ns grp did pageNo pageSize S =
     lift_err (ConfigStore_History ns grp did (page_offset pageNo pageSize) (page_size pageSize) (cfStore S))"

definition GetAllMD5 :: "string \<Rightarrow> ('d, 'h) config_store \<Rightarrow> gerr + gomap" where
  "GetAllMD5 ns st =
     (case ConfigStore_ListAllMD5 ns st of
        Inl e \<Rightarrow> Inl e
      | Inr items \<Rightarrow> Inr (fold (\<lambda>it m. AList.update
            (serviceKey (ciNamespaceID it) (ciGroupName it) (ciDataID it)) (ciMD5 it) m) items []))"

section \<open>The long poll\<close>

text \<open>\<open>put_where\<close> is a loop over a map that writes some of its keys into another map.\<close>

definition put_where :: "(string \<Rightarrow> string \<Rightarrow> bool) \<Rightarrow> (string \<Rightarrow> string) \<Rightarrow> gomap \<Rightarrow> gomap \<Rightarrow> gomap" where
  "put_where p f src m = fold (\<lambda>(k, v) m. if p k v then AList.update k (f v) m else m) src m"

definition poll_changed :: "gomap \<Rightarrow> gomap \<Rightarrow> gomap" where
  "poll_changed client server =
     put_where (\<lambda>k _. map_of server k = None) (\<lambda>_. []) client
       (put_where (\<lambda>k h. map_of client k \<noteq> Some h) id server [])"

datatype ('d, 'h) poll_event = PollDeadline | PollTick "('d, 'h) config_store"

fun LongPoll :: "string \<Rightarrow> gomap \<Rightarrow> ('d, 'h) poll_event list \<Rightarrow> (gerr + gomap) option" where
  "LongPoll ns client [] = None"
| "LongPoll ns client (PollDeadline # _) = Some (Inr [])"
| "LongPoll ns client (PollTick st # evs) =
     (case GetAllMD5 ns st of
        Inl e \<Rightarrow> Some (Inl e)
      | Inr server \<Rightarrow>
          (let changed = poll_changed client server
           in if changed \<noteq> [] then Some (Inr changed) else LongPoll ns client evs))"

fun_cases LongPoll_returns: "LongPoll ns client evs = Some r"

lemmas config_defs [svc_defs] = PublishConfig_def GetConfig_def DeleteConfig_def

section \<open>Maps\<close>

lemma map_of_put_where:
  assumes "distinct (map fst src)"
  shows "map_of (put_where p f src m) =
    (\<lambda>k. case map_of src k of Some v \<Rightarrow> if p k v then Some (f v) else map_of m k | None \<Rightarrow> map_of m k)"
  using assms
proof (induction src arbitrary: m)
  case Nil
  show ?case by (simp add: put_where_def)
next
  case (Cons kv src)
  obtain k v where kv: "kv = (k, v)" by (cases kv)
  have k: "map_of src k = None" using Cons.prems by (simp add: kv map_of_eq_None_iff)
  have "put_where p f (kv # src) m = put_where p f src (if p k v then AList.update k (f v) m else m)"
    by (simp add: put_where_def kv)
  then show ?case
    using Cons k by (auto simp: kv update_conv' fun_eq_iff split: option.splits)
qed

lemma distinct_fold_update:
  "distinct (map fst m) \<Longrightarrow> distinct (map fst (fold (\<lambda>it m. AList.update (f it) (g it) m) xs m))"
  by (induction xs arbitrary: m) (simp_all add: distinct_update)

lemma GetAllMD5_distinct: "GetAllMD5 ns st = Inr m \<Longrightarrow> distinct (map fst m)"
  by (auto simp: GetAllMD5_def split: sum.splits intro!: distinct_fold_update)

definition md5_diff :: "(string \<rightharpoonup> string) \<Rightarrow> (string \<rightharpoonup> string) \<Rightarrow> string \<rightharpoonup> string" where
  "md5_diff client server k =
     (if client k = server k then None else Some (case server k of Some h \<Rightarrow> h | None \<Rightarrow> []))"

lemma poll_changed_diff:
  assumes "distinct (map fst client)" "distinct (map fst server)"
  shows "map_of (poll_changed client server) = md5_diff (map_of client) (map_of server)"
proof
  fix k
  show "map_of (poll_changed client server) k = md5_diff (map_of client) (map_of server) k"
    unfolding poll_changed_def map_of_put_where [OF assms(1)] map_of_put_where [OF assms(2)] md5_diff_def
    by (cases "map_of client k"; cases "map_of server k") (simp_all del: map_of_eq_Some_iff)
qed

lemma md5_diff_none: "md5_diff c s = Map.empty \<longleftrightarrow> c = s"
  by (rule iffI) (auto simp: md5_diff_def fun_eq_iff, metis option.distinct(1))

lemma poll_unchanged:
  assumes "distinct (map fst client)" "distinct (map fst server)"
  shows "poll_changed client server = [] \<longleftrightarrow> map_of client = map_of server"
  using poll_changed_diff [OF assms] md5_diff_none by (metis map_of_eq_empty_iff)


section \<open>Publishing\<close>

lemma cs_tx_Inr:
  assumes "cs_tx S step h = Inr S'"
  shows "step = Inr (cs_items S') \<and> tb_insert h (cs_hist S) = Inr (cs_hist S') \<and> cs_commit S' = cs_commit S"
  using assms by (auto simp: cs_tx_def split: sum.splits option.splits)

lemma history_row:
  assumes "gorm_table hist_schema T" "tb_insert h T = Inr T'"
    and "chNamespaceID h \<noteq> []" "chGroupName h \<noteq> []" "chOpType h \<noteq> []"
  shows "\<exists>r. rows T' = add_mset r (rows T) \<and> chID r \<notin> chID ` set_mset (rows T) \<and>
    chNamespaceID r = chNamespaceID h \<and> chGroupName r = chGroupName h \<and> chDataID r = chDataID h \<and>
    chContent r = chContent h \<and> chMD5 r = chMD5 h \<and> chOpType r = chOpType h"
proof -
  have d: "hist_tag_defaults h = h" using assms(3-5) by (simp add: hist_tag_defaults_def)
  from tb_insert_rows [OF assms(1,2)] obtain t i where
    "rows T' = add_mset (h\<lparr>chCreatedAt := t, chID := i\<rparr>) (rows T)" "i \<notin> chID ` set_mset (rows T)"
    by (auto simp: upsert_effect_def Let_def d)
  then show ?thesis by (intro exI [of _ "h\<lparr>chCreatedAt := t, chID := i\<rparr>"]) simp
qed

lemma publish_Inr:
  assumes "PublishConfig ns0 grp0 did content typ0 S = (S', Inr ())"
  defines "ns \<equiv> or_else ns0 ''public''" and "grp \<equiv> or_else grp0 ''DEFAULT_GROUP''"
    and "typ \<equiv> or_else typ0 ''text''"
  shows "upsert_item (new_item ns grp did content typ) (cs_items (cfStore S)) = Inr (cs_items (cfStore S')) \<and>
    tb_insert (new_history ns grp did content (CalcMD5 content) ''U'') (cs_hist (cfStore S)) = Inr (cs_hist (cfStore S')) \<and>
    cfBus S' = PublishConfigChange ns grp did (cfBus S) \<and> did \<noteq> []"
  using assms by (auto simp: PublishConfig_def ConfigStore_Publish_def Let_def split: if_splits sum.splits dest!: cs_tx_Inr)

lemma item_tag_defaults:
  "cfg_tag_defaults (new_item (or_else ns ''public'') (or_else grp ''DEFAULT_GROUP'') did c (or_else typ ''text''))
   = new_item (or_else ns ''public'') (or_else grp ''DEFAULT_GROUP'') did c (or_else typ ''text'')"
  by (simp add: cfg_tag_defaults_def new_item_def)

lemma item_key [simp]: "cfg_key (new_item ns grp did c typ) = (ns, grp, did)"
  by (simp add: cfg_key_def new_item_def)

lemma stored_item:
  assumes "cstore.stored (new_item (or_else ns ''public'') (or_else grp ''DEFAULT_GROUP'') did c (or_else typ ''text'')) x"
  shows "ciContent x = c \<and> ciMD5 x = CalcMD5 c \<and> ciType x = or_else typ ''text''"
  using assms unfolding cstore.stored_def Let_def
  by (auto simp: item_tag_defaults) (auto simp: cfg_assign_def new_item_def)

lemma publish_shows:
  assumes "gorm_table cfg_schema (cs_items (cfStore S))" "PublishConfig ns grp did content typ S = (S', Inr ())"
  shows "case GetConfig ns grp did S' of
           Inr it \<Rightarrow> ciContent it = content \<and> ciMD5 it = CalcMD5 content \<and> ciType it = or_else typ ''text''
         | Inl e \<Rightarrow> \<exists>m. e = EDB (ErrDB m)"
proof -
  note put = publish_Inr [OF assms(2), THEN conjunct1]
  let ?k = "(or_else ns ''public'', or_else grp ''DEFAULT_GROUP'', did)"
  note g = cstore.put_get [OF assms(1) put, unfolded cfg_schema_simps item_tag_defaults item_key]
  show ?thesis
  proof (cases "first_item ?k (cs_items (cfStore S'))")
    case (Inl e)
    then show ?thesis using g(2) by (simp add: GetConfig_def ConfigStore_Get_def db_failure_def)
  next
    case (Inr it)
    then show ?thesis using g(1) [THEN stored_item] by (simp add: GetConfig_def ConfigStore_Get_def)
  qed
qed

text \<open>
  C9. What is published is what is read: after a successful publication, reading the
  configuration under the same (possibly empty) namespace and group returns the content,
  its MD5 digest and the type - unless the database itself fails - and the history has
  gained exactly one row, an update with this content and digest.
\<close>
theorem publish_then_get:
  assumes "gorm_table cfg_schema (cs_items (cfStore S))" "gorm_table hist_schema (cs_hist (cfStore S))"
    and "PublishConfig ns grp did content typ S = (S', Inr ())"
  shows "(case GetConfig ns grp did S' of
            Inr it \<Rightarrow> ciContent it = content \<and> ciMD5 it = CalcMD5 content \<and> ciType it = or_else typ ''text''
          | Inl e \<Rightarrow> \<exists>m. e = EDB (ErrDB m)) \<and>
         (\<exists>h. rows (cs_hist (cfStore S')) = add_mset h (rows (cs_hist (cfStore S))) \<and>
              chOpType h = ''U'' \<and> chDataID h = did \<and> chContent h = content \<and> chMD5 h = CalcMD5 content)"
proof (intro conjI)
  show "case GetConfig ns grp did S' of
            Inr it \<Rightarrow> ciContent it = content \<and> ciMD5 it = CalcMD5 content \<and> ciType it = or_else typ ''text''
          | Inl e \<Rightarrow> \<exists>m. e = EDB (ErrDB m)"
    by (rule publish_shows [OF assms(1,3)])
  note p = publish_Inr [OF assms(3)]
  show "\<exists>h. rows (cs_hist (cfStore S')) = add_mset h (rows (cs_hist (cfStore S))) \<and>
              chOpType h = ''U'' \<and> chDataID h = did \<and> chContent h = content \<and> chMD5 h = CalcMD5 content"
    using history_row [OF assms(2) p [THEN conjunct2, THEN conjunct1]] by (auto simp: new_history_def)
qed

definition demo_cfg :: "(ConfigItem list, ConfigHistory list) cfg_service" where
  "demo_cfg = \<lparr>cfStore = \<lparr>cs_items = mem_table cfg_schema [], cs_hist = mem_table hist_schema [],
     cs_commit = (\<lambda>_ _. None)\<rparr>, cfBus = NewEventBus\<rparr>"

definition demo_item :: ConfigItem where
  "demo_item = \<lparr>ciID = 1, ciNamespaceID = ''public'', ciGroupName = ''DEFAULT_GROUP'', ciDataID = ''app'',
     ciContent = ''k=v'', ciMD5 = CalcMD5 ''k=v'', ciType = ''text'', ciCreatedAt = 1, ciUpdatedAt = 1\<rparr>"

definition demo_hist :: ConfigHistory where
  "demo_hist = \<lparr>chID = 1, chNamespaceID = ''public'', chGroupName = ''DEFAULT_GROUP'', chDataID = ''app'',
     chContent = ''k=v'', chMD5 = CalcMD5 ''k=v'', chOpType = ''U'', chCreatedAt = 1\<rparr>"

definition demo_cfg1 :: "(ConfigItem list, ConfigHistory list) cfg_service" where
  "demo_cfg1 = \<lparr>cfStore = \<lparr>cs_items = mem_table cfg_schema [demo_item], cs_hist = mem_table hist_schema [demo_hist],
     cs_commit = (\<lambda>_ _. None)\<rparr>, cfBus = NewEventBus\<rparr>"

lemma publish_no_config_subs [simp]: "PublishConfigChange ns g n NewEventBus = NewEventBus"
  by (simp add: PublishConfigChange_def NewEventBus_def subs_at_def send_all_def)

lemma demo_publish: "PublishConfig [] [] ''app'' ''k=v'' [] demo_cfg = (demo_cfg1, Inr ())"
  by (simp add: PublishConfig_def ConfigStore_Publish_def upsert_item_def cs_tx_def demo_cfg_def mem_eval
      new_item_def new_history_def cfg_tag_defaults_def hist_tag_defaults_def or_int_def
      demo_cfg1_def demo_item_def demo_hist_def)

theorem publish_then_get_witness:
  "case GetConfig [] [] ''app'' demo_cfg1 of
     Inr it \<Rightarrow> ciContent it = ''k=v'' \<and> ciMD5 it = CalcMD5 ''k=v'' \<and> ciType it = or_else [] ''text''
   | Inl e \<Rightarrow> \<exists>m. e = EDB (ErrDB m)"
  by (rule publish_then_get [OF _ _ demo_publish, THEN conjunct1]) (simp_all add: demo_cfg_def)

text \<open>
  Publishing keeps the configuration table free of duplicates, leaves every other
  configuration as it is, and wakes every subscriber of the configuration.
\<close>
theorem publish_frame:
  assumes "gorm_table cfg_schema (cs_items (cfStore S))" "key_unique cfg_where cfg_key (cs_items (cfStore S))"
    and "bus_ok (cfBus S)" "PublishConfig ns0 grp0 did content typ S = (S', Inr ())"
    and "ns = or_else ns0 ''public''" "grp = or_else grp0 ''DEFAULT_GROUP''"
  shows "key_unique cfg_where cfg_key (cs_items (cfStore S')) \<and>
    (\<forall>k. \<not> cfg_where (t_coll (cs_items (cfStore S))) k (new_item ns grp did content typ) \<longrightarrow>
       filter_mset (cfg_where (t_coll (cs_items (cfStore S))) k) (rows (cs_items (cfStore S'))) =
       filter_mset (cfg_where (t_coll (cs_items (cfStore S))) k) (rows (cs_items (cfStore S)))) \<and>
    (\<forall>c \<in> set (subs_at (configSubs (cfBus S)) (serviceKey ns grp did)). ch_full (busChans (cfBus S')) c)"
proof -
  note p = publish_Inr [OF assms(4), folded assms(5,6)]
  note put = p [THEN conjunct1]
  have "cfg_where coll k (cfg_tag_defaults (new_item ns grp did content (or_else typ ''text'')))
      = cfg_where coll k (new_item ns grp did content typ)" for coll k
    unfolding assms(5,6) item_tag_defaults by (cases k) (simp add: new_item_def)
  then show ?thesis
    using cstore.put_keeps_unique [OF assms(1,2) put] cstore.put_frame [OF assms(1) put]
      cfg_bus.publish_effect [OF assms(3), of ns grp did] p
    by simp
qed

theorem publish_frame_witness: "key_unique cfg_where cfg_key (cs_items (cfStore demo_cfg1))"
  by (rule publish_frame [OF _ _ _ demo_publish refl refl, THEN conjunct1])
     (simp_all add: demo_cfg_def key_unique_def)

section \<open>Deleting\<close>

lemma delete_Inr:
  assumes "DeleteConfig ns0 grp0 did S = (S', Inr ())"
  defines "ns \<equiv> or_else ns0 ''public''" and "grp \<equiv> or_else grp0 ''DEFAULT_GROUP''"
  shows "delete_item (ns, grp, did) (cs_items (cfStore S)) = Inr (cs_items (cfStore S')) \<and>
    (\<exists>c m. tb_insert (new_history ns grp did c m ''D'') (cs_hist (cfStore S)) = Inr (cs_hist (cfStore S')) \<and>
       (\<forall>it. ConfigStore_Get (ns, grp, did) (cfStore S) = Inr it \<longrightarrow> c = ciContent it \<and> m = ciMD5 it))"
proof -
  obtain c m where cm: "(case ConfigStore_Get (ns, grp, did) (cfStore S) of
      Inl e \<Rightarrow> ([], CalcMD5 []) | Inr it \<Rightarrow> (ciContent it, ciMD5 it)) = (c, m)"
    by (meson surj_pair)
  from assms(1) cm obtain st where
    "ConfigStore_Delete (ns, grp, did) (new_history ns grp did c m ''D'') (cfStore S) = Inr st" "cfStore S' = st"
    unfolding DeleteConfig_def ns_def grp_def by (auto simp: Let_def split: sum.splits)
  then have "delete_item (ns, grp, did) (cs_items (cfStore S)) = Inr (cs_items (cfStore S'))"
    "tb_insert (new_history ns grp did c m ''D'') (cs_hist (cfStore S)) = Inr (cs_hist (cfStore S'))"
    by (auto simp: ConfigStore_Delete_def dest!: cs_tx_Inr)
  moreover have "c = ciContent it \<and> m = ciMD5 it"
    if "ConfigStore_Get (ns, grp, did) (cfStore S) = Inr it" for it
    using cm that by simp
  ultimately show ?thesis by blast
qed

text \<open>
  After a successful deletion the configuration cannot be read any more, every other
  row is still there, and the history records the deletion with the content and digest
  the configuration had.
\<close>
theorem delete_then_get:
  assumes "gorm_table cfg_schema (cs_items (cfStore S))" "gorm_table hist_schema (cs_hist (cfStore S))"
    and "DeleteConfig ns grp did S = (S', Inr ())"
    and "GetConfig ns grp did S = Inr it"
  shows "(\<exists>e. GetConfig ns grp did S' = Inl (EDB e) \<and> (e = ErrRecordNotFound \<or> db_failure e)) \<and>
    rows (cs_items (cfStore S')) = filter_mset
      (\<lambda>r. \<not> cfg_where (t_coll (cs_items (cfStore S))) (or_else ns ''public'', or_else grp ''DEFAULT_GROUP'', did) r)
      (rows (cs_items (cfStore S))) \<and>
    (\<exists>h. rows (cs_hist (cfStore S')) = add_mset h (rows (cs_hist (cfStore S))) \<and>
         chOpType h = ''D'' \<and> chDataID h = did \<and> chContent h = ciContent it \<and> chMD5 h = ciMD5 it)"
proof -
  let ?k = "(or_else ns ''public'', or_else grp ''DEFAULT_GROUP'', did)"
  have it: "ConfigStore_Get ?k (cfStore S) = Inr it" using assms(4) by (simp add: GetConfig_def)
  from delete_Inr [OF assms(3)] it have d: "delete_item ?k (cs_items (cfStore S)) = Inr (cs_items (cfStore S'))"
    and h: "tb_insert (new_history (or_else ns ''public'') (or_else grp ''DEFAULT_GROUP'') did (ciContent it) (ciMD5 it) ''D'')
       (cs_hist (cfStore S)) = Inr (cs_hist (cfStore S'))"
    by auto
  note del = tb_delete_rows [OF assms(1) d [unfolded delete_item_def]]
  have "\<exists>e. first_item ?k (cs_items (cfStore S')) = Inl e \<and> (e = ErrRecordNotFound \<or> db_failure e)"
  proof (cases "first_item ?k (cs_items (cfStore S'))")
    case (Inl e)
    then show ?thesis using cstore.get_err [OF del [THEN conjunct1] Inl] by blast
  next
    case (Inr r)
    then show ?thesis using cstore.get_row [OF del [THEN conjunct1] Inr] del by (simp del: cfg_where.simps)
  qed
  then show ?thesis
    using del history_row [OF assms(2) h] by (auto simp: GetConfig_def ConfigStore_Get_def new_history_def)
qed

theorem delete_then_get_witness:
  "\<exists>S' h. DeleteConfig [] [] ''app'' demo_cfg1 = (S', Inr ()) \<and> rows (cs_items (cfStore S')) = {#} \<and>
     rows (cs_hist (cfStore S')) = {#h, demo_hist#} \<and> chOpType h = ''D'' \<and> chContent h = ''k=v''"
proof -
  have g: "GetConfig [] [] ''app'' demo_cfg1 = Inr demo_item"
    by (simp add: GetConfig_def ConfigStore_Get_def first_item_def demo_cfg1_def mem_eval demo_item_def)
  have "\<exists>S'. DeleteConfig [] [] ''app'' demo_cfg1 = (S', Inr ())"
    by (simp add: DeleteConfig_def ConfigStore_Get_def ConfigStore_Delete_def first_item_def delete_item_def cs_tx_def
        demo_cfg1_def mem_eval demo_item_def)
  then obtain S' where d: "DeleteConfig [] [] ''app'' demo_cfg1 = (S', Inr ())" by blast
  have "gorm_table cfg_schema (cs_items (cfStore demo_cfg1))" "gorm_table hist_schema (cs_hist (cfStore demo_cfg1))"
    by (simp_all add: demo_cfg1_def)
  from delete_then_get [OF this d g] obtain h where
    "rows (cs_items (cfStore S')) = {#}" "rows (cs_hist (cfStore S')) = {#h, demo_hist#}"
    "chOpType h = ''D''" "chContent h = ''k=v''"
    by (auto simp: demo_cfg1_def mem_ops demo_item_def)
  with d show ?thesis by blast
qed

section \<open>Long polling\<close>

lemma fold_update_dom:
  "fst ` set (fold (\<lambda>it m. AList.update (f it) (g it) m) xs m) = fst ` set m \<union> f ` set xs"
  by (induction xs arbitrary: m) (auto simp: dom_update)

lemma fold_update_val:
  "map_of (fold (\<lambda>it m. AList.update (f it) (g it) m) xs m) k = Some v \<Longrightarrow>
   map_of m k = Some v \<or> (\<exists>it \<in> set xs. f it = k \<and> g it = v)"
proof (induction xs arbitrary: m)
  case (Cons x xs)
  then have "map_of (AList.update (f x) (g x) m) k = Some v \<or> (\<exists>it \<in> set xs. f it = k \<and> g it = v)"
    by simp
  then show ?case by (auto simp: update_conv' split: if_splits)
qed simp

lemma list_md5_rows:
  assumes "gorm_table cfg_schema (cs_items st)" "ConfigStore_ListAllMD5 ns st = Inr items"
  shows "(\<lambda>it. ((ciNamespaceID it, ciGroupName it, ciDataID it), ciMD5 it)) ` set items =
    (\<lambda>r. (cfg_key r, ciMD5 r)) ` set_mset (filter_mset (\<lambda>r. t_coll (cs_items st) (ciNamespaceID r) ns) (rows (cs_items st)))"
proof -
  from assms(2) obtain rs where
    rs: "tb_find (\<lambda>r. t_coll (cs_items st) (ciNamespaceID r) ns) (cs_items st) = Inr rs"
    and it: "(\<lambda>it. ((ciNamespaceID it, ciGroupName it, ciDataID it), ciMD5 it)) ` set items =
      (\<lambda>r. (cfg_key r, ciMD5 r)) ` set rs"
    by (cases "tb_find (\<lambda>r. t_coll (cs_items st) (ciNamespaceID r) ns) (cs_items st)")
       (auto simp: ConfigStore_ListAllMD5_def cfg_key_def image_image)
  have "set rs = set_mset (filter_mset (\<lambda>r. t_coll (cs_items st) (ciNamespaceID r) ns) (rows (cs_items st)))"
    using tb_find_rows [OF assms(1) rs] by (rule set_eq_if_mset_eq)
  with it show ?thesis by metis
qed

text \<open>
  The digest map of a namespace is exact: it has one entry per configuration of the
  namespace, and every entry is the key and the digest of such a configuration.
\<close>
theorem all_md5_exact:
  assumes "gorm_table cfg_schema (cs_items st)" "GetAllMD5 ns st = Inr m"
  shows "distinct (map fst m) \<and>
    dom (map_of m) = {serviceKey (ciNamespaceID r) (ciGroupName r) (ciDataID r) | r.
       r \<in># rows (cs_items st) \<and> t_coll (cs_items st) (ciNamespaceID r) ns} \<and>
    (\<forall>k h. map_of m k = Some h \<longrightarrow> (\<exists>r. r \<in># rows (cs_items st) \<and> t_coll (cs_items st) (ciNamespaceID r) ns \<and>
       k = serviceKey (ciNamespaceID r) (ciGroupName r) (ciDataID r) \<and> h = ciMD5 r))"
proof -
  let ?k = "\<lambda>it. serviceKey (ciNamespaceID it) (ciGroupName it) (ciDataID it)"
  let ?rows = "set_mset (filter_mset (\<lambda>r. t_coll (cs_items st) (ciNamespaceID r) ns) (rows (cs_items st)))"
  from assms(2) obtain items where items: "ConfigStore_ListAllMD5 ns st = Inr items"
    and m: "m = fold (\<lambda>it m. AList.update (?k it) (ciMD5 it) m) items []"
    by (auto simp: GetAllMD5_def split: sum.splits)
  have "(\<lambda>((a, b, c), h). (serviceKey a b c, h)) ` (\<lambda>it. ((ciNamespaceID it, ciGroupName it, ciDataID it), ciMD5 it)) ` set items =
      (\<lambda>((a, b, c), h). (serviceKey a b c, h)) ` (\<lambda>r. (cfg_key r, ciMD5 r)) ` ?rows"
    by (simp only: list_md5_rows [OF assms(1) items])
  then have img: "(\<lambda>it. (?k it, ciMD5 it)) ` set items = (\<lambda>r. (?k r, ciMD5 r)) ` ?rows"
    by (simp only: image_image cfg_key_def prod.case)
  have keys: "?k ` set items = ?k ` ?rows"
    using arg_cong [OF img, of "(`) fst"] by (simp only: image_image fst_conv)
  have val: "\<exists>r \<in> ?rows. k = ?k r \<and> h = ciMD5 r" if "map_of m k = Some h" for k h
  proof -
    from that have "\<exists>it \<in> set items. ?k it = k \<and> ciMD5 it = h"
      using fold_update_val [of ?k ciMD5 items "[]" k h] by (simp add: m)
    then have "(k, h) \<in> (\<lambda>it. (?k it, ciMD5 it)) ` set items" by auto
    then show ?thesis unfolding img by auto
  qed
  have "dom (map_of m) = ?k ` ?rows"
    using fold_update_dom [of ?k ciMD5 items "[]"] by (simp only: dom_map_of_conv_image_fst m keys) simp
  then show ?thesis
    using GetAllMD5_distinct [OF assms(2)] val by auto
qed

lemma demo_md5: "GetAllMD5 ''public'' (cfStore demo_cfg1) = Inr [(''public#DEFAULT_GROUP#app'', CalcMD5 ''k=v'')]"
  by (simp add: GetAllMD5_def ConfigStore_ListAllMD5_def demo_cfg1_def mem_eval demo_item_def serviceKey_def)

theorem all_md5_exact_witness:
  "dom (map_of [(''public#DEFAULT_GROUP#app'', CalcMD5 ''k=v'')]) =
    {serviceKey (ciNamespaceID r) (ciGroupName r) (ciDataID r) | r. r = demo_item}"
proof -
  have "gorm_table cfg_schema (cs_items (cfStore demo_cfg1))" by (simp add: demo_cfg1_def)
  from all_md5_exact [OF this demo_md5, THEN conjunct2, THEN conjunct1] show ?thesis
    by (auto simp: demo_cfg1_def mem_ops demo_item_def)
qed

definition unchanged :: "string \<Rightarrow> gomap \<Rightarrow> ('d, 'h) poll_event \<Rightarrow> bool" where
  "unchanged ns client ev \<longleftrightarrow> (case ev of PollDeadline \<Rightarrow> False
     | PollTick st \<Rightarrow> (case GetAllMD5 ns st of Inl _ \<Rightarrow> False | Inr m \<Rightarrow> poll_changed client m = []))"

lemma LongPoll_skip: "unchanged ns client ev \<Longrightarrow> LongPoll ns client (ev # evs) = LongPoll ns client evs"
  by (auto simp: unchanged_def split: poll_event.splits sum.splits)

lemma LongPoll_cases:
  assumes "LongPoll ns client evs = Some r"
  obtains pre ev post where "evs = pre @ ev # post" "\<forall>e \<in> set pre. unchanged ns client e"
    "\<not> unchanged ns client ev" "LongPoll ns client [ev] = Some r"
  using assms
proof (induction ns client evs arbitrary: thesis rule: LongPoll.induct)
  case (3 ns client st evs)
  show thesis
  proof (cases "unchanged ns client (PollTick st)")
    case True
    then obtain server where g: "GetAllMD5 ns st = Inr server" "poll_changed client server = []"
      by (auto simp: unchanged_def split: sum.splits)
    have "LongPoll ns client evs = Some r" using 3(3) LongPoll_skip [OF True] by metis
    then obtain pre ev post where "evs = pre @ ev # post" "\<forall>e \<in> set pre. unchanged ns client e"
      "\<not> unchanged ns client ev" "LongPoll ns client [ev] = Some r"
      using 3(1) [OF g(1) refl] g(2) by blast
    with True show thesis by (intro 3(2) [of "PollTick st # pre" ev post]) auto
  next
    case False
    then have "LongPoll ns client [PollTick st] = Some r"
      using 3(3) by (auto simp: unchanged_def Let_def split: sum.splits if_splits)
    with False show thesis by (intro 3(2) [of "[]" "PollTick st" evs]) auto
  qed
next
  case (2 ns client evs)
  then show thesis by (intro 2(1) [of "[]" PollDeadline evs]) (auto simp: unchanged_def)
qed simp

lemma unchanged_tick:
  assumes "distinct (map fst client)" "unchanged ns client e"
  shows "\<exists>st m. e = PollTick st \<and> GetAllMD5 ns st = Inr m \<and> map_of m = map_of client"
proof -
  from assms(2) obtain st m where e: "e = PollTick st" "GetAllMD5 ns st = Inr m" "poll_changed client m = []"
    by (auto simp: unchanged_def split: poll_event.splits sum.splits)
  then have "map_of m = map_of client"
    using poll_unchanged [OF assms(1) GetAllMD5_distinct [OF e(2)]] by simp
  with e show ?thesis by blast
qed

text \<open>
  C8. A long poll that reports changes reports exactly the difference at the first moment
  there is one: up to some tick every earlier tick saw the client's digests, and the
  answer maps each key whose digest differs there to the server's digest - the empty string
  for a configuration that is gone - and holds nothing else.
\<close>
theorem longpoll_exact:
  assumes "distinct (map fst client)"
    and "LongPoll ns client evs = Some (Inr changed)" and "changed \<noteq> []"
  shows "\<exists>pre st post server. evs = pre @ PollTick st # post \<and> GetAllMD5 ns st = Inr server \<and>
    map_of changed = md5_diff (map_of client) (map_of server) \<and>
    (\<forall>e \<in> set pre. \<exists>st' m. e = PollTick st' \<and> GetAllMD5 ns st' = Inr m \<and> map_of m = map_of client)"
proof -
  from LongPoll_cases [OF assms(2)] obtain pre ev post where
    split: "evs = pre @ ev # post" "\<forall>e \<in> set pre. unchanged ns client e" "LongPoll ns client [ev] = Some (Inr changed)"
    by metis
  then obtain st server where st: "ev = PollTick st" "GetAllMD5 ns st = Inr server" "changed = poll_changed client server"
    using assms(3) by (cases ev) (auto simp: Let_def split: sum.splits if_splits)
  have "map_of changed = md5_diff (map_of client) (map_of server)"
    using poll_changed_diff [OF assms(1) GetAllMD5_distinct [OF st(2)]] st(3) by simp
  then show ?thesis using split(1,2) st(1,2) unchanged_tick [OF assms(1)] by blast
qed

lemma demo_poll:
  "LongPoll ''public'' [] [PollTick (cfStore demo_cfg), PollTick (cfStore demo_cfg1)] =
     Some (Inr [(''public#DEFAULT_GROUP#app'', CalcMD5 ''k=v'')])"
proof -
  have "GetAllMD5 ''public'' (cfStore demo_cfg) = Inr []"
    by (simp add: GetAllMD5_def ConfigStore_ListAllMD5_def demo_cfg_def mem_eval)
  then show ?thesis by (simp add: demo_md5 poll_changed_def put_where_def)
qed

theorem longpoll_exact_witness:
  "\<exists>pre st post server. [PollTick (cfStore demo_cfg), PollTick (cfStore demo_cfg1)] = pre @ PollTick st # post \<and>
     GetAllMD5 ''public'' st = Inr server \<and>
     map_of [(''public#DEFAULT_GROUP#app'', CalcMD5 ''k=v'')] = md5_diff (map_of []) (map_of server)"
  using longpoll_exact [OF _ demo_poll] by (metis distinct.simps(1) list.distinct(1) list.simps(8))

text \<open>
  C12. A long poll always ends: once its deadline is among the events it has returned, and
  it answers \<open>no change\<close> only at the deadline, every tick before it having seen
  exactly the client's digests.
\<close>
theorem longpoll_returns:
  assumes "distinct (map fst client)" and "PollDeadline \<in> set evs"
  shows "\<exists>r. LongPoll ns client evs = Some r \<and>
    (r = Inr [] \<longrightarrow> (\<exists>pre post. evs = pre @ PollDeadline # post \<and>
       (\<forall>e \<in> set pre. \<exists>st m. e = PollTick st \<and> GetAllMD5 ns st = Inr m \<and> map_of m = map_of client)))"
proof -
  have "LongPoll ns client evs \<noteq> None"
    using assms(2) by (induction ns client evs rule: LongPoll.induct) (auto simp: Let_def split: sum.split)
  then obtain r where r: "LongPoll ns client evs = Some r" by blast
  from LongPoll_cases [OF r] obtain pre ev post where
    split: "evs = pre @ ev # post" "\<forall>e \<in> set pre. unchanged ns client e" "LongPoll ns client [ev] = Some r"
    by metis
  have "ev = PollDeadline" if "r = Inr []"
    using split(3) that by (cases ev) (auto simp: Let_def split: sum.splits if_splits)
  with r split unchanged_tick [OF assms(1)] show ?thesis by blast
qed

theorem longpoll_returns_witness:
  "\<exists>r. LongPoll ''public'' [] [PollTick (cfStore demo_cfg), PollDeadline] = Some r"
  using longpoll_returns [of "[]" "[PollTick (cfStore demo_cfg), PollDeadline]" "''public''"] by auto

text \<open>
  A client that watches some configurations of a namespace is woken by every other one
  as well: if the namespace holds a configuration the client did not name, the very first
  tick answers, with that configuration in the answer, although nothing has changed.
\<close>
theorem longpoll_wakes_on_unwatched:
  assumes "distinct (map fst client)" and "GetAllMD5 ns st = Inr server"
    and "map_of client k = None" and "map_of server k = Some h"
  shows "\<exists>changed. LongPoll ns client (PollTick st # evs) = Some (Inr changed) \<and> map_of changed k = Some h"
proof -
  note d = poll_changed_diff [OF assms(1) GetAllMD5_distinct [OF assms(2)]]
  have "map_of (poll_changed client server) k = Some h"
    unfolding d by (simp only: md5_diff_def assms(3,4)) simp
  moreover from this have "poll_changed client server \<noteq> []" by auto
  ultimately show ?thesis using assms(2) by (simp add: Let_def)
qed

theorem longpoll_wakes_on_unwatched_witness:
  "\<exists>changed. LongPoll ''public'' [(''public#DEFAULT_GROUP#db'', [])] [PollTick (cfStore demo_cfg1)] = Some (Inr changed) \<and>
     map_of changed ''public#DEFAULT_GROUP#app'' = Some (CalcMD5 ''k=v'')"
  by (rule longpoll_wakes_on_unwatched [OF _ demo_md5]) simp_all

end
