(* ===== verification/Health.thy ===== *)
theory Health
  imports Storage EventBus MemTable "HOL-Library.Sublist"
begin

text \<open>
  \<^verbatim>\<open>src/pkg/health\<close>: active probing, passive failure reports and their effect on the
  health flag of instances. Clock values are in nanoseconds, as in Go; the database keeps
  the last heartbeat in milliseconds. The network is a parameter: what dialling an address
  or fetching a URL yields. A Go map read with a missing key gives the zero value, so the
  counter and event maps are total functions.
\<close>

section \<open>Configuration\<close>

record Config =
  CheckInterval :: int
  FailThreshold :: int
  RemoveTimeout :: int
  PassiveWindow :: int
  PassiveThreshold :: int
  RecoveryThreshold :: int
  ActiveTimeout :: int

definition or_pos :: "int \<Rightarrow> int \<Rightarrow> int" where
  "or_pos v d = (if v \<le> 0 then d else v)"

definition applyDefaults :: "Config \<Rightarrow> Config" where
  "applyDefaults c = c\<lparr>
     CheckInterval := or_pos (CheckInterval c) 5,
     FailThreshold := or_pos (FailThreshold c) 3,
     RemoveTimeout := or_pos (RemoveTimeout c) 30,
     PassiveWindow := or_pos (PassiveWindow c) 60,
     PassiveThreshold := or_pos (PassiveThreshold c) 5,
     RecoveryThreshold := or_pos (RecoveryThreshold c) 3,
     ActiveTimeout := or_pos (ActiveTimeout c) 3\<rparr>"

text \<open>\<^verbatim>\<open>time.Duration(n) * time.Second\<close> is a 64-bit product; \<^verbatim>\<open>Time.Sub\<close> saturates.\<close>

definition seconds :: "int \<Rightarrow> int" where
  "seconds n = int64 (n * 1000000000)"

definition elapsed_since :: "int \<Rightarrow> int \<Rightarrow> int" where
  "elapsed_since now beat_ms = clamp64 (now - beat_ms * 1000000)"

section \<open>Probing\<close>

record check_env =
  ceNow :: int
  ceDial :: "string \<Rightarrow> bool"
  ceGet :: "string \<Rightarrow> int option"

definition JoinHostPort :: "string \<Rightarrow> string \<Rightarrow> string" where
  "JoinHostPort host port =
     (if CHR '':'' \<in> set host then ''['' @ host @ '']:'' @ port else host @ '':'' @ port)"

definition tcpCheck :: "check_env \<Rightarrow> string \<Rightarrow> int \<Rightarrow> bool" where
  "tcpCheck e ip port = ceDial e (JoinHostPort ip (itoa port))"

definition httpCheck :: "check_env \<Rightarrow> string \<Rightarrow> int \<Rightarrow> string \<Rightarrow> bool" where
  "httpCheck e ip port path =
     (case ceGet e (''http://'' @ JoinHostPort ip (itoa port) @ or_else path ''/health'') of
        None \<Rightarrow> False
      | Some code \<Rightarrow> 200 \<le> code \<and> code < 400)"

definition Probe :: "check_env \<Rightarrow> string \<Rightarrow> string \<Rightarrow> int \<Rightarrow> string \<Rightarrow> bool" where
  "Probe e protocol ip port path =
     (if protocol = ''HTTP'' then httpCheck e ip port path else tcpCheck e ip port)"

section \<open>Passive tracker\<close>

type_synonym tracker = "nat \<Rightarrow> int list"

definition newPassiveTracker :: tracker where
  "newPassiveTracker = (\<lambda>_. [])"

definition tracker_ReportFailure :: "int \<Rightarrow> nat \<Rightarrow> tracker \<Rightarrow> tracker" where
  "tracker_ReportFailure now i t = t(i := t i @ [now])"

definition tracker_ReportSuccess :: "nat \<Rightarrow> tracker \<Rightarrow> tracker" where
  "tracker_ReportSuccess i t = t(i := [])"

text \<open>\<^verbatim>\<open>now.Add(-window)\<close>: the negation of a duration is a 64-bit one.\<close>

definition cutoff_at :: "int \<Rightarrow> int \<Rightarrow> int" where
  "cutoff_at now window = now + int64 (- window)"

definition FailureCount :: "int \<Rightarrow> nat \<Rightarrow> int \<Rightarrow> tracker \<Rightarrow> tracker \<times> int" where
  "FailureCount now i window t =
     (let valid = filter (\<lambda>e. cutoff_at now window < e) (t i)
      in (t(i := valid), int (length valid)))"

definition Cleanup :: "nat \<Rightarrow> tracker \<Rightarrow> tracker" where
  "Cleanup i t = t(i := [])"

section \<open>The checker\<close>

record ('i, 's) checker =
  hkInst :: "('i, ServiceInstance) table"
  hkSvc :: "('s, Service) table"
  hkBus :: bus
  hkCfg :: Config
  activeFails :: "nat \<Rightarrow> int"
  activeSuccess :: "nat \<Rightarrow> int"
  hkPassive :: tracker

definition NewChecker ::
  "('i, ServiceInstance) table \<Rightarrow> ('s, Service) table \<Rightarrow> bus \<Rightarrow> Config \<Rightarrow> ('i, 's) checker" where
  "NewChecker I S b cfg = \<lparr>hkInst = I, hkSvc = S, hkBus = b, hkCfg = applyDefaults cfg,
     activeFails = (\<lambda>_. 0), activeSuccess = (\<lambda>_. 0), hkPassive = newPassiveTracker\<rparr>"

text \<open>The result of \<^verbatim>\<open>UpdateHealthy\<close> is dropped: on an error the table is as before.\<close>

definition set_healthy :: "nat \<Rightarrow> bool \<Rightarrow> ('i, 's) checker \<Rightarrow> ('i, 's) checker" where
  "set_healthy i h C =
     (case InstanceStore_UpdateHealthy i h (hkInst C) of Inl e \<Rightarrow> C | Inr T \<Rightarrow> C\<lparr>hkInst := T\<rparr>)"

definition publish_for :: "string \<Rightarrow> string \<Rightarrow> string \<Rightarrow> ('i, 's) checker \<Rightarrow> ('i, 's) checker" where
  "publish_for ns grp svc C = C\<lparr>hkBus := PublishServiceChange ns grp svc (hkBus C)\<rparr>"

definition markUnhealthy :: "ServiceInstance \<Rightarrow> ('i, 's) checker \<Rightarrow> ('i, 's) checker" where
  "markUnhealthy inst C =
     publish_for (siNamespaceID inst) (siGroupName inst) (siServiceName inst) (set_healthy (siID inst) False C)"

definition markHealthy :: "ServiceInstance \<Rightarrow> ('i, 's) checker \<Rightarrow> ('i, 's) checker" where
  "markHealthy inst C =
     publish_for (siNamespaceID inst) (siGroupName inst) (siServiceName inst) (set_healthy (siID inst) True C)"

definition processActiveResult :: "ServiceInstance \<Rightarrow> bool \<Rightarrow> ('i, 's) checker \<Rightarrow> ('i, 's) checker" where
  "processActiveResult inst healthy C =
     (let i = siID inst in
      if healthy
      then let C1 = C\<lparr>activeFails := (activeFails C)(i := 0),
                     activeSuccess := (activeSuccess C)(i := activeSuccess C i + 1)\<rparr>
           in if \<not> siHealthy inst \<and> RecoveryThreshold (hkCfg C) \<le> activeSuccess C1 i
              then markHealthy inst C1 else C1
      else let C1 = C\<lparr>activeSuccess := (activeSuccess C)(i := 0),
                     activeFails := (activeFails C)(i := activeFails C i + 1)\<rparr>
           in if siHealthy inst \<and> FailThreshold (hkCfg C) \<le> activeFails C1 i
              then markUnhealthy inst C1 else C1)"

definition service_map :: "Service list \<Rightarrow> string \<rightharpoonup> Service" where
  "service_map services =
     fold (\<lambda>s m. m(serviceKey (svNamespaceID s) (svGroupName s) (svServiceName s) \<mapsto> s)) services Map.empty"

record probe_plan =
  ppType :: string
  ppProto :: string
  ppPath :: string
  ppPort :: int

definition plan_for :: "Service option \<Rightarrow> ServiceInstance \<Rightarrow> probe_plan" where
  "plan_for svc inst =
     (case svc of
        None \<Rightarrow> \<lparr>ppType = HealthCheckActive, ppProto = HealthProtoTCP, ppPath = [], ppPort = siPort inst\<rparr>
      | Some s \<Rightarrow> \<lparr>ppType = svHealthCheckType s, ppProto = svHealthCheckProto s, ppPath = svHealthCheckPath s,
                  ppPort = (if 0 < svHealthCheckPort s then svHealthCheckPort s else siPort inst)\<rparr>)"

definition service_of :: "(string \<rightharpoonup> Service) \<Rightarrow> ServiceInstance \<Rightarrow> Service option" where
  "service_of m inst = m (serviceKey (siNamespaceID inst) (siGroupName inst) (siServiceName inst))"

definition skips :: "(string \<rightharpoonup> Service) \<Rightarrow> ServiceInstance \<Rightarrow> bool" where
  "skips m inst \<longleftrightarrow> \<not> siEphemeral inst \<or>
     ppType (plan_for (service_of m inst) inst) = HealthCheckNone \<or>
     ppType (plan_for (service_of m inst) inst) = HealthCheckPassive"

definition check_instance ::
  "(string \<rightharpoonup> Service) \<Rightarrow> check_env \<Rightarrow> ServiceInstance \<Rightarrow> ('i, 's) checker \<Rightarrow> ('i, 's) checker" where
  "check_instance m e inst C =
     (if skips m inst then C
      else if seconds (RemoveTimeout (hkCfg C)) < elapsed_since (ceNow e) (siLastBeat inst)
      then (if siHealthy inst then markUnhealthy inst C else C)
      else let p = plan_for (service_of m inst) inst
           in processActiveResult inst (Probe e (ppProto p) (siIP inst) (ppPort p) (ppPath p)) C)"

text \<open>One pass over all instances; \<open>envs k\<close> is the clock and the network at the \<open>k\<close>-th.\<close>

definition runActiveCheck :: "(nat \<Rightarrow> check_env) \<Rightarrow> ('i, 's) checker \<Rightarrow> ('i, 's) checker" where
  "runActiveCheck envs C =
     (case ServiceStore_ListAll (hkSvc C) of
        Inl e \<Rightarrow> C
      | Inr services \<Rightarrow>
          (case InstanceStore_ListAll (hkInst C) of
             Inl e \<Rightarrow> C
           | Inr instances \<Rightarrow>
               fold (\<lambda>(k, inst). check_instance (service_map services) (envs k) inst)
                 (enumerate 0 instances) C))"

definition passive_limits :: "svc_key \<Rightarrow> ('i, 's) checker \<Rightarrow> int \<times> int" where
  "passive_limits k C =
     (let window = seconds (PassiveWindow (hkCfg C)); threshold = PassiveThreshold (hkCfg C)
      in case ServiceStore_Get k (hkSvc C) of
           Inl e \<Rightarrow> (window, threshold)
         | Inr s \<Rightarrow> (if 0 < svPassiveWindow s then seconds (svPassiveWindow s) else window,
                    if 0 < svPassiveThreshold s then svPassiveThreshold s else threshold))"

text \<open>The clock is read when the failure is recorded (\<open>t1\<close>) and again when counting (\<open>t2\<close>).\<close>

definition ReportFailure ::
  "int \<Rightarrow> int \<Rightarrow> nat \<Rightarrow> string \<Rightarrow> string \<Rightarrow> string \<Rightarrow> ('i, 's) checker \<Rightarrow> ('i, 's) checker" where
  "ReportFailure t1 t2 i ns grp svc C =
     (let (window, threshold) = passive_limits (ns, grp, svc) C;
          (tr, count) = FailureCount t2 i window (tracker_ReportFailure t1 i (hkPassive C));
          C1 = C\<lparr>hkPassive := tr\<rparr>
      in if threshold \<le> count then publish_for ns grp svc (set_healthy i False C1) else C1)"

definition ReportSuccess :: "nat \<Rightarrow> ('i, 's) checker \<Rightarrow> ('i, 's) checker" where
  "ReportSuccess i C = C\<lparr>hkPassive := tracker_ReportSuccess i (hkPassive C)\<rparr>"

section \<open>Status\<close>

record health_status =
  hsService :: string
  hsTotal :: nat
  hsHealthy :: nat
  hsUnhealthy :: int
  hsConfig :: "(string \<times> string \<times> string \<times> int \<times> int \<times> int) option"
  hsInstances :: "(string \<times> int \<times> bool) list"

definition GetHealthStatus :: "string \<Rightarrow> string \<Rightarrow> string \<Rightarrow> ('i, 's) checker \<Rightarrow> health_status" where
  "GetHealthStatus ns grp svc C =
     (let instances = (case InstanceStore_List ns grp svc (hkInst C) of Inl e \<Rightarrow> [] | Inr xs \<Rightarrow> xs);
          tot = length instances;
          healthyCount = length (filter siHealthy instances)
      in \<lparr>hsService = svc, hsTotal = tot, hsHealthy = healthyCount,
          hsUnhealthy = int tot - int healthyCount,
          hsConfig = (case ServiceStore_Get (ns, grp, svc) (hkSvc C) of
             Inl e \<Rightarrow> None
           | Inr s \<Rightarrow> Some (svHealthCheckType s, svHealthCheckProto s, svHealthCheckPath s,
                           svActiveInterval s, svPassiveWindow s, svPassiveThreshold s)),
          hsInstances = map (\<lambda>x. (siIP x, siPort x, siHealthy x)) instances\<rparr>)"

section \<open>Streaks\<close>

text \<open>
  A counter that a run of equal outcomes drives to a threshold, where something fires:
  failures of a healthy instance and successes of an unhealthy one share this shape.
\<close>

definition trail :: "bool list \<Rightarrow> nat" where
  "trail bs = length (takeWhile id (rev bs))"

lemma trail_simps [simp]: "trail [] = 0" "trail (bs @ [b]) = (if b then Suc (trail bs) else 0)"
  by (simp_all add: trail_def)

lemma trail_sublist: "n \<le> trail bs \<Longrightarrow> sublist (replicate n True) bs"
proof -
  assume n: "n \<le> trail bs"
  have "takeWhile id (rev bs) = replicate (trail bs) True"
    by (auto simp: trail_def intro!: replicate_eqI dest: set_takeWhileD)
  then obtain zs where "rev bs = replicate (trail bs) True @ zs" by (metis takeWhile_dropWhile_id)
  then have "bs = rev zs @ replicate (trail bs) True" by (metis rev_append rev_replicate rev_rev_ident)
  moreover have "replicate (trail bs) True = replicate (trail bs - n) True @ replicate n True"
    using n by (metis le_add_diff_inverse2 replicate_add)
  ultimately have "bs = (rev zs @ replicate (trail bs - n) True) @ replicate n True @ []" by simp
  then show ?thesis unfolding sublist_def by blast
qed

locale streak =
  fixes step :: "bool \<Rightarrow> 's \<Rightarrow> 's"
    and bump :: "'s \<Rightarrow> 's"
    and fire :: "'s \<Rightarrow> 's"
    and count :: "'s \<Rightarrow> int"
    and thr :: "'s \<Rightarrow> int"
    and obs :: "'s \<Rightarrow> 'o"
  assumes reset: "count (step False s) = 0" "obs (step False s) = obs s" "thr (step False s) = thr s"
    and bump: "count (bump s) = count s + 1" "obs (bump s) = obs s" "thr (bump s) = thr s"
    and fire: "count (fire s) = count s" "thr (fire s) = thr s"
    and below: "count s + 1 < thr s \<Longrightarrow> step True s = bump s"
    and at: "thr s \<le> count s + 1 \<Longrightarrow> step True s = fire (bump s)"
begin

lemma step_True: "count (step True s) = count s + 1" "thr (step True s) = thr s"
  by (cases "count s + 1 < thr s"; simp add: below at bump fire)+

lemma run_thr: "thr (fold step bs s) = thr s"
proof (induction bs rule: rev_induct)
  case (snoc b bs)
  then show ?case by (cases b) (simp_all add: reset step_True)
qed simp

lemma run_count: "count s = 0 \<Longrightarrow> count (fold step bs s) = int (trail bs)"
proof (induction bs rule: rev_induct)
  case (snoc b bs)
  then show ?case by (cases b) (simp_all add: reset step_True)
qed simp

lemma run_quiet:
  assumes "count s = 0" "0 < thr s" "\<not> sublist (replicate (nat (thr s)) True) bs"
  shows "obs (fold step bs s) = obs s"
  using assms(3)
proof (induction bs rule: rev_induct)
  case (snoc b bs)
  have "\<not> sublist (replicate (nat (thr s)) True) bs"
    using snoc.prems by (metis sublist_appendI sublist_order.order_trans append_Nil)
  then have IH: "obs (fold step bs s) = obs s" by (rule snoc.IH)
  show ?case
  proof (cases b)
    case True
    have "trail (bs @ [b]) < nat (thr s)" using snoc.prems trail_sublist not_le_imp_less by blast
    then have "count (fold step bs s) + 1 < thr (fold step bs s)"
      using True by (simp add: run_count [OF assms(1)] run_thr)
    then show ?thesis using True IH by (simp add: below bump)
  next
    case False
    with IH show ?thesis by (simp add: reset)
  qed
qed simp

lemma run_fires:
  assumes "count s = 0" "0 < thr s"
  shows "\<exists>bs'. fold step (bs @ replicate (nat (thr s)) True) s = fire (bump (fold step bs' s))"
proof -
  obtain n where n: "nat (thr s) = Suc n" using assms(2) by (metis gr0_implies_Suc zero_less_nat_eq)
  have "n \<le> trail (bs @ replicate n True)"
    by (induction n) (simp_all add: replicate_append_same [symmetric] flip: append_assoc)
  then have "thr (fold step (bs @ replicate n True) s) \<le> count (fold step (bs @ replicate n True) s) + 1"
    using n unfolding run_count [OF assms(1)] run_thr by linarith
  from at [OF this] have "fold step (bs @ replicate n True @ [True]) s = fire (bump (fold step (bs @ replicate n True) s))"
    by simp
  then show ?thesis unfolding n by (metis replicate_append_same replicate_Suc)
qed

end

lemma publish_for_sel [simp]:
  "hkInst (publish_for ns g n C) = hkInst C" "hkSvc (publish_for ns g n C) = hkSvc C"
  "hkCfg (publish_for ns g n C) = hkCfg C" "activeFails (publish_for ns g n C) = activeFails C"
  "activeSuccess (publish_for ns g n C) = activeSuccess C" "hkPassive (publish_for ns g n C) = hkPassive C"
  "hkBus (publish_for ns g n C) = PublishServiceChange ns g n (hkBus C)"
  by (simp_all add: publish_for_def)

lemma set_healthy_sel [simp]:
  "hkSvc (set_healthy i h C) = hkSvc C" "hkCfg (set_healthy i h C) = hkCfg C" "hkBus (set_healthy i h C) = hkBus C"
  "activeFails (set_healthy i h C) = activeFails C" "activeSuccess (set_healthy i h C) = activeSuccess C"
  "hkPassive (set_healthy i h C) = hkPassive C"
  by (simp_all add: set_healthy_def split: sum.split)

lemma mark_sel [simp]:
  "hkSvc (markUnhealthy x C) = hkSvc C" "hkCfg (markUnhealthy x C) = hkCfg C"
  "activeFails (markUnhealthy x C) = activeFails C" "activeSuccess (markUnhealthy x C) = activeSuccess C"
  "hkSvc (markHealthy x C) = hkSvc C" "hkCfg (markHealthy x C) = hkCfg C"
  "activeFails (markHealthy x C) = activeFails C" "activeSuccess (markHealthy x C) = activeSuccess C"
  "hkInst (markUnhealthy x C) = hkInst (set_healthy (siID x) False C)"
  "hkInst (markHealthy x C) = hkInst (set_healthy (siID x) True C)"
  by (simp_all add: markUnhealthy_def markHealthy_def)

definition count_fail :: "nat \<Rightarrow> ('i, 's) checker \<Rightarrow> ('i, 's) checker" where
  "count_fail i C = C\<lparr>activeSuccess := (activeSuccess C)(i := 0), activeFails := (activeFails C)(i := activeFails C i + 1)\<rparr>"

definition count_success :: "nat \<Rightarrow> ('i, 's) checker \<Rightarrow> ('i, 's) checker" where
  "count_success i C = C\<lparr>activeFails := (activeFails C)(i := 0), activeSuccess := (activeSuccess C)(i := activeSuccess C i + 1)\<rparr>"

lemma count_sel [simp]:
  "hkInst (count_fail i C) = hkInst C" "hkBus (count_fail i C) = hkBus C" "hkCfg (count_fail i C) = hkCfg C"
  "hkSvc (count_fail i C) = hkSvc C"
  "hkInst (count_success i C) = hkInst C" "hkBus (count_success i C) = hkBus C" "hkCfg (count_success i C) = hkCfg C"
  "hkSvc (count_success i C) = hkSvc C"
  by (simp_all add: count_fail_def count_success_def)

lemma process_cases:
  "processActiveResult inst True C =
     (if \<not> siHealthy inst \<and> RecoveryThreshold (hkCfg C) \<le> activeSuccess C (siID inst) + 1
      then markHealthy inst (count_success (siID inst) C) else count_success (siID inst) C)"
  "processActiveResult inst False C =
     (if siHealthy inst \<and> FailThreshold (hkCfg C) \<le> activeFails C (siID inst) + 1
      then markUnhealthy inst (count_fail (siID inst) C) else count_fail (siID inst) C)"
  by (simp_all add: processActiveResult_def Let_def count_fail_def count_success_def)

interpretation fails: streak
  "\<lambda>b. processActiveResult (inst\<lparr>siHealthy := True\<rparr>) (\<not> b)" "count_fail (siID inst)"
  "markUnhealthy (inst\<lparr>siHealthy := True\<rparr>)" "\<lambda>C. activeFails C (siID inst)"
  "\<lambda>C. FailThreshold (hkCfg C)" "\<lambda>C. (hkInst C, hkBus C)" for inst
  by unfold_locales (simp_all add: process_cases, simp_all add: count_success_def count_fail_def)

interpretation successes: streak
  "processActiveResult (inst\<lparr>siHealthy := False\<rparr>)" "count_success (siID inst)"
  "markHealthy (inst\<lparr>siHealthy := False\<rparr>)" "\<lambda>C. activeSuccess C (siID inst)"
  "\<lambda>C. RecoveryThreshold (hkCfg C)" "\<lambda>C. (hkInst C, hkBus C)" for inst
  by unfold_locales (simp_all add: process_cases, simp_all add: count_success_def count_fail_def)

section \<open>What marking does to the table\<close>

definition by_id :: "nat \<Rightarrow> ('d, ServiceInstance) table \<Rightarrow> ServiceInstance multiset" where
  "by_id i T = filter_mset (\<lambda>r. siID r = i) (rows T)"

definition all_health :: "nat \<Rightarrow> bool \<Rightarrow> ('d, ServiceInstance) table \<Rightarrow> bool" where
  "all_health i h T \<longleftrightarrow> (\<forall>r \<in># by_id i T. siHealthy r = h)"

lemma all_health_iff: "all_health i h T \<longleftrightarrow> (\<forall>r \<in># rows T. siID r = i \<longrightarrow> siHealthy r = h)"
  by (auto simp: all_health_def by_id_def)

lemma set_healthy_table:
  assumes "gorm_table inst_schema (hkInst C)"
  shows "gorm_table inst_schema (hkInst (set_healthy i h C))"
    and "updates_succeed (hkInst (set_healthy i h C)) = updates_succeed (hkInst C)"
    and "\<exists>u. rows (hkInst (set_healthy i h C)) =
       image_mset (\<lambda>x. if siID x = i then x\<lparr>siHealthy := h, siUpdatedAt := u\<rparr> else x) (rows (hkInst C)) \<or>
       hkInst (set_healthy i h C) = hkInst C \<and> \<not> updates_succeed (hkInst C)"
proof -
  have "gorm_table inst_schema (hkInst (set_healthy i h C)) \<and>
    updates_succeed (hkInst (set_healthy i h C)) = updates_succeed (hkInst C) \<and>
    (\<exists>u. rows (hkInst (set_healthy i h C)) =
       image_mset (\<lambda>x. if siID x = i then x\<lparr>siHealthy := h, siUpdatedAt := u\<rparr> else x) (rows (hkInst C)) \<or>
       hkInst (set_healthy i h C) = hkInst C \<and> \<not> updates_succeed (hkInst C))"
  proof (cases "InstanceStore_UpdateHealthy i h (hkInst C)")
    case (Inl e)
    then have "\<not> updates_succeed (hkInst C)"
      by (metis InstanceStore_UpdateHealthy_def tb_update_succeeds Inl_Inr_False)
    with Inl assms show ?thesis by (simp add: set_healthy_def)
  next
    case (Inr T)
    note u = Inr [unfolded InstanceStore_UpdateHealthy_def]
    show ?thesis
      using tb_update_rows [OF assms u] tb_update_keeps_up [OF u]
      by (simp add: set_healthy_def Inr update_effect_def cong: if_cong)
  qed
  then show "gorm_table inst_schema (hkInst (set_healthy i h C))"
    "updates_succeed (hkInst (set_healthy i h C)) = updates_succeed (hkInst C)"
    "\<exists>u. rows (hkInst (set_healthy i h C)) =
       image_mset (\<lambda>x. if siID x = i then x\<lparr>siHealthy := h, siUpdatedAt := u\<rparr> else x) (rows (hkInst C)) \<or>
       hkInst (set_healthy i h C) = hkInst C \<and> \<not> updates_succeed (hkInst C)"
    by blast+
qed

lemma flag_rows:
  assumes "r \<in># image_mset (\<lambda>x. if siID x = i then x\<lparr>siHealthy := h, siUpdatedAt := u\<rparr> else x) M" "siID r = i"
  shows "siHealthy r = h"
proof -
  from assms(1) obtain x where x: "r = (if siID x = i then x\<lparr>siHealthy := h, siUpdatedAt := u\<rparr> else x)"
    unfolding set_image_mset image_iff by (elim bexE)
  show ?thesis
  proof (cases "siID x = i")
    case True
    then show ?thesis by (simp add: x)
  next
    case False
    with x assms(2) show ?thesis by simp
  qed
qed

lemma set_healthy_all:
  assumes "gorm_table inst_schema (hkInst C)" "updates_succeed (hkInst C)"
  shows "all_health i h (hkInst (set_healthy i h C))"
proof -
  from set_healthy_table(3) [OF assms(1), of i h] obtain u where
    "rows (hkInst (set_healthy i h C)) =
       image_mset (\<lambda>x. if siID x = i then x\<lparr>siHealthy := h, siUpdatedAt := u\<rparr> else x) (rows (hkInst C)) \<or>
     hkInst (set_healthy i h C) = hkInst C \<and> \<not> updates_succeed (hkInst C)" ..
  then have "rows (hkInst (set_healthy i h C)) =
       image_mset (\<lambda>x. if siID x = i then x\<lparr>siHealthy := h, siUpdatedAt := u\<rparr> else x) (rows (hkInst C))"
    using assms(2) by simp
  then show ?thesis unfolding all_health_iff by (simp only:) (use flag_rows in blast)
qed

lemma set_healthy_other:
  assumes "gorm_table inst_schema (hkInst C)" "j \<noteq> i"
  shows "by_id j (hkInst (set_healthy i h C)) = by_id j (hkInst C)"
proof -
  from set_healthy_table(3) [OF assms(1), of i h] obtain u where
    "rows (hkInst (set_healthy i h C)) =
       image_mset (\<lambda>x. if siID x = i then x\<lparr>siHealthy := h, siUpdatedAt := u\<rparr> else x) (rows (hkInst C)) \<or>
     hkInst (set_healthy i h C) = hkInst C" by blast
  then show ?thesis
  proof
    assume r: "rows (hkInst (set_healthy i h C)) =
       image_mset (\<lambda>x. if siID x = i then x\<lparr>siHealthy := h, siUpdatedAt := u\<rparr> else x) (rows (hkInst C))"
    have "filter_mset (\<lambda>r. siID r = j) (image_mset (\<lambda>x. if siID x = i then x\<lparr>siHealthy := h, siUpdatedAt := u\<rparr> else x) (rows (hkInst C)))
      = image_mset (\<lambda>x. if siID x = i then x\<lparr>siHealthy := h, siUpdatedAt := u\<rparr> else x) (filter_mset (\<lambda>r. siID r = j) (rows (hkInst C)))"
      by (rule filter_image_if) auto
    also have "\<dots> = filter_mset (\<lambda>r. siID r = j) (rows (hkInst C))"
      by (rule image_mset_id_if) (use assms(2) in auto)
    finally show ?thesis by (simp add: by_id_def r)
  qed (simp add: by_id_def)
qed

lemma set_healthy_by_id:
  assumes "gorm_table inst_schema (hkInst C)"
  shows "\<exists>u. by_id i (hkInst (set_healthy i h C)) = image_mset (\<lambda>x. x\<lparr>siHealthy := h, siUpdatedAt := u\<rparr>) (by_id i (hkInst C)) \<or>
    hkInst (set_healthy i h C) = hkInst C \<and> \<not> updates_succeed (hkInst C)"
proof -
  let ?f = "\<lambda>u x. if siID x = i then x\<lparr>siHealthy := h, siUpdatedAt := u\<rparr> else x"
  have "filter_mset (\<lambda>r. siID r = i) (image_mset (?f u) M) = image_mset (\<lambda>x. x\<lparr>siHealthy := h, siUpdatedAt := u\<rparr>) (filter_mset (\<lambda>r. siID r = i) M)" for u M
    by (induction M) auto
  note f = this
  from set_healthy_table(3) [OF assms, of i h] obtain u where
    "rows (hkInst (set_healthy i h C)) = image_mset (?f u) (rows (hkInst C)) \<or>
     hkInst (set_healthy i h C) = hkInst C \<and> \<not> updates_succeed (hkInst C)" by blast
  then show ?thesis
  proof
    assume "rows (hkInst (set_healthy i h C)) = image_mset (?f u) (rows (hkInst C))"
    then show ?thesis by (intro exI [of _ u] disjI1) (simp only: by_id_def f)
  qed simp
qed


section \<open>Active checks\<close>

lemma fold_not: "fold (\<lambda>b. f (\<not> b)) bs = fold f (map Not bs)"
  by (simp add: fold_map comp_def)

lemma process_run_table:
  assumes "gorm_table inst_schema (hkInst C)"
  shows "gorm_table inst_schema (hkInst (fold (processActiveResult inst) bs C)) \<and>
    updates_succeed (hkInst (fold (processActiveResult inst) bs C)) = updates_succeed (hkInst C)"
proof (induction bs rule: rev_induct)
  case (snoc b bs)
  then show ?case
    by (cases b) (simp_all add: process_cases set_healthy_table(1,2))
qed (simp add: assms)

text \<open>
  C14. A healthy instance is marked unhealthy by active checks exactly at the threshold: as
  long as no \<open>FailThreshold\<close> probes in a row have failed, neither the table nor any subscriber
  sees anything, whatever the mixture of results; and a sequence of results that ends with
  that many failures leaves the instance unhealthy.
\<close>
theorem active_failures_mark:
  assumes "gorm_table inst_schema (hkInst C)" "updates_succeed (hkInst C)"
    and "siHealthy inst" "activeFails C (siID inst) = 0" "0 < FailThreshold (hkCfg C)"
    and "n = nat (FailThreshold (hkCfg C))"
  shows "(\<forall>bs. \<not> sublist (replicate n False) bs \<longrightarrow>
            hkInst (fold (processActiveResult inst) bs C) = hkInst C \<and>
            hkBus (fold (processActiveResult inst) bs C) = hkBus C) \<and>
         (\<forall>bs. all_health (siID inst) False (hkInst (fold (processActiveResult inst) (bs @ replicate n False) C)))"
proof (intro conjI allI impI)
  have inst: "inst\<lparr>siHealthy := True\<rparr> = inst" using assms(3) by (cases inst) simp
  fix bs :: "bool list"
  have q: "fold (\<lambda>b. processActiveResult inst (\<not> b)) (map Not bs) C = fold (processActiveResult inst) bs C" for bs
    by (simp add: fold_map comp_def)
  {
    assume "\<not> sublist (replicate n False) bs"
    then have "\<not> sublist (replicate n True) (map Not bs)"
      using map_mono_sublist [of "replicate n True" "map Not bs" Not] by (auto simp: comp_def)
    from fails.run_quiet [of C inst "map Not bs", unfolded inst q] this
    show "hkInst (fold (processActiveResult inst) bs C) = hkInst C"
      "hkBus (fold (processActiveResult inst) bs C) = hkBus C" using assms(4-6) by simp_all
  }
  have "fold (\<lambda>b. processActiveResult inst (\<not> b)) (map Not bs @ replicate n True) C =
      fold (processActiveResult inst) (bs @ replicate n False) C"
    using q [of "bs @ replicate n False"] by simp
  with fails.run_fires [of C inst "map Not bs", unfolded inst] assms(4-6)
  obtain bs' where f: "fold (processActiveResult inst) (bs @ replicate n False) C =
      markUnhealthy inst (count_fail (siID inst) (fold (processActiveResult inst) bs' C))"
    unfolding fold_not by auto
  show "all_health (siID inst) False (hkInst (fold (processActiveResult inst) (bs @ replicate n False) C))"
    unfolding f using process_run_table [OF assms(1), of inst bs'] assms(2) by (simp add: set_healthy_all)
qed

definition hc_row :: ServiceInstance where
  "hc_row = \<lparr>siID = 1, siNamespaceID = ''public'', siGroupName = ''DEFAULT_GROUP'',
     siServiceName = ''order'', siClusterName = ''DEFAULT'', siIP = ''10.0.0.1'', siPort = 8080,
     siWeight = 1, siHealthy = True, siEnabled = True, siEphemeral = True, siMetadata = [],
     siLastBeat = 0, siCreatedAt = 1, siUpdatedAt = 1\<rparr>"

definition hc_svc :: Service where
  "hc_svc = \<lparr>svID = 1, svNamespaceID = ''public'', svGroupName = ''DEFAULT_GROUP'',
     svServiceName = ''order'', svProtectThreshold = 0, svMetadata = [], svHealthCheckType = ''PASSIVE'',
     svHealthCheckProto = ''TCP'', svHealthCheckPath = [], svHealthCheckPort = 0,
     svActiveInterval = 5, svPassiveWindow = 60, svPassiveThreshold = 2, svCreatedAt = 1, svUpdatedAt = 1\<rparr>"

definition zero_cfg :: Config where
  "zero_cfg = \<lparr>CheckInterval = 0, FailThreshold = 0, RemoveTimeout = 0, PassiveWindow = 0,
     PassiveThreshold = 0, RecoveryThreshold = 0, ActiveTimeout = 0\<rparr>"

definition hc :: "ServiceInstance list \<Rightarrow> Service list \<Rightarrow> (ServiceInstance list, Service list) checker" where
  "hc xs ss = NewChecker (mem_table inst_schema xs) (mem_table svc_schema ss) NewEventBus zero_cfg"

lemma hc_sel [simp]:
  "hkInst (hc xs ss) = mem_table inst_schema xs" "hkSvc (hc xs ss) = mem_table svc_schema ss"
  "hkBus (hc xs ss) = NewEventBus" "activeFails (hc xs ss) i = 0" "activeSuccess (hc xs ss) i = 0"
  "FailThreshold (hkCfg (hc xs ss)) = 3" "RecoveryThreshold (hkCfg (hc xs ss)) = 3"
  "RemoveTimeout (hkCfg (hc xs ss)) = 30" "PassiveWindow (hkCfg (hc xs ss)) = 60"
  "PassiveThreshold (hkCfg (hc xs ss)) = 5" "hkPassive (hc xs ss) = newPassiveTracker"
  by (simp_all add: hc_def NewChecker_def applyDefaults_def or_pos_def zero_cfg_def)

lemma hc_row_id: "siID hc_row = 1" "siID (hc_row\<lparr>siHealthy := h\<rparr>) = 1"
  by (simp_all add: hc_row_def)

theorem active_failures_mark_witness:
  "all_health 1 False (hkInst (fold (processActiveResult hc_row) ([False, True] @ replicate 3 False) (hc [hc_row] [])))"
proof -
  have "\<forall>bs. all_health (siID hc_row) False (hkInst (fold (processActiveResult hc_row) (bs @ replicate 3 False) (hc [hc_row] [])))"
    by (rule active_failures_mark [THEN conjunct2]) (simp_all add: hc_row_def)
  then show ?thesis unfolding hc_row_id by (rule spec)
qed

text \<open>
  Recovery is symmetric: an unhealthy instance stays as it is as long as no
  \<open>RecoveryThreshold\<close> probes in a row have succeeded, and is healthy after that many.
\<close>
theorem active_successes_recover:
  assumes "gorm_table inst_schema (hkInst C)" "updates_succeed (hkInst C)"
    and "\<not> siHealthy inst" "activeSuccess C (siID inst) = 0" "0 < RecoveryThreshold (hkCfg C)"
    and "n = nat (RecoveryThreshold (hkCfg C))"
  shows "(\<forall>bs. \<not> sublist (replicate n True) bs \<longrightarrow>
            hkInst (fold (processActiveResult inst) bs C) = hkInst C \<and>
            hkBus (fold (processActiveResult inst) bs C) = hkBus C) \<and>
         (\<forall>bs. all_health (siID inst) True (hkInst (fold (processActiveResult inst) (bs @ replicate n True) C)))"
proof (intro conjI allI impI)
  have inst: "inst\<lparr>siHealthy := False\<rparr> = inst" using assms(3) by (cases inst) simp
  fix bs :: "bool list"
  {
    assume "\<not> sublist (replicate n True) bs"
    with successes.run_quiet [of C inst bs, unfolded inst]
    show "hkInst (fold (processActiveResult inst) bs C) = hkInst C"
      "hkBus (fold (processActiveResult inst) bs C) = hkBus C" using assms(4-6) by simp_all
  }
  from successes.run_fires [of C inst bs, unfolded inst] assms(4-6)
  obtain bs' where f: "fold (processActiveResult inst) (bs @ replicate n True) C =
      markHealthy inst (count_success (siID inst) (fold (processActiveResult inst) bs' C))" by auto
  show "all_health (siID inst) True (hkInst (fold (processActiveResult inst) (bs @ replicate n True) C))"
    unfolding f using process_run_table [OF assms(1), of inst bs'] assms(2) by (simp add: set_healthy_all)
qed

theorem active_successes_recover_witness:
  "all_health 1 True (hkInst (fold (processActiveResult (hc_row\<lparr>siHealthy := False\<rparr>)) ([True, False] @ replicate 3 True)
     (hc [hc_row\<lparr>siHealthy := False\<rparr>] [])))"
proof -
  have "\<forall>bs. all_health (siID (hc_row\<lparr>siHealthy := False\<rparr>)) True
     (hkInst (fold (processActiveResult (hc_row\<lparr>siHealthy := False\<rparr>)) (bs @ replicate 3 True) (hc [hc_row\<lparr>siHealthy := False\<rparr>] [])))"
    by (rule active_successes_recover [THEN conjunct2]) simp_all
  then show ?thesis unfolding hc_row_id by (rule spec)
qed

section \<open>Which instances a pass touches\<close>

lemma process_other:
  assumes "gorm_table inst_schema (hkInst C)"
  shows "gorm_table inst_schema (hkInst (processActiveResult inst b C))"
    and "j \<noteq> siID inst \<Longrightarrow> by_id j (hkInst (processActiveResult inst b C)) = by_id j (hkInst C)"
    and "hkSvc (processActiveResult inst b C) = hkSvc C" "hkCfg (processActiveResult inst b C) = hkCfg C"
    and "updates_succeed (hkInst (processActiveResult inst b C)) = updates_succeed (hkInst C)"
  using assms by (cases b; simp add: process_cases set_healthy_table(1,2) set_healthy_other)+

lemma check_instance_other:
  assumes "gorm_table inst_schema (hkInst C)"
  shows "gorm_table inst_schema (hkInst (check_instance m e inst C))"
    and "j \<noteq> siID inst \<or> skips m inst \<Longrightarrow> by_id j (hkInst (check_instance m e inst C)) = by_id j (hkInst C)"
    and "hkSvc (check_instance m e inst C) = hkSvc C" "hkCfg (check_instance m e inst C) = hkCfg C"
    and "updates_succeed (hkInst (check_instance m e inst C)) = updates_succeed (hkInst C)"
  using assms by (auto simp: check_instance_def Let_def process_other set_healthy_table(1,2) set_healthy_other)

definition check_all :: "(string \<rightharpoonup> Service) \<Rightarrow> (check_env \<times> ServiceInstance) list \<Rightarrow> ('i, 's) checker \<Rightarrow> ('i, 's) checker" where
  "check_all m xs C = fold (\<lambda>(e, inst). check_instance m e inst) xs C"

lemma runActiveCheck_cases:
  obtains (failed) "runActiveCheck envs C = C"
      "is_ok (ServiceStore_ListAll (hkSvc C)) \<Longrightarrow> \<not> is_ok (InstanceStore_ListAll (hkInst C))"
  | (pass) services insts where "ServiceStore_ListAll (hkSvc C) = Inr services"
      "InstanceStore_ListAll (hkInst C) = Inr insts"
      "runActiveCheck envs C =
         check_all (service_map services) (map (\<lambda>(k, x). (envs k, x)) (enumerate 0 insts)) C"
proof -
  have f: "fold (\<lambda>(k, inst). check_instance m (envs k) inst) xs C =
      check_all m (map (\<lambda>(k, x). (envs k, x)) xs) C" for m xs
    by (simp add: check_all_def fold_map comp_def case_prod_unfold)
  show thesis
    using that by (cases "ServiceStore_ListAll (hkSvc C)"; cases "InstanceStore_ListAll (hkInst C)")
      (auto simp: runActiveCheck_def f)
qed

lemma check_all_other:
  assumes "gorm_table inst_schema (hkInst C)"
  shows "gorm_table inst_schema (hkInst (check_all m xs C)) \<and> hkSvc (check_all m xs C) = hkSvc C \<and>
    hkCfg (check_all m xs C) = hkCfg C \<and>
    updates_succeed (hkInst (check_all m xs C)) = updates_succeed (hkInst C) \<and>
    ((\<forall>(e, x) \<in> set xs. siID x = j \<longrightarrow> skips m x) \<longrightarrow> by_id j (hkInst (check_all m xs C)) = by_id j (hkInst C))"
  using assms
proof (induction xs arbitrary: C)
  case (Cons a xs)
  obtain e x where a: "a = (e, x)" by (cases a)
  note c = check_instance_other [OF Cons.prems, where m = m and e = e and inst = x]
  show ?case
    using Cons.IH [OF c(1)] c(2) [of j] by (auto simp: check_all_def a c(3-5))
qed (simp add: check_all_def)

lemma set_enumerate_env: "(e, x) \<in> set (map (\<lambda>(k, x). (envs k, x)) (enumerate n xs)) \<Longrightarrow> x \<in> set xs"
  by (auto simp: in_set_enumerate_eq)

lemma list_all_rows:
  "gorm_table inst_schema T \<Longrightarrow> InstanceStore_ListAll T = Inr xs \<Longrightarrow> mset xs = rows T"
  using tb_find_rows [of inst_schema T "\<lambda>_. True" xs] by (simp add: InstanceStore_ListAll_def)

text \<open>
  C17. A pass of active checks leaves alone what it is not configured to check: with the
  database ids unique, the row of an instance that is not ephemeral, or whose service says
  \<open>NONE\<close> or \<open>PASSIVE\<close>, is the same before and after, whatever the network answers and however
  old its last heartbeat is. (The README has the heartbeat timeout apply to every ephemeral
  instance, and services with \<open>NONE\<close> rely on it; the code skips them before it looks at the time.)
\<close>
theorem pass_leaves_skipped:
  assumes "gorm_table inst_schema (hkInst C)"
    and "\<forall>r \<in># rows (hkInst C). \<forall>r' \<in># rows (hkInst C). siID r = siID r' \<longrightarrow> r = r'"
    and "ServiceStore_ListAll (hkSvc C) = Inr services"
    and "inst \<in># rows (hkInst C)" and "skips (service_map services) inst"
  shows "by_id (siID inst) (hkInst (runActiveCheck envs C)) = by_id (siID inst) (hkInst C)"
proof (cases rule: runActiveCheck_cases [of envs C])
  case failed
  then show ?thesis by simp
next
  case (pass services' insts)
  then have "services' = services" using assms(3) by simp
  moreover have "\<forall>x \<in> set insts. siID x = siID inst \<longrightarrow> x = inst"
    using list_all_rows [OF assms(1) pass(2)] assms(2,4) by (metis set_mset_mset)
  ultimately have "\<forall>(e, x) \<in> set (map (\<lambda>(k, x). (envs k, x)) (enumerate 0 insts)).
      siID x = siID inst \<longrightarrow> skips (service_map services') x"
    using assms(5) set_enumerate_env [of _ _ envs 0 insts] by fast
  then show ?thesis unfolding pass(3)
    by (rule check_all_other [OF assms(1), THEN conjunct2, THEN conjunct2, THEN conjunct2, THEN conjunct2, THEN mp])
qed

definition all_fail :: "nat \<Rightarrow> check_env" where
  "all_fail = (\<lambda>_. \<lparr>ceNow = 10 ^ 15, ceDial = (\<lambda>_. False), ceGet = (\<lambda>_. None)\<rparr>)"

theorem pass_leaves_skipped_witness:
  "by_id 1 (hkInst (runActiveCheck all_fail (hc [hc_row] [hc_svc]))) = {#hc_row#}"
proof -
  have l: "ServiceStore_ListAll (hkSvc (hc [hc_row] [hc_svc])) = Inr [hc_svc]"
    by (simp add: ServiceStore_ListAll_def mem_ops)
  have s: "skips (service_map [hc_svc]) hc_row"
    by (simp add: skips_def plan_for_def service_of_def service_map_def hc_svc_def hc_row_def serviceKey_def model_constants)
  have "by_id (siID hc_row) (hkInst (runActiveCheck all_fail (hc [hc_row] [hc_svc]))) = by_id (siID hc_row) (hkInst (hc [hc_row] [hc_svc]))"
    by (rule pass_leaves_skipped [OF _ _ l _ s]) simp_all
  then show ?thesis by (simp add: by_id_def hc_row_def)
qed

section \<open>Heartbeat timeout\<close>

definition timed_out :: "int \<Rightarrow> check_env \<Rightarrow> ServiceInstance \<Rightarrow> bool" where
  "timed_out limit e x \<longleftrightarrow> seconds limit < elapsed_since (ceNow e) (siLastBeat x)"

definition marked :: "ServiceInstance \<Rightarrow> ServiceInstance multiset \<Rightarrow> bool" where
  "marked x M \<longleftrightarrow> (\<exists>u. M = {#x\<lparr>siHealthy := False, siUpdatedAt := u\<rparr>#})"

lemma marked_unhealthy: "\<not> siHealthy x \<Longrightarrow> marked x {#x#}"
  unfolding marked_def by (rule exI [of _ "siUpdatedAt x"]) (cases x, simp)

lemma set_healthy_marks:
  assumes "gorm_table inst_schema (hkInst C)" "updates_succeed (hkInst C)"
    and "by_id (siID x) (hkInst C) = {#x#} \<or> marked x (by_id (siID x) (hkInst C))"
  shows "marked x (by_id (siID x) (hkInst (set_healthy (siID x) False C)))"
  using set_healthy_by_id [OF assms(1), of "siID x" False] assms(2,3) by (auto simp: marked_def)

lemma check_all_timeout:
  assumes "gorm_table inst_schema (hkInst C)" "updates_succeed (hkInst C)"
    and "\<forall>(e, x) \<in> set xs. siID x = siID inst \<longrightarrow> x = inst \<and> \<not> skips m x \<and> timed_out (RemoveTimeout (hkCfg C)) e x"
    and "by_id (siID inst) (hkInst C) = {#inst#} \<and> (\<exists>(e, x) \<in> set xs. x = inst) \<or> marked inst (by_id (siID inst) (hkInst C))"
  shows "marked inst (by_id (siID inst) (hkInst (check_all m xs C)))"
  using assms
proof (induction xs arbitrary: C)
  case Nil
  then show ?case by (simp add: check_all_def)
next
  case (Cons a xs)
  obtain e x where a: "a = (e, x)" by (cases a)
  let ?C = "check_instance m e x C"
  note c = check_instance_other [OF Cons.prems(1), where m = m and e = e and inst = x]
  have run: "check_all m (a # xs) C = check_all m xs ?C" by (simp add: check_all_def a)
  show ?case
  proof (cases "siID x = siID inst")
    case True
    then have x: "x = inst" "\<not> skips m inst" "timed_out (RemoveTimeout (hkCfg C)) e inst"
      using Cons.prems(3) by (auto simp: a)
    have "marked inst (by_id (siID inst) (hkInst ?C))"
    proof (cases "siHealthy inst")
      case True
      then have "hkInst ?C = hkInst (set_healthy (siID inst) False C)"
        using x by (simp add: check_instance_def timed_out_def)
      with set_healthy_marks [OF Cons.prems(1,2)] Cons.prems(4) show ?thesis by auto
    next
      case False
      then have "?C = C" using x by (simp add: check_instance_def timed_out_def)
      with False Cons.prems(4) show ?thesis by (auto intro: marked_unhealthy)
    qed
    then show ?thesis
      unfolding run using Cons.prems(2,3) by (intro Cons.IH [OF c(1)]) (auto simp: c(4,5) a)
  next
    case False
    then have h: "by_id (siID inst) (hkInst ?C) = by_id (siID inst) (hkInst C)" by (intro c(2)) simp
    show ?thesis
      unfolding run using Cons.prems(2-4) False
      by (intro Cons.IH [OF c(1)]) (auto simp: c(4,5) h a)
  qed
qed

text \<open>
  C16. An instance whose last heartbeat is older than \<open>RemoveTimeout\<close> is still registered but
  unhealthy after the next pass, whatever its probe would say: its row is there, the flag is
  down, and nothing else of it has changed but the time of the update. This holds for every
  ephemeral instance whose service is checked actively. (In spite of its name, and of what the
  README says of it, the timeout removes nothing.)
\<close>
theorem heartbeat_timeout_marks:
  assumes "gorm_table inst_schema (hkInst C)" "updates_succeed (hkInst C)"
    and "ServiceStore_ListAll (hkSvc C) = Inr services" "is_ok (InstanceStore_ListAll (hkInst C))"
    and "by_id (siID inst) (hkInst C) = {#inst#}" "\<not> skips (service_map services) inst"
    and "\<forall>k. timed_out (RemoveTimeout (hkCfg C)) (envs k) inst"
  shows "\<exists>u. by_id (siID inst) (hkInst (runActiveCheck envs C)) = {#inst\<lparr>siHealthy := False, siUpdatedAt := u\<rparr>#}"
proof (cases rule: runActiveCheck_cases [of envs C])
  case failed
  then show ?thesis using assms(3,4) by simp
next
  case (pass services' insts)
  have sv: "services' = services" using pass(1) assms(3) by simp
  have set: "set insts = set_mset (rows (hkInst C))"
    using list_all_rows [OF assms(1) pass(2)] by (metis set_mset_mset)
  let ?xs = "map (\<lambda>(k, x). (envs k, x)) (enumerate 0 insts)"
  have one: "siID x = siID inst \<longleftrightarrow> x = inst" if "x \<in> set insts" for x
    using that set assms(5) by (metis (mono_tags, lifting) by_id_def filter_mset_eq_conv insert_noteq_member
        mem_Collect_eq set_mset_filter singletonD set_mset_single)
  have "\<exists>k. e = envs k \<and> x \<in> set insts" if "(e, x) \<in> set ?xs" for e x
    using that by (auto simp: in_set_enumerate_eq)
  then have "\<forall>(e, x) \<in> set ?xs. siID x = siID inst \<longrightarrow> x = inst \<and> \<not> skips (service_map services) x \<and>
      timed_out (RemoveTimeout (hkCfg C)) e x"
    using assms(6,7) one by blast
  moreover have "inst \<in># by_id (siID inst) (hkInst C)" using assms(5) by simp
  then have "inst \<in> set insts" using set by (simp add: by_id_def)
  then have "inst \<in> snd ` set ?xs" by (simp add: comp_def case_prod_unfold flip: set_map)
  then have "\<exists>(e, x) \<in> set ?xs. x = inst" by force
  ultimately have "marked inst (by_id (siID inst) (hkInst (check_all (service_map services) ?xs C)))"
    using assms(5) by (intro check_all_timeout assms(1,2)) blast+
  then show ?thesis unfolding pass(3) sv marked_def .
qed

theorem heartbeat_timeout_marks_witness:
  "\<exists>u. by_id 1 (hkInst (runActiveCheck (\<lambda>_. \<lparr>ceNow = 10 ^ 15, ceDial = (\<lambda>_. True), ceGet = (\<lambda>_. Some 200)\<rparr>)
     (hc [hc_row] []))) = {#hc_row\<lparr>siHealthy := False, siUpdatedAt := u\<rparr>#}"
  by (rule heartbeat_timeout_marks [where services = "[]" and inst = hc_row, unfolded hc_row_id])
     (simp_all add: ServiceStore_ListAll_def InstanceStore_ListAll_def mem_ops skips_def plan_for_def service_of_def
       service_map_def hc_row_def model_constants timed_out_def seconds_def elapsed_since_def by_id_def
       clamp64_def int64_def int64_max_def int64_min_def)

section \<open>Passive reports\<close>

text \<open>
  A history of the tracker: failures and successes of instances at the times given, and
  counts, each with the window it was asked for.
\<close>

datatype tr_op = TFail nat int | TSucc nat | TCount nat int int

fun tr_step :: "tr_op \<Rightarrow> tracker \<Rightarrow> tracker" where
  "tr_step (TFail i t) tr = tracker_ReportFailure t i tr"
| "tr_step (TSucc i) tr = tracker_ReportSuccess i tr"
| "tr_step (TCount i t w) tr = fst (FailureCount t i w tr)"

text \<open>How far back the counts of instance \<open>i\<close> in a history reach, and the failures that none of
  the later counts, no later success and not the bound \<open>c\<close> exclude.\<close>

fun cutoffs :: "nat \<Rightarrow> tr_op list \<Rightarrow> int list" where
  "cutoffs i [] = []"
| "cutoffs i (TCount j t w # as) = (if j = i then [cutoff_at t w] else []) @ cutoffs i as"
| "cutoffs i (TFail j t # as) = cutoffs i as"
| "cutoffs i (TSucc j # as) = cutoffs i as"

fun surviving :: "nat \<Rightarrow> int \<Rightarrow> tr_op list \<Rightarrow> int list" where
  "surviving i c [] = []"
| "surviving i c (TFail j t # as) =
     (if j = i \<and> TSucc i \<notin> set as \<and> (\<forall>u \<in> set (cutoffs i as). u < t) \<and> c < t then [t] else []) @ surviving i c as"
| "surviving i c (TSucc j # as) = surviving i c as"
| "surviving i c (TCount j t w # as) = surviving i c as"

text \<open>The failures of instance \<open>i\<close> since its last success.\<close>

fun since_success :: "nat \<Rightarrow> tr_op \<Rightarrow> int list \<Rightarrow> int list" where
  "since_success i (TFail j t) ts = (if j = i then ts @ [t] else ts)"
| "since_success i (TSucc j) ts = (if j = i then [] else ts)"
| "since_success i (TCount j t w) ts = ts"

lemma run_surviving:
  "filter (\<lambda>t. c < t) (fold tr_step as tr i) =
   (if TSucc i \<in> set as then [] else filter (\<lambda>t. c < t \<and> (\<forall>u \<in> set (cutoffs i as). u < t)) (tr i)) @ surviving i c as"
proof (induction i c as arbitrary: tr rule: surviving.induct)
  case (2 i c j t as)
  show ?case by (simp add: 2 tracker_ReportFailure_def)
next
  case (3 i c j as)
  show ?case by (auto simp: 3 tracker_ReportSuccess_def)
next
  case (4 i c j t w as)
  show ?case by (auto simp: 4 FailureCount_def Let_def intro: filter_cong)
qed simp

lemma run_since: "fold (since_success i) as ts = (if TSucc i \<in> set as then [] else ts) @ fold (since_success i) as []"
proof (induction as arbitrary: ts)
  case (Cons a as)
  show ?case
  proof (cases a)
    case (TFail j t)
    then show ?thesis using Cons.IH [of "ts @ [t]"] Cons.IH [of "[t]"] Cons.IH [of ts] by simp
  next
    case (TSucc j)
    then show ?thesis using Cons.IH [of ts] by simp
  next
    case (TCount j t w)
    then show ?thesis using Cons.IH [of ts] by simp
  qed
qed simp

lemma surviving_since:
  "\<forall>u \<in> set (cutoffs i as). u \<le> c \<Longrightarrow> surviving i c as = filter (\<lambda>t. c < t) (fold (since_success i) as [])"
proof (induction i c as rule: surviving.induct)
  case (2 i c j t as)
  then have "(\<forall>u \<in> set (cutoffs i as). u < t) \<and> c < t \<longleftrightarrow> c < t" by auto
  with 2 run_since [of i as "[t]"] show ?case by simp
next
  case (3 i c j as)
  then show ?case by simp
next
  case (4 i c j t w as)
  then show ?case by (simp split: if_splits)
qed simp

text \<open>
  C13. The sliding window counts exactly, for every history of failures, successes and counts,
  with any windows and any clock: a count is the number of the failures of the instance that no
  success has followed and that the window of this count and of every count in between reaches.
  So pruning loses nothing that still counts as long as no earlier count reached less far back
  (as with one window and a clock that does not run backwards): then the count is the number of
  failures since the last success within the window. A failure pruned under a narrow window
  stays lost when a later count has a wider one.
\<close>
theorem failure_count_exact:
  shows "snd (FailureCount now i w (fold tr_step as newPassiveTracker)) =
      int (length (surviving i (cutoff_at now w) as)) \<and>
    ((\<forall>u \<in> set (cutoffs i as). u \<le> cutoff_at now w) \<longrightarrow>
      snd (FailureCount now i w (fold tr_step as newPassiveTracker)) =
      int (length (filter (\<lambda>t. cutoff_at now w < t) (fold (since_success i) as []))))"
  using run_surviving [of "cutoff_at now w" as newPassiveTracker i] surviving_since [of i as "cutoff_at now w"]
  by (simp add: FailureCount_def Let_def newPassiveTracker_def)

lemma cutoff_int: "int64_min < w \<Longrightarrow> w \<le> int64_max \<Longrightarrow> cutoff_at t w = t - w"
  by (simp add: cutoff_at_def int64_id int64_min_def int64_max_def)

theorem failure_count_exact_witness:
  "snd (FailureCount 70 1 60 (fold tr_step
     [TFail 1 1, TSucc 1, TFail 1 5, TFail 2 6, TFail 1 20, TCount 1 30 60, TFail 1 65] newPassiveTracker)) = 2 \<and>
   snd (FailureCount 70 1 60 (fold tr_step [TFail 1 20, TCount 1 30 5, TFail 1 65] newPassiveTracker)) = 1"
proof -
  have c: "cutoff_at t 60 = t - 60" "cutoff_at t 5 = t - 5" for t
    by (simp_all add: cutoff_int int64_min_def int64_max_def)
  have "snd (FailureCount 70 1 60 (fold tr_step
     [TFail 1 1, TSucc 1, TFail 1 5, TFail 2 6, TFail 1 20, TCount 1 30 60, TFail 1 65] newPassiveTracker)) = 2"
    by (subst failure_count_exact [THEN conjunct2, THEN mp]) (simp_all add: c)
  moreover have "snd (FailureCount 70 1 60 (fold tr_step [TFail 1 20, TCount 1 30 5, TFail 1 65] newPassiveTracker)) = 1"
    by (subst failure_count_exact [THEN conjunct1]) (simp add: c)
  ultimately show ?thesis ..
qed

lemma report_cases:
  assumes "passive_limits (ns, grp, svc) C = (w, thr)"
    and "FailureCount t2 i w (tracker_ReportFailure t1 i (hkPassive C)) = (tr, n)"
  shows "ReportFailure t1 t2 i ns grp svc C =
    (if thr \<le> n then publish_for ns grp svc (set_healthy i False (C\<lparr>hkPassive := tr\<rparr>)) else C\<lparr>hkPassive := tr\<rparr>)"
  by (simp add: ReportFailure_def assms)



section \<open>The checker as a transition system\<close>

inductive health_step :: "('i, 's) checker \<Rightarrow> ('i, 's) checker \<Rightarrow> bool" where
  active: "health_step C (runActiveCheck envs C)"
| failure: "health_step C (ReportFailure t1 t2 i ns grp svc C)"
| success: "health_step C (ReportSuccess i C)"

inductive_simps health_step_iff: "health_step C C'"

inductive health_reach :: "('i, 's) checker \<Rightarrow> ('i, 's) checker \<Rightarrow> bool" for C where
  init: "health_reach C C"
| step: "health_reach C C1 \<Longrightarrow> health_step C1 C2 \<Longrightarrow> health_reach C C2"

text \<open>What stays true of the instances with id \<open>j\<close> when nothing but reports can touch them.\<close>

definition stuck_down :: "Service list \<Rightarrow> nat \<Rightarrow> ('i, 's) checker \<Rightarrow> bool" where
  "stuck_down services j C \<longleftrightarrow> gorm_table inst_schema (hkInst C) \<and>
     ServiceStore_ListAll (hkSvc C) = Inr services \<and> by_id j (hkInst C) \<noteq> {#} \<and>
     (\<forall>r \<in># by_id j (hkInst C). \<not> siHealthy r \<and> skips (service_map services) r)"

lemma skips_flag [simp]: "skips m (r\<lparr>siHealthy := h, siUpdatedAt := u\<rparr>) = skips m r"
  by (simp add: skips_def service_of_def plan_for_def split: option.split)

lemma stuck_down_mark:
  assumes "stuck_down services j C"
  shows "stuck_down services j (set_healthy i False C)"
proof (cases "i = j")
  case True
  have g: "gorm_table inst_schema (hkInst C)" using assms by (simp add: stuck_down_def)
  from set_healthy_by_id [OF g, of j False] assms set_healthy_table(1) [OF g] show ?thesis
    unfolding True stuck_down_def by auto
next
  case False
  with assms set_healthy_other [of C j i False] set_healthy_table(1) [of C] show ?thesis
    by (simp add: stuck_down_def)
qed

lemma stuck_down_step:
  assumes "health_step C C'" "stuck_down services j C"
  shows "stuck_down services j C'"
  using assms(1)
proof (cases rule: health_step.cases)
  case (active envs)
  show ?thesis
  proof (cases rule: runActiveCheck_cases [of envs C])
    case failed
    with assms(2) active show ?thesis by simp
  next
    case (pass services' insts)
    have g: "gorm_table inst_schema (hkInst C)" and sv: "services' = services"
      using assms(2) pass(1) by (simp_all add: stuck_down_def)
    have "set insts = set_mset (rows (hkInst C))"
      using list_all_rows [OF g pass(2)] by (metis set_mset_mset)
    then have "\<forall>x \<in> set insts. siID x = j \<longrightarrow> skips (service_map services) x"
      using assms(2) by (auto simp: stuck_down_def by_id_def)
    then have "\<forall>(e, x) \<in> set (map (\<lambda>(k, x). (envs k, x)) (enumerate 0 insts)). siID x = j \<longrightarrow> skips (service_map services) x"
      using set_enumerate_env [of _ _ envs 0 insts] by fast
    with check_all_other [OF g, of "service_map services" "map (\<lambda>(k, x). (envs k, x)) (enumerate 0 insts)" j] assms(2)
    show ?thesis unfolding active pass(3) sv by (simp add: stuck_down_def)
  qed
next
  case (failure t1 t2 i ns grp svc)
  obtain w thr tr n where c: "passive_limits (ns, grp, svc) C = (w, thr)"
    "FailureCount t2 i w (tracker_ReportFailure t1 i (hkPassive C)) = (tr, n)"
    by (meson surj_pair)
  have "stuck_down services j (C\<lparr>hkPassive := tr\<rparr>)" using assms(2) by (simp add: stuck_down_def)
  with stuck_down_mark [OF this, of i] show ?thesis
    unfolding failure report_cases [OF c] by (simp add: stuck_down_def)
next
  case (success i)
  with assms(2) show ?thesis by (simp add: stuck_down_def ReportSuccess_def)
qed

text \<open>
  An instance of a \<open>PASSIVE\<close> service never recovers: once it is unhealthy, no sequence
  of active passes and of reported failures and successes - however many successes - makes
  it healthy again. Only a new registration (or an update of the row) does.
\<close>
theorem passive_never_recovers:
  assumes "health_reach C C'" and "gorm_table inst_schema (hkInst C)"
    and "ServiceStore_ListAll (hkSvc C) = Inr services"
    and "by_id j (hkInst C) = {#inst#}" "\<not> siHealthy inst"
    and "\<exists>s. service_of (service_map services) inst = Some s \<and> svHealthCheckType s = HealthCheckPassive"
  shows "by_id j (hkInst C') \<noteq> {#} \<and> all_health j False (hkInst C')"
proof -
  have "skips (service_map services) inst" using assms(6) by (auto simp: skips_def plan_for_def)
  then have "stuck_down services j C" using assms(2-5) by (simp add: stuck_down_def)
  with assms(1) have "stuck_down services j C'"
    by (induction rule: health_reach.induct) (auto intro: stuck_down_step)
  then show ?thesis by (simp add: stuck_down_def all_health_def)
qed

theorem passive_never_recovers_witness:
  "all_health 1 False (hkInst (ReportSuccess 1 (runActiveCheck all_fail (hc [hc_row\<lparr>siHealthy := False\<rparr>] [hc_svc]))))"
proof -
  let ?C = "hc [hc_row\<lparr>siHealthy := False\<rparr>] [hc_svc]"
  have r: "health_reach ?C (ReportSuccess 1 (runActiveCheck all_fail ?C))"
    by (rule health_reach.step [OF health_reach.step [OF health_reach.init health_step.active] health_step.success])
  have l: "ServiceStore_ListAll (hkSvc ?C) = Inr [hc_svc]"
    by (simp add: ServiceStore_ListAll_def mem_ops)
  have s: "\<exists>s. service_of (service_map [hc_svc]) (hc_row\<lparr>siHealthy := False\<rparr>) = Some s \<and> svHealthCheckType s = HealthCheckPassive"
    by (simp add: service_of_def service_map_def hc_svc_def hc_row_def serviceKey_def model_constants)
  have b: "by_id 1 (hkInst ?C) = {#hc_row\<lparr>siHealthy := False\<rparr>#}" by (simp add: by_id_def hc_row_def)
  show ?thesis
    by (rule passive_never_recovers [OF r _ l b _ s, THEN conjunct2]) simp_all
qed

text \<open>
  In mode \<open>BOTH\<close> a passive mark does not last: the reports leave the count of
  successful probes alone, so for an instance that has been answering probes the very next
  successful probe makes it healthy again, without \<open>RecoveryThreshold\<close> further successes.
\<close>
theorem passive_mark_undone:
  assumes "gorm_table inst_schema (hkInst C)" "updates_succeed (hkInst C)"
    and "RecoveryThreshold (hkCfg C) - 1 \<le> activeSuccess C i"
    and "C1 = ReportFailure t1 t2 i ns grp svc C" and "siID inst = i" "\<not> siHealthy inst"
  shows "all_health i True (hkInst (processActiveResult inst True C1))"
proof -
  obtain w thr tr n where c: "passive_limits (ns, grp, svc) C = (w, thr)"
    "FailureCount t2 i w (tracker_ReportFailure t1 i (hkPassive C)) = (tr, n)"
    by (meson surj_pair)
  have "gorm_table inst_schema (hkInst C1)" "updates_succeed (hkInst C1)"
    "activeSuccess C1 i = activeSuccess C i" "hkCfg C1 = hkCfg C"
    using assms(1,2) unfolding assms(4) report_cases [OF c] by (simp_all add: set_healthy_table(1,2))
  then show ?thesis
    using assms(3,5,6) set_healthy_all [of "count_success i C1" i True] by (simp add: process_cases)
qed

theorem passive_mark_undone_witness:
  "all_health 1 True (hkInst (processActiveResult (hc_row\<lparr>siHealthy := False\<rparr>) True
     (ReportFailure 1 2 1 ''public'' ''DEFAULT_GROUP'' ''order'' ((hc [hc_row] [hc_svc])\<lparr>activeSuccess := (\<lambda>_. 2)\<rparr>))))"
  by (rule passive_mark_undone [OF _ _ _ refl]) (simp_all add: hc_row_id)

section \<open>Configuration and status\<close>

definition cfg_usable :: "Config \<Rightarrow> bool" where
  "cfg_usable c \<longleftrightarrow> 0 < CheckInterval c \<and> 0 < FailThreshold c \<and> 0 < RemoveTimeout c \<and>
     0 < PassiveWindow c \<and> 0 < PassiveThreshold c \<and> 0 < RecoveryThreshold c \<and> 0 < ActiveTimeout c"

interpretation health_defaults: defaults applyDefaults cfg_usable
  by unfold_locales (auto simp: applyDefaults_def cfg_usable_def or_pos_def)

lemma NewChecker_usable: "cfg_usable (hkCfg (NewChecker I S b cfg))"
  unfolding NewChecker_def using health_defaults.fill_usable by simp

text \<open>
  The status of a service adds up: the healthy and the unhealthy instances together are
  all of them, as many as the table has rows of the service (when the query succeeds), and
  the list shows each with its flag.
\<close>
theorem status_adds_up:
  assumes "gorm_table inst_schema (hkInst C)" "InstanceStore_List ns grp svc (hkInst C) = Inr xs"
    and "st = GetHealthStatus ns grp svc C"
  shows "int (hsHealthy st) + hsUnhealthy st = int (hsTotal st) \<and>
    hsTotal st = size (filter_mset (svc_where (t_coll (hkInst C)) ns grp svc) (rows (hkInst C))) \<and>
    hsHealthy st = size (filter_mset (\<lambda>r. svc_where (t_coll (hkInst C)) ns grp svc r \<and> siHealthy r) (rows (hkInst C))) \<and>
    length (hsInstances st) = hsTotal st"
proof -
  have m: "mset xs = filter_mset (svc_where (t_coll (hkInst C)) ns grp svc) (rows (hkInst C))"
    using tb_find_rows [OF assms(1) assms(2) [unfolded InstanceStore_List_def]] .
  have "length xs = size (filter_mset (svc_where (t_coll (hkInst C)) ns grp svc) (rows (hkInst C)))"
    using m by (metis size_mset)
  moreover have "length (filter siHealthy xs) = size (filter_mset siHealthy (mset xs))"
    by (metis mset_filter size_mset)
  ultimately show ?thesis
    by (simp add: assms(2,3) GetHealthStatus_def Let_def m filter_filter_mset conj_commute)
qed

theorem status_adds_up_witness:
  "hsHealthy (GetHealthStatus ''public'' ''DEFAULT_GROUP'' ''order'' (hc [hc_row] [hc_svc])) = 1"
proof -
  have l: "InstanceStore_List ''public'' ''DEFAULT_GROUP'' ''order'' (hkInst (hc [hc_row] [hc_svc])) = Inr [hc_row]"
    by (simp add: InstanceStore_List_def mem_ops svc_where_def hc_row_def)
  have g: "gorm_table inst_schema (hkInst (hc [hc_row] [hc_svc]))" by simp
  from status_adds_up [OF g l refl] show ?thesis by (simp add: mem_ops svc_where_def hc_row_def)
qed

end
