(* ===== verification/GoJson.thy ===== *)
theory GoJson
  imports GoText GoFloat
begin

text \<open>
  Go's \<^verbatim>\<open>encoding/json\<close>, as far as the TCP protocol uses it. A document is a tree whose
  numbers keep their literal. \<open>json_text\<close> is \<^verbatim>\<open>json.Marshal\<close> of such a tree, \<open>json_parse\<close>
  the scanner of \<^verbatim>\<open>json.Unmarshal\<close>, a state machine over the bytes with a stack of open
  arrays and objects; it ends on every input because it is a fold over it. The decoding of
  a tree into a struct follows in the second half.
\<close>

datatype jval = VNull | VBool bool | VNum string | VStr string | VArr "jval list" | VObj "(string \<times> jval) list"

section \<open>Strings\<close>

definition hex_char :: "nat \<Rightarrow> char" where
  "hex_char n = (if n < 10 then char_of (48 + n) else char_of (87 + n))"

definition hex4 :: "nat \<Rightarrow> string" where
  "hex4 n = map hex_char [n div 4096 mod 16, n div 256 mod 16, n div 16 mod 16, n mod 16]"

definition u_escape :: "nat \<Rightarrow> string" where
  "u_escape n = [CHR 0x5C, CHR ''u''] @ hex4 n"

text \<open>One ASCII character; \<^verbatim>\<open><\<close>, \<^verbatim>\<open>>\<close> and \<^verbatim>\<open>&\<close> are escaped as Marshal does for HTML.\<close>

definition escape_ascii :: "char \<Rightarrow> string" where
  "escape_ascii c =
     (if c = CHR 0x22 \<or> c = CHR 0x5C then [CHR 0x5C, c]
      else if c = CHR 0x08 then [CHR 0x5C, CHR ''b'']
      else if c = CHR 0x0C then [CHR 0x5C, CHR ''f'']
      else if c = CHR 0x0A then [CHR 0x5C, CHR ''n'']
      else if c = CHR 0x0D then [CHR 0x5C, CHR ''r'']
      else if c = CHR 0x09 then [CHR 0x5C, CHR ''t'']
      else if byte c < 32 \<or> c = CHR 0x3C \<or> c = CHR 0x3E \<or> c = CHR 0x26 then u_escape (byte c)
      else [c])"

function json_escape :: "string \<Rightarrow> string" where
  "json_escape [] = []"
| "json_escape (c # s) =
     (if byte c < 128 then escape_ascii c @ json_escape s
      else let (r, w) = rune_at (map of_char (c # s))
           in (if w = 1 then u_escape 65533
               else if r = 8232 \<or> r = 8233 then u_escape r
               else take w (c # s)) @ json_escape (drop w (c # s)))"
  by pat_completeness auto
termination
proof (relation "measure length")
  fix c s x r w
  assume "x = rune_at (map of_char (c # s))" "(r, w) = x"
  then have "w = snd (rune_at (map of_char (c # s)))" by (metis snd_conv)
  then have "0 < w" using rune_at_width_pos [of "map of_char (c # s)"] by simp
  then show "(drop w (c # s), c # s) \<in> measure length" by (cases w) auto
qed auto

definition json_string :: "string \<Rightarrow> string" where
  "json_string s = CHR 0x22 # json_escape s @ [CHR 0x22]"

text \<open>The inverse, \<^verbatim>\<open>unquote\<close>, on the text between the quotes of a scanned string.\<close>

definition hex_val :: "char \<Rightarrow> nat option" where
  "hex_val c =
     (if 48 \<le> byte c \<and> byte c \<le> 57 then Some (byte c - 48)
      else if 97 \<le> byte c \<and> byte c \<le> 102 then Some (byte c - 87)
      else if 65 \<le> byte c \<and> byte c \<le> 70 then Some (byte c - 55) else None)"

fun hex4_val :: "string \<Rightarrow> nat option" where
  "hex4_val (a # b # c # d # _) =
     (case (hex_val a, hex_val b, hex_val c, hex_val d) of
        (Some i, Some j, Some k, Some l) \<Rightarrow> Some (((i * 16 + j) * 16 + k) * 16 + l)
      | _ \<Rightarrow> None)"
| "hex4_val _ = None"

definition unescape_char :: "char \<Rightarrow> char" where
  "unescape_char c =
     (if c = CHR ''b'' then CHR 0x08 else if c = CHR ''f'' then CHR 0x0C else if c = CHR ''n'' then CHR 0x0A
      else if c = CHR ''r'' then CHR 0x0D else if c = CHR ''t'' then CHR 0x09 else c)"

text \<open>
  \<open>u_rune s\<close> decodes the text after \<^verbatim>\<open>\u\<close>: the rune and how many bytes it takes. A high
  surrogate joins with a low one escaped right after it; a lone surrogate is U+FFFD.
\<close>

definition u_rune :: "string \<Rightarrow> nat \<times> nat" where
  "u_rune s =
     (case hex4_val s of
        None \<Rightarrow> (65533, 4)
      | Some r \<Rightarrow>
          if 55296 \<le> r \<and> r < 56320 \<and> take 2 (drop 4 s) = [CHR 0x5C, CHR ''u'']
          then (case hex4_val (drop 6 s) of
                  Some r2 \<Rightarrow> if 56320 \<le> r2 \<and> r2 < 57344
                             then (65536 + (r - 55296) * 1024 + (r2 - 56320), 10) else (65533, 4)
                | None \<Rightarrow> (65533, 4))
          else if 55296 \<le> r \<and> r < 57344 then (65533, 4) else (r, 4))"

lemma u_rune_width: "0 < snd (u_rune s)"
  by (auto simp: u_rune_def split: option.split)

function json_unescape :: "string \<Rightarrow> string" where
  "json_unescape [] = []"
| "json_unescape (c # s) =
     (if c = CHR 0x5C
      then (case s of
              [] \<Rightarrow> []
            | e # s' \<Rightarrow>
                if e = CHR ''u'' then rune_string (fst (u_rune s')) @ json_unescape (drop (snd (u_rune s')) s')
                else unescape_char e # json_unescape s')
      else if byte c < 128 then c # json_unescape s
      else let (r, w) = rune_at (map of_char (c # s)) in rune_string r @ json_unescape (drop w (c # s)))"
  by pat_completeness auto
termination
proof (relation "measure length")
  fix c s x r w
  assume "x = rune_at (map of_char (c # s))" "(r, w) = x"
  then have "w = snd (rune_at (map of_char (c # s)))" by (metis snd_conv)
  then have "0 < w" using rune_at_width_pos [of "map of_char (c # s)"] by simp
  then show "(drop w (c # s), c # s) \<in> measure length" by (cases w) auto
qed auto

section \<open>Quoting and unquoting\<close>

lemma rune_n_take:
  "1 < snd (rune2 b0 bs) \<Longrightarrow> rune2 b0 (take (snd (rune2 b0 bs) - 1) bs @ t) = rune2 b0 bs \<and> snd (rune2 b0 bs) \<le> Suc (length bs)"
  "1 < snd (rune3 b0 bs) \<Longrightarrow> rune3 b0 (take (snd (rune3 b0 bs) - 1) bs @ t) = rune3 b0 bs \<and> snd (rune3 b0 bs) \<le> Suc (length bs)"
  "1 < snd (rune4 b0 bs) \<Longrightarrow> rune4 b0 (take (snd (rune4 b0 bs) - 1) bs @ t) = rune4 b0 bs \<and> snd (rune4 b0 bs) \<le> Suc (length bs)"
proof -
  show "1 < snd (rune2 b0 bs) \<Longrightarrow> rune2 b0 (take (snd (rune2 b0 bs) - 1) bs @ t) = rune2 b0 bs \<and> snd (rune2 b0 bs) \<le> Suc (length bs)"
    by (cases "(b0, bs)" rule: rune2.cases) (auto split: if_splits)
  show "1 < snd (rune3 b0 bs) \<Longrightarrow> rune3 b0 (take (snd (rune3 b0 bs) - 1) bs @ t) = rune3 b0 bs \<and> snd (rune3 b0 bs) \<le> Suc (length bs)"
    by (cases "(b0, bs)" rule: rune3.cases) (auto simp: numeral_2_eq_2 split: if_splits)
  show "1 < snd (rune4 b0 bs) \<Longrightarrow> rune4 b0 (take (snd (rune4 b0 bs) - 1) bs @ t) = rune4 b0 bs \<and> snd (rune4 b0 bs) \<le> Suc (length bs)"
    by (cases "(b0, bs)" rule: rune4.cases) (auto simp: numeral_3_eq_3 split: if_splits)
qed

lemma rune_at_take:
  assumes "1 < snd (rune_at (b # bs))"
  shows "rune_at (take (snd (rune_at (b # bs))) (b # bs) @ t) = rune_at (b # bs) \<and> snd (rune_at (b # bs)) \<le> length (b # bs)"
proof -
  have n: "take n (b # bs) = b # take (n - 1) bs" if "1 < n" for n
    using that by (cases n) auto
  show ?thesis
    using assms rune_n_take [of b bs t] unfolding n [OF assms]
    by (auto split: if_splits)
qed

lemma rune_at_width_one: "128 \<le> b \<Longrightarrow> snd (rune_at (b # bs)) = 1 \<Longrightarrow> fst (rune_at (b # bs)) = 65533"
proof -
  have "snd (rune2 b bs) = 1 \<Longrightarrow> fst (rune2 b bs) = 65533"
    by (cases "(b, bs)" rule: rune2.cases) (auto split: if_splits)
  moreover have "snd (rune3 b bs) = 1 \<Longrightarrow> fst (rune3 b bs) = 65533"
    by (cases "(b, bs)" rule: rune3.cases) (auto split: if_splits)
  moreover have "snd (rune4 b bs) = 1 \<Longrightarrow> fst (rune4 b bs) = 65533"
    by (cases "(b, bs)" rule: rune4.cases) (auto split: if_splits)
  ultimately show "128 \<le> b \<Longrightarrow> snd (rune_at (b # bs)) = 1 \<Longrightarrow> fst (rune_at (b # bs)) = 65533"
    by (auto split: if_splits)
qed

lemma hex_val_char: "n < 16 \<Longrightarrow> hex_val (hex_char n) = Some n"
  by (auto simp: hex_val_def hex_char_def)

lemma hex4_val_hex4: "n < 65536 \<Longrightarrow> hex4_val (hex4 n @ t) = Some n"
proof -
  assume n: "n < 65536"
  have d: "n div 4096 mod 16 = n div 4096" using n by simp
  have "n div 4096 * 16 + n div 256 mod 16 = n div 256"
    using div_mult_mod_eq [of "n div 256" 16] by (simp add: div_mult2_eq [symmetric])
  moreover have "n div 256 * 16 + n div 16 mod 16 = n div 16"
    using div_mult_mod_eq [of "n div 16" 16] by (simp add: div_mult2_eq [symmetric])
  moreover have "n div 16 * 16 + n mod 16 = n" by simp
  ultimately have "((n div 4096 * 16 + n div 256 mod 16) * 16 + n div 16 mod 16) * 16 + n mod 16 = n"
    by simp
  then show ?thesis using hex_val_char [of "n div 4096"] n by (simp add: hex4_def hex_val_char d)
qed

lemma unescape_u:
  assumes "n < 65536" "\<not> (55296 \<le> n \<and> n < 57344)"
  shows "json_unescape (u_escape n @ t) = rune_string n @ json_unescape t"
proof -
  have "u_rune (hex4 n @ t) = (n, 4)"
    using assms by (auto simp: u_rune_def hex4_val_hex4)
  moreover have "length (hex4 n) = 4" by (simp add: hex4_def)
  ultimately show ?thesis by (simp add: u_escape_def)
qed

lemma unescape_ascii: "byte c < 128 \<Longrightarrow> json_unescape (escape_ascii c @ t) = c # json_unescape t"
  using unescape_u [of "byte c" t]
  by (auto simp: escape_ascii_def unescape_char_def rune_string_ascii)

text \<open>Unquoting what was quoted gives the string back, invalid bytes replaced.\<close>

lemma unescape_escape: "json_unescape (json_escape s) = concat (map rune_string (range_runes s))"
proof (induction s rule: json_escape.induct)
  case 1
  show ?case by (simp add: range_runes_def)
next
  case (2 c s)
  show ?case
  proof (cases "byte c < 128")
    case True
    with 2 show ?thesis by (simp add: unescape_ascii range_runes_def rune_string_ascii)
  next
    case False
    let ?xs = "map of_char (c # s) :: nat list"
    obtain r w where rw: "rune_at ?xs = (r, w)" by (cases "rune_at ?xs") blast
    have runes: "range_runes (c # s) = r # range_runes (drop w (c # s))"
      using rw by (simp add: range_runes_def drop_map [symmetric] del: rune_at.simps)
    have IH: "json_unescape (json_escape (drop w (c # s))) = concat (map rune_string (range_runes (drop w (c # s))))"
      using 2(2) [OF False] rw by simp
    let ?head = "if w = 1 then u_escape 65533 else if r = 8232 \<or> r = 8233 then u_escape r else take w (c # s)"
    have esc: "json_escape (c # s) = ?head @ json_escape (drop w (c # s))"
      using False rw by simp
    have head: "json_unescape (?head @ t) = rune_string r @ json_unescape t" for t
    proof -
      consider "w = 1" | "w \<noteq> 1" "r = 8232 \<or> r = 8233" | "w \<noteq> 1" "\<not> (r = 8232 \<or> r = 8233)" by blast
      then show ?thesis
      proof cases
        case 1
        then have "r = 65533" using rune_at_width_one [of "byte c" "map of_char s"] rw False by simp
        with 1 show ?thesis using unescape_u [of 65533 t] by simp
      next
        case 2
        then show ?thesis using unescape_u [of r t] by auto
      next
        case 3
        have "0 < w" using rune_at_width_pos [of ?xs] rw by simp
        with 3 have w: "1 < snd (rune_at (byte c # map of_char s))" using rw by simp
        have len: "w \<le> length (c # s)" using conjunct2 [OF rune_at_take [OF w]] rw by simp
        obtain w' where w': "w = Suc w'" using \<open>0 < w\<close> by (cases w) auto
        have "rune_at (map of_char (take w (c # s) @ t)) = (r, w)"
          using conjunct1 [OF rune_at_take [OF w, of "map of_char t"]] rw by (simp add: take_map [symmetric] del: rune_at.simps)
        moreover have "c \<noteq> CHR 0x5C" using False by auto
        ultimately have "json_unescape (take w (c # s) @ t) = rune_string r @ json_unescape (drop w (take w (c # s) @ t))"
          using False by (simp add: w')
        then show ?thesis using 3 len by simp
      qed
    qed
    show ?thesis unfolding esc head IH runes by simp
  qed
qed

lemma unescape_valid: "valid_utf8 s \<Longrightarrow> json_unescape (json_escape s) = s"
  by (simp add: unescape_escape valid_utf8_def)

section \<open>The scanner\<close>

datatype nstate = NNeg | N0 | N1 | NDot | NDot0 | NE | NESign | NE0

definition num_start :: "char \<Rightarrow> nstate option" where
  "num_start c = (if c = CHR ''-'' then Some NNeg else if c = CHR ''0'' then Some N0
                  else if is_digit c then Some N1 else None)"

definition num_frac :: "char \<Rightarrow> nstate option" where
  "num_frac c = (if c = CHR ''.'' then Some NDot else if c = CHR ''e'' \<or> c = CHR ''E'' then Some NE else None)"

definition when_digit :: "char \<Rightarrow> nstate \<Rightarrow> nstate option" where
  "when_digit c n = (if is_digit c then Some n else None)"

fun num_next :: "char \<Rightarrow> nstate \<Rightarrow> nstate option" where
  "num_next c NNeg = (if c = CHR ''0'' then Some N0 else when_digit c N1)"
| "num_next c N0 = num_frac c"
| "num_next c N1 = (if is_digit c then Some N1 else num_frac c)"
| "num_next c NDot = when_digit c NDot0"
| "num_next c NDot0 = (if is_digit c then Some NDot0 else if c = CHR ''e'' \<or> c = CHR ''E'' then Some NE else None)"
| "num_next c NE = (if c = CHR ''+'' \<or> c = CHR ''-'' then Some NESign else when_digit c NE0)"
| "num_next c NESign = when_digit c NE0"
| "num_next c NE0 = when_digit c NE0"

definition num_done :: "nstate \<Rightarrow> bool" where
  "num_done n \<longleftrightarrow> n \<in> {N0, N1, NDot0, NE0}"

datatype frame = FArr "jval list" | FKey "(string \<times> jval) list" | FMember "(string \<times> jval) list" string

datatype mode =
    MVal | MValOrEnd | MKey | MKeyOrEnd | MColon string | MEnd jval
  | MStr bool string | MEsc bool string | MU bool nat string
  | MNum nstate string | MLit string jval

type_synonym jstate = "mode \<times> frame list"

definition json_space :: "char \<Rightarrow> bool" where
  "json_space c \<longleftrightarrow> c = CHR '' '' \<or> c = CHR 0x09 \<or> c = CHR 0x0D \<or> c = CHR 0x0A"

definition push_frame :: "mode \<Rightarrow> frame \<Rightarrow> frame list \<Rightarrow> jstate option" where
  "push_frame m f fs = (if length fs < 10000 then Some (m, f # fs) else None)"

definition begin_val :: "char \<Rightarrow> frame list \<Rightarrow> jstate option" where
  "begin_val c fs =
     (if json_space c then Some (MVal, fs)
      else if c = CHR ''{'' then push_frame MKeyOrEnd (FKey []) fs
      else if c = CHR ''['' then push_frame MValOrEnd (FArr []) fs
      else if c = CHR 0x22 then Some (MStr False [], fs)
      else if c = CHR ''t'' then Some (MLit ''rue'' (VBool True), fs)
      else if c = CHR ''f'' then Some (MLit ''alse'' (VBool False), fs)
      else if c = CHR ''n'' then Some (MLit ''ull'' VNull, fs)
      else map_option (\<lambda>n. (MNum n [c], fs)) (num_start c))"

fun end_val :: "char \<Rightarrow> jval \<Rightarrow> frame list \<Rightarrow> jstate option" where
  "end_val c v [] = (if json_space c then Some (MEnd v, []) else None)"
| "end_val c v (FArr xs # fs) =
     (if json_space c then Some (MEnd v, FArr xs # fs)
      else if c = CHR '','' then Some (MVal, FArr (xs @ [v]) # fs)
      else if c = CHR '']'' then Some (MEnd (VArr (xs @ [v])), fs) else None)"
| "end_val c v (FMember ms k # fs) =
     (if json_space c then Some (MEnd v, FMember ms k # fs)
      else if c = CHR '','' then Some (MKey, FKey (ms @ [(k, v)]) # fs)
      else if c = CHR ''}'' then Some (MEnd (VObj (ms @ [(k, v)])), fs) else None)"
| "end_val c v (FKey ms # fs) = None"

fun begin_key :: "char \<Rightarrow> frame list \<Rightarrow> jstate option" where
  "begin_key c fs =
     (if json_space c then Some (MKey, fs) else if c = CHR 0x22 then Some (MStr True [], fs) else None)"

fun json_step :: "char \<Rightarrow> jstate \<Rightarrow> jstate option" where
  "json_step c (MVal, fs) = begin_val c fs"
| "json_step c (MValOrEnd, fs) =
     (if json_space c then Some (MValOrEnd, fs)
      else if c = CHR '']'' then Some (MEnd (VArr []), tl fs) else begin_val c fs)"
| "json_step c (MKey, fs) = begin_key c fs"
| "json_step c (MKeyOrEnd, fs) =
     (if json_space c then Some (MKeyOrEnd, fs)
      else if c = CHR ''}'' then Some (MEnd (VObj []), tl fs) else begin_key c fs)"
| "json_step c (MColon k, fs) =
     (if json_space c then Some (MColon k, fs)
      else if c = CHR '':''
      then (case fs of FKey ms # fs' \<Rightarrow> Some (MVal, FMember ms k # fs') | _ \<Rightarrow> None)
      else None)"
| "json_step c (MEnd v, fs) = end_val c v fs"
| "json_step c (MStr key raw, fs) =
     (if c = CHR 0x22
      then Some (if key then MColon (json_unescape raw) else MEnd (VStr (json_unescape raw)), fs)
      else if c = CHR 0x5C then Some (MEsc key (raw @ [c]), fs)
      else if byte c < 32 then None
      else Some (MStr key (raw @ [c]), fs))"
| "json_step c (MEsc key raw, fs) =
     (if c \<in> {CHR ''b'', CHR ''f'', CHR ''n'', CHR ''r'', CHR ''t'', CHR 0x5C, CHR ''/'', CHR 0x22}
      then Some (MStr key (raw @ [c]), fs)
      else if c = CHR ''u'' then Some (MU key 3 (raw @ [c]), fs) else None)"
| "json_step c (MU key n raw, fs) =
     (if hex_val c = None then None
      else Some (case n of 0 \<Rightarrow> MStr key (raw @ [c]) | Suc m \<Rightarrow> MU key m (raw @ [c]), fs))"
| "json_step c (MNum n raw, fs) =
     (case num_next c n of
        Some m \<Rightarrow> Some (MNum m (raw @ [c]), fs)
      | None \<Rightarrow> if num_done n then end_val c (VNum raw) fs else None)"
| "json_step c (MLit cs v, fs) =
     (case cs of
        [] \<Rightarrow> None
      | d # ds \<Rightarrow> if c = d then Some (if ds = [] then MEnd v else MLit ds v, fs) else None)"

fun json_run :: "string \<Rightarrow> jstate \<Rightarrow> jstate option" where
  "json_run [] st = Some st"
| "json_run (c # cs) st = Option.bind (json_step c st) (json_run cs)"

text \<open>At the end of the input the scanner is given one more space.\<close>

definition json_parse :: "string \<Rightarrow> jval option" where
  "json_parse s =
     (case Option.bind (json_run s (MVal, [])) (json_step CHR '' '') of
        Some (MEnd v, []) \<Rightarrow> Some v
      | _ \<Rightarrow> None)"

text \<open>
  \<^verbatim>\<open>json.Decoder\<close> reads the first value of a stream and leaves what follows it alone: an
  object ends with its brace. (A number that is followed by a letter counts as an error here; none of
  the program's decoders takes a number.)
\<close>

fun json_first :: "string \<Rightarrow> jstate \<Rightarrow> jval option" where
  "json_first s (MEnd v, []) = Some v"
| "json_first [] st = (case json_step CHR '' '' st of Some (MEnd v, []) \<Rightarrow> Some v | _ \<Rightarrow> None)"
| "json_first (c # cs) st = Option.bind (json_step c st) (json_first cs)"

definition decode_members :: "string \<Rightarrow> (string \<times> jval) list option" where
  "decode_members s = (case json_first s (MVal, []) of Some (VObj ms) \<Rightarrow> Some ms | Some VNull \<Rightarrow> Some [] | _ \<Rightarrow> None)"

section \<open>Marshalling\<close>

fun commas :: "string list \<Rightarrow> string" where
  "commas [] = []"
| "commas [w] = w"
| "commas (w # ws) = w @ CHR '','' # commas ws"

fun json_text :: "jval \<Rightarrow> string" where
  "json_text VNull = ''null''"
| "json_text (VBool b) = (if b then ''true'' else ''false'')"
| "json_text (VNum lit) = lit"
| "json_text (VStr s) = json_string s"
| "json_text (VArr vs) = ''['' @ commas (map json_text vs) @ '']''"
| "json_text (VObj ms) = ''{'' @ commas (map (\<lambda>(k, v). json_string k @ '':'' @ json_text v) ms) @ ''}''"

section \<open>Parsing what was printed\<close>

fun num_run :: "string \<Rightarrow> nstate \<Rightarrow> nstate option" where
  "num_run [] n = Some n"
| "num_run (c # cs) n = Option.bind (num_next c n) (num_run cs)"

definition num_ok :: "string \<Rightarrow> bool" where
  "num_ok lit =
     (case lit of [] \<Rightarrow> False
      | c # cs \<Rightarrow> (case Option.bind (num_start c) (num_run cs) of None \<Rightarrow> False | Some n \<Rightarrow> num_done n))"

text \<open>A tree that Marshal can print: texts in UTF-8, number literals, nesting up to \<open>d\<close>.\<close>

fun json_ok :: "nat \<Rightarrow> jval \<Rightarrow> bool" where
  "json_ok d VNull = True"
| "json_ok d (VBool b) = True"
| "json_ok d (VNum lit) = num_ok lit"
| "json_ok d (VStr s) = valid_utf8 s"
| "json_ok d (VArr vs) = (0 < d \<and> (\<forall>v \<in> set vs. json_ok (d - 1) v))"
| "json_ok d (VObj ms) = (0 < d \<and> (\<forall>m \<in> set ms. valid_utf8 (fst m) \<and> json_ok (d - 1) (snd m)))"

lemma json_run_append: "json_run (s @ t) st = Option.bind (json_run s st) (json_run t)"
proof (induction s arbitrary: st)
  case (Cons c s)
  then show ?case by (cases "json_step c st") simp_all
qed simp

lemma run_num: "num_run cs n = Some m \<Longrightarrow> json_run cs (MNum n raw, fs) = Some (MNum m (raw @ cs), fs)"
  by (induction cs arbitrary: n raw) (auto simp: bind_eq_Some_conv)

lemma run_plain:
  assumes "\<forall>c \<in> set s. 32 \<le> byte c \<and> c \<noteq> CHR 0x22 \<and> c \<noteq> CHR 0x5C"
  shows "json_run s (MStr key raw, fs) = Some (MStr key (raw @ s), fs)"
  using assms by (induction s arbitrary: raw) auto

lemma run_u_escape: "json_run (u_escape n) (MStr key raw, fs) = Some (MStr key (raw @ u_escape n), fs)"
proof -
  have h: "hex_val (hex_char (m mod 16)) = Some (m mod 16)" for m by (simp add: hex_val_char)
  show ?thesis by (simp add: u_escape_def hex4_def h numeral_3_eq_3)
qed

lemma run_escape_ascii:
  "byte c < 128 \<Longrightarrow> json_run (escape_ascii c) (MStr key raw, fs) = Some (MStr key (raw @ escape_ascii c), fs)"
  by (auto simp: escape_ascii_def run_u_escape)

lemma rune_n_high:
  "1 < snd (rune2 b0 bs) \<Longrightarrow> \<forall>x \<in> set (take (snd (rune2 b0 bs) - 1) bs). 128 \<le> x"
  "1 < snd (rune3 b0 bs) \<Longrightarrow> \<forall>x \<in> set (take (snd (rune3 b0 bs) - 1) bs). 128 \<le> x"
  "1 < snd (rune4 b0 bs) \<Longrightarrow> \<forall>x \<in> set (take (snd (rune4 b0 bs) - 1) bs). 128 \<le> x"
proof -
  show "1 < snd (rune2 b0 bs) \<Longrightarrow> \<forall>x \<in> set (take (snd (rune2 b0 bs) - 1) bs). 128 \<le> x"
    by (cases "(b0, bs)" rule: rune2.cases) (auto simp: cont_byte_def split: if_splits)
  show "1 < snd (rune3 b0 bs) \<Longrightarrow> \<forall>x \<in> set (take (snd (rune3 b0 bs) - 1) bs). 128 \<le> x"
    by (cases "(b0, bs)" rule: rune3.cases) (auto simp: cont_byte_def numeral_2_eq_2 split: if_splits)
  show "1 < snd (rune4 b0 bs) \<Longrightarrow> \<forall>x \<in> set (take (snd (rune4 b0 bs) - 1) bs). 128 \<le> x"
    by (cases "(b0, bs)" rule: rune4.cases) (auto simp: cont_byte_def numeral_3_eq_3 split: if_splits)
qed

lemma rune_at_high:
  assumes "1 < snd (rune_at (b # bs))"
  shows "\<forall>x \<in> set (take (snd (rune_at (b # bs))) (b # bs)). 128 \<le> x"
proof -
  have n: "take n (b # bs) = b # take (n - 1) bs" if "1 < n" for n using that by (cases n) auto
  show ?thesis using assms rune_n_high [of b bs] unfolding n [OF assms] by (auto split: if_splits)
qed

lemma run_escape: "json_run (json_escape s) (MStr key raw, fs) = Some (MStr key (raw @ json_escape s), fs)"
proof (induction s arbitrary: raw rule: json_escape.induct)
  case 1
  show ?case by simp
next
  case (2 c s)
  show ?case
  proof (cases "byte c < 128")
    case True
    then show ?thesis using 2(1) by (simp add: json_run_append run_escape_ascii)
  next
    case False
    let ?xs = "map of_char (c # s) :: nat list"
    obtain r w where rw: "rune_at ?xs = (r, w)" by (cases "rune_at ?xs") blast
    let ?head = "if w = 1 then u_escape 65533 else if r = 8232 \<or> r = 8233 then u_escape r else take w (c # s)"
    have esc: "json_escape (c # s) = ?head @ json_escape (drop w (c # s))" using False rw by simp
    have IH: "json_run (json_escape (drop w (c # s))) (MStr key raw', fs)
        = Some (MStr key (raw' @ json_escape (drop w (c # s))), fs)" for raw'
      using 2(2) [OF False] rw by simp
    have "json_run (take w (c # s)) (MStr key raw, fs) = Some (MStr key (raw @ take w (c # s)), fs)" if "w \<noteq> 1"
    proof (rule run_plain)
      have "0 < w" using rune_at_width_pos [of ?xs] rw by simp
      with that have "1 < snd (rune_at (byte c # map of_char s))" using rw by simp
      from rune_at_high [OF this] have "\<forall>x \<in> set (map of_char (take w (c # s))). (128::nat) \<le> x"
        using rw by (simp add: take_map [symmetric] del: rune_at.simps)
      then show "\<forall>c \<in> set (take w (c # s)). 32 \<le> byte c \<and> c \<noteq> CHR 0x22 \<and> c \<noteq> CHR 0x5C" by fastforce
    qed
    then have "json_run ?head (MStr key raw, fs) = Some (MStr key (raw @ ?head), fs)"
      by (simp add: run_u_escape)
    then show ?thesis unfolding esc by (simp add: json_run_append IH)
  qed
qed

lemma run_string:
  assumes "valid_utf8 s"
  shows "json_run (json_string s) (MVal, fs) = Some (MEnd (VStr s), fs)"
    and "json_run (json_string s) (MKey, fs) = Some (MColon s, fs)"
    and "json_run (json_string s) (MKeyOrEnd, fs) = Some (MColon s, fs)"
  using assms
  by (simp_all add: json_string_def json_run_append run_escape begin_val_def json_space_def unescape_valid)

definition settled :: "jval \<Rightarrow> frame list \<Rightarrow> jstate \<Rightarrow> bool" where
  "settled v fs st \<longleftrightarrow> st = (MEnd v, fs) \<or> (\<exists>n lit. st = (MNum n lit, fs) \<and> num_done n \<and> v = VNum lit)"

lemma settled_step:
  assumes "settled v fs st" "c = CHR '','' \<or> c = CHR '']'' \<or> c = CHR ''}'' \<or> c = CHR '' ''"
  shows "json_step c st = end_val c v fs"
proof -
  have "num_next c n = None" if "num_done n" for n
    using assms(2) that by (cases n) (auto simp: num_done_def num_frac_def when_digit_def is_digit_def)
  then show ?thesis using assms(1) by (auto simp: settled_def)
qed

lemma num_start_char:
  assumes "num_start c = Some n"
  shows "\<not> json_space c" "c \<noteq> CHR '']''" "begin_val c fs = Some (MNum n [c], fs)"
proof -
  have "c = CHR ''-'' \<or> is_digit c" using assms by (auto simp: num_start_def is_digit_def split: if_splits)
  then have c: "c \<notin> {CHR '' '', CHR 0x09, CHR 0x0D, CHR 0x0A, CHR ''{'', CHR ''['', CHR '']'', CHR 0x22, CHR ''t'', CHR ''f'', CHR ''n''}"
    by (auto simp: is_digit_def)
  then show "\<not> json_space c" "c \<noteq> CHR '']''" by (simp_all add: json_space_def)
  with c assms show "begin_val c fs = Some (MNum n [c], fs)" by (simp add: begin_val_def)
qed

lemma run_number:
  assumes "num_ok lit"
  shows "\<exists>st. json_run lit (MVal, fs) = Some st \<and> settled (VNum lit) fs st"
proof -
  obtain c cs n m where l: "lit = c # cs" and n: "num_start c = Some n" "num_run cs n = Some m" "num_done m"
    using assms by (auto simp: num_ok_def bind_eq_Some_conv split: list.splits option.splits)
  show ?thesis using num_start_char(3) [OF n(1)] run_num [OF n(2), of "[c]" fs] n(3) by (simp add: l settled_def)
qed

lemma text_head:
  assumes "json_ok d v"
  obtains c r where "json_text v = c # r" "\<not> json_space c" "c \<noteq> CHR '']''"
proof (cases v)
  case (VNum lit)
  then have "num_ok lit" using assms by simp
  then obtain c cs n where "lit = c # cs" "num_start c = Some n"
    by (auto simp: num_ok_def bind_eq_Some_conv split: list.splits option.splits)
  then show ?thesis
    using that VNum num_start_char by (metis json_text.simps(3))
next
  case (VBool b)
  then show ?thesis using that by (cases b) (auto simp: json_space_def)
qed (use that in \<open>auto simp: json_string_def json_space_def\<close>)

lemma run_elems:
  assumes "\<forall>v \<in> set (v0 # vs). \<forall>fs. length fs + d \<le> 10000 \<longrightarrow> (\<exists>st. json_run (json_text v) (MVal, fs) = Some st \<and> settled v fs st)"
    and "length fs + d < 10000"
  shows "json_run (commas (map json_text (v0 # vs)) @ '']'') (MVal, FArr acc # fs) = Some (MEnd (VArr (acc @ v0 # vs)), fs)"
  using assms(1)
proof (induction vs arbitrary: v0 acc)
  case Nil
  have "length (FArr acc # fs) + d \<le> 10000" using assms(2) by simp
  with Nil obtain st where "json_run (json_text v0) (MVal, FArr acc # fs) = Some st" "settled v0 (FArr acc # fs) st"
    by (meson list.set_intros(1))
  then show ?case using settled_step [of v0 "FArr acc # fs" st "CHR '']''"] by (simp add: json_run_append json_space_def)
next
  case (Cons v1 vs)
  have "length (FArr acc # fs) + d \<le> 10000" using assms(2) by simp
  with Cons.prems obtain st where "json_run (json_text v0) (MVal, FArr acc # fs) = Some st" "settled v0 (FArr acc # fs) st"
    by (meson list.set_intros(1))
  moreover have "json_run (commas (map json_text (v1 # vs)) @ '']'') (MVal, FArr (acc @ [v0]) # fs)
      = Some (MEnd (VArr ((acc @ [v0]) @ v1 # vs)), fs)"
    by (rule Cons.IH) (use Cons.prems in auto)
  ultimately show ?case
    using settled_step [of v0 "FArr acc # fs" st "CHR '','' "] by (simp add: json_run_append json_space_def)
qed

definition member_text :: "string \<times> jval \<Rightarrow> string" where
  "member_text m = json_string (fst m) @ '':'' @ json_text (snd m)"

lemma member_text_pair [simp]: "member_text (k, v) = json_string k @ '':'' @ json_text v"
  by (simp add: member_text_def)

lemma run_members:
  assumes "\<forall>m \<in> set (m0 # ms). valid_utf8 (fst m) \<and>
      (\<forall>fs. length fs + d \<le> 10000 \<longrightarrow> (\<exists>st. json_run (json_text (snd m)) (MVal, fs) = Some st \<and> settled (snd m) fs st))"
    and "length fs + d < 10000"
  shows "json_run (commas (map member_text (m0 # ms)) @ ''}'') (MKey, FKey acc # fs) = Some (MEnd (VObj (acc @ m0 # ms)), fs)"
  using assms(1)
proof (induction ms arbitrary: m0 acc)
  case Nil
  obtain k v where m: "m0 = (k, v)" by (cases m0)
  have "length (FMember acc k # fs) + d \<le> 10000" using assms(2) by simp
  moreover have "\<forall>fs. length fs + d \<le> 10000 \<longrightarrow> (\<exists>st. json_run (json_text v) (MVal, fs) = Some st \<and> settled v fs st)"
    using Nil by (simp add: m del: split_paired_Ex)
  ultimately obtain st where "json_run (json_text v) (MVal, FMember acc k # fs) = Some st" "settled v (FMember acc k # fs) st"
    by blast
  then show ?case
    using Nil settled_step [of v "FMember acc k # fs" st "CHR ''}''"]
    by (simp add: json_run_append json_space_def m run_string)
next
  case (Cons m1 ms)
  obtain k v where m: "m0 = (k, v)" by (cases m0)
  have "length (FMember acc k # fs) + d \<le> 10000" using assms(2) by simp
  moreover have "\<forall>fs. length fs + d \<le> 10000 \<longrightarrow> (\<exists>st. json_run (json_text v) (MVal, fs) = Some st \<and> settled v fs st)"
    using Cons.prems by (simp add: m del: split_paired_Ex)
  ultimately obtain st where "json_run (json_text v) (MVal, FMember acc k # fs) = Some st" "settled v (FMember acc k # fs) st"
    by blast
  moreover have "json_run (commas (map member_text (m1 # ms)) @ ''}'') (MKey, FKey (acc @ [m0]) # fs)
      = Some (MEnd (VObj ((acc @ [m0]) @ m1 # ms)), fs)"
    by (rule Cons.IH) (use Cons.prems in auto)
  ultimately show ?case
    using Cons.prems settled_step [of v "FMember acc k # fs" st "CHR '','' "]
    by (simp add: json_run_append json_space_def m run_string)
qed

lemma json_text_obj: "json_text (VObj ms) = ''{'' @ commas (map member_text ms) @ ''}''"
  by (simp add: member_text_def case_prod_beta' cong: map_cong)

lemma from_or_end:
  "\<not> json_space c \<Longrightarrow> c \<noteq> CHR '']'' \<Longrightarrow> json_run (c # r) (MValOrEnd, fs) = json_run (c # r) (MVal, fs)"
  by simp

lemma run_text:
  "json_ok d v \<Longrightarrow> length fs + d \<le> 10000 \<Longrightarrow> \<exists>st. json_run (json_text v) (MVal, fs) = Some st \<and> settled v fs st"
proof (induction v arbitrary: d fs rule: json_text.induct)
  case (5 vs)
  show ?case
  proof (cases vs)
    case Nil
    with 5 show ?thesis by (simp add: begin_val_def json_space_def push_frame_def settled_def)
  next
    case (Cons v0 ws)
    have d: "0 < d" "\<forall>v \<in> set vs. json_ok (d - 1) v" using 5 by simp_all
    have IH: "\<forall>v \<in> set (v0 # ws). \<forall>fs. length fs + (d - 1) \<le> 10000 \<longrightarrow>
        (\<exists>st. json_run (json_text v) (MVal, fs) = Some st \<and> settled v fs st)"
      using 5 d Cons by blast
    have len: "length fs + (d - 1) < 10000" using 5 d by linarith
    obtain c r where h: "json_text v0 = c # r" "\<not> json_space c" "c \<noteq> CHR '']''"
      using text_head d Cons by (metis list.set_intros(1))
    obtain r' where "commas (map json_text (v0 # ws)) @ '']'' = c # r'" using h by (cases ws) auto
    then have "json_run (commas (map json_text (v0 # ws)) @ '']'') (MValOrEnd, FArr [] # fs) = Some (MEnd (VArr vs), fs)"
      using run_elems [OF IH len, of "[]"] from_or_end [OF h(2,3)] Cons by (metis append_Nil)
    then show ?thesis
      using Cons len by (simp add: begin_val_def json_space_def push_frame_def settled_def)
  qed
next
  case (6 ms)
  show ?case
  proof (cases ms)
    case Nil
    with 6 show ?thesis by (simp add: begin_val_def json_space_def push_frame_def settled_def)
  next
    case (Cons m0 ws)
    have d: "0 < d" "\<forall>m \<in> set ms. valid_utf8 (fst m) \<and> json_ok (d - 1) (snd m)" using 6 by simp_all
    have IH: "\<forall>m \<in> set (m0 # ws). valid_utf8 (fst m) \<and> (\<forall>fs. length fs + (d - 1) \<le> 10000 \<longrightarrow>
        (\<exists>st. json_run (json_text (snd m)) (MVal, fs) = Some st \<and> settled (snd m) fs st))"
      using 6 d Cons by (metis prod.collapse)
    have len: "length fs + (d - 1) < 10000" using 6 d by linarith
    obtain r' where r: "commas (map member_text (m0 # ws)) @ ''}'' = CHR 0x22 # r'"
      by (cases ws) (auto simp: member_text_def json_string_def)
    have "json_run (CHR 0x22 # r') (MKeyOrEnd, FKey [] # fs) = json_run (CHR 0x22 # r') (MKey, FKey [] # fs)"
      by (simp add: json_space_def)
    then have "json_run (commas (map member_text (m0 # ws)) @ ''}'') (MKeyOrEnd, FKey [] # fs) = Some (MEnd (VObj ms), fs)"
      using run_members [OF IH len, of "[]"] r Cons by (metis append_Nil)
    then show ?thesis
      using Cons len unfolding json_text_obj by (simp add: begin_val_def json_space_def push_frame_def settled_def)
  qed
next
  case (4 s)
  then show ?case using run_string(1) [of s fs] by (simp add: settled_def)
next
  case (3 lit)
  then show ?case using run_number [of lit fs] by simp
qed (simp_all add: settled_def begin_val_def json_space_def)

text \<open>
  What Marshal writes, Unmarshal reads: printing a document and parsing the text gives
  the document back, for strings in UTF-8, well-formed number literals and nesting up to
  the parser's limit.
\<close>
lemma json_roundtrip:
  assumes "json_ok 10000 v"
  shows "json_parse (json_text v) = Some v"
proof -
  obtain st where st: "json_run (json_text v) (MVal, []) = Some st" "settled v [] st"
    using run_text [OF assms, of "[]"] by auto
  from settled_step [OF st(2), of "CHR '' ''"] st(1) show ?thesis
    by (simp add: json_parse_def json_space_def)
qed

text \<open>The decoder of a stream reads an object that has been printed, too.\<close>

lemma json_run_end: "json_run s (MEnd v, []) = Some (MEnd w, []) \<Longrightarrow> w = v"
  by (induction s) (auto simp: Option.bind_eq_Some_conv split: if_splits)

lemma json_first_run: "json_run s st = Some (MEnd v, []) \<Longrightarrow> json_first s st = Some v"
proof (induction s st rule: json_first.induct)
  case (1 s w)
  then show ?case using json_run_end by auto
qed (auto simp: Option.bind_eq_Some_conv simp del: json_step.simps)

lemma decode_printed:
  assumes "json_ok 10000 (VObj ms)"
  shows "decode_members (json_text (VObj ms)) = Some ms"
proof -
  obtain st where st: "json_run (json_text (VObj ms)) (MVal, []) = Some st" "settled (VObj ms) [] st"
    using run_text [OF assms, of "[]"] by auto
  have "st = (MEnd (VObj ms), [])" using st(2) by (auto simp: settled_def)
  with st(1) have "json_first (json_text (VObj ms)) (MVal, []) = Some (VObj ms)" by (intro json_first_run) simp
  then show ?thesis by (simp add: decode_members_def)
qed

section \<open>Printed text stays on one line\<close>

definition printable :: "string \<Rightarrow> bool" where
  "printable s \<longleftrightarrow> (\<forall>c \<in> set s. 32 \<le> byte c)"

lemma printable_simps [simp]:
  "printable []" "printable (c # s) \<longleftrightarrow> 32 \<le> byte c \<and> printable s" "printable (s @ t) \<longleftrightarrow> printable s \<and> printable t"
  by (auto simp: printable_def)

lemma printable_u_escape: "printable (u_escape n)"
  by (auto simp: u_escape_def hex4_def hex_char_def)

lemma printable_escape: "printable (json_escape s)"
proof (induction s rule: json_escape.induct)
  case (2 c s)
  show ?case
  proof (cases "byte c < 128")
    case True
    then have "printable (escape_ascii c)" by (auto simp: escape_ascii_def printable_u_escape)
    with 2(1) True show ?thesis by simp
  next
    case False
    let ?xs = "map of_char (c # s) :: nat list"
    obtain r w where rw: "rune_at ?xs = (r, w)" by (cases "rune_at ?xs") blast
    have "printable (take w (c # s))" if "w \<noteq> 1"
    proof -
      have "0 < w" using rune_at_width_pos [of ?xs] rw by simp
      with that have "1 < snd (rune_at (byte c # map of_char s))" using rw by simp
      from rune_at_high [OF this] have "\<forall>x \<in> set (map of_char (take w (c # s))). (128::nat) \<le> x"
        using rw by (simp add: take_map [symmetric] del: rune_at.simps)
      then show ?thesis by (fastforce simp: printable_def)
    qed
    then show ?thesis using 2(2) [OF False] False rw by (simp add: printable_u_escape)
  qed
qed simp

lemma printable_num: "num_run cs n = Some m \<Longrightarrow> printable cs"
proof (induction cs arbitrary: n)
  case (Cons c cs)
  then obtain n' where "num_next c n = Some n'" "num_run cs n' = Some m" by (auto simp: bind_eq_Some_conv)
  moreover have "32 \<le> byte c" using calculation(1)
    by (cases n) (auto simp: when_digit_def num_frac_def is_digit_def split: if_splits)
  ultimately show ?case using Cons.IH by simp
qed simp

lemma printable_num_ok: "num_ok lit \<Longrightarrow> printable lit"
  using printable_num
  by (fastforce simp: num_ok_def num_start_def is_digit_def bind_eq_Some_conv split: list.splits option.splits if_splits)

lemma printable_commas: "\<forall>w \<in> set ws. printable w \<Longrightarrow> printable (commas ws)"
  by (induction ws rule: commas.induct) auto

lemma printable_json: "json_ok d v \<Longrightarrow> printable (json_text v)"
proof (induction v arbitrary: d rule: json_text.induct)
  case (5 vs)
  then have "\<forall>w \<in> set (map json_text vs). printable w" by auto
  then show ?case by (simp add: printable_commas)
next
  case (6 ms)
  then have "\<forall>w \<in> set (map member_text ms). printable w"
    by (auto simp: json_string_def printable_escape)
  then show ?case unfolding json_text_obj by (simp add: printable_commas)
qed (auto simp: printable_num_ok json_string_def printable_escape)

lemma digits10_lead: "0 < n \<Longrightarrow> hd (digits10 n) \<noteq> CHR ''0''"
proof (induction n rule: digits10.induct)
  case (1 n)
  show ?case
  proof (cases "n < 10")
    case True
    have "(char_of (48 + n) :: char) \<noteq> char_of (48 :: nat)"
      using 1(2) True char_of_eq_iff [of "48 + n" "char_of (48::nat)"] by (metis add_cancel_left_right byte_char_of_digit less_numeral_extra(3) zero_less_numeral add.right_neutral)
    then show ?thesis using True by (subst digits10.simps) simp
  next
    case False
    then show ?thesis using 1 by (subst digits10.simps) (simp add: hd_append)
  qed
qed

lemma num_run_digits: "\<forall>c \<in> set ds. is_digit c \<Longrightarrow> num_run ds N1 = Some N1"
  by (induction ds) auto

lemma num_ok_itoa: "num_ok (itoa i)"
proof -
  have dig: "num_ok (digits10 n) \<and> num_ok (CHR ''-'' # digits10 n)" for n
  proof (cases "n = 0")
    case True
    then have "digits10 n = ''0''" by (simp add: digits10.simps)
    then show ?thesis by (simp add: num_ok_def num_start_def num_done_def)
  next
    case False
    obtain c cs where d: "digits10 n = c # cs" by (cases "digits10 n") auto
    have "c \<noteq> CHR ''0''" using digits10_lead [of n] False d by simp
    moreover have "is_digit c" "num_run cs N1 = Some N1"
      using digits10_digit [of _ n] d by (auto intro: num_run_digits)
    moreover have "c \<noteq> CHR ''-''" using \<open>is_digit c\<close> by (auto simp: is_digit_def)
    ultimately show ?thesis by (simp add: d num_ok_def num_start_def num_done_def when_digit_def)
  qed
  then show ?thesis by (simp add: itoa_def)
qed

section \<open>Decoding into a struct\<close>

text \<open>
  \<^verbatim>\<open>Unmarshal\<close> visits the members in order; a member whose key is the field's name, up to
  letter case, sets the field, \<^verbatim>\<open>null\<close> leaves it, and a value of the wrong type is an error
  (\<^const>\<open>None\<close>), although the decoding goes on. Case folding also takes the long s
  (U+017F) and the Kelvin sign (U+212A) for the ASCII letters.
\<close>

fun fold_key :: "string \<Rightarrow> string" where
  "fold_key (a # b # c # s) =
     (if a = CHR 0xC5 \<and> b = CHR 0xBF then CHR ''s'' # fold_key (c # s)
      else if a = CHR 0xE2 \<and> b = CHR 0x84 \<and> c = CHR 0xAA then CHR ''k'' # fold_key s
      else lower_char a # fold_key (b # c # s))"
| "fold_key [a, b] = (if a = CHR 0xC5 \<and> b = CHR 0xBF then ''s'' else [lower_char a, lower_char b])"
| "fold_key [a] = [lower_char a]"
| "fold_key [] = []"

definition is_field :: "string \<Rightarrow> string \<Rightarrow> bool" where
  "is_field name k \<longleftrightarrow> fold_key k = to_lower name"

text \<open>The value of one field after the members: \<open>dec\<close> decodes a value, \<open>z\<close> is the zero value.\<close>

definition field :: "(jval \<Rightarrow> 'a option) \<Rightarrow> 'a \<Rightarrow> string \<Rightarrow> (string \<times> jval) list \<Rightarrow> 'a option" where
  "field dec z name ms =
     fold (\<lambda>(k, v) r. if is_field name k \<and> v \<noteq> VNull
                      then Option.bind r (\<lambda>_. dec v) else r) ms (Some z)"

definition dec_str :: "jval \<Rightarrow> string option" where
  "dec_str v = (case v of VStr s \<Rightarrow> Some s | _ \<Rightarrow> None)"

definition dec_bool :: "jval \<Rightarrow> bool option" where
  "dec_bool v = (case v of VBool b \<Rightarrow> Some b | _ \<Rightarrow> None)"

text \<open>An \<^verbatim>\<open>int\<close> field takes a literal without fraction and exponent, in range.\<close>

definition dec_int :: "jval \<Rightarrow> int option" where
  "dec_int v =
     (case v of
        VNum lit \<Rightarrow>
          (let neg = has_prefix lit ''-''; ds = (if neg then tl lit else lit);
               n = (if neg then - int (digits_val ds) else int (digits_val ds))
           in if ds \<noteq> [] \<and> list_all is_digit ds \<and> int64_min \<le> n \<and> n \<le> int64_max then Some n else None)
      | _ \<Rightarrow> None)"

text \<open>\<open>pf\<close> is \<^verbatim>\<open>strconv.ParseFloat\<close> on a number literal, \<^const>\<open>None\<close> out of range.\<close>

definition dec_float :: "(string \<Rightarrow> f64 option) \<Rightarrow> jval \<Rightarrow> f64 option" where
  "dec_float pf v = (case v of VNum lit \<Rightarrow> pf lit | _ \<Rightarrow> None)"

text \<open>A \<^verbatim>\<open>uint64\<close> field takes digits only.\<close>

definition dec_uint :: "jval \<Rightarrow> nat option" where
  "dec_uint v =
     (case v of
        VNum lit \<Rightarrow> if lit \<noteq> [] \<and> list_all is_digit lit \<and> digits_val lit < 2 ^ 64 then Some (digits_val lit) else None
      | _ \<Rightarrow> None)"

definition str_field :: "string \<Rightarrow> (string \<times> jval) list \<Rightarrow> string option" where
  "str_field name ms = field dec_str [] name ms"

definition int_field :: "string \<Rightarrow> (string \<times> jval) list \<Rightarrow> int option" where
  "int_field name ms = field dec_int 0 name ms"

definition bool_field :: "string \<Rightarrow> (string \<times> jval) list \<Rightarrow> bool option" where
  "bool_field name ms = field dec_bool False name ms"

text \<open>The members of the document; \<^verbatim>\<open>null\<close> decodes into a struct as no members.\<close>

definition text_members :: "string \<Rightarrow> (string \<times> jval) list option" where
  "text_members s = (case json_parse s of Some (VObj ms) \<Rightarrow> Some ms | Some VNull \<Rightarrow> Some [] | _ \<Rightarrow> None)"

lemma dec_int_itoa:
  assumes "int64_min \<le> i" "i \<le> int64_max"
  shows "dec_int (VNum (itoa i)) = Some i"
proof -
  have all: "list_all is_digit (digits10 n)" for n using digits10_digit by (auto simp: list_all_iff)
  obtain d ds where d: "digits10 (nat i) = d # ds" by (cases "digits10 (nat i)") auto
  have "d \<noteq> CHR ''-''" using all [of "nat i"] d by (auto simp: is_digit_def)
  then show ?thesis
    using all [of "nat i"] all [of "nat (- i)"] assms d digits_val_digits10 [of "nat i"]
    by (auto simp: dec_int_def itoa_def has_prefix_def Let_def)
qed

text \<open>With keys that do not fold together, a field is the value of its own key.\<close>

lemma field_absent: "\<forall>m \<in> set ms. \<not> is_field name (fst m) \<Longrightarrow> fold (\<lambda>(k, v) r. if is_field name k \<and> v \<noteq> VNull
                      then Option.bind r (\<lambda>_. dec v) else r) ms r = r"
  by (induction ms arbitrary: r) auto

lemma field_present:
  assumes "ms = ms1 @ (k, v) # ms2" "is_field name k" "v \<noteq> VNull"
    and "\<forall>m \<in> set ms1 \<union> set ms2. \<not> is_field name (fst m)"
  shows "field dec z name ms = dec v"
proof -
  have "\<forall>m \<in> set ms1. \<not> is_field name (fst m)" "\<forall>m \<in> set ms2. \<not> is_field name (fst m)" using assms(4) by auto
  with assms(2,3) show ?thesis unfolding field_def assms(1) by (simp add: field_absent)
qed

end
