(* ===== verification/Cluster.thy ===== *)
theory Cluster
  imports Storage MemTable GoJson "HOL-Library.Char_ord" "HOL-Library.List_Lexorder" "HOL-Library.Signed_Division"
begin

text \<open>
  \<^verbatim>\<open>src/pkg/cluster\<close>: membership, the leader rule, sharding of health checks by hash and
  the notification of peers. Strings are ordered bytewise, as \<^verbatim>\<open>sort.Strings\<close> does. Go's
  \<^verbatim>\<open>int\<close> is a 64-bit word where it may wrap; an index out of range is a panic, the value
  \<^const>\<open>None\<close>.
\<close>


section \<open>Manager\<close>

record 'd manager =
  mgSelf :: string
  mgMembers :: "string list"
  mgStore :: "('d, ClusterNode) table"
  mgNodes :: "ClusterNode list"

definition NewManager :: "string \<Rightarrow> string list \<Rightarrow> ('d, ClusterNode) table \<Rightarrow> 'd manager" where
  "NewManager self members T = \<lparr>mgSelf = self, mgMembers = members, mgStore = T, mgNodes = []\<rparr>"

definition up_node :: "string \<Rightarrow> int \<Rightarrow> ClusterNode" where
  "up_node addr now = \<lparr>cnID = 0, cnAddress = addr, cnState = NodeStateUp, cnLastBeat = now,
     cnCreatedAt = 0, cnUpdatedAt = 0\<rparr>"

text \<open>An upsert whose error is dropped (for the own node it is only logged).\<close>

definition upsert_node :: "ClusterNode \<Rightarrow> 'd manager \<Rightarrow> 'd manager" where
  "upsert_node node M =
     (case ClusterNodeStore_Upsert node (mgStore M) of Inl e \<Rightarrow> M | Inr T \<Rightarrow> M\<lparr>mgStore := T\<rparr>)"

text \<open>\<open>nows k\<close> is the clock, in milliseconds, at the \<open>k\<close>-th registration.\<close>

definition Start :: "(nat \<Rightarrow> int) \<Rightarrow> 'd manager \<Rightarrow> 'd manager" where
  "Start nows M =
     fold (\<lambda>(k, addr) M. if addr = mgSelf M then M else upsert_node (up_node addr (nows (Suc k))) M)
       (enumerate 0 (mgMembers M)) (upsert_node (up_node (mgSelf M) (nows 0)) M)"

definition updateSelfHeartbeat :: "int \<Rightarrow> 'd manager \<Rightarrow> 'd manager" where
  "updateSelfHeartbeat now M = upsert_node (up_node (mgSelf M) now) M"

text \<open>A refresh compares its clock, in nanoseconds, with the last beat, in milliseconds; \<^verbatim>\<open>Time.Sub\<close> saturates.\<close>

definition expired :: "int \<Rightarrow> ClusterNode \<Rightarrow> bool" where
  "expired now node \<longleftrightarrow> 15000000000 < clamp64 (now - cnLastBeat node * 1000000) \<and> cnState node = NodeStateUp"

definition mark_down :: "string \<Rightarrow> ('d, ClusterNode) table \<Rightarrow> ('d, ClusterNode) table" where
  "mark_down addr T = (case ClusterNodeStore_MarkDown addr T of Inl e \<Rightarrow> T | Inr T' \<Rightarrow> T')"

text \<open>
  The loop variable of \<^verbatim>\<open>for _, node := range nodes\<close> is a copy: setting its state does not
  change the list that becomes \<^verbatim>\<open>m.nodes\<close>.
\<close>

definition refreshNodes :: "int \<Rightarrow> 'd manager \<Rightarrow> 'd manager" where
  "refreshNodes now M =
     (case ClusterNodeStore_List (mgStore M) of
        Inl e \<Rightarrow> M
      | Inr nodes \<Rightarrow>
          M\<lparr>mgStore := fold (\<lambda>node T. if cnAddress node = mgSelf M then T
                                     else if expired now node then mark_down (cnAddress node) T else T)
              nodes (mgStore M),
            mgNodes := nodes\<rparr>)"

definition heartbeat_tick :: "int \<Rightarrow> int \<Rightarrow> 'd manager \<Rightarrow> 'd manager" where
  "heartbeat_tick t1 t2 M = updateSelfHeartbeat t2 (refreshNodes t1 M)"

definition GetNodes :: "'d manager \<Rightarrow> ClusterNode list" where
  "GetNodes M = mgNodes M"

definition up_addrs :: "ClusterNode list \<Rightarrow> string list" where
  "up_addrs nodes = map cnAddress (filter (\<lambda>n. cnState n = NodeStateUp) nodes)"

definition IsLeader :: "'d manager \<Rightarrow> bool" where
  "IsLeader M =
     (if mgNodes M = [] then True
      else let addrs = up_addrs (mgNodes M)
           in if addrs = [] then True else hd (sort addrs) = mgSelf M)"

definition SelfAddr :: "'d manager \<Rightarrow> string" where
  "SelfAddr M = mgSelf M"

definition rune_hash :: "string \<Rightarrow> 64 word" where
  "rune_hash key = fold (\<lambda>c h. h * 31 + word_of_nat c) (range_runes key) 0"

definition shard_hash :: "string \<Rightarrow> 64 word" where
  "shard_hash key = (let h = rune_hash key in if sint h < 0 then - h else h)"

definition ShouldCheckInstance :: "string \<Rightarrow> 'd manager \<Rightarrow> bool option" where
  "ShouldCheckInstance key M =
     (let ups = up_addrs (mgNodes M)
      in if ups = [] then Some True
         else let upNodes = sort ups; idx = sint (shard_hash key) smod int (length upNodes)
              in if 0 \<le> idx then Some (upNodes ! nat idx = mgSelf M) else None)"

section \<open>Syncer\<close>

record SyncEvent =
  seType :: string
  seNamespace :: string
  seGroup :: string
  seService :: string
  seDataID :: string
  seSource :: string
  seTimestamp :: int

record sync_request =
  srURL :: string
  srHeaders :: "(string \<times> string) list"
  srBody :: string

text \<open>\<^verbatim>\<open>json.Marshal\<close> of an event: the fields in their order, two of them only if they are not empty.\<close>

definition event_members :: "SyncEvent \<Rightarrow> (string \<times> jval) list" where
  "event_members ev =
     [(''type'', VStr (seType ev)), (''namespace'', VStr (seNamespace ev)), (''group'', VStr (seGroup ev))] @
     (if seService ev = [] then [] else [(''service'', VStr (seService ev))]) @
     (if seDataID ev = [] then [] else [(''dataId'', VStr (seDataID ev))]) @
     [(''source'', VStr (seSource ev)), (''timestamp'', VNum (itoa (seTimestamp ev)))]"

definition sync_send :: "string \<Rightarrow> SyncEvent \<Rightarrow> sync_request" where
  "sync_send addr event = \<lparr>srURL = ''http://'' @ addr @ ''/v1/cluster/sync'',
     srHeaders = [(''Content-Type'', ''application/json''), (''X-Benbroo-Sync'', ''1'')],
     srBody = json_text (VObj (event_members event))\<rparr>"

text \<open>
  One notification, as the goroutine \<^verbatim>\<open>broadcastEvent\<close> starts for each peer: the request it
  makes, unless \<^verbatim>\<open>http.NewRequest\<close> refuses the URL (\<open>bad_url\<close>), and what it logs of the answer,
  an error of the transport or a status. Nothing is tried again.
\<close>

datatype sync_log = NotifyFailed string string | PeerReturned string int

definition sendEvent ::
  "(string \<Rightarrow> bool) \<Rightarrow> (sync_request \<Rightarrow> string + int) \<Rightarrow> string \<Rightarrow> SyncEvent
   \<Rightarrow> sync_request option \<times> sync_log option" where
  "sendEvent bad_url http_do addr event =
     (let req = sync_send addr event
      in if bad_url (srURL req) then (None, None)
         else (Some req,
           case http_do req of
             Inl e \<Rightarrow> Some (NotifyFailed addr e)
           | Inr status \<Rightarrow> if status \<noteq> 200 then Some (PeerReturned addr status) else None))"

definition broadcastEvent :: "SyncEvent \<Rightarrow> 'd manager \<Rightarrow> sync_request list" where
  "broadcastEvent event M =
     map (\<lambda>n. sync_send (cnAddress n) event)
       (filter (\<lambda>n. cnAddress n \<noteq> SelfAddr M \<and> cnState n = ''UP'') (GetNodes M))"

text \<open>The requests of a broadcast are those its goroutines make, where no address spoils the URL.\<close>

lemma broadcast_sends:
  "map Some (broadcastEvent event M) =
     map (\<lambda>n. fst (sendEvent (\<lambda>_. False) http_do (cnAddress n) event))
       (filter (\<lambda>n. cnAddress n \<noteq> SelfAddr M \<and> cnState n = ''UP'') (GetNodes M))"
  by (simp add: broadcastEvent_def sendEvent_def Let_def)

definition NotifyServiceChange :: "int \<Rightarrow> string \<Rightarrow> string \<Rightarrow> string \<Rightarrow> 'd manager \<Rightarrow> sync_request list" where
  "NotifyServiceChange now ns grp svc M =
     broadcastEvent \<lparr>seType = ''service_change'', seNamespace = ns, seGroup = grp, seService = svc,
       seDataID = [], seSource = SelfAddr M, seTimestamp = now\<rparr> M"

definition NotifyConfigChange :: "int \<Rightarrow> string \<Rightarrow> string \<Rightarrow> string \<Rightarrow> 'd manager \<Rightarrow> sync_request list" where
  "NotifyConfigChange now ns grp did M =
     broadcastEvent \<lparr>seType = ''config_change'', seNamespace = ns, seGroup = grp, seService = [],
       seDataID = did, seSource = SelfAddr M, seTimestamp = now\<rparr> M"

section \<open>The leader\<close>

lemma hd_sort_le:
  fixes xs :: "'a::linorder list"
  assumes "xs \<noteq> []"
  shows "hd (sort xs) \<in> set xs \<and> (\<forall>x \<in> set xs. hd (sort xs) \<le> x)"
proof -
  obtain y ys where y: "sort xs = y # ys" using assms by (metis length_0_conv length_sort neq_Nil_conv)
  then have "y \<in> set xs" "\<forall>x \<in> set ys. y \<le> x" "set xs = insert y (set ys)"
    by (metis list.set_intros(1) set_sort, metis sorted_sort sorted_simps(2), metis list.set(2) set_sort)
  with y show ?thesis by auto
qed

text \<open>
  C18. Nodes that see the same membership agree on the leader: as soon as some node is UP,
  a node considers itself leader exactly when its address is the smallest of the UP ones,
  so exactly one address qualifies. (A node that has not refreshed yet, or sees no UP
  node, takes itself for the leader.)
\<close>
theorem one_leader:
  assumes "up_addrs (mgNodes M) \<noteq> []"
  shows "(IsLeader M \<longleftrightarrow> mgSelf M \<in> set (up_addrs (mgNodes M)) \<and> (\<forall>a \<in> set (up_addrs (mgNodes M)). mgSelf M \<le> a)) \<and>
         (\<exists>!a. IsLeader (M\<lparr>mgSelf := a\<rparr>))"
proof -
  have "mgNodes M \<noteq> []" using assms by (auto simp: up_addrs_def)
  then have l: "IsLeader (M\<lparr>mgSelf := a\<rparr>) \<longleftrightarrow> hd (sort (up_addrs (mgNodes M))) = a" for a
    using assms by (simp add: IsLeader_def Let_def)
  have "IsLeader M \<longleftrightarrow> hd (sort (up_addrs (mgNodes M))) = mgSelf M" using l [of "mgSelf M"] by simp
  with hd_sort_le [OF assms] l show ?thesis by (auto intro: antisym)
qed

definition node :: "nat \<Rightarrow> string \<Rightarrow> string \<Rightarrow> int \<Rightarrow> ClusterNode" where
  "node i addr st beat = \<lparr>cnID = i, cnAddress = addr, cnState = st, cnLastBeat = beat, cnCreatedAt = 1, cnUpdatedAt = 1\<rparr>"

definition three_nodes :: "ClusterNode list" where
  "three_nodes = [node 1 ''10.0.0.3:8848'' NodeStateUp 0, node 2 ''10.0.0.1:8848'' NodeStateUp 20000,
     node 3 ''10.0.0.2:8848'' NodeStateUp 20000]"

definition demo_mgr :: "ClusterNode list manager" where
  "demo_mgr = (NewManager ''10.0.0.1:8848'' [] (mem_table node_schema three_nodes))\<lparr>mgNodes := three_nodes\<rparr>"

lemma demo_ups: "up_addrs (mgNodes demo_mgr) = [''10.0.0.3:8848'', ''10.0.0.1:8848'', ''10.0.0.2:8848'']"
  by (simp add: demo_mgr_def NewManager_def three_nodes_def node_def up_addrs_def)

theorem one_leader_witness: "IsLeader demo_mgr"
  using one_leader [of demo_mgr] unfolding demo_ups
  by (simp add: demo_mgr_def NewManager_def less_eq_list_code less_eq_char_simp)

section \<open>Sharding\<close>

lemma sint_neg_min:
  fixes h :: "64 word"
  assumes "sint h < 0"
  shows "sint (- h) < 0 \<longleftrightarrow> h = 2 ^ 63"
proof
  assume "h = 2 ^ 63"
  then show "sint (- h) < 0" by simp
next
  assume n: "sint (- h) < 0"
  have r: "- (2 ^ 63) \<le> sint h" using sint_ge [of h] by simp
  show "h = 2 ^ 63"
  proof (cases "sint h = - (2 ^ 63)")
    case True
    then have "word_of_int (sint h) = (word_of_int (- (2 ^ 63)) :: 64 word)" by simp
    then show ?thesis by simp
  next
    case False
    have "sint (- h) = signed_take_bit 63 (- sint h)" by (simp add: sint_word_ariths)
    also have "\<dots> = - sint h" using r False assms by (intro signed_take_bit_int_eq_self) auto
    finally show ?thesis using n assms by simp
  qed
qed

lemma shard_hash_neg: "sint (shard_hash key) < 0 \<longleftrightarrow> rune_hash key = 2 ^ 63"
proof (cases "sint (rune_hash key) < 0")
  case True
  then show ?thesis using sint_neg_min [OF True] by (simp add: shard_hash_def Let_def)
next
  case False
  moreover have "sint (2 ^ 63 :: 64 word) < 0" by simp
  ultimately have "rune_hash key \<noteq> 2 ^ 63" by metis
  with False show ?thesis by (simp add: shard_hash_def Let_def)
qed

text \<open>
  C19. Every key has exactly one owner among the nodes that are UP: if the addresses are
  distinct and the hash is not the smallest 64-bit integer, there is one address whose
  node answers yes, it is an UP one, and every other node answers no.
\<close>
theorem shard_owner_unique:
  assumes "up_addrs (mgNodes M) \<noteq> []" "distinct (up_addrs (mgNodes M))" "rune_hash key \<noteq> 2 ^ 63"
  shows "\<exists>owner \<in> set (up_addrs (mgNodes M)).
     \<forall>a. ShouldCheckInstance key (M\<lparr>mgSelf := a\<rparr>) = Some (a = owner)"
proof -
  let ?ups = "up_addrs (mgNodes M)"
  let ?i = "sint (shard_hash key) smod int (length ?ups)"
  have pos: "0 \<le> sint (shard_hash key)" using shard_hash_neg assms(3) by (metis not_le_imp_less)
  have i: "0 \<le> ?i" "nat ?i < length ?ups"
    using assms(1) smod_int_compares(1,2) [OF pos, of "int (length ?ups)"] by simp_all
  have "ShouldCheckInstance key (M\<lparr>mgSelf := a\<rparr>) = Some (a = sort ?ups ! nat ?i)" for a
    using assms(1) i(1) by (auto simp: ShouldCheckInstance_def Let_def)
  moreover have "sort ?ups ! nat ?i \<in> set ?ups"
    using i(2) by (metis length_sort nth_mem set_sort)
  ultimately show ?thesis by blast
qed

lemma plain_runes: "ascii s \<Longrightarrow> range_runes s = map of_char s"
  by (rule range_runes_ascii)

lemma order_hash: "rune_hash ''order'' \<noteq> 2 ^ 63"
proof -
  have "range_runes ''order'' = map of_char ''order''" by (rule plain_runes) (simp add: ascii_def)
  then show ?thesis by (simp add: rune_hash_def)
qed

theorem shard_owner_unique_witness:
  "\<exists>owner \<in> set (up_addrs (mgNodes demo_mgr)). \<forall>a. ShouldCheckInstance ''order'' (demo_mgr\<lparr>mgSelf := a\<rparr>) = Some (a = owner)"
  by (rule shard_owner_unique [OF _ _ order_hash]) (simp_all add: demo_ups)

text \<open>An instance with an ordinary name whose key hashes to the smallest 64-bit integer.\<close>

definition min_hash_inst :: ServiceInstance where
  "min_hash_inst = zero_inst\<lparr>siNamespaceID := ''public'', siGroupName := ''DEFAULT_GROUP'',
     siServiceName := ''dammlbaopxoamo'', siClusterName := ''DEFAULT'', siIP := ''10.0.0.1'', siPort := 80\<rparr>"

lemma min_hash_key: "InstanceKey min_hash_inst = ''public#DEFAULT_GROUP#dammlbaopxoamo#DEFAULT#10.0.0.1:80''"
  by (simp add: InstanceKey_def min_hash_inst_def zero_inst_def itoa_def digits10.simps)

lemma min_hash: "rune_hash (InstanceKey min_hash_inst) = 2 ^ 63"
proof -
  have "range_runes (InstanceKey min_hash_inst) = map of_char (InstanceKey min_hash_inst)"
    unfolding min_hash_key by (rule plain_runes) (simp add: ascii_def)
  then show ?thesis unfolding min_hash_key by (simp add: rune_hash_def)
qed

text \<open>
  C40. The sharding function panics exactly for the keys that hash to the smallest 64-bit
  integer, whose negation overflows, when the number of UP nodes does not divide 2^63 (the
  index is negative then); and there is an ordinary instance with such a key.
\<close>
theorem shard_panics_iff:
  "(ShouldCheckInstance key M = None \<longleftrightarrow>
      up_addrs (mgNodes M) \<noteq> [] \<and> rune_hash key = 2 ^ 63 \<and> \<not> int (length (up_addrs (mgNodes M))) dvd 2 ^ 63) \<and>
   rune_hash (InstanceKey min_hash_inst) = 2 ^ 63"
proof (intro conjI min_hash)
  let ?n = "int (length (up_addrs (mgNodes M)))"
  have neg: "sint (shard_hash key) smod ?n < 0 \<longleftrightarrow> rune_hash key = 2 ^ 63 \<and> \<not> ?n dvd 2 ^ 63"
    if n: "0 < ?n"
  proof (cases "rune_hash key = 2 ^ 63")
    case True
    then have s: "sint (shard_hash key) = - (2 ^ 63)" by (simp add: shard_hash_def Let_def)
    have "sint (shard_hash key) smod ?n = - (2 ^ 63 mod ?n)"
      unfolding s smod_int_alt_def using n by simp
    moreover have "0 \<le> (2 ^ 63 :: int) mod ?n" using n by simp
    ultimately show ?thesis using True by (auto simp: dvd_eq_mod_eq_0)
  next
    case False
    then have "0 \<le> sint (shard_hash key)" using shard_hash_neg by (metis not_le_imp_less)
    then show ?thesis using False smod_int_compares(2) [of "sint (shard_hash key)" ?n] n by simp
  qed
  show "ShouldCheckInstance key M = None \<longleftrightarrow>
      up_addrs (mgNodes M) \<noteq> [] \<and> rune_hash key = 2 ^ 63 \<and> \<not> ?n dvd 2 ^ 63"
    using neg by (cases "up_addrs (mgNodes M) = []") (auto simp: ShouldCheckInstance_def Let_def not_le split: if_splits)
qed

section \<open>Expired nodes\<close>

definition all_down :: "string \<Rightarrow> ('d, ClusterNode) table \<Rightarrow> bool" where
  "all_down addr T \<longleftrightarrow> (\<forall>r \<in># rows T. t_coll T (cnAddress r) addr \<longrightarrow> cnState r = NodeStateDown)"

lemma mark_down_table:
  assumes "gorm_table node_schema T" "updates_succeed T"
  shows "gorm_table node_schema (mark_down a T) \<and> updates_succeed (mark_down a T) \<and> all_down a (mark_down a T) \<and>
    (all_down b T \<longrightarrow> all_down b (mark_down a T))"
proof -
  obtain T' where u: "tb_update (Some (\<lambda>x. t_coll T (cnAddress x) a)) (\<lambda>_ x. x\<lparr>cnState := NodeStateDown\<rparr>) T = Inr T'"
    using tb_update_succeeds [OF assms(2)] by blast
  then have m: "mark_down a T = T'" by (simp add: mark_down_def ClusterNodeStore_MarkDown_def)
  from tb_update_rows [OF assms(1) u] obtain t v where
    r: "rows T' = image_mset (\<lambda>x. if t_coll T (cnAddress x) a then sc_touch node_schema v (x\<lparr>cnState := NodeStateDown\<rparr>) else x) (rows T)"
    by (auto simp: update_effect_def)
  show ?thesis
    unfolding m all_down_def using tb_update_rows [OF assms(1) u] tb_update_keeps_up [OF u] assms(2)
    by (auto simp: r)
qed

definition refresh_marks :: "int \<Rightarrow> string \<Rightarrow> ClusterNode list \<Rightarrow> ('d, ClusterNode) table \<Rightarrow> ('d, ClusterNode) table" where
  "refresh_marks now self nodes T =
     fold (\<lambda>node T. if cnAddress node = self then T
                    else if expired now node then mark_down (cnAddress node) T else T) nodes T"

lemma refresh_marks_table:
  assumes "gorm_table node_schema T" "updates_succeed T"
    and "all_down a T \<or> (\<exists>n \<in> set nodes. cnAddress n = a \<and> a \<noteq> self \<and> expired now n)"
  shows "all_down a (refresh_marks now self nodes T)"
  using assms
proof (induction nodes arbitrary: T)
  case Nil
  then show ?case by (simp add: refresh_marks_def)
next
  case (Cons n nodes)
  let ?T = "if cnAddress n = self then T else if expired now n then mark_down (cnAddress n) T else T"
  have t: "gorm_table node_schema ?T" "updates_succeed ?T"
    using mark_down_table [OF Cons.prems(1,2)] Cons.prems(1,2) by simp_all
  have "all_down a ?T \<or> (\<exists>n \<in> set nodes. cnAddress n = a \<and> a \<noteq> self \<and> expired now n)"
    using mark_down_table [OF Cons.prems(1,2)] Cons.prems(3) by auto
  from Cons.IH [OF t this] show ?case by (simp add: refresh_marks_def)
qed

text \<open>
  A refresh marks an expired peer DOWN in the database but goes on treating it as UP
  itself: after the refresh the table says DOWN for its address, while the node list used
  for the leader, the shards and the notifications still holds it as UP - until the next
  refresh, whose list has it DOWN.
\<close>
theorem refresh_is_one_cycle_late:
  assumes "gorm_table node_schema (mgStore M)" "updates_succeed (mgStore M)"
    and "ClusterNodeStore_List (mgStore M) = Inr nodes"
    and "n \<in> set nodes" "expired now n" "cnAddress n \<noteq> mgSelf M"
    and "M' = refreshNodes now M"
  shows "all_down (cnAddress n) (mgStore M') \<and> n \<in> set (mgNodes M') \<and> cnState n = NodeStateUp"
proof -
  have "M' = M\<lparr>mgStore := refresh_marks now (mgSelf M) nodes (mgStore M), mgNodes := nodes\<rparr>"
    by (simp add: assms(3,7) refreshNodes_def refresh_marks_def)
  moreover have "all_down (cnAddress n) (refresh_marks now (mgSelf M) nodes (mgStore M))"
    by (rule refresh_marks_table [OF assms(1,2)]) (use assms(4-6) in blast)
  ultimately show ?thesis using assms(4,5) by (simp add: expired_def)
qed

theorem refresh_is_one_cycle_late_witness:
  "let M' = refreshNodes 21000000000 demo_mgr in
   all_down ''10.0.0.3:8848'' (mgStore M') \<and> node 1 ''10.0.0.3:8848'' NodeStateUp 0 \<in> set (mgNodes M')"
proof -
  have l: "ClusterNodeStore_List (mgStore demo_mgr) = Inr three_nodes"
    by (simp add: demo_mgr_def NewManager_def ClusterNodeStore_List_def mem_ops)
  have "all_down (cnAddress (node 1 ''10.0.0.3:8848'' NodeStateUp 0)) (mgStore (refreshNodes 21000000000 demo_mgr)) \<and>
    node 1 ''10.0.0.3:8848'' NodeStateUp 0 \<in> set (mgNodes (refreshNodes 21000000000 demo_mgr)) \<and>
    cnState (node 1 ''10.0.0.3:8848'' NodeStateUp 0) = NodeStateUp"
    by (rule refresh_is_one_cycle_late [OF _ _ l _ _ _ refl])
       (simp_all add: demo_mgr_def NewManager_def three_nodes_def node_def expired_def
         clamp64_def int64_min_def int64_max_def)
  then show ?thesis by (simp add: Let_def node_def)
qed

section \<open>Notifications\<close>

text \<open>A notification goes once to every other UP node and never to the sender.\<close>

lemma broadcast_recipients:
  "map srURL (broadcastEvent ev M) =
     map (\<lambda>a. ''http://'' @ a @ ''/v1/cluster/sync'') (filter (\<lambda>a. a \<noteq> mgSelf M) (up_addrs (mgNodes M)))"
  by (simp add: broadcastEvent_def sync_send_def SelfAddr_def GetNodes_def up_addrs_def filter_map comp_def
      NodeStateUp_def conj_commute)

end
