(* ===== verification/NamespaceSvc.thy ===== *)
theory NamespaceSvc
  imports Storage MemTable
begin

text \<open>
  \<^verbatim>\<open>src/pkg/namespace/namespace.go\<close>: the namespaces. The state is the table; the default
  namespace \<open>public\<close> is made at start and cannot be deleted.
\<close>

definition new_ns :: "string \<Rightarrow> string \<Rightarrow> string \<Rightarrow> Namespace" where
  "new_ns i name desc = \<lparr>nsID = i, nsName = name, nsDescription = desc, nsCreatedAt = 0, nsUpdatedAt = 0\<rparr>"

definition InitDefault :: "'d ns_table \<Rightarrow> gerr + 'd ns_table" where
  "InitDefault T = NamespaceStore_Create (new_ns ''public'' ''Public'' ''Default public namespace'') T"

definition keep_on_err :: "'t \<Rightarrow> gerr + 't \<Rightarrow> 't \<times> (err + unit)" where
  "keep_on_err T r = (case r of Inl e \<Rightarrow> (T, Inl (EDB e)) | Inr T' \<Rightarrow> (T', Inr ()))"

definition ns_Create :: "string \<Rightarrow> string \<Rightarrow> string \<Rightarrow> 'd ns_table \<Rightarrow> 'd ns_table \<times> (err + unit)" where
  "ns_Create i name desc T =
     (if i = [] \<or> name = [] then (T, Inl (EMsg ''id and name are required''))
      else keep_on_err T (NamespaceStore_Create (new_ns i name desc) T))"

definition ns_Delete :: "string \<Rightarrow> 'd ns_table \<Rightarrow> 'd ns_table \<times> (err + unit)" where
  "ns_Delete i T =
     (if i = ''public'' then (T, Inl (EMsg ''cannot delete the default public namespace''))
      else keep_on_err T (NamespaceStore_Delete i T))"

definition ns_Update :: "string \<Rightarrow> string \<Rightarrow> string \<Rightarrow> 'd ns_table \<Rightarrow> 'd ns_table \<times> (err + unit)" where
  "ns_Update i name desc T =
     (case NamespaceStore_Get i T of
        Inl e \<Rightarrow> (T, Inl (EDB e))
      | Inr ns \<Rightarrow>
          keep_on_err T (NamespaceStore_Update
            (ns\<lparr>nsName := (if name \<noteq> [] then name else nsName ns), nsDescription := desc\<rparr>) T))"

definition ns_List :: "'d ns_table \<Rightarrow> err + Namespace list" where
  "ns_List T = lift_err (NamespaceStore_List T)"

definition ns_Get :: "string \<Rightarrow> 'd ns_table \<Rightarrow> err + Namespace" where
  "ns_Get i T = lift_err (NamespaceStore_Get i T)"

section \<open>The default namespace stays\<close>

text \<open>A namespace is there if the database, which compares ids by its collation, finds it.\<close>

definition has_ns :: "string \<Rightarrow> 'd ns_table \<Rightarrow> bool" where
  "has_ns i T \<longleftrightarrow> (\<exists>r \<in># rows T. t_coll T (nsID r) i)"

lemma create_keeps:
  assumes "gorm_table ns_schema T" "NamespaceStore_Create ns T = Inr T'"
  shows "gorm_table ns_schema T' \<and> t_coll T' = t_coll T \<and> (\<forall>i. has_ns i T \<longrightarrow> has_ns i T') \<and>
    has_ns (nsID ns) T'"
proof -
  note u = tb_upsert_rows [OF assms(1) assms(2) [unfolded NamespaceStore_Create_def]]
  show ?thesis
  proof (cases "\<exists>x \<in># rows T. t_coll T (nsID x) (nsID ns)")
    case True
    then have "rows T' = rows T"
      using u by (auto simp: upsert_effect_def Let_def ns_schema_def)
    with u True show ?thesis by (auto simp: has_ns_def)
  next
    case False
    then obtain n where n: "rows T' = add_mset n (rows T)" "nsID n = nsID ns"
      using u by (auto simp: upsert_effect_def Let_def ns_schema_def)
    have "t_coll T (nsID ns) (nsID ns)" using coll_refl [OF assms(1)] .
    with u n show ?thesis by (auto simp: has_ns_def)
  qed
qed

lemma delete_keeps:
  assumes "gorm_table ns_schema T" "NamespaceStore_Delete i T = Inr T'" "has_ns k T" "\<not> t_coll T k i"
  shows "gorm_table ns_schema T' \<and> t_coll T' = t_coll T \<and> has_ns k T'"
  using tb_delete_rows [OF assms(1) assms(2) [unfolded NamespaceStore_Delete_def]] assms(3,4)
  by (auto simp: has_ns_def) (meson coll_sym [OF assms(1)] coll_trans [OF assms(1)])

lemma delete_removes:
  assumes "gorm_table ns_schema T" "NamespaceStore_Delete i T = Inr T'" "t_coll T k i"
  shows "\<not> has_ns k T'"
  using tb_delete_rows [OF assms(1) assms(2) [unfolded NamespaceStore_Delete_def]] assms(3)
  by (auto simp: has_ns_def) (meson coll_trans [OF assms(1)])

lemma update_keeps:
  assumes "gorm_table ns_schema T" "NamespaceStore_Update ns T = Inr T'" "has_ns k T"
  shows "gorm_table ns_schema T' \<and> t_coll T' = t_coll T \<and> has_ns k T'"
proof -
  have ne: "nsID ns \<noteq> []"
    using assms(2) tb_update_no_cond [OF assms(1)] by (auto simp: NamespaceStore_Update_def)
  then have u: "tb_update (Some (\<lambda>x. t_coll T (nsID x) (nsID ns)))
      (\<lambda>_ x. x\<lparr>nsName := nsName ns, nsDescription := nsDescription ns\<rparr>) T = Inr T'"
    using assms(2) by (simp add: NamespaceStore_Update_def)
  from tb_update_rows [OF assms(1) u] obtain t v where
    r: "rows T' = image_mset (\<lambda>x. if t_coll T (nsID x) (nsID ns)
      then sc_touch ns_schema v (x\<lparr>nsName := nsName ns, nsDescription := nsDescription ns\<rparr>) else x) (rows T)"
    by (auto simp: update_effect_def)
  have "nsID ` set_mset (rows T') = nsID ` set_mset (rows T)"
  proof -
    have "nsID (if t_coll T (nsID x) (nsID ns)
        then sc_touch ns_schema v (x\<lparr>nsName := nsName ns, nsDescription := nsDescription ns\<rparr>) else x) = nsID x" for x
      by (simp add: ns_schema_def)
    then show ?thesis unfolding r set_image_mset image_image by presburger
  qed
  moreover obtain i where "i \<in> nsID ` set_mset (rows T)" "t_coll T i k" using assms(3) by (auto simp: has_ns_def)
  ultimately have "\<exists>x \<in># rows T'. t_coll T (nsID x) k" by (metis image_iff)
  then show ?thesis using tb_update_rows [OF assms(1) u] by (simp add: has_ns_def)
qed

datatype ns_op = NsCreate string string string | NsDelete string | NsUpdate string string string

fun ns_step :: "ns_op \<Rightarrow> 'd ns_table \<Rightarrow> 'd ns_table" where
  "ns_step (NsCreate i name desc) T = fst (ns_Create i name desc T)"
| "ns_step (NsDelete i) T = fst (ns_Delete i T)"
| "ns_step (NsUpdate i name desc) T = fst (ns_Update i name desc T)"

text \<open>
  The deletions that get past the guard, which compares with the bytes \<open>public\<close>: those of
  another spelling that the database takes for the same.
\<close>

fun evades :: "(string \<Rightarrow> string \<Rightarrow> bool) \<Rightarrow> ns_op \<Rightarrow> bool" where
  "evades c (NsDelete i) = (i \<noteq> ''public'' \<and> c ''public'' i)"
| "evades c (NsCreate i name desc) = False"
| "evades c (NsUpdate i name desc) = False"

lemma ns_step_laws:
  assumes "gorm_table ns_schema T"
  shows "gorm_table ns_schema (ns_step a T) \<and> t_coll (ns_step a T) = t_coll T"
proof (cases a)
  case (NsCreate i name desc)
  then show ?thesis
    using assms create_keeps [OF assms] by (auto simp: ns_Create_def keep_on_err_def split: sum.split)
next
  case (NsDelete i)
  then show ?thesis
    using assms tb_delete_rows [OF assms]
    by (auto simp: ns_Delete_def keep_on_err_def NamespaceStore_Delete_def split: sum.split)
next
  case (NsUpdate i name desc)
  have "gorm_table ns_schema T' \<and> t_coll T' = t_coll T" if "NamespaceStore_Update ns T = Inr T'" for ns T'
    using that tb_update_rows [OF assms] tb_update_no_cond [OF assms]
    by (auto simp: NamespaceStore_Update_def split: if_splits)
  with NsUpdate assms show ?thesis by (auto simp: ns_Update_def keep_on_err_def split: sum.split)
qed

lemma ns_step_keeps:
  assumes "gorm_table ns_schema T" "has_ns ''public'' T" "\<not> evades (t_coll T) a"
  shows "has_ns ''public'' (ns_step a T)"
proof (cases a)
  case (NsCreate i name desc)
  then show ?thesis
    using assms create_keeps [OF assms(1)] by (auto simp: ns_Create_def keep_on_err_def split: sum.split)
next
  case (NsDelete i)
  then show ?thesis
    using assms delete_keeps [OF assms(1) _ assms(2)]
    by (auto simp: ns_Delete_def keep_on_err_def split: sum.split)
next
  case (NsUpdate i name desc)
  then show ?thesis
    using assms update_keeps [OF assms(1) _ assms(2)] by (auto simp: ns_Update_def keep_on_err_def split: sum.split)
qed

lemma ns_run_laws:
  "gorm_table ns_schema T \<Longrightarrow> gorm_table ns_schema (fold ns_step as T) \<and> t_coll (fold ns_step as T) = t_coll T"
  by (induction as arbitrary: T) (simp_all add: ns_step_laws)

lemma ns_run_keeps:
  assumes "gorm_table ns_schema T" "has_ns ''public'' T" "\<forall>a \<in> set as. \<not> evades (t_coll T) a"
  shows "has_ns ''public'' (fold ns_step as T)"
  using assms by (induction as arbitrary: T) (simp_all add: ns_step_laws ns_step_keeps)

text \<open>
  C36. The default namespace is protected, as far as its guard goes: once \<open>public\<close> has been made,
  no sequence of creations, updates and deletions, whatever their arguments, removes it, as long
  as no deletion names it in another spelling that the database takes for the same; and such a
  deletion, at any time, does remove it. (The database the program creates ignores case, so
  \<open>PUBLIC\<close> is such a spelling.)
\<close>
theorem public_namespace_stays:
  assumes "gorm_table ns_schema T" "InitDefault T = Inr T0" "T1 = fold ns_step as T0"
  shows "((\<forall>a \<in> set as. \<not> evades (t_coll T) a) \<longrightarrow> has_ns ''public'' T1) \<and>
    (\<forall>i T2. evades (t_coll T) (NsDelete i) \<and> ns_Delete i T1 = (T2, Inr ()) \<longrightarrow> \<not> has_ns ''public'' T2)"
proof -
  have T0: "gorm_table ns_schema T0" "t_coll T0 = t_coll T" "has_ns ''public'' T0"
    using create_keeps [OF assms(1) assms(2) [unfolded InitDefault_def]] by (simp_all add: new_ns_def)
  have T1: "gorm_table ns_schema T1" "t_coll T1 = t_coll T"
    using ns_run_laws [OF T0(1), of as] assms(3) T0(2) by simp_all
  have "\<not> has_ns ''public'' T2" if "evades (t_coll T) (NsDelete i)" "ns_Delete i T1 = (T2, Inr ())" for i T2
    using that delete_removes [OF T1(1), of i T2 "''public''"] T1(2)
    by (auto simp: ns_Delete_def keep_on_err_def split: sum.splits)
  then show ?thesis using ns_run_keeps [OF T0(1,3), of as] T0(2) assms(3) by auto
qed

text \<open>On a table that ignores case: the guard holds for \<open>public\<close>, and \<open>PUBLIC\<close> gets past it.\<close>

theorem public_namespace_stays_witness:
  "\<exists>T0 T2. InitDefault (coll_table ignore_case ns_schema []) = Inr T0 \<and>
     has_ns ''public'' (fold ns_step [NsDelete ''public'', NsCreate ''dev'' ''Dev'' [], NsDelete ''dev''] T0) \<and>
     ns_Delete ''PUBLIC'' (fold ns_step [NsDelete ''public''] T0) = (T2, Inr ()) \<and> \<not> has_ns ''public'' T2"
proof -
  have g: "gorm_table ns_schema (coll_table ignore_case ns_schema [])"
    by (rule coll_table_gorm [OF ignore_case_equivp])
  obtain T0 where t: "InitDefault (coll_table ignore_case ns_schema []) = Inr T0"
    by (simp add: InitDefault_def NamespaceStore_Create_def coll_ops)
  have T0: "\<exists>xs. T0 = coll_table ignore_case ns_schema xs"
    using t by (auto simp: InitDefault_def NamespaceStore_Create_def coll_ops)
  then obtain T2 where d: "ns_Delete ''PUBLIC'' (fold ns_step [NsDelete ''public''] T0) = (T2, Inr ())"
    by (auto simp: ns_Delete_def keep_on_err_def NamespaceStore_Delete_def coll_ops)
  have case_less: "ignore_case ''public'' ''PUBLIC''" "\<not> ignore_case ''public'' ''dev''"
    by code_simp+
  have "has_ns ''public'' (fold ns_step [NsDelete ''public'', NsCreate ''dev'' ''Dev'' [], NsDelete ''dev''] T0)"
    by (rule public_namespace_stays [OF g t refl, THEN conjunct1, THEN mp]) (simp add: coll_ops case_less)
  moreover have "\<not> has_ns ''public'' T2"
    using public_namespace_stays [OF g t refl, THEN conjunct2, THEN spec, THEN spec, THEN mp, OF conjI [OF _ d]]
    by (simp add: coll_ops case_less)
  ultimately show ?thesis using t d by blast
qed

end
