(* ===== verification/Auth.thy ===== *)
theory Auth
  imports GoHash
begin

text \<open>
  \<^verbatim>\<open>src/pkg/auth/auth.go\<close>: login and tokens. A token is the expiry time (nanoseconds
  since 1970, eight bytes) followed by its HMAC-SHA256 under the secret key, in raw URL
  base64. Clock values are integers in nanoseconds; the errors are a datatype, with the
  expiry time in the one whose text shows it.
\<close>

section \<open>Configuration\<close>

record AuthConfig =
  acUsername :: string
  acPassword :: string
  acSecretKey :: string
  acTokenTTL :: int

definition DefaultConfig :: AuthConfig where
  "DefaultConfig = \<lparr>acUsername = ''benbroo'', acPassword = ''benbroo'',
     acSecretKey = ''benbroo-secret-key-2024'', acTokenTTL = 86400\<rparr>"

record auth_manager =
  amUsername :: string
  amPassword :: string
  amSecretKey :: bytes
  amTokenTTL :: int

definition str_default :: "string \<Rightarrow> string \<Rightarrow> string" where
  "str_default v d = (if v = [] then d else v)"

definition auth_fill :: "AuthConfig \<Rightarrow> AuthConfig" where
  "auth_fill c = c\<lparr>
     acUsername := str_default (acUsername c) ''benbroo'',
     acPassword := str_default (acPassword c) ''benbroo'',
     acSecretKey := str_default (acSecretKey c) ''benbroo-secret-key-2024'',
     acTokenTTL := (if acTokenTTL c \<le> 0 then 86400 else acTokenTTL c)\<rparr>"

definition NewAuthManager :: "AuthConfig \<Rightarrow> auth_manager" where
  "NewAuthManager cfg =
     (let c = auth_fill cfg
      in \<lparr>amUsername = acUsername c, amPassword = acPassword c, amSecretKey = bytes_of (acSecretKey c),
          amTokenTTL = int64 (acTokenTTL c * 1000000000)\<rparr>)"

section \<open>Tokens\<close>

datatype auth_err = BadCredentials | BadFormat | BadLength | Expired int | BadSignature

definition token_mac :: "auth_manager \<Rightarrow> bytes \<Rightarrow> bytes" where
  "token_mac m ts = hmac_sha256 (amSecretKey m) ts"

definition generateToken :: "int \<Rightarrow> auth_manager \<Rightarrow> string" where
  "generateToken now m =
     (let expiry = now + amTokenTTL m;
          ts = be_bytes 8 (word_of_int expiry :: 64 word)
      in b64_encode (ts @ token_mac m ts))"

definition Login :: "int \<Rightarrow> string \<Rightarrow> string \<Rightarrow> auth_manager \<Rightarrow> auth_err + string" where
  "Login now username password m =
     (if username \<noteq> amUsername m \<or> password \<noteq> amPassword m then Inl BadCredentials
      else Inr (generateToken now m))"

definition ValidateToken :: "int \<Rightarrow> string \<Rightarrow> auth_manager \<Rightarrow> auth_err + unit" where
  "ValidateToken now token m =
     (case b64_decode token of
        None \<Rightarrow> Inl BadFormat
      | Some data \<Rightarrow>
          if length data < 12 then Inl BadLength
          else let ts = take 8 data; sig = drop 8 data; expiry = sint (be_word ts :: 64 word)
               in if expiry < now then Inl (Expired expiry)
                  else if sig \<noteq> token_mac m ts then Inl BadSignature
                  else Inr ())"

section \<open>Properties\<close>

definition auth_usable :: "AuthConfig \<Rightarrow> bool" where
  "auth_usable c \<longleftrightarrow> acUsername c \<noteq> [] \<and> acPassword c \<noteq> [] \<and> acSecretKey c \<noteq> [] \<and> 0 < acTokenTTL c"

interpretation auth_defaults: defaults auth_fill auth_usable
  by unfold_locales (auto simp: auth_fill_def auth_usable_def str_default_def)

lemma length_token_mac [simp]: "length (token_mac m ts) = 32"
  by (simp add: token_mac_def)

text \<open>
  C22. A token issued at login is accepted until it expires, and not a nanosecond longer:
  for a login at time \<open>now\<close> with a lifetime that stays in the range of a 64-bit
  nanosecond clock, validation at time \<open>t\<close> succeeds exactly when \<open>t\<close> is not after
  \<open>now\<close> plus the lifetime. A login succeeds only with the configured name and password.
\<close>
theorem token_valid_until_expiry:
  assumes "Login now u p m = Inr tok"
    and "int64_min \<le> now + amTokenTTL m" "now + amTokenTTL m \<le> int64_max"
  shows "u = amUsername m \<and> p = amPassword m \<and>
    (ValidateToken t tok m = Inr () \<longleftrightarrow> t \<le> now + amTokenTTL m)"
proof -
  let ?ts = "be_bytes 8 (word_of_int (now + amTokenTTL m) :: 64 word)"
  from assms(1) have up: "u = amUsername m" "p = amPassword m" and tok: "tok = b64_encode (?ts @ token_mac m ?ts)"
    by (auto simp: Login_def generateToken_def Let_def split: if_splits)
  have e: "sint (word_of_int (now + amTokenTTL m) :: 64 word) = now + amTokenTTL m"
    using int64_id [OF assms(2,3)] by (simp add: int64_def)
  have "ValidateToken t tok m =
      (if now + amTokenTTL m < t then Inl (Expired (now + amTokenTTL m)) else Inr ())"
    using e by (simp add: ValidateToken_def tok b64_decode_encode Let_def)
  with up show ?thesis by auto
qed

theorem token_valid_until_expiry_witness:
  "ValidateToken 5000000000 (generateToken 0 (NewAuthManager DefaultConfig)) (NewAuthManager DefaultConfig) = Inr ()"
proof -
  have ttl: "amTokenTTL (NewAuthManager DefaultConfig) = 86400000000000"
    by (simp add: NewAuthManager_def DefaultConfig_def auth_fill_def Let_def int64_id int64_min_def int64_max_def)
  have "Login 0 ''benbroo'' ''benbroo'' (NewAuthManager DefaultConfig) = Inr (generateToken 0 (NewAuthManager DefaultConfig))"
    by (simp add: Login_def NewAuthManager_def DefaultConfig_def auth_fill_def str_default_def Let_def)
  from token_valid_until_expiry [OF this, of 5000000000] show ?thesis
    by (simp add: ttl int64_min_def int64_max_def)
qed

text \<open>
  C23. Only a token that carries the right signature is accepted: whatever string validates
  decodes to eight bytes of expiry, not yet passed, and exactly their HMAC under the
  secret key. (The string itself is not unique: line breaks in it are ignored.)
\<close>
theorem accepted_token_is_signed:
  assumes "ValidateToken now token m = Inr ()"
  shows "(\<exists>ts. length ts = 8 \<and> b64_decode token = Some (ts @ hmac_sha256 (amSecretKey m) ts) \<and>
            now \<le> sint (be_word ts :: 64 word)) \<and>
         ValidateToken now (token @ [CHR 0x0A]) m = Inr ()"
proof
  from assms obtain data where d: "b64_decode token = Some data" "\<not> length data < 12"
    "now \<le> sint (be_word (take 8 data) :: 64 word)" "drop 8 data = token_mac m (take 8 data)"
    by (auto simp: ValidateToken_def Let_def split: option.splits if_splits)
  then have "data = take 8 data @ hmac_sha256 (amSecretKey m) (take 8 data)"
    by (metis append_take_drop_id token_mac_def)
  with d show "\<exists>ts. length ts = 8 \<and> b64_decode token = Some (ts @ hmac_sha256 (amSecretKey m) ts) \<and>
      now \<le> sint (be_word ts :: 64 word)"
    by (intro exI [of _ "take 8 data"]) auto
  have "b64_decode (token @ [CHR 0x0A]) = b64_decode token" by (simp add: b64_decode_def)
  then show "ValidateToken now (token @ [CHR 0x0A]) m = Inr ()" using assms by (simp add: ValidateToken_def)
qed

theorem accepted_token_is_signed_witness:
  "ValidateToken 0 (generateToken 0 (NewAuthManager DefaultConfig) @ [CHR 0x0A]) (NewAuthManager DefaultConfig) = Inr ()"
proof -
  have ttl: "amTokenTTL (NewAuthManager DefaultConfig) = 86400000000000"
    by (simp add: NewAuthManager_def DefaultConfig_def auth_fill_def Let_def int64_id int64_min_def int64_max_def)
  have "ValidateToken 0 (generateToken 0 (NewAuthManager DefaultConfig)) (NewAuthManager DefaultConfig) = Inr ()"
    by (simp add: ValidateToken_def generateToken_def ttl b64_decode_encode Let_def)
  then show ?thesis by (rule accepted_token_is_signed [THEN conjunct2])
qed

end
