(* ===== verification/App.thy ===== *)
theory App
  imports Naming ConfigSvc Health Cluster NamespaceSvc Auth
begin

text \<open>
  The state of a running server: the tables all components share, the event bus, the
  counters of the health checker, the cluster manager and what the syncer has sent. Every
  component works on its part of it; \<open>with_registry\<close>, \<open>with_config\<close>, \<open>with_checker\<close> and
  \<open>with_namespaces\<close> run an operation of a component on that part. The three servers (HTTP,
  TCP, gRPC) hold the same components, so they act on one state.
\<close>

record ('i, 's, 'c, 'h, 'n, 'd) app =
  apInst :: "('i, ServiceInstance) table"
  apSvc :: "('s, Service) table"
  apCfg :: "('c, 'h) config_store"
  apNs :: "'n ns_table"
  apMgr :: "'d manager"
  apBus :: bus
  apHealth :: Config
  apFails :: "nat \<Rightarrow> int"
  apSuccess :: "nat \<Rightarrow> int"
  apPassive :: tracker
  apAuth :: auth_manager
  apSyncer :: bool
  apOutbox :: "sync_request list"

text \<open>
  What one request reads from outside: the clock as a heartbeat time, in milliseconds for
  an event, and at the two reads of a failure report.
\<close>

record clocks =
  ckBeat :: int
  ckMilli :: int
  ckFail1 :: int
  ckFail2 :: int

section \<open>The components' views\<close>

definition registry_of :: "('i, 's, 'c, 'h, 'n, 'd) app \<Rightarrow> ('i, 's) registry" where
  "registry_of A = \<lparr>rgInst = apInst A, rgSvc = apSvc A, rgBus = apBus A\<rparr>"

definition with_registry ::
  "(('i, 's) registry \<Rightarrow> ('i, 's) registry \<times> 'a) \<Rightarrow> ('i, 's, 'c, 'h, 'n, 'd) app
   \<Rightarrow> ('i, 's, 'c, 'h, 'n, 'd) app \<times> 'a" where
  "with_registry f A =
     (case f (registry_of A) of
        (R, r) \<Rightarrow> (A\<lparr>apInst := rgInst R, apSvc := rgSvc R, apBus := rgBus R\<rparr>, r))"

definition config_of :: "('i, 's, 'c, 'h, 'n, 'd) app \<Rightarrow> ('c, 'h) cfg_service" where
  "config_of A = \<lparr>cfStore = apCfg A, cfBus = apBus A\<rparr>"

definition with_config ::
  "(('c, 'h) cfg_service \<Rightarrow> ('c, 'h) cfg_service \<times> 'a) \<Rightarrow> ('i, 's, 'c, 'h, 'n, 'd) app
   \<Rightarrow> ('i, 's, 'c, 'h, 'n, 'd) app \<times> 'a" where
  "with_config f A = (case f (config_of A) of (S, r) \<Rightarrow> (A\<lparr>apCfg := cfStore S, apBus := cfBus S\<rparr>, r))"

definition checker_of :: "('i, 's, 'c, 'h, 'n, 'd) app \<Rightarrow> ('i, 's) checker" where
  "checker_of A = \<lparr>hkInst = apInst A, hkSvc = apSvc A, hkBus = apBus A, hkCfg = apHealth A,
     activeFails = apFails A, activeSuccess = apSuccess A, hkPassive = apPassive A\<rparr>"

definition with_checker ::
  "(('i, 's) checker \<Rightarrow> ('i, 's) checker) \<Rightarrow> ('i, 's, 'c, 'h, 'n, 'd) app
   \<Rightarrow> ('i, 's, 'c, 'h, 'n, 'd) app" where
  "with_checker f A =
     (let C = f (checker_of A)
      in A\<lparr>apInst := hkInst C, apSvc := hkSvc C, apBus := hkBus C, apHealth := hkCfg C,
           apFails := activeFails C, apSuccess := activeSuccess C, apPassive := hkPassive C\<rparr>)"

definition with_namespaces ::
  "('n ns_table \<Rightarrow> 'n ns_table \<times> 'a) \<Rightarrow> ('i, 's, 'c, 'h, 'n, 'd) app
   \<Rightarrow> ('i, 's, 'c, 'h, 'n, 'd) app \<times> 'a" where
  "with_namespaces f A = (case f (apNs A) of (T, r) \<Rightarrow> (A\<lparr>apNs := T\<rparr>, r))"

text \<open>The syncer's requests, sent by goroutines, in the order they are started.\<close>

definition send_sync :: "sync_request list \<Rightarrow> ('i, 's, 'c, 'h, 'n, 'd) app \<Rightarrow> ('i, 's, 'c, 'h, 'n, 'd) app" where
  "send_sync rs A = A\<lparr>apOutbox := apOutbox A @ rs\<rparr>"

lemma registry_of_simps [simp]:
  "rgInst (registry_of A) = apInst A" "rgSvc (registry_of A) = apSvc A" "rgBus (registry_of A) = apBus A"
  by (simp_all add: registry_of_def)

lemma config_of_simps [simp]: "cfStore (config_of A) = apCfg A" "cfBus (config_of A) = apBus A"
  by (simp_all add: config_of_def)

lemma send_sync_simps [simp]:
  "registry_of (send_sync rs A) = registry_of A" "config_of (send_sync rs A) = config_of A"
  "apOutbox (send_sync rs A) = apOutbox A @ rs" "apNs (send_sync rs A) = apNs A"
  "checker_of (send_sync rs A) = checker_of A"
  by (simp_all add: send_sync_def registry_of_def config_of_def checker_of_def)

lemma with_registry_view [simp]:
  "registry_of (fst (with_registry f A)) = fst (f (registry_of A))"
  "snd (with_registry f A) = snd (f (registry_of A))"
  "apOutbox (fst (with_registry f A)) = apOutbox A"
  "apMgr (fst (with_registry f A)) = apMgr A"
  by (simp_all add: with_registry_def registry_of_def split: prod.split)

lemma with_config_view [simp]:
  "config_of (fst (with_config f A)) = fst (f (config_of A))"
  "snd (with_config f A) = snd (f (config_of A))"
  "apOutbox (fst (with_config f A)) = apOutbox A"
  "apMgr (fst (with_config f A)) = apMgr A"
  by (simp_all add: with_config_def config_of_def split: prod.split)

lemma with_checker_view [simp]: "checker_of (with_checker f A) = f (checker_of A)"
  by (simp add: with_checker_def checker_of_def Let_def)

end
