(* ===== verification/ApiServer.thy ===== *)
theory ApiServer
  imports App
begin

text \<open>
  \<^verbatim>\<open>src/pkg/api/server.go\<close>: the HTTP handlers and their routes. A handler is a function of
  the request, the clock and the server's state; its result is the new state with the status
  and the body of the response. The body is the value given to \<^verbatim>\<open>c.JSON\<close>, one constructor
  for each shape the code writes. Parsing of the request by gin (form, query, JSON body) is a
  parameter: the request holds what \<^verbatim>\<open>GetPostForm\<close> and \<^verbatim>\<open>GetQuery\<close> return for a key.
\<close>

section \<open>Requests and responses\<close>

record greq =
  rqForm :: "string \<Rightarrow> string option"
  rqQuery :: "string \<Rightarrow> string option"
  rqBody :: string

datatype payload =
    JMsg int string
  | JDone
  | JInst ServiceInstance
  | JHosts "ServiceInstance list" nat
  | JService Service "ServiceInstance list" nat
  | JDoms "(Service \<times> int \<times> int) list" nat
  | JServers "ClusterNode list"
  | JConfig ConfigItem
  | JConfigs "ConfigItem list" nat
  | JHistory "ConfigHistory list" nat
  | JText string
  | JNamespaces "Namespace list"
  | JDashboard nat nat nat "ClusterNode list" bool string
  | JHealth health_status
  | JSubscribers "SubscriberInfo list"
  | NotFoundPage

record response =
  rsStatus :: int
  rsBody :: payload

definition reply :: "payload \<Rightarrow> response" where
  "reply b = \<lparr>rsStatus = 200, rsBody = b\<rparr>"

definition reply_ok :: response where
  "reply_ok = reply (JMsg 0 ''ok'')"

definition reply_error :: "int \<Rightarrow> string \<Rightarrow> response" where
  "reply_error code m = \<lparr>rsStatus = code, rsBody = JMsg code m\<rparr>"

definition reply_to :: "int \<Rightarrow> payload \<Rightarrow> err + 'a \<Rightarrow> response" where
  "reply_to code body r = (case r of Inl e \<Rightarrow> reply_error code (err_text e) | Inr _ \<Rightarrow> reply body)"

definition PostForm :: "greq \<Rightarrow> string \<Rightarrow> string" where
  "PostForm q k = (case rqForm q k of None \<Rightarrow> [] | Some v \<Rightarrow> v)"

definition DefaultPostForm :: "greq \<Rightarrow> string \<Rightarrow> string \<Rightarrow> string" where
  "DefaultPostForm q k d = (case rqForm q k of None \<Rightarrow> d | Some v \<Rightarrow> v)"

definition Query :: "greq \<Rightarrow> string \<Rightarrow> string" where
  "Query q k = (case rqQuery q k of None \<Rightarrow> [] | Some v \<Rightarrow> v)"

definition DefaultQuery :: "greq \<Rightarrow> string \<Rightarrow> string \<Rightarrow> string" where
  "DefaultQuery q k d = (case rqQuery q k of None \<Rightarrow> d | Some v \<Rightarrow> v)"

definition param :: "greq \<Rightarrow> string \<Rightarrow> string" where
  "param q k = (let v = PostForm q k in if v \<noteq> [] then v else Query q k)"

definition paramDefault :: "greq \<Rightarrow> string \<Rightarrow> string \<Rightarrow> string" where
  "paramDefault q k d = (let v = DefaultPostForm q k [] in if v \<noteq> [] then v else DefaultQuery q k d)"

text \<open>
  What the handlers use of the environment: the value part of \<^verbatim>\<open>strconv.ParseFloat\<close>, SQL
  \<^verbatim>\<open>LIKE\<close>, the order in which Go visits a map, and the wording of a JSON error.
\<close>

record http_env =
  heClocks :: clocks
  heParseFloat :: "string \<Rightarrow> f64"
  heLike :: "string \<Rightarrow> string \<Rightarrow> bool"
  heMapOrder :: "gomap \<Rightarrow> gomap"
  heSubOrder :: "string list"
  heJsonError :: "string \<Rightarrow> string"

section \<open>Naming handlers\<close>

definition notify_service ::
  "http_env \<Rightarrow> string \<Rightarrow> string \<Rightarrow> string \<Rightarrow> ('i, 's, 'c, 'h, 'n, 'd) app \<Rightarrow> ('i, 's, 'c, 'h, 'n, 'd) app" where
  "notify_service e ns grp svc A =
     (if apSyncer A then send_sync (NotifyServiceChange (ckMilli (heClocks e)) ns grp svc (apMgr A)) A else A)"

definition notify_config ::
  "http_env \<Rightarrow> string \<Rightarrow> string \<Rightarrow> string \<Rightarrow> ('i, 's, 'c, 'h, 'n, 'd) app \<Rightarrow> ('i, 's, 'c, 'h, 'n, 'd) app" where
  "notify_config e ns grp did A =
     (if apSyncer A then send_sync (NotifyConfigChange (ckMilli (heClocks e)) ns grp did (apMgr A)) A else A)"

definition form_instance :: "http_env \<Rightarrow> greq \<Rightarrow> ServiceInstance" where
  "form_instance e q = zero_inst\<lparr>
     siNamespaceID := DefaultPostForm q ''namespaceId'' ''public'',
     siGroupName := DefaultPostForm q ''groupName'' ''DEFAULT_GROUP'',
     siServiceName := PostForm q ''serviceName'',
     siClusterName := DefaultPostForm q ''clusterName'' ''DEFAULT'',
     siIP := PostForm q ''ip'',
     siPort := atoi (DefaultPostForm q ''port'' ''0''),
     siWeight := heParseFloat e (DefaultPostForm q ''weight'' ''1.0''),
     siEphemeral := parse_bool (DefaultPostForm q ''ephemeral'' ''true''),
     siMetadata := DefaultPostForm q ''metadata'' ''{}''\<rparr>"

definition registerInstance ::
  "http_env \<Rightarrow> greq \<Rightarrow> ('i, 's, 'c, 'h, 'n, 'd) app \<Rightarrow> ('i, 's, 'c, 'h, 'n, 'd) app \<times> response" where
  "registerInstance e q A =
     (case with_registry (RegisterInstance (ckBeat (heClocks e)) (form_instance e q)) A of
        (A', Inl er) \<Rightarrow> (A', reply_error 400 (err_text er))
      | (A', Inr inst) \<Rightarrow>
          (notify_service e (siNamespaceID inst) (siGroupName inst) (siServiceName inst) A', reply_ok))"

definition query_key :: "greq \<Rightarrow> inst_key" where
  "query_key q = (DefaultQuery q ''namespaceId'' ''public'', DefaultQuery q ''groupName'' ''DEFAULT_GROUP'',
     Query q ''serviceName'', DefaultQuery q ''clusterName'' ''DEFAULT'', Query q ''ip'',
     atoi (DefaultQuery q ''port'' ''0''))"

definition deregisterInstance ::
  "http_env \<Rightarrow> greq \<Rightarrow> ('i, 's, 'c, 'h, 'n, 'd) app \<Rightarrow> ('i, 's, 'c, 'h, 'n, 'd) app \<times> response" where
  "deregisterInstance e q A =
     (case with_registry (DeregisterInstance (query_key q)) A of
        (A', Inl er) \<Rightarrow> (A', reply_error 500 (err_text er))
      | (A', Inr _) \<Rightarrow>
          (notify_service e (DefaultQuery q ''namespaceId'' ''public'')
             (DefaultQuery q ''groupName'' ''DEFAULT_GROUP'') (Query q ''serviceName'') A', reply_ok))"

text \<open>The struct of an update has no ID: the handler never sets it.\<close>

definition update_instance :: "http_env \<Rightarrow> greq \<Rightarrow> ServiceInstance" where
  "update_instance e q = zero_inst\<lparr>
     siNamespaceID := DefaultPostForm q ''namespaceId'' ''public'',
     siGroupName := DefaultPostForm q ''groupName'' ''DEFAULT_GROUP'',
     siServiceName := PostForm q ''serviceName'',
     siClusterName := DefaultPostForm q ''clusterName'' ''DEFAULT'',
     siIP := PostForm q ''ip'',
     siPort := atoi (DefaultPostForm q ''port'' ''0''),
     siWeight := heParseFloat e (DefaultPostForm q ''weight'' ''1.0''),
     siEnabled := parse_bool (DefaultPostForm q ''enabled'' ''true''),
     siMetadata := DefaultPostForm q ''metadata'' ''{}''\<rparr>"

definition updateInstance ::
  "http_env \<Rightarrow> greq \<Rightarrow> ('i, 's, 'c, 'h, 'n, 'd) app \<Rightarrow> ('i, 's, 'c, 'h, 'n, 'd) app \<times> response" where
  "updateInstance e q A =
     map_prod id (reply_to 500 (JMsg 0 ''ok'')) (with_registry (UpdateInstance (update_instance e q)) A)"

definition getInstance ::
  "greq \<Rightarrow> ('i, 's, 'c, 'h, 'n, 'd) app \<Rightarrow> response" where
  "getInstance q A =
     (case GetInstance (query_key q) (registry_of A) of
        Inl _ \<Rightarrow> reply_error 404 ''instance not found''
      | Inr inst \<Rightarrow> reply (JInst inst))"

definition getInstanceList ::
  "greq \<Rightarrow> ('i, 's, 'c, 'h, 'n, 'd) app \<Rightarrow> response" where
  "getInstanceList q A =
     (case GetInstances (DefaultQuery q ''namespaceId'' ''public'') (DefaultQuery q ''groupName'' ''DEFAULT_GROUP'')
             (Query q ''serviceName'') (ParseClusters (DefaultQuery q ''clusters'' []))
             (parse_bool (DefaultQuery q ''healthyOnly'' ''false'')) (registry_of A) of
        Inl er \<Rightarrow> reply_error 500 (err_text er)
      | Inr xs \<Rightarrow> reply (JHosts xs (length xs)))"

definition form_key :: "greq \<Rightarrow> inst_key" where
  "form_key q = (DefaultPostForm q ''namespaceId'' ''public'', DefaultPostForm q ''groupName'' ''DEFAULT_GROUP'',
     PostForm q ''serviceName'', DefaultPostForm q ''clusterName'' ''DEFAULT'', PostForm q ''ip'',
     atoi (DefaultPostForm q ''port'' ''0''))"

definition heartbeat ::
  "greq \<Rightarrow> ('i, 's, 'c, 'h, 'n, 'd) app \<Rightarrow> ('i, 's, 'c, 'h, 'n, 'd) app \<times> response" where
  "heartbeat q A = map_prod id (reply_to 500 (JMsg 0 ''ok'')) (with_registry (Heartbeat (form_key q)) A)"

definition form_service :: "http_env \<Rightarrow> greq \<Rightarrow> Service" where
  "form_service e q = zero_svc\<lparr>
     svNamespaceID := DefaultPostForm q ''namespaceId'' ''public'',
     svGroupName := DefaultPostForm q ''groupName'' ''DEFAULT_GROUP'',
     svServiceName := PostForm q ''serviceName'',
     svProtectThreshold := heParseFloat e (DefaultPostForm q ''protectThreshold'' ''0''),
     svMetadata := DefaultPostForm q ''metadata'' ''{}'',
     svHealthCheckType := DefaultPostForm q ''healthCheckType'' ''ACTIVE'',
     svHealthCheckProto := DefaultPostForm q ''healthCheckProto'' ''TCP'',
     svHealthCheckPath := DefaultPostForm q ''healthCheckPath'' [],
     svHealthCheckPort := atoi (DefaultPostForm q ''healthCheckPort'' ''0''),
     svActiveInterval := atoi (DefaultPostForm q ''activeInterval'' ''5''),
     svPassiveWindow := atoi (DefaultPostForm q ''passiveWindow'' ''60''),
     svPassiveThreshold := atoi (DefaultPostForm q ''passiveThreshold'' ''5'')\<rparr>"

definition createService ::
  "http_env \<Rightarrow> greq \<Rightarrow> ('i, 's, 'c, 'h, 'n, 'd) app \<Rightarrow> ('i, 's, 'c, 'h, 'n, 'd) app \<times> response" where
  "createService e q A =
     map_prod id (reply_to 500 (JMsg 0 ''ok'')) (with_registry (CreateService (form_service e q)) A)"

definition getService ::
  "greq \<Rightarrow> ('i, 's, 'c, 'h, 'n, 'd) app \<Rightarrow> response" where
  "getService q A =
     (case GetService (DefaultQuery q ''namespaceId'' ''public'') (DefaultQuery q ''groupName'' ''DEFAULT_GROUP'')
             (Query q ''serviceName'') (registry_of A) of
        Inl _ \<Rightarrow> reply_error 404 ''service not found''
      | Inr (svc, xs) \<Rightarrow> reply (JService svc xs (length xs)))"

definition attach_count :: "(string \<rightharpoonup> ServiceInstanceCount) \<Rightarrow> Service \<Rightarrow> Service \<times> int \<times> int" where
  "attach_count counts svc =
     (svc, case counts (count_key (svNamespaceID svc) (svGroupName svc) (svServiceName svc)) of
             None \<Rightarrow> (0, 0)
           | Some c \<Rightarrow> (icTotal c, icHealthy c))"

definition listServices ::
  "greq \<Rightarrow> ('i, 's, 'c, 'h, 'n, 'd) app \<Rightarrow> response" where
  "listServices q A =
     (case ListServices (DefaultQuery q ''namespaceId'' ''public'') (DefaultQuery q ''groupName'' [])
             (atoi (DefaultQuery q ''pageNo'' ''1'')) (atoi (DefaultQuery q ''pageSize'' ''20'')) (registry_of A) of
        Inl er \<Rightarrow> reply_error 500 (err_text er)
      | Inr (xs, tot) \<Rightarrow>
          (let counts = (case InstanceStore_CountGrouped (apInst A) of Inl _ \<Rightarrow> Map.empty | Inr m \<Rightarrow> m)
           in reply (JDoms (map (attach_count counts) xs) tot)))"

definition getServerList :: "('i, 's, 'c, 'h, 'n, 'd) app \<Rightarrow> response" where
  "getServerList A = reply (JServers (GetNodes (apMgr A)))"

section \<open>Configuration handlers\<close>

definition getConfig :: "greq \<Rightarrow> ('i, 's, 'c, 'h, 'n, 'd) app \<Rightarrow> response" where
  "getConfig q A =
     (case GetConfig (DefaultQuery q ''tenant'' ''public'') (DefaultQuery q ''group'' ''DEFAULT_GROUP'')
             (Query q ''dataId'') (config_of A) of
        Inl _ \<Rightarrow> reply_error 404 ''config not found''
      | Inr item \<Rightarrow> reply (JConfig item))"

definition publishConfig ::
  "http_env \<Rightarrow> greq \<Rightarrow> ('i, 's, 'c, 'h, 'n, 'd) app \<Rightarrow> ('i, 's, 'c, 'h, 'n, 'd) app \<times> response" where
  "publishConfig e q A =
     (let tenant = DefaultPostForm q ''tenant'' ''public''; grp = DefaultPostForm q ''group'' ''DEFAULT_GROUP'';
          dataID = PostForm q ''dataId''
      in case with_config (PublishConfig tenant grp dataID (PostForm q ''content'')
                             (DefaultPostForm q ''type'' ''text'')) A of
           (A', Inl er) \<Rightarrow> (A', reply_error 500 (err_text er))
         | (A', Inr _) \<Rightarrow> (notify_config e tenant grp dataID A', reply JDone))"

definition deleteConfig ::
  "http_env \<Rightarrow> greq \<Rightarrow> ('i, 's, 'c, 'h, 'n, 'd) app \<Rightarrow> ('i, 's, 'c, 'h, 'n, 'd) app \<times> response" where
  "deleteConfig e q A =
     (let tenant = DefaultQuery q ''tenant'' ''public''; grp = DefaultQuery q ''group'' ''DEFAULT_GROUP'';
          dataID = Query q ''dataId''
      in case with_config (DeleteConfig tenant grp dataID) A of
           (A', Inl er) \<Rightarrow> (A', reply_error 500 (err_text er))
         | (A', Inr _) \<Rightarrow> (notify_config e tenant grp dataID A', reply JDone))"

definition listConfigs :: "http_env \<Rightarrow> greq \<Rightarrow> ('i, 's, 'c, 'h, 'n, 'd) app \<Rightarrow> response" where
  "listConfigs e q A =
     (case ListConfigs (heLike e) (DefaultQuery q ''tenant'' ''public'') (DefaultQuery q ''group'' [])
             (DefaultQuery q ''dataId'' []) (atoi (DefaultQuery q ''pageNo'' ''1''))
             (atoi (DefaultQuery q ''pageSize'' ''20'')) (config_of A) of
        Inl er \<Rightarrow> reply_error 500 (err_text er)
      | Inr (xs, tot) \<Rightarrow> reply (JConfigs xs tot))"

definition configHistory :: "greq \<Rightarrow> ('i, 's, 'c, 'h, 'n, 'd) app \<Rightarrow> response" where
  "configHistory q A =
     (case ConfigHistoryPage (DefaultQuery q ''tenant'' ''public'') (DefaultQuery q ''group'' ''DEFAULT_GROUP'')
             (Query q ''dataId'') (atoi (DefaultQuery q ''pageNo'' ''1''))
             (atoi (DefaultQuery q ''pageSize'' ''20'')) (config_of A) of
        Inl er \<Rightarrow> reply_error 500 (err_text er)
      | Inr (xs, tot) \<Rightarrow> reply (JHistory xs tot))"

section \<open>The configuration listener\<close>

definition indexOf :: "string \<Rightarrow> string \<Rightarrow> nat option" where
  "indexOf s sub =
     (if length sub \<le> length s
      then List.find (\<lambda>i. take (length sub) (drop i s) = sub) [0..<length s - length sub + 1]
      else None)"

text \<open>With an empty separator the Go loop never ends; \<^const>\<open>None\<close> stands for that.\<close>

partial_function (option) go_split :: "string \<Rightarrow> string \<Rightarrow> string list option" where
  "go_split s sep =
     (case indexOf s sep of
        None \<Rightarrow> Some (if s \<noteq> [] then [s] else [])
      | Some i \<Rightarrow> Option.bind (go_split (drop (i + length sep) s) sep) (\<lambda>rest. Some (take i s # rest)))"

definition blank :: "char \<Rightarrow> bool" where
  "blank c \<longleftrightarrow> c = CHR '' '' \<or> c = CHR 0x0A \<or> c = CHR 0x0D \<or> c = CHR 0x09"

definition trimSpace :: "string \<Rightarrow> string" where
  "trimSpace s = rev (dropWhile blank (rev (dropWhile blank s)))"

definition splitListeningConfigs :: "string \<Rightarrow> string list list option" where
  "splitListeningConfigs input =
     Option.bind (go_split input [CHR 0x01]) (\<lambda>entries.
       map_option (filter (\<lambda>parts. 3 \<le> length parts))
         (those (map (\<lambda>entry. go_split entry [CHR 0x02])
           (filter (\<lambda>entry. entry \<noteq> []) (map trimSpace entries)))))"

text \<open>
  The loop over the entries. It reads \<^verbatim>\<open>entry[3]\<close> of every entry with at least three
  parts; with exactly three that is out of range, a panic (\<^const>\<open>None\<close>).
\<close>

fun watch_entries :: "string list list \<Rightarrow> string \<times> gomap \<Rightarrow> (string \<times> gomap) option" where
  "watch_entries [] acc = Some acc"
| "watch_entries (entry # rest) (ns, m) =
     (if length entry < 3 then watch_entries rest (ns, m)
      else if length entry < 4 then None
      else watch_entries rest
        (if entry ! 3 \<noteq> [] then entry ! 3 else ns,
         AList.update (entry ! 3 @ ''#'' @ entry ! 1 @ ''#'' @ entry ! 0) (entry ! 2) m))"

definition change_line :: "string \<times> string \<Rightarrow> string" where
  "change_line kv = fst kv @ [CHR 0x02] @ snd kv @ [CHR 0x02, CHR 0x0A]"

text \<open>
  A handler that waits has three ends: it answers, it panics (gin's recovery turns that
  into an empty 500), or it is still waiting when the given events are used up.
\<close>

datatype 'a outcome = Answered 'a | Panicked | Waiting

definition configListener ::
  "http_env \<Rightarrow> greq \<Rightarrow> ('c, 'h) poll_event list \<Rightarrow> response outcome" where
  "configListener e q evs =
     (let listening = PostForm q ''Listening-Configs''
      in if listening = [] then Answered (reply_error 400 ''Listening-Configs is required'')
         else case splitListeningConfigs listening of
                None \<Rightarrow> Waiting
              | Some entries \<Rightarrow>
                  (case watch_entries entries (DefaultPostForm q ''tenant'' ''public'', []) of
                     None \<Rightarrow> Panicked
                   | Some (ns, client) \<Rightarrow>
                       (case LongPoll ns client evs of
                          None \<Rightarrow> Waiting
                        | Some (Inl er) \<Rightarrow> Answered (reply_error 500 (gerr_text er))
                        | Some (Inr changed) \<Rightarrow>
                            Answered (reply (JText (concat (map change_line (heMapOrder e changed))))))))"

section \<open>Namespace handlers\<close>

definition listNamespaces :: "('i, 's, 'c, 'h, 'n, 'd) app \<Rightarrow> response" where
  "listNamespaces A =
     (case ns_List (apNs A) of Inl er \<Rightarrow> reply_error 500 (err_text er) | Inr xs \<Rightarrow> reply (JNamespaces xs))"

definition createNamespace ::
  "greq \<Rightarrow> ('i, 's, 'c, 'h, 'n, 'd) app \<Rightarrow> ('i, 's, 'c, 'h, 'n, 'd) app \<times> response" where
  "createNamespace q A =
     map_prod id (reply_to 400 JDone)
       (with_namespaces (ns_Create (PostForm q ''customNamespaceId'') (PostForm q ''namespaceName'')
          (DefaultPostForm q ''namespaceDesc'' [])) A)"

definition updateNamespace ::
  "greq \<Rightarrow> ('i, 's, 'c, 'h, 'n, 'd) app \<Rightarrow> ('i, 's, 'c, 'h, 'n, 'd) app \<times> response" where
  "updateNamespace q A =
     map_prod id (reply_to 500 JDone)
       (with_namespaces (ns_Update (PostForm q ''namespace'') (PostForm q ''namespaceShowName'')
          (DefaultPostForm q ''namespaceDesc'' [])) A)"

definition deleteNamespace ::
  "greq \<Rightarrow> ('i, 's, 'c, 'h, 'n, 'd) app \<Rightarrow> ('i, 's, 'c, 'h, 'n, 'd) app \<times> response" where
  "deleteNamespace q A =
     map_prod id (reply_to 400 JDone) (with_namespaces (ns_Delete (Query q ''namespaceId'')) A)"

definition count_or_zero :: "gerr + nat \<Rightarrow> nat" where
  "count_or_zero r = (case r of Inl _ \<Rightarrow> 0 | Inr n \<Rightarrow> n)"

definition dashboard :: "('i, 's, 'c, 'h, 'n, 'd) app \<Rightarrow> response" where
  "dashboard A = reply (JDashboard (count_or_zero (ServiceStore_Count (apSvc A)))
     (count_or_zero (InstanceStore_Count (apInst A))) (count_or_zero (ConfigStore_Count (apCfg A)))
     (GetNodes (apMgr A)) (IsLeader (apMgr A)) (SelfAddr (apMgr A)))"

section \<open>Health handlers\<close>

definition opt_text :: "string \<Rightarrow> string option" where
  "opt_text v = (if v = [] then None else Some v)"

definition health_fields :: "greq \<Rightarrow> health_cols" where
  "health_fields q = \<lparr>hcType = opt_text (param q ''healthCheckType''),
     hcProto = opt_text (param q ''healthCheckProto''), hcPath = opt_text (param q ''healthCheckPath''),
     hcPort = map_option atoi (opt_text (param q ''healthCheckPort'')),
     hcActiveInterval = map_option atoi (opt_text (param q ''activeInterval'')),
     hcPassiveWindow = map_option atoi (opt_text (param q ''passiveWindow'')),
     hcPassiveThreshold = map_option atoi (opt_text (param q ''passiveThreshold''))\<rparr>"

definition no_fields :: "health_cols \<Rightarrow> bool" where
  "no_fields c \<longleftrightarrow> hcType c = None \<and> hcProto c = None \<and> hcPath c = None \<and> hcPort c = None \<and>
     hcActiveInterval c = None \<and> hcPassiveWindow c = None \<and> hcPassiveThreshold c = None"

definition updateHealthConfig ::
  "greq \<Rightarrow> ('i, 's, 'c, 'h, 'n, 'd) app \<Rightarrow> ('i, 's, 'c, 'h, 'n, 'd) app \<times> response" where
  "updateHealthConfig q A =
     (let ns = paramDefault q ''namespaceId'' ''public''; grp = paramDefault q ''groupName'' ''DEFAULT_GROUP'';
          svc = param q ''serviceName''; cfg = health_fields q
      in if svc = [] then (A, reply_error 400 ''serviceName is required'')
         else if no_fields cfg then (A, reply_error 400 ''no health config fields provided'')
         else case ServiceStore_UpdateHealthConfig (ns, grp, svc) cfg (apSvc A) of
                Inl er \<Rightarrow> (A, reply_error 500 (gerr_text er))
              | Inr T \<Rightarrow> (A\<lparr>apSvc := T\<rparr>, reply_ok))"

definition getHealthStatus :: "greq \<Rightarrow> ('i, 's, 'c, 'h, 'n, 'd) app \<Rightarrow> response" where
  "getHealthStatus q A =
     reply (JHealth (GetHealthStatus (DefaultQuery q ''namespaceId'' ''public'')
       (DefaultQuery q ''groupName'' ''DEFAULT_GROUP'') (Query q ''serviceName'') (checker_of A)))"

text \<open>Both report handlers begin by finding the instance: by its id or by its address.\<close>

definition report_target :: "greq \<Rightarrow> ('i, 's, 'c, 'h, 'n, 'd) app \<Rightarrow> nat option" where
  "report_target q A =
     (let i = parse_uint64 (param q ''instanceId'')
      in if i \<noteq> 0 then Some i
         else case InstanceStore_Get (paramDefault q ''namespaceId'' ''public'',
                     paramDefault q ''groupName'' ''DEFAULT_GROUP'', param q ''serviceName'',
                     paramDefault q ''clusterName'' ''DEFAULT'', param q ''ip'', atoi (param q ''port'')) (apInst A) of
                Inl _ \<Rightarrow> None
              | Inr inst \<Rightarrow> Some (siID inst))"

definition reportFail ::
  "http_env \<Rightarrow> greq \<Rightarrow> ('i, 's, 'c, 'h, 'n, 'd) app \<Rightarrow> ('i, 's, 'c, 'h, 'n, 'd) app \<times> response" where
  "reportFail e q A =
     (case report_target q A of
        None \<Rightarrow> (A, reply_error 404 ''instance not found'')
      | Some i \<Rightarrow>
          (with_checker (ReportFailure (ckFail1 (heClocks e)) (ckFail2 (heClocks e)) i
             (paramDefault q ''namespaceId'' ''public'') (paramDefault q ''groupName'' ''DEFAULT_GROUP'')
             (param q ''serviceName'')) A, reply_ok))"

definition reportSucceed ::
  "greq \<Rightarrow> ('i, 's, 'c, 'h, 'n, 'd) app \<Rightarrow> ('i, 's, 'c, 'h, 'n, 'd) app \<times> response" where
  "reportSucceed q A =
     (case report_target q A of
        None \<Rightarrow> (A, reply_error 404 ''instance not found'')
      | Some i \<Rightarrow> (with_checker (ReportSuccess i) A, reply_ok))"

section \<open>Subscribers and cluster events\<close>

definition listSubscribers :: "http_env \<Rightarrow> ('i, 's, 'c, 'h, 'n, 'd) app \<Rightarrow> response" where
  "listSubscribers e A = reply (JSubscribers (GetServiceSubscribers (heSubOrder e) (apBus A)))"

text \<open>\<^verbatim>\<open>c.ShouldBindJSON\<close> decodes the first value of the body into the struct.\<close>

definition read_SyncEvent :: "(string \<times> jval) list \<Rightarrow> SyncEvent option" where
  "read_SyncEvent ms =
     (case (str_field ''type'' ms, str_field ''namespace'' ms, str_field ''group'' ms, str_field ''service'' ms,
            str_field ''dataId'' ms, str_field ''source'' ms, int_field ''timestamp'' ms) of
        (Some ty, Some ns, Some grp, Some svc, Some did, Some src, Some ts) \<Rightarrow>
          Some \<lparr>seType = ty, seNamespace = ns, seGroup = grp, seService = svc, seDataID = did, seSource = src,
            seTimestamp = ts\<rparr>
      | _ \<Rightarrow> None)"

definition apply_event :: "SyncEvent \<Rightarrow> bus \<Rightarrow> bus" where
  "apply_event ev b =
     (if seType ev = ''service_change'' then PublishServiceChange (seNamespace ev) (seGroup ev) (seService ev) b
      else if seType ev = ''config_change'' then PublishConfigChange (seNamespace ev) (seGroup ev) (seDataID ev) b
      else b)"

definition clusterSync ::
  "http_env \<Rightarrow> greq \<Rightarrow> ('i, 's, 'c, 'h, 'n, 'd) app \<Rightarrow> ('i, 's, 'c, 'h, 'n, 'd) app \<times> response" where
  "clusterSync e q A =
     (case Option.bind (decode_members (rqBody q)) read_SyncEvent of
        None \<Rightarrow> (A, reply_error 400 (heJsonError e (rqBody q)))
      | Some ev \<Rightarrow> (A\<lparr>apBus := apply_event ev (apBus A)\<rparr>, reply_ok))"

section \<open>Routes\<close>

datatype handler =
    ToRegisterInstance | ToDeregisterInstance | ToUpdateInstance | ToGetInstance
  | ToGetInstanceList | ToHeartbeat | ToCreateService | ToGetService
  | ToListServices | ToGetServerList | ToUpdateHealthConfig | ToGetHealthStatus
  | ToReportFail | ToReportSucceed | ToGetConfig | ToPublishConfig
  | ToDeleteConfig | ToListConfigs | ToConfigHistory | ToConfigListener
  | ToListNamespaces | ToCreateNamespace | ToUpdateNamespace | ToDeleteNamespace
  | ToDashboard | ToListSubscribers | ToClusterSync

definition routes :: "(string \<times> string \<times> handler) list" where
  "routes = [
     (''POST'', ''/v1/ns/instance'', ToRegisterInstance),
     (''DELETE'', ''/v1/ns/instance'', ToDeregisterInstance),
     (''PUT'', ''/v1/ns/instance'', ToUpdateInstance),
     (''GET'', ''/v1/ns/instance'', ToGetInstance),
     (''GET'', ''/v1/ns/instance/list'', ToGetInstanceList),
     (''PUT'', ''/v1/ns/instance/beat'', ToHeartbeat),
     (''POST'', ''/v1/ns/service'', ToCreateService),
     (''GET'', ''/v1/ns/service'', ToGetService),
     (''GET'', ''/v1/ns/service/list'', ToListServices),
     (''GET'', ''/v1/ns/serverlist'', ToGetServerList),
     (''PUT'', ''/v1/ns/health/config'', ToUpdateHealthConfig),
     (''GET'', ''/v1/ns/health/status'', ToGetHealthStatus),
     (''POST'', ''/v1/ns/health/instance/fail'', ToReportFail),
     (''POST'', ''/v1/ns/health/instance/succeed'', ToReportSucceed),
     (''GET'', ''/v1/cs/configs'', ToGetConfig),
     (''POST'', ''/v1/cs/configs'', ToPublishConfig),
     (''DELETE'', ''/v1/cs/configs'', ToDeleteConfig),
     (''GET'', ''/v1/cs/configs/list'', ToListConfigs),
     (''GET'', ''/v1/cs/configs/history'', ToConfigHistory),
     (''POST'', ''/v1/cs/configs/listener'', ToConfigListener),
     (''GET'', ''/v1/console/namespaces'', ToListNamespaces),
     (''POST'', ''/v1/console/namespaces'', ToCreateNamespace),
     (''PUT'', ''/v1/console/namespaces'', ToUpdateNamespace),
     (''DELETE'', ''/v1/console/namespaces'', ToDeleteNamespace),
     (''GET'', ''/v1/console/dashboard'', ToDashboard),
     (''GET'', ''/v1/console/subscribers'', ToListSubscribers),
     (''POST'', ''/v1/cluster/sync'', ToClusterSync)]"

definition route :: "string \<Rightarrow> string \<Rightarrow> handler option" where
  "route meth path = map_option (\<lambda>(_, _, h). h) (List.find (\<lambda>(m, p, _). m = meth \<and> p = path) routes)"

fun run_handler ::
  "handler \<Rightarrow> http_env \<Rightarrow> ('c, 'h) poll_event list \<Rightarrow> greq \<Rightarrow> ('i, 's, 'c, 'h, 'n, 'd) app
   \<Rightarrow> ('i, 's, 'c, 'h, 'n, 'd) app \<times> response outcome" where
  "run_handler ToRegisterInstance e evs q A = map_prod id Answered (registerInstance e q A)"
| "run_handler ToDeregisterInstance e evs q A = map_prod id Answered (deregisterInstance e q A)"
| "run_handler ToUpdateInstance e evs q A = map_prod id Answered (updateInstance e q A)"
| "run_handler ToGetInstance e evs q A = (A, Answered (getInstance q A))"
| "run_handler ToGetInstanceList e evs q A = (A, Answered (getInstanceList q A))"
| "run_handler ToHeartbeat e evs q A = map_prod id Answered (heartbeat q A)"
| "run_handler ToCreateService e evs q A = map_prod id Answered (createService e q A)"
| "run_handler ToGetService e evs q A = (A, Answered (getService q A))"
| "run_handler ToListServices e evs q A = (A, Answered (listServices q A))"
| "run_handler ToGetServerList e evs q A = (A, Answered (getServerList A))"
| "run_handler ToUpdateHealthConfig e evs q A = map_prod id Answered (updateHealthConfig q A)"
| "run_handler ToGetHealthStatus e evs q A = (A, Answered (getHealthStatus q A))"
| "run_handler ToReportFail e evs q A = map_prod id Answered (reportFail e q A)"
| "run_handler ToReportSucceed e evs q A = map_prod id Answered (reportSucceed q A)"
| "run_handler ToGetConfig e evs q A = (A, Answered (getConfig q A))"
| "run_handler ToPublishConfig e evs q A = map_prod id Answered (publishConfig e q A)"
| "run_handler ToDeleteConfig e evs q A = map_prod id Answered (deleteConfig e q A)"
| "run_handler ToListConfigs e evs q A = (A, Answered (listConfigs e q A))"
| "run_handler ToConfigHistory e evs q A = (A, Answered (configHistory q A))"
| "run_handler ToConfigListener e evs q A = (A, configListener e q evs)"
| "run_handler ToListNamespaces e evs q A = (A, Answered (listNamespaces A))"
| "run_handler ToCreateNamespace e evs q A = map_prod id Answered (createNamespace q A)"
| "run_handler ToUpdateNamespace e evs q A = map_prod id Answered (updateNamespace q A)"
| "run_handler ToDeleteNamespace e evs q A = map_prod id Answered (deleteNamespace q A)"
| "run_handler ToDashboard e evs q A = (A, Answered (dashboard A))"
| "run_handler ToListSubscribers e evs q A = (A, Answered (listSubscribers e A))"
| "run_handler ToClusterSync e evs q A = map_prod id Answered (clusterSync e q A)"

definition serve ::
  "http_env \<Rightarrow> ('c, 'h) poll_event list \<Rightarrow> string \<Rightarrow> string \<Rightarrow> greq \<Rightarrow> ('i, 's, 'c, 'h, 'n, 'd) app
   \<Rightarrow> ('i, 's, 'c, 'h, 'n, 'd) app \<times> response outcome" where
  "serve e evs meth path q A =
     (case route meth path of
        None \<Rightarrow> (A, Answered \<lparr>rsStatus = 404, rsBody = NotFoundPage\<rparr>)
      | Some h \<Rightarrow> run_handler h e evs q A)"

lemma routes_unambiguous: "distinct (map (\<lambda>(m, p, _). (m, p)) routes)"
  by (simp add: routes_def)

lemma route_eval:
  "route ''POST'' ''/v1/ns/instance'' = Some ToRegisterInstance"
  "route ''DELETE'' ''/v1/ns/instance'' = Some ToDeregisterInstance"
  "route ''PUT'' ''/v1/ns/instance'' = Some ToUpdateInstance"
  "route ''GET'' ''/v1/ns/instance'' = Some ToGetInstance"
  "route ''GET'' ''/v1/ns/instance/list'' = Some ToGetInstanceList"
  "route ''PUT'' ''/v1/ns/instance/beat'' = Some ToHeartbeat"
  "route ''POST'' ''/v1/ns/service'' = Some ToCreateService"
  "route ''GET'' ''/v1/ns/service'' = Some ToGetService"
  "route ''GET'' ''/v1/ns/service/list'' = Some ToListServices"
  "route ''GET'' ''/v1/ns/serverlist'' = Some ToGetServerList"
  "route ''PUT'' ''/v1/ns/health/config'' = Some ToUpdateHealthConfig"
  "route ''GET'' ''/v1/ns/health/status'' = Some ToGetHealthStatus"
  "route ''POST'' ''/v1/ns/health/instance/fail'' = Some ToReportFail"
  "route ''POST'' ''/v1/ns/health/instance/succeed'' = Some ToReportSucceed"
  "route ''GET'' ''/v1/cs/configs'' = Some ToGetConfig"
  "route ''POST'' ''/v1/cs/configs'' = Some ToPublishConfig"
  "route ''DELETE'' ''/v1/cs/configs'' = Some ToDeleteConfig"
  "route ''GET'' ''/v1/cs/configs/list'' = Some ToListConfigs"
  "route ''GET'' ''/v1/cs/configs/history'' = Some ToConfigHistory"
  "route ''POST'' ''/v1/cs/configs/listener'' = Some ToConfigListener"
  "route ''GET'' ''/v1/console/namespaces'' = Some ToListNamespaces"
  "route ''POST'' ''/v1/console/namespaces'' = Some ToCreateNamespace"
  "route ''PUT'' ''/v1/console/namespaces'' = Some ToUpdateNamespace"
  "route ''DELETE'' ''/v1/console/namespaces'' = Some ToDeleteNamespace"
  "route ''GET'' ''/v1/console/dashboard'' = Some ToDashboard"
  "route ''GET'' ''/v1/console/subscribers'' = Some ToListSubscribers"
  "route ''POST'' ''/v1/cluster/sync'' = Some ToClusterSync"
  by (simp_all add: route_def routes_def)

section \<open>The splitting loop\<close>

definition drop_last_nil :: "string list \<Rightarrow> string list" where
  "drop_last_nil ps = (if ps \<noteq> [] \<and> last ps = [] then butlast ps else ps)"

lemma indexOf_char: "indexOf s [c] = (if c \<in> set s then Some (length (takeWhile (\<lambda>x. x \<noteq> c) s)) else None)"
proof -
  let ?P = "\<lambda>i. take 1 (drop i s) = [c]"
  have P: "?P i \<longleftrightarrow> s ! i = c" if "i < length s" for i
    using that by (simp add: take_Suc hd_drop_conv_nth)
  have idx: "indexOf s [c] = List.find (\<lambda>i. s ! i = c) [0..<length s]"
  proof (cases "s = []")
    case False
    then have "indexOf s [c] = List.find ?P [0..<length s]" by (simp add: indexOf_def Suc_le_eq)
    also have "\<dots> = List.find (\<lambda>i. s ! i = c) [0..<length s]"
      by (rule find_cong [OF refl]) (simp only: P set_upt atLeastLessThan_iff)
    finally show ?thesis .
  qed (simp add: indexOf_def)
  show ?thesis
  proof (cases "c \<in> set s")
    case True
    obtain w r where s: "s = w @ c # r" "c \<notin> set w" using split_list_first [OF True] by blast
    define n where "n = length w"
    have tw: "takeWhile (\<lambda>x. x \<noteq> c) s = w" using s by (induction w arbitrary: s) auto
    have "n < length s" by (simp add: s n_def)
    moreover have "s ! n = c" by (simp add: s n_def nth_append)
    moreover have "s ! j \<noteq> c" if "j < n" for j
      using that s by (auto simp: n_def nth_append dest: nth_mem)
    ultimately have "List.find (\<lambda>i. s ! i = c) [0..<length s] = Some n"
      unfolding find_Some_iff by (intro exI [of _ n]) simp
    then have "indexOf s [c] = Some (length (takeWhile (\<lambda>x. x \<noteq> c) s))" by (simp only: idx n_def tw)
    with True show ?thesis by simp
  next
    case False
    then have "List.find (\<lambda>i. s ! i = c) [0..<length s] = None"
      by (auto simp: find_None_iff)
    with False show ?thesis by (simp add: idx)
  qed
qed

lemma go_split_char: "go_split s [c] = Some (drop_last_nil (split_on c s))"
proof (induction "length s" arbitrary: s rule: less_induct)
  case less
  show ?case
  proof (cases "c \<in> set s")
    case False
    then show ?thesis by (simp add: go_split.simps [of s] indexOf_char drop_last_nil_def)
  next
    case True
    let ?w = "takeWhile (\<lambda>x. x \<noteq> c) s"
    obtain r where r: "s = ?w @ c # r"
      using True by (metis (mono_tags, lifting) dropWhile_eq_Cons_conv dropWhile_eq_Nil_conv list.exhaust takeWhile_dropWhile_id)
    have w: "c \<notin> set ?w" by (auto dest: set_takeWhileD)
    have len: "length r < length s" by (subst r) simp
    have d: "drop (Suc (length ?w)) s = r"
      using arg_cong [OF r, of "drop (Suc (length ?w))"] by simp
    have sp: "split_on c s = ?w # split_on c r" using split_on_append [OF w, of r] r by simp
    have "go_split s [c] = Some (?w # drop_last_nil (split_on c r))"
      using less [OF len] True by (simp add: go_split.simps [of s] indexOf_char d takeWhile_eq_take [symmetric])
    then show ?thesis
      unfolding sp by (cases "split_on c r") (auto simp: drop_last_nil_def)
  qed
qed

section \<open>Counting instances\<close>

definition count_of :: "ServiceInstanceCount \<Rightarrow> svc_key" where
  "count_of c = (icNamespaceID c, icGroupName c, icServiceName c)"

definition service_key_of :: "ServiceInstance \<Rightarrow> svc_key" where
  "service_key_of x = (siNamespaceID x, siGroupName x, siServiceName x)"

definition tally :: "ServiceInstanceCount list \<Rightarrow> svc_key \<rightharpoonup> int \<times> int" where
  "tally cs = map_of (map (\<lambda>c. (count_of c, (icTotal c, icHealthy c))) cs)"

lemma same_group: "svc_where (=) (icNamespaceID c) (icGroupName c) (icServiceName c) x \<longleftrightarrow> service_key_of x = count_of c"
  by (auto simp: svc_where_def service_key_of_def count_of_def)

lemma count_row_keys:
  "set (map count_of (count_row (=) x cs)) = insert (service_key_of x) (set (map count_of cs)) \<and>
   (distinct (map count_of cs) \<longrightarrow> distinct (map count_of (count_row (=) x cs)))"
  by (induction cs) (auto simp: same_group count_of_def service_key_of_def)

lemma tally_count_row:
  "tally (count_row (=) x cs) k =
     (if k = service_key_of x
      then Some (case tally cs k of None \<Rightarrow> (1, flag01 (siHealthy x)) | Some (n, h) \<Rightarrow> (n + 1, h + flag01 (siHealthy x)))
      else tally cs k)"
  by (induction cs) (auto simp: tally_def same_group count_of_def service_key_of_def)

lemma fold_count_row:
  "distinct (map count_of (fold (count_row (=)) xs [])) \<and>
   tally (fold (count_row (=)) xs []) k =
     (let ys = filter (\<lambda>x. service_key_of x = k) xs
      in if ys = [] then None else Some (int (length ys), int (length (filter siHealthy ys))))"
proof (induction xs rule: rev_induct)
  case Nil
  show ?case by (simp add: tally_def)
next
  case (snoc x xs)
  then show ?case
    using count_row_keys [of x "fold (count_row (=)) xs []"]
    by (auto simp: tally_count_row flag01_def Let_def filter_empty_conv split: if_splits)
qed

lemma count_key_inj:
  assumes "CHR ''#'' \<notin> set ns" "CHR ''#'' \<notin> set grp" "CHR ''#'' \<notin> set ns'" "CHR ''#'' \<notin> set grp'"
    and "count_key ns grp svc = count_key ns' grp' svc'"
  shows "ns = ns' \<and> grp = grp' \<and> svc = svc'"
proof -
  have "takeWhile (\<lambda>c. c \<noteq> CHR ''#'') (count_key n g s) = n \<and>
        dropWhile (\<lambda>c. c \<noteq> CHR ''#'') (count_key n g s) = CHR ''#'' # g @ CHR ''#'' # s"
    if "CHR ''#'' \<notin> set n" for n g s
    using that unfolding count_key_def by (induction n) auto
  with assms have "ns = ns'" and r: "grp @ CHR ''#'' # svc = grp' @ CHR ''#'' # svc'"
    by (metis list.inject)+
  have "takeWhile (\<lambda>c. c \<noteq> CHR ''#'') (g @ CHR ''#'' # s) = g" if "CHR ''#'' \<notin> set g" for g s
    using that by (induction g) auto
  with assms r have "grp = grp'" by metis
  with r \<open>ns = ns'\<close> show ?thesis by simp
qed

definition plain_key :: "svc_key \<Rightarrow> bool" where
  "plain_key k = (case k of (ns, grp, svc) \<Rightarrow> CHR ''#'' \<notin> set ns \<and> CHR ''#'' \<notin> set grp)"

lemma count_map:
  assumes "distinct (map count_of cs)" "\<forall>c \<in> set cs. plain_key (count_of c)" "plain_key (ns, grp, svc)"
  shows "map_option (\<lambda>c. (icTotal c, icHealthy c))
      (fold (\<lambda>c m. m(count_key (icNamespaceID c) (icGroupName c) (icServiceName c) \<mapsto> c)) cs m0 (count_key ns grp svc))
    = (case tally cs (ns, grp, svc) of
         None \<Rightarrow> map_option (\<lambda>c. (icTotal c, icHealthy c)) (m0 (count_key ns grp svc))
       | Some v \<Rightarrow> Some v)"
  using assms(1,2)
proof (induction cs arbitrary: m0)
  case Nil
  show ?case by (simp add: tally_def)
next
  case (Cons c cs)
  have k: "count_key (icNamespaceID c) (icGroupName c) (icServiceName c) = count_key ns grp svc
      \<longleftrightarrow> count_of c = (ns, grp, svc)"
    using Cons.prems(2) assms(3)
      count_key_inj [of "icNamespaceID c" "icGroupName c" ns grp "icServiceName c" svc]
    by (auto simp: plain_key_def count_of_def)
  have t: "tally (c # cs) (ns, grp, svc) =
      (if count_of c = (ns, grp, svc) then Some (icTotal c, icHealthy c) else tally cs (ns, grp, svc))"
    by (simp add: tally_def)
  have n: "count_of c = (ns, grp, svc) \<Longrightarrow> tally cs (ns, grp, svc) = None"
    using Cons.prems(1) by (auto simp: tally_def map_of_eq_None_iff image_iff)
  show ?case
  proof (cases "count_of c = (ns, grp, svc)")
    case True
    with Cons.IH Cons.prems k n t show ?thesis by simp
  next
    case False
    with Cons.IH Cons.prems k t show ?thesis by simp
  qed
qed

section \<open>A small server\<close>

definition demo_app ::
  "(ServiceInstance list, Service list, ConfigItem list, ConfigHistory list, Namespace list, ClusterNode list) app" where
  "demo_app = \<lparr>apInst = mem_table inst_schema [demo_row], apSvc = mem_table svc_schema [demo_svc_row],
     apCfg = cfStore demo_cfg, apNs = mem_table ns_schema [], apMgr = demo_mgr, apBus = NewEventBus,
     apHealth = applyDefaults zero_cfg, apFails = (\<lambda>_. 0), apSuccess = (\<lambda>_. 0), apPassive = newPassiveTracker,
     apAuth = NewAuthManager DefaultConfig, apSyncer = True, apOutbox = []\<rparr>"

definition demo_env :: http_env where
  "demo_env = \<lparr>heClocks = \<lparr>ckBeat = 7, ckMilli = 7, ckFail1 = 7, ckFail2 = 7\<rparr>, heParseFloat = (\<lambda>_. 1),
     heLike = (=), heMapOrder = id, heSubOrder = [], heJsonError = (\<lambda>_. ''EOF'')\<rparr>"

definition demo_req :: "(string \<times> string) list \<Rightarrow> greq" where
  "demo_req kvs = \<lparr>rqForm = map_of kvs, rqQuery = map_of kvs, rqBody = []\<rparr>"

section \<open>Properties\<close>


text \<open>
  The service list shows the right numbers: on a table that compares names exactly,
  with no \<open>#\<close> in the namespaces and groups, every listed service comes with the number of
  its instances and of its healthy instances, when the counting query succeeds.
\<close>
theorem list_services_counts:
  assumes "gorm_table inst_schema (apInst A)" "t_coll (apInst A) = (=)"
    and "InstanceStore_CountGrouped (apInst A) = Inr counts"
    and "listServices q A = reply (JDoms doms tot)" "(svc, n, h) \<in> set doms"
    and "\<forall>x \<in># rows (apInst A). plain_key (service_key_of x)" "plain_key (svc_key svc)"
  shows "let M = filter_mset (\<lambda>x. service_key_of x = svc_key svc) (rows (apInst A))
         in n = int (size M) \<and> h = int (size (filter_mset siHealthy M))"
proof -
  from assms(3) obtain xs where xs: "tb_find (\<lambda>_. True) (apInst A) = Inr xs" and
    c: "counts = fold (\<lambda>c m. m(count_key (icNamespaceID c) (icGroupName c) (icServiceName c) \<mapsto> c))
                  (fold (count_row (=)) xs []) Map.empty"
    by (auto simp: InstanceStore_CountGrouped_def assms(2) split: sum.splits)
  let ?cs = "fold (count_row (=)) xs []"
  have m: "mset xs = rows (apInst A)" using tb_find_rows [OF assms(1) xs] by simp
  have keys: "set (map count_of (fold (count_row (=)) ys cs)) = service_key_of ` set ys \<union> set (map count_of cs)" for ys cs
    by (induction ys arbitrary: cs) (use count_row_keys in \<open>auto\<close>)
  have "\<forall>c \<in> set ?cs. plain_key (count_of c)"
  proof
    fix c assume "c \<in> set ?cs"
    then have "count_of c \<in> service_key_of ` set xs" using keys [of xs "[]"] by auto
    then show "plain_key (count_of c)" using assms(6) by (auto simp: m [symmetric])
  qed
  note cm = count_map [OF conjunct1 [OF fold_count_row] this, of "svNamespaceID svc" "svGroupName svc" "svServiceName svc" Map.empty]
  have nh: "(n, h) = (case counts (count_key (svNamespaceID svc) (svGroupName svc) (svServiceName svc)) of
      None \<Rightarrow> (0, 0) | Some c \<Rightarrow> (icTotal c, icHealthy c))"
    using assms(3,4,5)
    by (auto simp: listServices_def reply_def reply_error_def attach_count_def Let_def split: sum.splits)
  let ?ys = "filter (\<lambda>x. service_key_of x = svc_key svc) xs"
  have "map_option (\<lambda>c. (icTotal c, icHealthy c)) (counts (count_key (svNamespaceID svc) (svGroupName svc) (svServiceName svc)))
      = tally ?cs (svc_key svc)"
    using cm assms(7) by (simp add: c svc_key_def split: option.splits)
  also have "\<dots> = (if ?ys = [] then None else Some (int (length ?ys), int (length (filter siHealthy ?ys))))"
    using conjunct2 [OF fold_count_row, of xs "svc_key svc"] by (simp only: Let_def)
  finally have "n = int (length ?ys) \<and> h = int (length (filter siHealthy ?ys))"
    using nh by (cases "?ys = []") (auto split: option.splits)
  then show ?thesis
    by (simp add: Let_def m [symmetric] flip: size_mset mset_filter)
qed

theorem list_services_counts_witness:
  "int (size (filter_mset (\<lambda>x. service_key_of x = svc_key demo_svc_row) (rows (apInst demo_app)))) = 1"
proof -
  have g: "gorm_table inst_schema (apInst demo_app)" "t_coll (apInst demo_app) = (=)"
    by (simp_all add: demo_app_def mem_ops)
  have c: "InstanceStore_CountGrouped (apInst demo_app) = Inr [''public#DEFAULT_GROUP#order'' \<mapsto>
      \<lparr>icNamespaceID = ''public'', icGroupName = ''DEFAULT_GROUP'', icServiceName = ''order'', icTotal = 1, icHealthy = 1\<rparr>]"
    by (simp add: InstanceStore_CountGrouped_def demo_app_def mem_ops demo_row_def flag01_def count_key_def)
  have p: "plain_key (svc_key demo_svc_row)" "\<forall>x \<in># rows (apInst demo_app). plain_key (service_key_of x)"
    by (simp_all add: plain_key_def svc_key_def demo_svc_row_def service_key_of_def demo_app_def demo_row_def)
  have l: "listServices (demo_req []) demo_app = reply (JDoms [(demo_svc_row, 1, 1)] 1)"
    by (simp add: listServices_def c ListServices_def ServiceStore_List_def demo_app_def mem_ops DefaultQuery_def
        demo_req_def page_offset_def page_size_def page_no_def int64_def atoi_def attach_count_def count_key_def
        is_digit_def digits_val_def clamp64_def int64_min_def int64_max_def registry_of_def Let_def demo_svc_row_def)
      (use c in \<open>simp add: demo_app_def\<close>)
  from list_services_counts [OF g c l _ p(2,1)] show ?thesis by (simp add: Let_def)
qed

lemma watch_entries_None: "watch_entries es acc = None \<longleftrightarrow> (\<exists>e \<in> set es. length e = 3)"
  by (induction es acc rule: watch_entries.induct) auto

lemma poll_end_answers:
  "(case r of None \<Rightarrow> Waiting | Some (Inl er) \<Rightarrow> Answered (f er) | Some (Inr c) \<Rightarrow> Answered (g c)) \<noteq> Panicked"
  by (simp split: option.split sum.split)

text \<open>
  The listener panics exactly when one of the entries it is sent has three parts, the
  number its own length check lets through: it then reads a fourth.
\<close>
theorem listener_panics_iff:
  "configListener e q evs = Panicked \<longleftrightarrow>
     PostForm q ''Listening-Configs'' \<noteq> [] \<and>
     (\<exists>entries. splitListeningConfigs (PostForm q ''Listening-Configs'') = Some entries \<and>
        (\<exists>w \<in> set entries. length w = 3))"
proof (cases "splitListeningConfigs (PostForm q ''Listening-Configs'')")
  case (Some entries)
  let ?acc = "(DefaultPostForm q ''tenant'' ''public'', []) :: string \<times> gomap"
  show ?thesis
  proof (cases "watch_entries entries ?acc")
    case None
    then show ?thesis
      using watch_entries_None [of entries ?acc] Some by (simp add: configListener_def Let_def)
  next
    case (Some res)
    then have no: "\<not> (\<exists>w \<in> set entries. length w = 3)"
      using watch_entries_None [of entries ?acc] by simp
    obtain ns client where res: "res = (ns, client)" by (cases res)
    show ?thesis
      using no Some \<open>splitListeningConfigs _ = _\<close> by (simp add: configListener_def Let_def res poll_end_answers)
  qed
qed (simp add: configListener_def Let_def)

text \<open>
  A registration that is accepted is announced to the peers: the syncer sends exactly
  one event to every other node that is up, naming the service under the defaults
  the registration filled in, and nothing when the registration is rejected.
\<close>
theorem register_notifies_peers:
  assumes "apSyncer A" "registerInstance e q A = (A', r)"
  shows "apOutbox A' = apOutbox A @
    (if rsStatus r = 200
     then NotifyServiceChange (ckMilli (heClocks e)) (or_else (DefaultPostForm q ''namespaceId'' ''public'') ''public'')
            (or_else (DefaultPostForm q ''groupName'' ''DEFAULT_GROUP'') ''DEFAULT_GROUP'')
            (PostForm q ''serviceName'') (apMgr A)
     else [])"
proof -
  obtain A1 res where w: "with_registry (RegisterInstance (ckBeat (heClocks e)) (form_instance e q)) A = (A1, res)"
    by (cases "with_registry (RegisterInstance (ckBeat (heClocks e)) (form_instance e q)) A") blast
  then have a: "apOutbox A1 = apOutbox A" "apMgr A1 = apMgr A" "apSyncer A1 = apSyncer A"
    by (auto simp: with_registry_def split: prod.splits)
  show ?thesis
  proof (cases res)
    case (Inl er)
    then show ?thesis using assms w a by (auto simp: registerInstance_def reply_error_def)
  next
    case (Inr inst)
    have "RegisterInstance (ckBeat (heClocks e)) (form_instance e q) (registry_of A)
        = (fst (RegisterInstance (ckBeat (heClocks e)) (form_instance e q) (registry_of A)), Inr inst)"
      using w Inr with_registry_view(2) by (metis prod.collapse snd_conv)
    from register_Inr [OF this] have "inst = register_defaults (ckBeat (heClocks e)) (form_instance e q)" by blast
    then show ?thesis
      using assms w a Inr
      by (auto simp: registerInstance_def notify_service_def reply_ok_def reply_def register_defaults_def form_instance_def)
  qed
qed

theorem register_notifies_peers_witness:
  "apOutbox (fst (registerInstance demo_env (demo_req [(''serviceName'', ''pay'')]) demo_app)) = apOutbox demo_app @
    (if rsStatus (snd (registerInstance demo_env (demo_req [(''serviceName'', ''pay'')]) demo_app)) = 200
     then NotifyServiceChange (ckMilli (heClocks demo_env))
            (or_else (DefaultPostForm (demo_req [(''serviceName'', ''pay'')]) ''namespaceId'' ''public'') ''public'')
            (or_else (DefaultPostForm (demo_req [(''serviceName'', ''pay'')]) ''groupName'' ''DEFAULT_GROUP'') ''DEFAULT_GROUP'')
            (PostForm (demo_req [(''serviceName'', ''pay'')]) ''serviceName'') (apMgr demo_app)
     else [])"
  by (rule register_notifies_peers [OF _ prod.collapse [symmetric]]) (simp add: demo_app_def)

text \<open>
  An instance cannot be updated over HTTP: whatever the request says, the answer is 500
  and nothing changes, since the handler builds its struct without an ID.
\<close>
theorem http_update_always_fails:
  assumes "gorm_table inst_schema (apInst A)"
  shows "updateInstance e q A = (A, reply_error 500 ''WHERE conditions required'')"
proof -
  have "siID (update_instance e q) = 0" by (simp add: update_instance_def zero_inst_def)
  then have "UpdateInstance (update_instance e q) (registry_of A) = (registry_of A, Inl (EDB ErrMissingWhereClause))"
    by (rule update_without_id_fails [rotated]) (simp add: assms)
  then show ?thesis
    by (simp add: updateInstance_def with_registry_def reply_to_def)
qed

theorem http_update_always_fails_witness:
  "updateInstance demo_env (demo_req [(''serviceName'', ''order''), (''ip'', ''10.0.0.1''), (''port'', ''8080'')]) demo_app
     = (demo_app, reply_error 500 ''WHERE conditions required'')"
  by (rule http_update_always_fails) (simp add: demo_app_def)

text \<open>
  There is no login: the request the client's login sends matches no route, so the
  server answers 404 and its state is unchanged.
\<close>
theorem no_login_route:
  "serve e evs ''POST'' ''/v1/auth/login'' q A = (A, Answered \<lparr>rsStatus = 404, rsBody = NotFoundPage\<rparr>)"
  by (simp add: serve_def route_def routes_def)

text \<open>
  The splitting loop of the listener ends for every separator of one byte, and yields
  the pieces between the separators, the last one only if it is not empty.
\<close>
theorem split_loop_returns:
  "go_split s [c] = Some (if last (split_on c s) = [] then butlast (split_on c s) else split_on c s)"
  by (simp add: go_split_char drop_last_nil_def)

end
