(* ===== verification/TcpServer.thy ===== *)
theory TcpServer
  imports App GoJson
begin

text \<open>
  \<^verbatim>\<open>src/pkg/tcpserver/server.go\<close>: the line protocol. A request line is a command word and a
  JSON payload, the response one line. A connection is the bytes it receives; its handler
  runs over the lines and writes one response for each. The wording of a JSON error, the
  parsing of a float literal and the text of a float and of a time are parameters.
\<close>

section \<open>Environment\<close>

record tcp_env =
  teClocks :: clocks
  teParseFloat :: "string \<Rightarrow> f64 option"
  teFloatText :: "f64 \<Rightarrow> string"
  teTimeText :: "int \<Rightarrow> string"
  teJsonError :: "string \<Rightarrow> string"
  teUpper :: "string \<Rightarrow> string"

definition withDef :: "string \<Rightarrow> string \<Rightarrow> string" where
  "withDef v d = (if v = [] then d else v)"

text \<open>\<^verbatim>\<open>strings.ToUpper\<close>: \<open>teUpper\<close> is what it does to a text that is not ASCII.\<close>

definition go_upper :: "tcp_env \<Rightarrow> string \<Rightarrow> string" where
  "go_upper e s = (if ascii s then to_upper s else teUpper e s)"

section \<open>Requests\<close>

record registerReq =
  rrNamespaceID :: string
  rrGroupName :: string
  rrServiceName :: string
  rrClusterName :: string
  rrIP :: string
  rrPort :: int
  rrWeight :: f64
  rrEphemeral :: bool
  rrMetadata :: string

text \<open>The requests that name an instance share their fields; so do those that name a config.\<close>

record instanceReq =
  irNamespaceID :: string
  irGroupName :: string
  irServiceName :: string
  irClusterName :: string
  irIP :: string
  irPort :: int

record discoverReq =
  drNamespaceID :: string
  drGroupName :: string
  drServiceName :: string
  drHealthyOnly :: bool

record configReq =
  crNamespaceID :: string
  crGroupName :: string
  crDataID :: string

record configPubReq =
  cpNamespaceID :: string
  cpGroupName :: string
  cpDataID :: string
  cpContent :: string
  cpType :: string

record healthReportReq =
  hrNamespaceID :: string
  hrGroupName :: string
  hrServiceName :: string
  hrIP :: string
  hrPort :: int

definition read_registerReq :: "tcp_env \<Rightarrow> (string \<times> jval) list \<Rightarrow> registerReq option" where
  "read_registerReq e ms =
     (case (str_field ''namespaceId'' ms, str_field ''groupName'' ms, str_field ''serviceName'' ms,
            str_field ''clusterName'' ms, str_field ''ip'' ms, int_field ''port'' ms,
            field (dec_float (teParseFloat e)) 0 ''weight'' ms, bool_field ''ephemeral'' ms, str_field ''metadata'' ms) of
        (Some ns, Some grp, Some svc, Some cl, Some ip, Some port, Some w, Some eph, Some meta) \<Rightarrow>
          Some \<lparr>rrNamespaceID = ns, rrGroupName = grp, rrServiceName = svc, rrClusterName = cl, rrIP = ip,
            rrPort = port, rrWeight = w, rrEphemeral = eph, rrMetadata = meta\<rparr>
      | _ \<Rightarrow> None)"

definition read_instanceReq :: "(string \<times> jval) list \<Rightarrow> instanceReq option" where
  "read_instanceReq ms =
     (case (str_field ''namespaceId'' ms, str_field ''groupName'' ms, str_field ''serviceName'' ms,
            str_field ''clusterName'' ms, str_field ''ip'' ms, int_field ''port'' ms) of
        (Some ns, Some grp, Some svc, Some cl, Some ip, Some port) \<Rightarrow>
          Some \<lparr>irNamespaceID = ns, irGroupName = grp, irServiceName = svc, irClusterName = cl, irIP = ip, irPort = port\<rparr>
      | _ \<Rightarrow> None)"

definition read_discoverReq :: "(string \<times> jval) list \<Rightarrow> discoverReq option" where
  "read_discoverReq ms =
     (case (str_field ''namespaceId'' ms, str_field ''groupName'' ms, str_field ''serviceName'' ms,
            bool_field ''healthyOnly'' ms) of
        (Some ns, Some grp, Some svc, Some h) \<Rightarrow>
          Some \<lparr>drNamespaceID = ns, drGroupName = grp, drServiceName = svc, drHealthyOnly = h\<rparr>
      | _ \<Rightarrow> None)"

definition read_configReq :: "(string \<times> jval) list \<Rightarrow> configReq option" where
  "read_configReq ms =
     (case (str_field ''namespaceId'' ms, str_field ''groupName'' ms, str_field ''dataId'' ms) of
        (Some ns, Some grp, Some did) \<Rightarrow> Some \<lparr>crNamespaceID = ns, crGroupName = grp, crDataID = did\<rparr>
      | _ \<Rightarrow> None)"

text \<open>\<^verbatim>\<open>heartbeatReq\<close> and \<^verbatim>\<open>configDelReq\<close> have the fields and tags of the two structs above.\<close>

definition read_heartbeatReq :: "(string \<times> jval) list \<Rightarrow> instanceReq option" where
  "read_heartbeatReq = read_instanceReq"

definition read_configDelReq :: "(string \<times> jval) list \<Rightarrow> configReq option" where
  "read_configDelReq = read_configReq"

definition read_configPubReq :: "(string \<times> jval) list \<Rightarrow> configPubReq option" where
  "read_configPubReq ms =
     (case (str_field ''namespaceId'' ms, str_field ''groupName'' ms, str_field ''dataId'' ms,
            str_field ''content'' ms, str_field ''type'' ms) of
        (Some ns, Some grp, Some did, Some content, Some typ) \<Rightarrow>
          Some \<lparr>cpNamespaceID = ns, cpGroupName = grp, cpDataID = did, cpContent = content, cpType = typ\<rparr>
      | _ \<Rightarrow> None)"

definition read_healthReportReq :: "(string \<times> jval) list \<Rightarrow> healthReportReq option" where
  "read_healthReportReq ms =
     (case (str_field ''namespaceId'' ms, str_field ''groupName'' ms, str_field ''serviceName'' ms,
            str_field ''ip'' ms, int_field ''port'' ms) of
        (Some ns, Some grp, Some svc, Some ip, Some port) \<Rightarrow>
          Some \<lparr>hrNamespaceID = ns, hrGroupName = grp, hrServiceName = svc, hrIP = ip, hrPort = port\<rparr>
      | _ \<Rightarrow> None)"

text \<open>\<^verbatim>\<open>json.Unmarshal\<close> of the payload, then the body of the command.\<close>

definition with_req ::
  "tcp_env \<Rightarrow> ((string \<times> jval) list \<Rightarrow> 'q option) \<Rightarrow> string
   \<Rightarrow> ('q \<Rightarrow> ('i, 's, 'c, 'h, 'n, 'd) app \<Rightarrow> ('i, 's, 'c, 'h, 'n, 'd) app \<times> string)
   \<Rightarrow> ('i, 's, 'c, 'h, 'n, 'd) app \<Rightarrow> ('i, 's, 'c, 'h, 'n, 'd) app \<times> string" where
  "with_req e rd payload body A =
     (case Option.bind (text_members payload) rd of
        None \<Rightarrow> (A, ''ERR invalid json: '' @ teJsonError e payload)
      | Some q \<Rightarrow> body q A)"

definition answer :: "string \<Rightarrow> err + 'a \<Rightarrow> string" where
  "answer okay r = (case r of Inl er \<Rightarrow> ''ERR '' @ err_text er | Inr _ \<Rightarrow> okay)"

section \<open>Commands\<close>

definition req_instance :: "registerReq \<Rightarrow> ServiceInstance" where
  "req_instance q = zero_inst\<lparr>
     siNamespaceID := withDef (rrNamespaceID q) ''public'',
     siGroupName := withDef (rrGroupName q) ''DEFAULT_GROUP'',
     siServiceName := rrServiceName q,
     siClusterName := withDef (rrClusterName q) ''DEFAULT'',
     siIP := rrIP q, siPort := rrPort q, siWeight := rrWeight q, siEphemeral := rrEphemeral q,
     siMetadata := withDef (rrMetadata q) ''{}''\<rparr>"

definition cmdRegister ::
  "tcp_env \<Rightarrow> string \<Rightarrow> ('i, 's, 'c, 'h, 'n, 'd) app \<Rightarrow> ('i, 's, 'c, 'h, 'n, 'd) app \<times> string" where
  "cmdRegister e payload =
     with_req e (read_registerReq e) payload (\<lambda>q A.
       map_prod id (answer ''OK {\"registered\":true}'')
         (with_registry (RegisterInstance (ckBeat (teClocks e)) (req_instance q)) A))"

definition req_key :: "instanceReq \<Rightarrow> inst_key" where
  "req_key q = (withDef (irNamespaceID q) ''public'', withDef (irGroupName q) ''DEFAULT_GROUP'', irServiceName q,
     withDef (irClusterName q) ''DEFAULT'', irIP q, irPort q)"

definition cmdDeregister ::
  "tcp_env \<Rightarrow> string \<Rightarrow> ('i, 's, 'c, 'h, 'n, 'd) app \<Rightarrow> ('i, 's, 'c, 'h, 'n, 'd) app \<times> string" where
  "cmdDeregister e payload =
     with_req e read_instanceReq payload (\<lambda>q A.
       map_prod id (answer ''OK {\"deregistered\":true}'') (with_registry (DeregisterInstance (req_key q)) A))"

definition cmdHeartbeat ::
  "tcp_env \<Rightarrow> string \<Rightarrow> ('i, 's, 'c, 'h, 'n, 'd) app \<Rightarrow> ('i, 's, 'c, 'h, 'n, 'd) app \<times> string" where
  "cmdHeartbeat e payload =
     with_req e read_heartbeatReq payload (\<lambda>q A.
       map_prod id (answer ''OK {\"beat\":true}'') (with_registry (Heartbeat (req_key q)) A))"

text \<open>
  The structs as \<^verbatim>\<open>json.Marshal\<close> writes them, in the order of their fields. A weight is a number:
  \<^verbatim>\<open>json.Marshal\<close> fails on a NaN or an infinity, and the theorems that print an instance ask for a
  finite weight.
\<close>

definition inst_json :: "tcp_env \<Rightarrow> ServiceInstance \<Rightarrow> jval" where
  "inst_json e x = VObj
     [(''id'', VNum (itoa (int (siID x)))), (''namespaceId'', VStr (siNamespaceID x)),
      (''groupName'', VStr (siGroupName x)), (''serviceName'', VStr (siServiceName x)),
      (''clusterName'', VStr (siClusterName x)), (''ip'', VStr (siIP x)), (''port'', VNum (itoa (siPort x))),
      (''weight'', VNum (teFloatText e (siWeight x))), (''healthy'', VBool (siHealthy x)),
      (''enabled'', VBool (siEnabled x)), (''ephemeral'', VBool (siEphemeral x)),
      (''metadata'', VStr (siMetadata x)), (''lastBeat'', VStr (teTimeText e (siLastBeat x))),
      (''createdAt'', VStr (teTimeText e (siCreatedAt x))), (''updatedAt'', VStr (teTimeText e (siUpdatedAt x)))]"

definition config_json :: "tcp_env \<Rightarrow> ConfigItem \<Rightarrow> jval" where
  "config_json e x = VObj
     [(''id'', VNum (itoa (int (ciID x)))), (''namespaceId'', VStr (ciNamespaceID x)),
      (''groupName'', VStr (ciGroupName x)), (''dataId'', VStr (ciDataID x)), (''content'', VStr (ciContent x)),
      (''md5'', VStr (ciMD5 x)), (''type'', VStr (ciType x)), (''createdAt'', VStr (teTimeText e (ciCreatedAt x))),
      (''updatedAt'', VStr (teTimeText e (ciUpdatedAt x)))]"

definition cmdDiscover ::
  "tcp_env \<Rightarrow> string \<Rightarrow> ('i, 's, 'c, 'h, 'n, 'd) app \<Rightarrow> ('i, 's, 'c, 'h, 'n, 'd) app \<times> string" where
  "cmdDiscover e payload =
     with_req e read_discoverReq payload (\<lambda>q A.
       (A, case GetInstances (withDef (drNamespaceID q) ''public'') (withDef (drGroupName q) ''DEFAULT_GROUP'')
                  (drServiceName q) [] (drHealthyOnly q) (registry_of A) of
             Inl er \<Rightarrow> ''ERR '' @ err_text er
           | Inr xs \<Rightarrow> ''OK '' @ json_text (VArr (map (inst_json e) xs))))"

definition cmdConfigGet ::
  "tcp_env \<Rightarrow> string \<Rightarrow> ('i, 's, 'c, 'h, 'n, 'd) app \<Rightarrow> ('i, 's, 'c, 'h, 'n, 'd) app \<times> string" where
  "cmdConfigGet e payload =
     with_req e read_configReq payload (\<lambda>q A.
       (A, case GetConfig (withDef (crNamespaceID q) ''public'') (withDef (crGroupName q) ''DEFAULT_GROUP'')
                  (crDataID q) (config_of A) of
             Inl er \<Rightarrow> ''ERR '' @ err_text er
           | Inr item \<Rightarrow> ''OK '' @ json_text (config_json e item)))"

definition cmdConfigPub ::
  "tcp_env \<Rightarrow> string \<Rightarrow> ('i, 's, 'c, 'h, 'n, 'd) app \<Rightarrow> ('i, 's, 'c, 'h, 'n, 'd) app \<times> string" where
  "cmdConfigPub e payload =
     with_req e read_configPubReq payload (\<lambda>q A.
       map_prod id (answer ''OK {\"published\":true}'')
         (with_config (PublishConfig (withDef (cpNamespaceID q) ''public'') (withDef (cpGroupName q) ''DEFAULT_GROUP'')
            (cpDataID q) (cpContent q) (withDef (cpType q) ''text'')) A))"

definition cmdConfigDel ::
  "tcp_env \<Rightarrow> string \<Rightarrow> ('i, 's, 'c, 'h, 'n, 'd) app \<Rightarrow> ('i, 's, 'c, 'h, 'n, 'd) app \<times> string" where
  "cmdConfigDel e payload =
     with_req e read_configDelReq payload (\<lambda>q A.
       map_prod id (answer ''OK {\"deleted\":true}'')
         (with_config (DeleteConfig (withDef (crNamespaceID q) ''public'') (withDef (crGroupName q) ''DEFAULT_GROUP'')
            (crDataID q)) A))"

definition cmdHealthReport ::
  "tcp_env \<Rightarrow> string \<Rightarrow> bool \<Rightarrow> ('i, 's, 'c, 'h, 'n, 'd) app \<Rightarrow> ('i, 's, 'c, 'h, 'n, 'd) app \<times> string" where
  "cmdHealthReport e payload success =
     with_req e read_healthReportReq payload (\<lambda>q A.
       let ns = withDef (hrNamespaceID q) ''public''; grp = withDef (hrGroupName q) ''DEFAULT_GROUP''
       in case InstanceStore_Get (ns, grp, hrServiceName q, ''DEFAULT'', hrIP q, hrPort q) (apInst A) of
            Inl er \<Rightarrow> (A, ''ERR instance not found: '' @ gerr_text er)
          | Inr inst \<Rightarrow>
              (if success then with_checker (ReportSuccess (siID inst)) A
               else with_checker (ReportFailure (ckFail1 (teClocks e)) (ckFail2 (teClocks e)) (siID inst)
                      ns grp (hrServiceName q)) A,
               ''OK {\"reported\":true}''))"

section \<open>Lines\<close>

definition split_line :: "tcp_env \<Rightarrow> string \<Rightarrow> string \<times> string" where
  "split_line e line =
     (if CHR '' '' \<notin> set line then (go_upper e (trim_space line), ''{}'')
      else (go_upper e (takeWhile (\<lambda>c. c \<noteq> CHR '' '') line), tl (dropWhile (\<lambda>c. c \<noteq> CHR '' '') line)))"

definition processLine ::
  "tcp_env \<Rightarrow> string \<Rightarrow> ('i, 's, 'c, 'h, 'n, 'd) app \<Rightarrow> ('i, 's, 'c, 'h, 'n, 'd) app \<times> string" where
  "processLine e line A =
     (let (cmd, payload) = split_line e line
      in if cmd = ''PING'' then (A, ''OK {\"msg\":\"pong\",\"ts\":'' @ itoa (ckMilli (teClocks e)) @ ''}'')
         else if cmd = ''REGISTER'' then cmdRegister e payload A
         else if cmd = ''DEREGISTER'' then cmdDeregister e payload A
         else if cmd = ''HEARTBEAT'' then cmdHeartbeat e payload A
         else if cmd = ''DISCOVER'' then cmdDiscover e payload A
         else if cmd = ''CONFIG_GET'' then cmdConfigGet e payload A
         else if cmd = ''CONFIG_PUB'' then cmdConfigPub e payload A
         else if cmd = ''CONFIG_DEL'' then cmdConfigDel e payload A
         else if cmd = ''HEALTH_OK'' then cmdHealthReport e payload True A
         else if cmd = ''HEALTH_FAIL'' then cmdHealthReport e payload False A
         else (A, ''ERR unknown command: '' @ cmd))"

text \<open>
  \<^verbatim>\<open>bufio.Scanner\<close> with a buffer of one mebibyte: the lines without their end (and without a
  carriage return before it), up to the first line that does not fit in the buffer with its
  newline.
\<close>

definition strip_cr :: "string \<Rightarrow> string" where
  "strip_cr l = (if l \<noteq> [] \<and> last l = CHR 0x0D then butlast l else l)"

definition scan_lines :: "string \<Rightarrow> string list" where
  "scan_lines input =
     (let parts = split_on CHR 0x0A input;
          ls = (if last parts = [] then butlast parts else parts)
      in map strip_cr (takeWhile (\<lambda>l. length l < 1048576) ls))"

text \<open>The connection handler; \<open>envs k\<close> is the environment at the \<open>k\<close>-th line.\<close>

fun handle_lines ::
  "(nat \<Rightarrow> tcp_env) \<Rightarrow> nat \<Rightarrow> string list \<Rightarrow> ('i, 's, 'c, 'h, 'n, 'd) app
   \<Rightarrow> ('i, 's, 'c, 'h, 'n, 'd) app \<times> string" where
  "handle_lines envs k [] A = (A, [])"
| "handle_lines envs k (l # ls) A =
     (if l = [] then handle_lines envs (Suc k) ls A
      else let (A1, resp) = processLine (envs k) l A; (A2, out) = handle_lines envs (Suc k) ls A1
           in (A2, resp @ CHR 0x0A # out))"

definition handleConn ::
  "(nat \<Rightarrow> tcp_env) \<Rightarrow> string \<Rightarrow> ('i, 's, 'c, 'h, 'n, 'd) app \<Rightarrow> ('i, 's, 'c, 'h, 'n, 'd) app \<times> string" where
  "handleConn envs input A = handle_lines envs 0 (scan_lines input) A"

end
