(* ===== verification/Client.thy ===== *)
theory Client
  imports Model GoHash
begin

text \<open>
  \<^verbatim>\<open>src/pkg/client/client.go\<close>: the SDK. A call is the request it sends and what it makes of
  the answer; the transport is a parameter: what the server answers to a request, an error
  text or a JSON object. Load balancing is modelled with its state, its random numbers as
  arguments, and the sorting of \<^verbatim>\<open>sort.Slice\<close> (whose order of equal elements is not
  specified) as a parameter.
\<close>

section \<open>Strategies\<close>

datatype LBStrategy = LBRoundRobin | LBRandom | LBWeightedRoundRobin | LBConsistentHash

fun lb_code :: "LBStrategy \<Rightarrow> nat" where
  "lb_code LBRoundRobin = 0"
| "lb_code LBRandom = 1"
| "lb_code LBWeightedRoundRobin = 2"
| "lb_code LBConsistentHash = 3"

lemma lb_code_inj: "lb_code s = lb_code t \<Longrightarrow> s = t"
  by (cases s; cases t) simp_all

text \<open>The constants are numbered with \<^verbatim>\<open>iota\<close> and so ordered.\<close>

instantiation LBStrategy :: linorder
begin

definition less_eq_LBStrategy :: "LBStrategy \<Rightarrow> LBStrategy \<Rightarrow> bool" where
  "s \<le> t = (lb_code s \<le> lb_code t)"

definition less_LBStrategy :: "LBStrategy \<Rightarrow> LBStrategy \<Rightarrow> bool" where
  "s < t = (lb_code s < lb_code t)"

instance
  by standard (auto simp: less_eq_LBStrategy_def less_LBStrategy_def dest: lb_code_inj)

end

section \<open>JSON and requests\<close>

datatype json = JNull | JBool bool | JNum f64 | JStr string | JArr "json list" | JObj "(string \<times> json) list"

type_synonym json_obj = "(string \<times> json) list"

text \<open>The errors of a call, with the values their texts show.\<close>

datatype client_err =
    ErrRequest string
  | ErrServer "json option" string
  | ErrLogin client_err
  | ErrLoginRefused "json option"
  | ErrNoData
  | ErrNoToken
  | ErrNoInstance
  | ErrDecode string

record http_req =
  hrMethod :: string
  hrURL :: string
  hrParams :: "(string \<times> string) list"
  hrToken :: string

type_synonym transport = "http_req \<Rightarrow> string + json_obj"

record client =
  clServer :: string
  clToken :: string
  clBeats :: "(string \<times> nat) list"
  clNextChan :: nat
  clClosed :: "nat list"
  clRR :: "string \<Rightarrow> int"

definition trim_slashes :: "string \<Rightarrow> string" where
  "trim_slashes s = rev (dropWhile (\<lambda>c. c = CHR ''/'') (rev s))"

definition NewClient :: "string \<Rightarrow> client" where
  "NewClient addr = \<lparr>clServer = trim_slashes addr, clToken = [], clBeats = [], clNextChan = 0,
     clClosed = [], clRR = (\<lambda>_. 0)\<rparr>"

definition withDefault :: "string \<Rightarrow> string \<Rightarrow> string" where
  "withDefault v d = (if v = [] then d else v)"

definition do_req ::
  "string \<Rightarrow> string \<Rightarrow> (string \<times> string) list \<Rightarrow> transport \<Rightarrow> client \<Rightarrow> client_err + json_obj" where
  "do_req meth path params net c =
     map_sum ErrRequest id
       (net \<lparr>hrMethod = meth, hrURL = clServer c @ path, hrParams = params, hrToken = clToken c\<rparr>)"

definition checkResp :: "json_obj \<Rightarrow> client_err option" where
  "checkResp resp =
     (if map_of resp ''code'' = Some (JNum 0) then None
      else Some (ErrServer (map_of resp ''code'') (case map_of resp ''message'' of Some (JStr m) \<Rightarrow> m | _ \<Rightarrow> [])))"

definition simple_call ::
  "string \<Rightarrow> string \<Rightarrow> (string \<times> string) list \<Rightarrow> transport \<Rightarrow> client \<Rightarrow> client_err option" where
  "simple_call meth path params net c =
     (case do_req meth path params net c of Inl e \<Rightarrow> Some e | Inr resp \<Rightarrow> checkResp resp)"

definition client_Login :: "string \<Rightarrow> string \<Rightarrow> transport \<Rightarrow> client \<Rightarrow> client \<times> client_err option" where
  "client_Login username password net c =
     (case do_req ''POST'' ''/v1/auth/login'' [(''username'', username), (''password'', password)] net c of
        Inl e \<Rightarrow> (c, Some (ErrLogin e))
      | Inr resp \<Rightarrow>
          if map_of resp ''code'' \<noteq> Some (JNum 0) then (c, Some (ErrLoginRefused (map_of resp ''message'')))
          else (case map_of resp ''data'' of
                  Some (JObj d) \<Rightarrow>
                    (case map_of d ''accessToken'' of
                       Some (JStr t) \<Rightarrow> (c\<lparr>clToken := t\<rparr>, None)
                     | _ \<Rightarrow> (c, Some ErrNoToken))
                | _ \<Rightarrow> (c, Some ErrNoData)))"

section \<open>Registration and heartbeat\<close>

definition instance_params :: "string \<Rightarrow> string \<Rightarrow> string \<Rightarrow> string \<Rightarrow> string \<Rightarrow> int \<Rightarrow> (string \<times> string) list" where
  "instance_params ns grp svc cl ip port =
     [(''namespaceId'', withDefault ns ''public''), (''groupName'', withDefault grp ''DEFAULT_GROUP''),
      (''serviceName'', svc), (''clusterName'', withDefault cl ''DEFAULT''), (''ip'', ip), (''port'', itoa port)]"

record RegisterOptions =
  roNamespaceID :: string
  roGroupName :: string
  roServiceName :: string
  roClusterName :: string
  roIP :: string
  roPort :: int
  roWeight :: f64
  roEphemeral :: bool
  roMetadata :: string

definition bool_text :: "bool \<Rightarrow> string" where
  "bool_text b = (if b then ''true'' else ''false'')"

text \<open>\<open>fmt\<close> is \<^verbatim>\<open>fmt.Sprintf("%f", w)\<close>.\<close>

definition register_params :: "(f64 \<Rightarrow> string) \<Rightarrow> RegisterOptions \<Rightarrow> (string \<times> string) list" where
  "register_params fmt opts =
     instance_params (roNamespaceID opts) (roGroupName opts) (roServiceName opts) (roClusterName opts) (roIP opts) (roPort opts) @
     [(''weight'', fmt (roWeight opts)), (''ephemeral'', bool_text (roEphemeral opts)),
      (''metadata'', withDefault (roMetadata opts) ''{}'')]"

definition client_RegisterInstance :: "(f64 \<Rightarrow> string) \<Rightarrow> RegisterOptions \<Rightarrow> transport \<Rightarrow> client \<Rightarrow> client_err option" where
  "client_RegisterInstance fmt opts net c = simple_call ''POST'' ''/v1/ns/instance'' (register_params fmt opts) net c"

definition client_DeregisterInstance ::
  "string \<Rightarrow> string \<Rightarrow> string \<Rightarrow> string \<Rightarrow> string \<Rightarrow> int \<Rightarrow> transport \<Rightarrow> client \<Rightarrow> client_err option" where
  "client_DeregisterInstance ns grp svc cl ip port net c =
     simple_call ''DELETE'' ''/v1/ns/instance'' (instance_params ns grp svc cl ip port) net c"

definition SendHeartbeat ::
  "string \<Rightarrow> string \<Rightarrow> string \<Rightarrow> string \<Rightarrow> string \<Rightarrow> int \<Rightarrow> transport \<Rightarrow> client \<Rightarrow> client_err option" where
  "SendHeartbeat ns grp svc cl ip port net c =
     simple_call ''PUT'' ''/v1/ns/instance/beat'' (instance_params ns grp svc cl ip port) net c"

definition beat_key :: "string \<Rightarrow> string \<Rightarrow> string \<Rightarrow> string \<Rightarrow> string \<Rightarrow> int \<Rightarrow> string" where
  "beat_key ns grp svc cl ip port =
     ns @ ''#'' @ grp @ ''#'' @ svc @ ''#'' @ cl @ ''#'' @ ip @ '':'' @ itoa port"

text \<open>A heartbeat loop runs for every cancel channel of the map and ends when it is closed.\<close>

definition StartAutoHeartbeat :: "string \<Rightarrow> client \<Rightarrow> client" where
  "StartAutoHeartbeat key c =
     (if map_of (clBeats c) key \<noteq> None then c
      else c\<lparr>clBeats := (key, clNextChan c) # clBeats c, clNextChan := Suc (clNextChan c)\<rparr>)"

definition StopAutoHeartbeat :: "string \<Rightarrow> client \<Rightarrow> client" where
  "StopAutoHeartbeat key c =
     (case map_of (clBeats c) key of
        None \<Rightarrow> c
      | Some ch \<Rightarrow> c\<lparr>clBeats := filter (\<lambda>(k, _). k \<noteq> key) (clBeats c), clClosed := ch # clClosed c\<rparr>)"

definition StopAllHeartbeats :: "client \<Rightarrow> client" where
  "StopAllHeartbeats c = c\<lparr>clBeats := [], clClosed := map snd (clBeats c) @ clClosed c\<rparr>"

section \<open>Discovery\<close>

record Instance =
  inID :: nat
  inNamespaceID :: string
  inGroupName :: string
  inServiceName :: string
  inClusterName :: string
  inIP :: string
  inPort :: int
  inWeight :: f64
  inHealthy :: bool
  inEnabled :: bool
  inEphemeral :: bool
  inMetadata :: string

text \<open>\<open>decode\<close> is \<^verbatim>\<open>json.Unmarshal\<close> into the struct; elements it rejects are left out.\<close>

definition client_GetInstances ::
  "(json \<Rightarrow> Instance option) \<Rightarrow> string \<Rightarrow> string \<Rightarrow> string \<Rightarrow> bool \<Rightarrow> transport \<Rightarrow> client \<Rightarrow> client_err + Instance list" where
  "client_GetInstances decode ns grp svc healthyOnly net c =
     (case do_req ''GET'' ''/v1/ns/instance/list''
             [(''namespaceId'', withDefault ns ''public''), (''groupName'', withDefault grp ''DEFAULT_GROUP''),
              (''serviceName'', svc), (''healthyOnly'', bool_text healthyOnly)] net c of
        Inl e \<Rightarrow> Inl e
      | Inr resp \<Rightarrow>
          (case checkResp resp of
             Some e \<Rightarrow> Inl e
           | None \<Rightarrow> (case map_of resp ''hosts'' of Some (JArr hs) \<Rightarrow> Inr (List.map_filter decode hs) | _ \<Rightarrow> Inr [])))"

definition go_mod :: "int \<Rightarrow> int \<Rightarrow> int" where
  "go_mod a b = sgn a * (\<bar>a\<bar> mod \<bar>b\<bar>)"

text \<open>An index out of range is a panic, \<^const>\<open>None\<close>; so is \<^verbatim>\<open>%\<close> by zero.\<close>

definition roundRobin :: "string \<Rightarrow> Instance list \<Rightarrow> client \<Rightarrow> client \<times> Instance option" where
  "roundRobin key xs c =
     (if xs = [] then (c, None)
      else let idx = go_mod (clRR c key) (int (length xs))
           in (c\<lparr>clRR := (clRR c)(key := idx + 1)\<rparr>, if 0 \<le> idx then Some (xs ! nat idx) else None))"

definition total_weight :: "Instance list \<Rightarrow> f64" where
  "total_weight xs = foldl (\<lambda>t x. t + inWeight x) 0 xs"

fun pick_reaching :: "f64 \<Rightarrow> f64 \<Rightarrow> Instance list \<Rightarrow> Instance option" where
  "pick_reaching r c [] = None"
| "pick_reaching r c (x # xs) = (if r \<le> c + inWeight x then Some x else pick_reaching r (c + inWeight x) xs)"

text \<open>\<open>u\<close> is \<^verbatim>\<open>rand.Float64()\<close> and \<open>k\<close> \<^verbatim>\<open>rand.Intn(len(instances))\<close>.\<close>

definition weightedSelect :: "f64 \<Rightarrow> nat \<Rightarrow> Instance list \<Rightarrow> Instance" where
  "weightedSelect u k xs =
     (if total_weight xs \<le> 0 then xs ! k
      else case pick_reaching (u * total_weight xs) 0 xs of Some x \<Rightarrow> x | None \<Rightarrow> last xs)"

section \<open>Consistent hashing\<close>

text \<open>\<^verbatim>\<open>sort.Search\<close>: binary search for the first index with the property.\<close>

function bsearch :: "(nat \<Rightarrow> bool) \<Rightarrow> nat \<Rightarrow> nat \<Rightarrow> nat" where
  "bsearch p lo hi =
     (if lo < hi then let h = (lo + hi) div 2 in if \<not> p h then bsearch p (h + 1) hi else bsearch p lo h
      else lo)"
  by pat_completeness auto
termination by (relation "measure (\<lambda>(p, lo, hi). hi - lo)") auto

declare bsearch.simps [simp del]

type_synonym vnode = "32 word \<times> nat"

definition inst_addr :: "Instance \<Rightarrow> string" where
  "inst_addr x = inIP x @ '':'' @ itoa (inPort x)"

definition vnodes :: "(string \<Rightarrow> 32 word) \<Rightarrow> Instance list \<Rightarrow> vnode list" where
  "vnodes hash xs =
     concat (map (\<lambda>(i, x). map (\<lambda>v. (hash (inst_addr x @ ''#'' @ itoa (int v)), i)) [0..<160]) (enumerate 0 xs))"

text \<open>
  \<open>srt\<close> is \<^verbatim>\<open>sort.Slice\<close> by hash, \<open>hash\<close> the checksum (\<^const>\<open>crc32\<close> in the program), \<open>rnd\<close> the
  text of \<^verbatim>\<open>rand.Int63()\<close>, used when the key is empty.
\<close>

definition consistentHash ::
  "(string \<Rightarrow> 32 word) \<Rightarrow> (vnode list \<Rightarrow> vnode list) \<Rightarrow> string \<Rightarrow> Instance list \<Rightarrow> string \<Rightarrow> Instance" where
  "consistentHash hash srt rnd xs key0 =
     (let key = (if key0 = [] then rnd else key0);
          ring = srt (vnodes hash xs);
          kh = hash key;
          i = bsearch (\<lambda>i. kh \<le> fst (ring ! i)) 0 (length ring);
          idx = (if length ring \<le> i then 0 else i)
      in xs ! snd (ring ! idx))"

definition crc_text :: "string \<Rightarrow> 32 word" where
  "crc_text s = crc32 (bytes_of s)"

text \<open>The random choices of one selection.\<close>

record lb_rand =
  rndInt :: nat
  rndFloat :: f64
  rndKey :: string

text \<open>
  The choice among the instances found. A strategy is an \<^verbatim>\<open>int\<close>; one that is none of the
  constants takes the first instance. \<^const>\<open>None\<close> is a panic.
\<close>

definition strategy_of :: "int \<Rightarrow> LBStrategy option" where
  "strategy_of n = List.find (\<lambda>s. int (lb_code s) = n) [LBRoundRobin, LBRandom, LBWeightedRoundRobin, LBConsistentHash]"

definition pick_by ::
  "(vnode list \<Rightarrow> vnode list) \<Rightarrow> lb_rand \<Rightarrow> int \<Rightarrow> string \<Rightarrow> string \<Rightarrow> Instance list \<Rightarrow> client
   \<Rightarrow> client \<times> Instance option" where
  "pick_by srt rnd strategy key hashKey xs c =
     (case strategy_of strategy of
        Some LBRoundRobin \<Rightarrow> roundRobin key xs c
      | Some LBRandom \<Rightarrow> (c, Some (xs ! rndInt rnd))
      | Some LBWeightedRoundRobin \<Rightarrow> (c, Some (weightedSelect (rndFloat rnd) (rndInt rnd) xs))
      | Some LBConsistentHash \<Rightarrow> (c, Some (consistentHash crc_text srt (rndKey rnd) xs hashKey))
      | None \<Rightarrow> (c, Some (xs ! 0)))"

definition SelectInstanceWithKey ::
  "(vnode list \<Rightarrow> vnode list) \<Rightarrow> lb_rand \<Rightarrow> (json \<Rightarrow> Instance option) \<Rightarrow> string \<Rightarrow> string \<Rightarrow> string
   \<Rightarrow> int \<Rightarrow> string \<Rightarrow> transport \<Rightarrow> client \<Rightarrow> client \<times> (client_err + Instance option)" where
  "SelectInstanceWithKey srt rnd decode ns grp svc strategy hashKey net c =
     (case client_GetInstances decode ns grp svc True net c of
        Inl e \<Rightarrow> (c, Inl e)
      | Inr xs \<Rightarrow>
          if xs = [] then (c, Inl ErrNoInstance)
          else map_prod id Inr (pick_by srt rnd strategy (ns @ ''#'' @ grp @ ''#'' @ svc) hashKey xs c))"

definition SelectInstance ::
  "(vnode list \<Rightarrow> vnode list) \<Rightarrow> lb_rand \<Rightarrow> (json \<Rightarrow> Instance option) \<Rightarrow> string \<Rightarrow> string \<Rightarrow> string
   \<Rightarrow> int \<Rightarrow> transport \<Rightarrow> client \<Rightarrow> client \<times> (client_err + Instance option)" where
  "SelectInstance srt rnd decode ns grp svc strategy net c =
     SelectInstanceWithKey srt rnd decode ns grp svc strategy [] net c"

section \<open>Configurations and reports\<close>

definition config_params :: "string \<Rightarrow> string \<Rightarrow> string \<Rightarrow> (string \<times> string) list" where
  "config_params ns grp did =
     [(''tenant'', withDefault ns ''public''), (''group'', withDefault grp ''DEFAULT_GROUP''), (''dataId'', did)]"

definition client_PublishConfig ::
  "string \<Rightarrow> string \<Rightarrow> string \<Rightarrow> string \<Rightarrow> string \<Rightarrow> transport \<Rightarrow> client \<Rightarrow> client_err option" where
  "client_PublishConfig ns grp did content typ net c =
     simple_call ''POST'' ''/v1/cs/configs''
       (config_params ns grp did @ [(''content'', content), (''type'', withDefault typ ''text'')]) net c"

definition client_DeleteConfig :: "string \<Rightarrow> string \<Rightarrow> string \<Rightarrow> transport \<Rightarrow> client \<Rightarrow> client_err option" where
  "client_DeleteConfig ns grp did net c = simple_call ''DELETE'' ''/v1/cs/configs'' (config_params ns grp did) net c"

definition report_params :: "string \<Rightarrow> string \<Rightarrow> string \<Rightarrow> string \<Rightarrow> int \<Rightarrow> (string \<times> string) list" where
  "report_params ns grp svc ip port =
     [(''namespaceId'', withDefault ns ''public''), (''groupName'', withDefault grp ''DEFAULT_GROUP''),
      (''serviceName'', svc), (''ip'', ip), (''port'', itoa port)]"

definition client_ReportFailure :: "string \<Rightarrow> string \<Rightarrow> string \<Rightarrow> string \<Rightarrow> int \<Rightarrow> transport \<Rightarrow> client \<Rightarrow> client_err option" where
  "client_ReportFailure ns grp svc ip port net c =
     simple_call ''POST'' ''/v1/ns/health/instance/fail'' (report_params ns grp svc ip port) net c"

definition client_ReportSuccess :: "string \<Rightarrow> string \<Rightarrow> string \<Rightarrow> string \<Rightarrow> int \<Rightarrow> transport \<Rightarrow> client \<Rightarrow> client_err option" where
  "client_ReportSuccess ns grp svc ip port net c =
     simple_call ''POST'' ''/v1/ns/health/instance/succeed'' (report_params ns grp svc ip port) net c"

text \<open>The listening string of a watch: data id, group, digest and tenant.\<close>

definition listen_string :: "string \<Rightarrow> string \<Rightarrow> string \<Rightarrow> string \<Rightarrow> string" where
  "listen_string did grp md5sum ns =
     did @ [CHR 0x02] @ withDefault grp ''DEFAULT_GROUP'' @ [CHR 0x02] @ md5sum @ [CHR 0x02] @
     withDefault ns ''public'' @ [CHR 0x01]"


record CfgItem =
  cgNamespaceID :: string
  cgGroupName :: string
  cgDataID :: string
  cgContent :: string
  cgMD5 :: string
  cgType :: string

definition client_GetConfig ::
  "(json option \<Rightarrow> string + CfgItem) \<Rightarrow> string \<Rightarrow> string \<Rightarrow> string \<Rightarrow> transport \<Rightarrow> client \<Rightarrow> client_err + CfgItem" where
  "client_GetConfig decode ns grp did net c =
     (case do_req ''GET'' ''/v1/cs/configs'' (config_params ns grp did) net c of
        Inl e \<Rightarrow> Inl e
      | Inr resp \<Rightarrow> (case checkResp resp of Some e \<Rightarrow> Inl e | None \<Rightarrow> map_sum ErrDecode id (decode (map_of resp ''data''))))"

text \<open>
  One round of a watch: what it remembers afterwards, the content handed to the callback,
  if any, and whether the loop waits before the next round (only after a failed request).
\<close>

record watch =
  wMD5 :: string
  wContent :: string

definition watch_init ::
  "(json option \<Rightarrow> string + CfgItem) \<Rightarrow> string \<Rightarrow> string \<Rightarrow> string \<Rightarrow> transport \<Rightarrow> client \<Rightarrow> watch" where
  "watch_init decode ns grp did net c =
     (case client_GetConfig decode ns grp did net c of
        Inl e \<Rightarrow> \<lparr>wMD5 = [], wContent = []\<rparr>
      | Inr it \<Rightarrow> \<lparr>wMD5 = cgMD5 it, wContent = cgContent it\<rparr>)"

definition watch_round ::
  "(json option \<Rightarrow> string + CfgItem) \<Rightarrow> string \<Rightarrow> string \<Rightarrow> string \<Rightarrow> transport \<Rightarrow> client \<Rightarrow> watch
   \<Rightarrow> watch \<times> string option \<times> bool" where
  "watch_round decode ns grp did net c w =
     (case do_req ''POST'' ''/v1/cs/configs/listener''
             [(''Listening-Configs'', listen_string did grp (wMD5 w) ns), (''tenant'', withDefault ns ''public'')] net c of
        Inl e \<Rightarrow> (w, None, True)
      | Inr resp \<Rightarrow>
          (case map_of resp ''data'' of
             Some (JStr ch) \<Rightarrow>
               if ch = [] then (w, None, False)
               else (case client_GetConfig decode ns grp did net c of
                       Inl e \<Rightarrow> (w, None, False)
                     | Inr it \<Rightarrow>
                         if cgMD5 it = wMD5 w then (w, None, False)
                         else if cgContent it = wContent w then (w\<lparr>wMD5 := cgMD5 it\<rparr>, None, False)
                         else (w\<lparr>wMD5 := cgMD5 it, wContent := cgContent it\<rparr>, Some (cgContent it), False))
           | _ \<Rightarrow> (w, None, False)))"

text \<open>
  The loop of a watch. What happens at the top of a round is an event: the watch has been
  cancelled (there, or while it waits after a failed request), or it polls and gets answers
  over the transport of that round. The result is the list of contents handed to the
  callback. \<open>run_watch\<close> is the loop of the watches of both protocols.
\<close>

datatype http_event = Cancel | Poll transport

definition http_poll ::
  "(json option \<Rightarrow> string + CfgItem) \<Rightarrow> string \<Rightarrow> string \<Rightarrow> string \<Rightarrow> client \<Rightarrow> transport \<Rightarrow> watch \<Rightarrow> watch \<times> string list" where
  "http_poll decode ns grp did c net w =
     (case watch_round decode ns grp did net c w of (w', out, _) \<Rightarrow> (w', case out of None \<Rightarrow> [] | Some s \<Rightarrow> [s]))"

fun run_watch :: "('r \<Rightarrow> watch \<Rightarrow> watch \<times> string list) \<Rightarrow> 'r list \<Rightarrow> watch \<Rightarrow> string list" where
  "run_watch poll [] w = []"
| "run_watch poll (r # rs) w = (let (w', out) = poll r w in out @ run_watch poll rs w')"

fun polls :: "http_event list \<Rightarrow> transport list" where
  "polls [] = []"
| "polls (Cancel # evs) = []"
| "polls (Poll net # evs) = net # polls evs"

definition client_WatchConfig ::
  "(json option \<Rightarrow> string + CfgItem) \<Rightarrow> string \<Rightarrow> string \<Rightarrow> string \<Rightarrow> transport \<Rightarrow> client \<Rightarrow> http_event list \<Rightarrow> string list" where
  "client_WatchConfig decode ns grp did net c evs =
     run_watch (http_poll decode ns grp did c) (polls evs) (watch_init decode ns grp did net c)"

text \<open>
  \<^verbatim>\<open>cancelFn\<close>: the stop channel is closed under a \<^verbatim>\<open>sync.Once\<close>. The state is whether the once has
  run and how often the channel was closed (a second close is a panic).
\<close>

definition cancelFn :: "bool \<times> nat \<Rightarrow> bool \<times> nat" where
  "cancelFn s = (case s of (done_, closes) \<Rightarrow> if done_ then s else (True, Suc closes))"

lemma cancel_closes_once: "(cancelFn ^^ Suc n) (False, 0) = (True, 1)"
  by (induction n) (simp_all add: cancelFn_def)

text \<open>
  The contract of a watch: a round hands out at most one content, one that differs from the
  last, and remembers it. Then no content is handed out twice in a row.
\<close>

locale watcher =
  fixes poll :: "'r \<Rightarrow> watch \<Rightarrow> watch \<times> string list"
  assumes poll_law: "poll r w = (w', out) \<Longrightarrow>
    (out = [] \<and> wContent w' = wContent w) \<or> (\<exists>s. out = [s] \<and> s \<noteq> wContent w \<and> wContent w' = s)"
begin

lemma reports_changes: "distinct_adj (wContent w # run_watch poll rs w)"
proof (induction rs arbitrary: w)
  case (Cons r rs)
  obtain w' out where p: "poll r w = (w', out)" by (cases "poll r w") blast
  from poll_law [OF p] Cons [of w'] show ?case by (auto simp: p)
qed simp

end

interpretation http_watch: watcher "http_poll decode ns grp did c"
  by unfold_locales
     (auto simp: http_poll_def watch_round_def split: sum.splits option.splits json.splits if_splits)

section \<open>Round robin\<close>

definition rr_turn :: "nat \<Rightarrow> Instance list \<Rightarrow> Instance" where
  "rr_turn k xs = xs ! (k mod length xs)"

interpretation client_turns: turns "\<lambda>xs. xs" rr_turn
  by unfold_locales (simp_all add: rr_turn_def)

fun rr_run :: "nat \<Rightarrow> string \<Rightarrow> Instance list \<Rightarrow> client \<Rightarrow> Instance option list" where
  "rr_run 0 key xs c = []"
| "rr_run (Suc n) key xs c = (case roundRobin key xs c of (c', x) \<Rightarrow> x # rr_run n key xs c')"

lemma rr_run_turns:
  assumes "xs \<noteq> []" "clRR c key = int k"
  shows "rr_run n key xs c = map (\<lambda>j. Some (rr_turn (k + j) xs)) [0..<n]"
  using assms(2)
proof (induction n arbitrary: c k)
  case (Suc n)
  have idx: "go_mod (clRR c key) (int (length xs)) = int (k mod length xs)"
    using Suc.prems by (cases "k = 0") (simp_all add: go_mod_def zmod_int)
  let ?c = "c\<lparr>clRR := (clRR c)(key := int (k mod length xs) + 1)\<rparr>"
  have "rr_run n key xs ?c = map (\<lambda>j. Some (rr_turn (Suc (k mod length xs) + j) xs)) [0..<n]"
    by (rule Suc.IH) simp
  also have "\<dots> = map (\<lambda>j. Some (rr_turn (Suc k + j) xs)) [0..<n]"
  proof -
    have "(Suc (k mod length xs) + j) mod length xs = (Suc k + j) mod length xs" for j
      by (metis mod_Suc_eq mod_add_left_eq)
    then show ?thesis by (simp only: rr_turn_def)
  qed
  finally have "rr_run (Suc n) key xs c = Some (rr_turn k xs) # map (\<lambda>j. Some (rr_turn (Suc k + j) xs)) [0..<n]"
    using assms(1) by (simp add: roundRobin_def idx Let_def rr_turn_def)
  also have "\<dots> = map (\<lambda>j. Some (rr_turn (k + j) xs)) [0..<Suc n]"
    by (simp add: upt_conv_Cons map_Suc_upt [symmetric] del: upt_Suc)
  finally show ?case .
qed simp

text \<open>
  The client's round robin is fair and never panics: over as many consecutive
  selections as there are instances, each is chosen exactly once, wherever the
  counter of the service stands.
\<close>
theorem round_robin_fair:
  assumes "xs \<noteq> []" "0 \<le> clRR c key"
  shows "mset (rr_run (length xs) key xs c) = image_mset Some (mset xs)"
proof -
  have "rr_run (length xs) key xs c = map Some (map (\<lambda>j. rr_turn (nat (clRR c key) + j) xs) [0..<length xs])"
    using rr_run_turns [OF assms(1), of c key "nat (clRR c key)" "length xs"] assms(2) by (simp add: comp_def)
  then show ?thesis
    using client_turns.round_takes_each [OF assms(1), of "nat (clRR c key)"] by (metis mset_map)
qed

definition cl_inst :: "string \<Rightarrow> Instance" where
  "cl_inst ip = \<lparr>inID = 0, inNamespaceID = [], inGroupName = [], inServiceName = [], inClusterName = [],
     inIP = ip, inPort = 80, inWeight = 1, inHealthy = True, inEnabled = True, inEphemeral = True, inMetadata = []\<rparr>"

theorem round_robin_fair_witness:
  "mset (rr_run 2 ''k'' [cl_inst ''1'', cl_inst ''2''] (NewClient ''s'')) = {#Some (cl_inst ''1''), Some (cl_inst ''2'')#}"
  using round_robin_fair [of "[cl_inst ''1'', cl_inst ''2'']" "NewClient ''s''" "''k''"]
  by (simp add: NewClient_def numeral_2_eq_2)

section \<open>Consistent hashing\<close>

lemma bsearch_first:
  assumes "lo \<le> hi" "\<forall>i j. lo \<le> i \<and> i \<le> j \<and> j < hi \<and> p i \<longrightarrow> p j"
  shows "lo \<le> bsearch p lo hi \<and> bsearch p lo hi \<le> hi \<and>
    (\<forall>i. lo \<le> i \<and> i < bsearch p lo hi \<longrightarrow> \<not> p i) \<and> (bsearch p lo hi < hi \<longrightarrow> p (bsearch p lo hi))"
  using assms
proof (induction p lo hi rule: bsearch.induct)
  case (1 p lo hi)
  let ?h = "(lo + hi) div 2"
  show ?case
  proof (cases "lo < hi")
    case False
    then have "bsearch p lo hi = lo" by (simp add: bsearch.simps [of p lo hi])
    with False 1(3) show ?thesis by auto
  next
    case True
    then have h: "lo \<le> ?h" "?h < hi" by auto
    show ?thesis
    proof (cases "p ?h")
      case True
      have b: "bsearch p lo hi = bsearch p lo ?h" using \<open>lo < hi\<close> True by (simp add: bsearch.simps [of p lo hi] Let_def)
      have m: "\<forall>i j. lo \<le> i \<and> i \<le> j \<and> j < ?h \<and> p i \<longrightarrow> p j" using 1(4) h by (meson less_trans)
      have np: "\<not> \<not> p ?h" using True by simp
      note IH = 1(2) [OF \<open>lo < hi\<close> refl np h(1) m]
      then show ?thesis unfolding b using True h by (cases "bsearch p lo ?h = ?h") auto
    next
      case False
      have b: "bsearch p lo hi = bsearch p (?h + 1) hi" using \<open>lo < hi\<close> False by (simp add: bsearch.simps [of p lo hi] Let_def)
      have n: "\<not> p i" if "lo \<le> i" "i \<le> ?h" for i using 1(4) that h(2) False by blast
      have m: "\<forall>i j. ?h + 1 \<le> i \<and> i \<le> j \<and> j < hi \<and> p i \<longrightarrow> p j" using 1(4) h by (meson add_leE le_trans)
      have le: "?h + 1 \<le> hi" using h by simp
      note IH = 1(1) [OF \<open>lo < hi\<close> refl False le m]
      have "\<not> p i" if "lo \<le> i" "i < bsearch p (?h + 1) hi" for i
        using IH n that by (cases "i \<le> ?h") auto
      then show ?thesis unfolding b using IH h by auto
    qed
  qed
qed

definition sorts_ring :: "(vnode list \<Rightarrow> vnode list) \<Rightarrow> bool" where
  "sorts_ring srt \<longleftrightarrow> (\<forall>vs. mset (srt vs) = mset vs \<and> sorted (map fst (srt vs)))"

text \<open>\<open>h\<close> is the first hash of \<open>H\<close> at or after \<open>k\<close> on the ring.\<close>

definition next_hash :: "32 word \<Rightarrow> 32 word set \<Rightarrow> 32 word \<Rightarrow> bool" where
  "next_hash k H h \<longleftrightarrow> h \<in> H \<and>
     (if \<exists>g \<in> H. k \<le> g then k \<le> h \<and> (\<forall>g \<in> H. k \<le> g \<longrightarrow> h \<le> g) else \<forall>g \<in> H. h \<le> g)"

lemma next_hash_unique: "next_hash k H h \<Longrightarrow> next_hash k H g \<Longrightarrow> h = g"
  by (auto simp: next_hash_def split: if_splits intro: antisym)

lemma next_hash_subset: "next_hash k H h \<Longrightarrow> G \<subseteq> H \<Longrightarrow> h \<in> G \<Longrightarrow> next_hash k G h"
  by (auto simp: next_hash_def split: if_splits)

definition inst_hash :: "(string \<Rightarrow> 32 word) \<Rightarrow> Instance \<Rightarrow> nat \<Rightarrow> 32 word" where
  "inst_hash hash x v = hash (inst_addr x @ ''#'' @ itoa (int v))"

definition ring_hashes :: "(string \<Rightarrow> 32 word) \<Rightarrow> Instance list \<Rightarrow> 32 word set" where
  "ring_hashes hash xs = {inst_hash hash x v | x v. x \<in> set xs \<and> v < 160}"

lemma set_vnodes: "set (vnodes hash xs) = {(inst_hash hash (xs ! i) v, i) | i v. i < length xs \<and> v < 160}"
  by (fastforce simp: vnodes_def inst_hash_def in_set_enumerate_eq)

lemma fst_vnodes: "fst ` set (vnodes hash xs) = ring_hashes hash xs"
  unfolding set_vnodes ring_hashes_def by (force simp: in_set_conv_nth)

lemma ring_search:
  fixes k :: "32 word"
  assumes "sorted (map fst ring)" "ring \<noteq> []"
  defines "i \<equiv> bsearch (\<lambda>i. k \<le> fst (ring ! i)) 0 (length ring)"
  shows "\<exists>vn \<in> set ring. ring ! (if length ring \<le> i then 0 else i) = vn \<and> next_hash k (fst ` set ring) (fst vn)"
proof -
  have mono: "fst (ring ! a) \<le> fst (ring ! b)" if "a \<le> b" "b < length ring" for a b
    using sorted_nth_mono [OF assms(1), of a b] that by simp
  have s: "i \<le> length ring" "\<And>j. j < i \<Longrightarrow> \<not> k \<le> fst (ring ! j)" "i < length ring \<Longrightarrow> k \<le> fst (ring ! i)"
    using bsearch_first [of 0 "length ring" "\<lambda>i. k \<le> fst (ring ! i)"] mono unfolding i_def
    by (meson order_trans zero_le)+
  let ?j = "if length ring \<le> i then 0 else i"
  have j: "?j < length ring" using assms(2) by simp
  have "next_hash k (fst ` set ring) (fst (ring ! ?j))"
  proof (cases "i < length ring")
    case True
    then have "k \<le> fst (ring ! i)" by (rule s(3))
    moreover have "fst (ring ! i) \<le> fst g" if g: "g \<in> set ring" "k \<le> fst g" for g
    proof -
      obtain b where b: "g = ring ! b" "b < length ring" using g(1) by (metis in_set_conv_nth)
      then have "i \<le> b" using s(2) g(2) by (metis not_le_imp_less)
      with b show ?thesis using mono by simp
    qed
    ultimately show ?thesis using True j by (auto simp: next_hash_def)
  next
    case False
    then have "\<not> k \<le> fst g" if "g \<in> set ring" for g
      using that s(1,2) by (metis in_set_conv_nth le_antisym not_le_imp_less)
    moreover have "fst (ring ! 0) \<le> fst g" if "g \<in> set ring" for g
      using that mono by (metis in_set_conv_nth zero_le)
    ultimately show ?thesis using False j by (auto simp: next_hash_def)
  qed
  with j show ?thesis by (meson nth_mem)
qed

lemma consistentHash_owner:
  assumes "sorts_ring srt" "xs \<noteq> []" "k = hash (if key = [] then rnd else key)"
  shows "\<exists>x v. consistentHash hash srt rnd xs key = x \<and> x \<in> set xs \<and> v < 160 \<and>
    next_hash k (ring_hashes hash xs) (inst_hash hash x v)"
proof -
  let ?ring = "srt (vnodes hash xs)"
  have m: "mset ?ring = mset (vnodes hash xs)" and srt: "sorted (map fst ?ring)"
    using assms(1) by (simp_all add: sorts_ring_def)
  then have set: "set ?ring = set (vnodes hash xs)" by (metis set_mset_mset)
  have "(inst_hash hash (xs ! 0) 0, 0) \<in> set (vnodes hash xs)" using assms(2) by (auto simp: set_vnodes)
  then have ne: "?ring \<noteq> []" using set by auto
  from ring_search [OF srt ne, of k] obtain vn where vn: "vn \<in> set (vnodes hash xs)"
    "consistentHash hash srt rnd xs key = xs ! snd vn" "next_hash k (ring_hashes hash xs) (fst vn)"
    unfolding set fst_vnodes consistentHash_def Let_def assms(3) [symmetric] by blast
  then obtain i v where iv: "vn = (inst_hash hash (xs ! i) v, i)" "i < length xs" "v < 160"
    by (auto simp: set_vnodes)
  with vn(2,3) show ?thesis by (intro exI [of _ "xs ! i"] exI [of _ v]) simp
qed

text \<open>
  C24. Consistent hashing moves no key needlessly: if a key is served by an instance that
  stays, it is served by the same instance after any other instances have gone,
  in whatever order the list then comes. (Hashes of different instances must not coincide.)
\<close>
theorem hash_minimal_disruption:
  assumes "sorts_ring srt" "ys \<noteq> []" "set ys \<subseteq> set xs"
    and "x = consistentHash hash srt rnd xs key" "x \<in> set ys"
    and "\<And>a b v w. a \<in> set xs \<Longrightarrow> b \<in> set xs \<Longrightarrow> v < 160 \<Longrightarrow> w < 160 \<Longrightarrow>
           inst_hash hash a v = inst_hash hash b w \<Longrightarrow> a = b"
  shows "consistentHash hash srt rnd ys key = x"
proof -
  let ?k = "hash (if key = [] then rnd else key)"
  have "xs \<noteq> []" using assms(2,3) by auto
  from consistentHash_owner [OF assms(1) this, where key = key and hash = hash and rnd = rnd, OF refl]
  obtain v where v: "x \<in> set xs" "v < 160" "next_hash ?k (ring_hashes hash xs) (inst_hash hash x v)"
    unfolding assms(4) by blast
  from consistentHash_owner [OF assms(1,2), where key = key and hash = hash and rnd = rnd, OF refl]
  obtain y w where y: "consistentHash hash srt rnd ys key = y" "y \<in> set ys" "w < 160"
    "next_hash ?k (ring_hashes hash ys) (inst_hash hash y w)" by blast
  have "ring_hashes hash ys \<subseteq> ring_hashes hash xs" using assms(3) by (auto simp: ring_hashes_def)
  moreover have "inst_hash hash x v \<in> ring_hashes hash ys" using assms(5) v(2) by (auto simp: ring_hashes_def)
  ultimately have "next_hash ?k (ring_hashes hash ys) (inst_hash hash x v)"
    using next_hash_subset v(3) by blast
  then have "inst_hash hash y w = inst_hash hash x v" using next_hash_unique y(4) by blast
  then show ?thesis using assms(6) y v assms(3) by blast
qed

text \<open>A checksum that looks at the first character: two instances, one of which goes.\<close>

definition first_char :: "string \<Rightarrow> 32 word" where
  "first_char s = (case s of [] \<Rightarrow> 0 | c # _ \<Rightarrow> of_char c)"

lemma sort_key_sorts: "sorts_ring (sort_key fst)"
  by (simp add: sorts_ring_def)

theorem hash_minimal_disruption_witness:
  "consistentHash first_char (sort_key fst) [] [cl_inst ''1'', cl_inst ''2''] ''2x'' = cl_inst ''2'' \<and>
   consistentHash first_char (sort_key fst) [] [cl_inst ''2''] ''2x'' = cl_inst ''2''"
proof -
  have h: "inst_hash first_char (cl_inst [c]) v = of_char c" for c v
    by (simp add: inst_hash_def inst_addr_def first_char_def cl_inst_def)
  have ne: "cl_inst ''1'' \<noteq> cl_inst ''2''" by (simp add: cl_inst_def)
  let ?xs = "[cl_inst ''1'', cl_inst ''2'']"
  have "\<exists>x v. consistentHash first_char (sort_key fst) [] ?xs ''2x'' = x \<and> x \<in> set ?xs \<and> v < 160 \<and>
      next_hash (first_char (if ''2x'' = [] then [] else ''2x'')) (ring_hashes first_char ?xs) (inst_hash first_char x v)"
    by (rule consistentHash_owner [OF sort_key_sorts _ refl]) simp
  then obtain x v where x: "consistentHash first_char (sort_key fst) [] ?xs ''2x'' = x" "x \<in> set ?xs"
    "next_hash 50 (ring_hashes first_char ?xs) (inst_hash first_char x v)"
    by (auto simp: first_char_def)
  have "inst_hash first_char (cl_inst ''2'') 0 \<in> ring_hashes first_char ?xs"
    unfolding ring_hashes_def by (intro CollectI exI [of _ "cl_inst ''2''"] exI [of _ 0]) simp
  then have "50 \<le> inst_hash first_char x v"
    using x(3) h [of "CHR ''2''" 0] by (auto simp: next_hash_def split: if_splits)
  then have 2: "x = cl_inst ''2''" using x(2) h [of "CHR ''1''" v] by auto
  have "consistentHash first_char (sort_key fst) [] [cl_inst ''2''] ''2x'' = cl_inst ''2''"
    by (rule hash_minimal_disruption [OF sort_key_sorts, where xs = ?xs])
       (use x(1) 2 h in \<open>auto simp: ne\<close>)
  with x(1) 2 show ?thesis by simp
qed

section \<open>Heartbeats\<close>

text \<open>Starting twice is starting once, and stopping everything closes every running loop.\<close>

lemma start_idem: "StartAutoHeartbeat key (StartAutoHeartbeat key c) = StartAutoHeartbeat key c"
  by (simp add: StartAutoHeartbeat_def)

lemma stop_removes: "map_of (clBeats (StopAutoHeartbeat key c)) key = None"
  by (auto simp: StopAutoHeartbeat_def map_of_eq_None_iff split: option.split)

lemma stop_all_closes: "set (map snd (clBeats c)) \<subseteq> set (clClosed (StopAllHeartbeats c)) \<and> clBeats (StopAllHeartbeats c) = []"
  by (auto simp: StopAllHeartbeats_def)

end
