(* ===== verification/ClientConn.thy ===== *)
theory ClientConn
  imports Client
begin

text \<open>
  The two optional connections of a client (\<^verbatim>\<open>ConnectTCP\<close>, \<^verbatim>\<open>CloseTCP\<close> in
  \<^verbatim>\<open>src/pkg/client/tcp.go\<close>, \<^verbatim>\<open>ConnectGRPC\<close>, \<^verbatim>\<open>CloseGRPC\<close>, \<^verbatim>\<open>HasGRPC\<close> in
  \<^verbatim>\<open>src/pkg/client/grpc.go\<close>). A connection is a number; the client holds at most one of each
  kind and \<open>coClosed\<close> lists the connections it has closed. What a dial returns, an error or a
  new connection, is an argument.
\<close>

record conns =
  coTcp :: "nat option"
  coGrpc :: "nat option"
  coClosed :: "nat list"

text \<open>The errors of the calls over a connection.\<close>

datatype conn_err =
    NotConnected
  | DialFailed string
  | WriteFailed string
  | ReadFailed string
  | Refused string
  | BadJson string
  | NoHealthyInstance

definition close_conn :: "nat option \<Rightarrow> conns \<Rightarrow> conns" where
  "close_conn c C = (case c of None \<Rightarrow> C | Some n \<Rightarrow> C\<lparr>coClosed := n # coClosed C\<rparr>)"

definition ConnectTCP :: "string + nat \<Rightarrow> conns \<Rightarrow> conns \<times> conn_err option" where
  "ConnectTCP dial C =
     (let C1 = close_conn (coTcp C) C
      in case dial of Inl e \<Rightarrow> (C1, Some (DialFailed e)) | Inr n \<Rightarrow> (C1\<lparr>coTcp := Some n\<rparr>, None))"

definition CloseTCP :: "conns \<Rightarrow> conns" where
  "CloseTCP C = (close_conn (coTcp C) C)\<lparr>coTcp := None\<rparr>"

definition ConnectGRPC :: "string + nat \<Rightarrow> conns \<Rightarrow> conns \<times> conn_err option" where
  "ConnectGRPC dial C =
     (let C1 = close_conn (coGrpc C) C
      in case dial of Inl e \<Rightarrow> (C1, Some (DialFailed e)) | Inr n \<Rightarrow> (C1\<lparr>coGrpc := Some n\<rparr>, None))"

definition CloseGRPC :: "conns \<Rightarrow> conns" where
  "CloseGRPC C = (close_conn (coGrpc C) C)\<lparr>coGrpc := None\<rparr>"

definition HasGRPC :: "conns \<Rightarrow> bool" where
  "HasGRPC C \<longleftrightarrow> coGrpc C \<noteq> None"

section \<open>Sequences of operations\<close>

datatype conn_op = OpenTcp "string + nat" | ShutTcp | OpenGrpc "string + nat" | ShutGrpc

fun conn_run :: "conn_op list \<Rightarrow> conns \<Rightarrow> conns" where
  "conn_run [] C = C"
| "conn_run (OpenTcp d # ops) C = conn_run ops (fst (ConnectTCP d C))"
| "conn_run (ShutTcp # ops) C = conn_run ops (CloseTCP C)"
| "conn_run (OpenGrpc d # ops) C = conn_run ops (fst (ConnectGRPC d C))"
| "conn_run (ShutGrpc # ops) C = conn_run ops (CloseGRPC C)"

fun dialled :: "conn_op list \<Rightarrow> nat list" where
  "dialled (OpenTcp (Inr n) # ops) = n # dialled ops"
| "dialled (OpenGrpc (Inr n) # ops) = n # dialled ops"
| "dialled (_ # ops) = dialled ops"
| "dialled [] = []"

definition no_conns :: conns where
  "no_conns = \<lparr>coTcp = None, coGrpc = None, coClosed = []\<rparr>"

definition held :: "conns \<Rightarrow> nat set" where
  "held C = set_option (coTcp C) \<union> set_option (coGrpc C) \<union> set (coClosed C)"

lemmas conn_defs = ConnectTCP_def CloseTCP_def ConnectGRPC_def CloseGRPC_def close_conn_def held_def

lemma held_ops:
  "held (fst (ConnectTCP d C)) = held C \<union> set (dialled [OpenTcp d])"
  "held (CloseTCP C) = held C"
  "held (fst (ConnectGRPC d C)) = held C \<union> set (dialled [OpenGrpc d])"
  "held (CloseGRPC C) = held C"
  by (auto simp: conn_defs Let_def split: option.splits sum.splits)

lemma dialled_Cons: "dialled (op # ops) = dialled [op] @ dialled ops"
  by (cases op rule: conn_op.exhaust) (auto split: sum.splits simp: dialled.simps elim: sum.exhaust, (metis dialled.simps sumE append_Cons append_Nil)+)

lemma held_run: "held (conn_run ops C) = held C \<union> set (dialled ops)"
proof (induction ops arbitrary: C)
  case (Cons op ops)
  show ?case
    by (subst dialled_Cons) (cases op; simp add: Cons held_ops Un_assoc)
qed simp

text \<open>
  No connection leaks: after any sequence of connecting and disconnecting, every
  connection that was ever established is closed or is the one the client holds; and once
  the client has disconnected both, all of them are closed.
\<close>
theorem no_connection_leaks:
  "set (dialled ops) \<subseteq> held (conn_run ops no_conns) \<and>
   set (dialled ops) = set (coClosed (CloseGRPC (CloseTCP (conn_run ops no_conns))))"
proof -
  have h: "held (conn_run ops no_conns) = set (dialled ops)"
    by (simp add: held_run) (simp add: no_conns_def held_def)
  have "set (coClosed (CloseGRPC (CloseTCP C))) = held C" for C
    by (auto simp: conn_defs split: option.splits)
  with h show ?thesis by simp
qed

text \<open>
  A reconnection that fails leaves the client holding the connection it has just closed:
  \<^verbatim>\<open>HasGRPC\<close> still answers true, and the calls go to a closed connection.
\<close>
theorem failed_reconnect_keeps_closed:
  assumes "coGrpc C = Some n" "ConnectGRPC (Inl e) C = (C', r)"
  shows "r = Some (DialFailed e) \<and> HasGRPC C' \<and> coGrpc C' = Some n \<and> n \<in> set (coClosed C')"
  using assms by (auto simp: conn_defs HasGRPC_def)

theorem failed_reconnect_keeps_closed_witness:
  "HasGRPC (fst (ConnectGRPC (Inl ''refused'') \<lparr>coTcp = None, coGrpc = Some 1, coClosed = []\<rparr>))"
proof -
  let ?C = "\<lparr>coTcp = None, coGrpc = Some 1, coClosed = []\<rparr>"
  have "ConnectGRPC (Inl ''refused'') ?C = (fst (ConnectGRPC (Inl ''refused'') ?C), snd (ConnectGRPC (Inl ''refused'') ?C))"
    by simp
  from failed_reconnect_keeps_closed [OF _ this, of 1] show ?thesis by simp
qed

end
