(* ===== verification/TcpClient.thy ===== *)
theory TcpClient
  imports ClientConn GoJson
begin

text \<open>
  \<^verbatim>\<open>src/pkg/client/tcp.go\<close>: the calls of the SDK over the line protocol. A call is the line it
  writes and what it makes of the line it reads; \<open>net n l\<close> is what connection \<open>n\<close> does with
  the text \<open>l\<close>: the write fails, the read fails, or a text up to a newline comes back. The
  text of a float, its parsing and the wording of a JSON error are parameters.
\<close>

datatype tcp_io = WriteError string | ReadError string | ReadText string

type_synonym tcp_net = "nat \<Rightarrow> string \<Rightarrow> tcp_io"

definition tcpSend :: "tcp_net \<Rightarrow> conns \<Rightarrow> string \<Rightarrow> string \<Rightarrow> conn_err + string" where
  "tcpSend net C cmd payload =
     (case coTcp C of
        None \<Rightarrow> Inl NotConnected
      | Some n \<Rightarrow>
          (case net n (cmd @ '' '' @ payload @ [CHR 0x0A]) of
             WriteError e \<Rightarrow> Inl (WriteFailed e)
           | ReadError e \<Rightarrow> Inl (ReadFailed e)
           | ReadText t \<Rightarrow>
               (let resp = trim_space t
                in if has_prefix resp ''ERR '' then Inl (Refused (drop 4 resp))
                   else if has_prefix resp ''OK '' then Inr (drop 3 resp) else Inr resp)))"

section \<open>Payloads\<close>

text \<open>
  \<^verbatim>\<open>json.Marshal\<close> of a map: the members sorted by key. A float that is not finite is an
  error, which the callers ignore: the payload is empty then.
\<close>

fun text_le :: "string \<Rightarrow> string \<Rightarrow> bool" where
  "text_le [] _ = True"
| "text_le (_ # _) [] = False"
| "text_le (a # s) (b # t) = (byte a < byte b \<or> (a = b \<and> text_le s t))"

fun insert_member :: "string \<times> jval \<Rightarrow> (string \<times> jval) list \<Rightarrow> (string \<times> jval) list" where
  "insert_member m [] = [m]"
| "insert_member m (n # ms) = (if text_le (fst m) (fst n) then m # n # ms else n # insert_member m ms)"

definition sort_members :: "(string \<times> jval) list \<Rightarrow> (string \<times> jval) list" where
  "sort_members ms = foldr insert_member ms []"

definition map_payload :: "(string \<times> jval) list \<Rightarrow> string" where
  "map_payload ms = json_text (VObj (sort_members ms))"

definition json_float :: "(f64 \<Rightarrow> string) \<Rightarrow> f64 \<Rightarrow> jval option" where
  "json_float fmt w = (case w of Fin _ \<Rightarrow> Some (VNum (fmt w)) | _ \<Rightarrow> None)"

definition inst_members :: "string \<Rightarrow> string \<Rightarrow> string \<Rightarrow> string \<Rightarrow> string \<Rightarrow> int \<Rightarrow> (string \<times> jval) list" where
  "inst_members ns grp svc cl ip port =
     [(''namespaceId'', VStr (withDefault ns ''public'')), (''groupName'', VStr (withDefault grp ''DEFAULT_GROUP'')),
      (''serviceName'', VStr svc), (''clusterName'', VStr (withDefault cl ''DEFAULT'')), (''ip'', VStr ip),
      (''port'', VNum (itoa port))]"

definition register_payload :: "(f64 \<Rightarrow> string) \<Rightarrow> RegisterOptions \<Rightarrow> string" where
  "register_payload fmt opts =
     (case json_float fmt (roWeight opts) of
        None \<Rightarrow> []
      | Some w \<Rightarrow> map_payload
          (inst_members (roNamespaceID opts) (roGroupName opts) (roServiceName opts) (roClusterName opts) (roIP opts)
             (roPort opts) @
           [(''weight'', w), (''ephemeral'', VBool (roEphemeral opts)),
            (''metadata'', VStr (withDefault (roMetadata opts) ''{}''))]))"

definition cfg_members :: "string \<Rightarrow> string \<Rightarrow> string \<Rightarrow> (string \<times> jval) list" where
  "cfg_members ns grp did =
     [(''namespaceId'', VStr (withDefault ns ''public'')), (''groupName'', VStr (withDefault grp ''DEFAULT_GROUP'')),
      (''dataId'', VStr did)]"

definition report_members :: "string \<Rightarrow> string \<Rightarrow> string \<Rightarrow> string \<Rightarrow> int \<Rightarrow> (string \<times> jval) list" where
  "report_members ns grp svc ip port =
     [(''namespaceId'', VStr (withDefault ns ''public'')), (''groupName'', VStr (withDefault grp ''DEFAULT_GROUP'')),
      (''serviceName'', VStr svc), (''ip'', VStr ip), (''port'', VNum (itoa port))]"

definition sent :: "conn_err + string \<Rightarrow> conn_err option" where
  "sent r = (case r of Inl e \<Rightarrow> Some e | Inr _ \<Rightarrow> None)"

section \<open>Services\<close>

definition TCPRegisterInstance :: "(f64 \<Rightarrow> string) \<Rightarrow> RegisterOptions \<Rightarrow> tcp_net \<Rightarrow> conns \<Rightarrow> conn_err option" where
  "TCPRegisterInstance fmt opts net C = sent (tcpSend net C ''REGISTER'' (register_payload fmt opts))"

definition TCPDeregisterInstance ::
  "string \<Rightarrow> string \<Rightarrow> string \<Rightarrow> string \<Rightarrow> string \<Rightarrow> int \<Rightarrow> tcp_net \<Rightarrow> conns \<Rightarrow> conn_err option" where
  "TCPDeregisterInstance ns grp svc cl ip port net C =
     sent (tcpSend net C ''DEREGISTER'' (map_payload (inst_members ns grp svc cl ip port)))"

definition TCPSendHeartbeat ::
  "string \<Rightarrow> string \<Rightarrow> string \<Rightarrow> string \<Rightarrow> string \<Rightarrow> int \<Rightarrow> tcp_net \<Rightarrow> conns \<Rightarrow> conn_err option" where
  "TCPSendHeartbeat ns grp svc cl ip port net C =
     sent (tcpSend net C ''HEARTBEAT'' (map_payload (inst_members ns grp svc cl ip port)))"

text \<open>\<^verbatim>\<open>json.Unmarshal\<close> into an \<^verbatim>\<open>Instance\<close>, and into a slice of them.\<close>

definition zero_Instance :: Instance where
  "zero_Instance = \<lparr>inID = 0, inNamespaceID = [], inGroupName = [], inServiceName = [], inClusterName = [],
     inIP = [], inPort = 0, inWeight = 0, inHealthy = False, inEnabled = False, inEphemeral = False, inMetadata = []\<rparr>"

definition read_Instance :: "(string \<Rightarrow> f64 option) \<Rightarrow> (string \<times> jval) list \<Rightarrow> Instance option" where
  "read_Instance pf ms =
     (case (field dec_uint 0 ''id'' ms, str_field ''namespaceId'' ms, str_field ''groupName'' ms,
            str_field ''serviceName'' ms, str_field ''clusterName'' ms, str_field ''ip'' ms, int_field ''port'' ms,
            field (dec_float pf) 0 ''weight'' ms, bool_field ''healthy'' ms, bool_field ''enabled'' ms,
            bool_field ''ephemeral'' ms, str_field ''metadata'' ms) of
        (Some i, Some ns, Some grp, Some svc, Some cl, Some ip, Some port, Some w, Some he, Some en, Some eph, Some meta) \<Rightarrow>
          Some \<lparr>inID = i, inNamespaceID = ns, inGroupName = grp, inServiceName = svc, inClusterName = cl, inIP = ip,
            inPort = port, inWeight = w, inHealthy = he, inEnabled = en, inEphemeral = eph, inMetadata = meta\<rparr>
      | _ \<Rightarrow> None)"

definition dec_Instance :: "(string \<Rightarrow> f64 option) \<Rightarrow> jval \<Rightarrow> Instance option" where
  "dec_Instance pf v =
     (case v of VNull \<Rightarrow> Some zero_Instance | VObj ms \<Rightarrow> read_Instance pf ms | _ \<Rightarrow> None)"

fun all_some :: "'a option list \<Rightarrow> 'a list option" where
  "all_some [] = Some []"
| "all_some (x # xs) = Option.bind x (\<lambda>a. map_option ((#) a) (all_some xs))"

definition read_Instances :: "(string \<Rightarrow> f64 option) \<Rightarrow> string \<Rightarrow> Instance list option" where
  "read_Instances pf data =
     (case json_parse data of
        Some VNull \<Rightarrow> Some []
      | Some (VArr vs) \<Rightarrow> all_some (map (dec_Instance pf) vs)
      | _ \<Rightarrow> None)"

definition TCPGetInstances ::
  "(string \<Rightarrow> f64 option) \<Rightarrow> (string \<Rightarrow> string) \<Rightarrow> string \<Rightarrow> string \<Rightarrow> string \<Rightarrow> bool \<Rightarrow> tcp_net \<Rightarrow> conns
   \<Rightarrow> conn_err + Instance list" where
  "TCPGetInstances pf jerr ns grp svc healthyOnly net C =
     (case tcpSend net C ''DISCOVER'' (map_payload
             [(''namespaceId'', VStr (withDefault ns ''public'')), (''groupName'', VStr (withDefault grp ''DEFAULT_GROUP'')),
              (''serviceName'', VStr svc), (''healthyOnly'', VBool healthyOnly)]) of
        Inl e \<Rightarrow> Inl e
      | Inr data \<Rightarrow> (case read_Instances pf data of None \<Rightarrow> Inl (BadJson (jerr data)) | Some xs \<Rightarrow> Inr xs))"

text \<open>The choice is the one of the HTTP client (\<^const>\<open>pick_by\<close>), without a hash key.\<close>

definition TCPSelectInstance ::
  "(vnode list \<Rightarrow> vnode list) \<Rightarrow> lb_rand \<Rightarrow> (string \<Rightarrow> f64 option) \<Rightarrow> (string \<Rightarrow> string) \<Rightarrow> string \<Rightarrow> string \<Rightarrow> string
   \<Rightarrow> int \<Rightarrow> tcp_net \<Rightarrow> conns \<Rightarrow> client \<Rightarrow> client \<times> (conn_err + Instance option)" where
  "TCPSelectInstance srt rnd pf jerr ns grp svc strategy net C c =
     (case TCPGetInstances pf jerr ns grp svc True net C of
        Inl e \<Rightarrow> (c, Inl e)
      | Inr xs \<Rightarrow>
          if xs = [] then (c, Inl NoHealthyInstance)
          else map_prod id Inr (pick_by srt rnd strategy (ns @ ''#'' @ grp @ ''#'' @ svc) [] xs c))"

section \<open>Configurations\<close>

definition read_CfgItem :: "(string \<times> jval) list \<Rightarrow> CfgItem option" where
  "read_CfgItem ms =
     (case (str_field ''namespaceId'' ms, str_field ''groupName'' ms, str_field ''dataId'' ms, str_field ''content'' ms,
            str_field ''md5'' ms, str_field ''type'' ms) of
        (Some ns, Some grp, Some did, Some content, Some md5sum, Some typ) \<Rightarrow>
          Some \<lparr>cgNamespaceID = ns, cgGroupName = grp, cgDataID = did, cgContent = content, cgMD5 = md5sum, cgType = typ\<rparr>
      | _ \<Rightarrow> None)"

definition TCPGetConfig ::
  "(string \<Rightarrow> string) \<Rightarrow> string \<Rightarrow> string \<Rightarrow> string \<Rightarrow> tcp_net \<Rightarrow> conns \<Rightarrow> conn_err + CfgItem" where
  "TCPGetConfig jerr ns grp did net C =
     (case tcpSend net C ''CONFIG_GET'' (map_payload (cfg_members ns grp did)) of
        Inl e \<Rightarrow> Inl e
      | Inr data \<Rightarrow>
          (case Option.bind (text_members data) read_CfgItem of None \<Rightarrow> Inl (BadJson (jerr data)) | Some it \<Rightarrow> Inr it))"

definition TCPPublishConfig ::
  "string \<Rightarrow> string \<Rightarrow> string \<Rightarrow> string \<Rightarrow> string \<Rightarrow> tcp_net \<Rightarrow> conns \<Rightarrow> conn_err option" where
  "TCPPublishConfig ns grp did content typ net C =
     sent (tcpSend net C ''CONFIG_PUB'' (map_payload
       (cfg_members ns grp did @ [(''content'', VStr content), (''type'', VStr (withDefault typ ''text''))])))"

definition TCPDeleteConfig :: "string \<Rightarrow> string \<Rightarrow> string \<Rightarrow> tcp_net \<Rightarrow> conns \<Rightarrow> conn_err option" where
  "TCPDeleteConfig ns grp did net C = sent (tcpSend net C ''CONFIG_DEL'' (map_payload (cfg_members ns grp did)))"

section \<open>Reports\<close>

definition TCPReportSuccess :: "string \<Rightarrow> string \<Rightarrow> string \<Rightarrow> string \<Rightarrow> int \<Rightarrow> tcp_net \<Rightarrow> conns \<Rightarrow> conn_err option" where
  "TCPReportSuccess ns grp svc ip port net C =
     sent (tcpSend net C ''HEALTH_OK'' (map_payload (report_members ns grp svc ip port)))"

definition TCPReportFailure :: "string \<Rightarrow> string \<Rightarrow> string \<Rightarrow> string \<Rightarrow> int \<Rightarrow> tcp_net \<Rightarrow> conns \<Rightarrow> conn_err option" where
  "TCPReportFailure ns grp svc ip port net C =
     sent (tcpSend net C ''HEALTH_FAIL'' (map_payload (report_members ns grp svc ip port)))"

definition TCPPing :: "tcp_net \<Rightarrow> conns \<Rightarrow> conn_err + string" where
  "TCPPing net C = tcpSend net C ''PING'' ''{}''"

section \<open>Payload lemmas\<close>

lemma mset_insert_member: "mset (insert_member m ms) = add_mset m (mset ms)"
  by (induction ms) simp_all

lemma mset_sort_members: "mset (sort_members ms) = mset ms"
  unfolding sort_members_def by (induction ms) (simp_all add: mset_insert_member)

lemma set_sort_members: "set (sort_members ms) = set ms"
  using mset_sort_members by (metis set_mset_mset)

text \<open>A field of the decoded map is found by its key wherever the sorting has put it.\<close>

lemma field_sort_members:
  assumes "(k, v) \<in> set ms" "is_field name k" "v \<noteq> VNull"
    and "\<And>k' v'. (k', v') \<in># mset ms - {#(k, v)#} \<Longrightarrow> \<not> is_field name k'"
  shows "field dec z name (sort_members ms) = dec v"
proof -
  have "(k, v) \<in> set (sort_members ms)" using assms(1) by (simp add: set_sort_members)
  then obtain ms1 ms2 where ms: "sort_members ms = ms1 @ (k, v) # ms2" by (meson split_list)
  then have "mset ms - {#(k, v)#} = mset ms1 + mset ms2" 
    using mset_sort_members [of ms] by (metis add_mset_remove_trivial add_mset_add_single mset.simps(2) mset_append union_mset_add_mset_right)
  then have "(k', v') \<in># mset ms - {#(k, v)#}" if "(k', v') \<in> set ms1 \<union> set ms2" for k' v'
    using that by auto
  with assms(4) have "\<forall>m \<in> set ms1 \<union> set ms2. \<not> is_field name (fst m)" by (metis prod.collapse)
  then show ?thesis by (rule field_present [OF ms assms(2,3)])
qed

lemma payload_members:
  assumes "json_ok 10000 (VObj ms)"
  shows "text_members (map_payload ms) = Some (sort_members ms)" "printable (map_payload ms)"
proof -
  have ok: "json_ok 10000 (VObj (sort_members ms))" using assms by (simp add: set_sort_members)
  show "text_members (map_payload ms) = Some (sort_members ms)"
    by (simp add: text_members_def map_payload_def json_roundtrip [OF ok] del: json_text.simps)
  show "printable (map_payload ms)" unfolding map_payload_def by (rule printable_json [OF ok])
qed

end
