(* ===== verification/GrpcServer.thy ===== *)
theory GrpcServer
  imports App "HOL-Library.Word"
begin

text \<open>
  \<^verbatim>\<open>src/pkg/grpcserver/server.go\<close>: the gRPC services. The messages are the structs that
  protoc generates (their bookkeeping fields left out), with \<^verbatim>\<open>int32\<close> as a word of 32 bits
  read with its sign. A method returns a response or a status; what lies between a
  call of the client and the method is in \<^verbatim>\<open>GrpcStubs\<close>.
\<close>

section \<open>Messages\<close>

record RegisterInstanceRequest =
  rgqNamespaceId :: string
  rgqGroupName :: string
  rgqServiceName :: string
  rgqClusterName :: string
  rgqIp :: string
  rgqPort :: "32 word"
  rgqWeight :: f64
  rgqEphemeral :: bool
  rgqMetadata :: string

text \<open>\<^verbatim>\<open>DeregisterInstanceRequest\<close> and \<^verbatim>\<open>HeartbeatRequest\<close> have the same fields.\<close>

record DeregisterInstanceRequest =
  dqNamespaceId :: string
  dqGroupName :: string
  dqServiceName :: string
  dqClusterName :: string
  dqIp :: string
  dqPort :: "32 word"

record InstanceQuery =
  iqNamespaceId :: string
  iqGroupName :: string
  iqServiceName :: string
  iqHealthyOnly :: bool
  iqClusters :: string

record InstanceInfo =
  iiId :: nat
  iiNamespaceId :: string
  iiGroupName :: string
  iiServiceName :: string
  iiClusterName :: string
  iiIp :: string
  iiPort :: "32 word"
  iiWeight :: f64
  iiHealthy :: bool
  iiEnabled :: bool
  iiEphemeral :: bool
  iiMetadata :: string

record InstanceListResponse =
  ilInstances :: "InstanceInfo list"
  ilCount :: "32 word"

record ConfigQuery =
  cqNamespaceId :: string
  cqGroupName :: string
  cqDataId :: string

record ConfigPublishRequest =
  pqNamespaceId :: string
  pqGroupName :: string
  pqDataId :: string
  pqContent :: string
  pqType :: string

record ConfigInfo =
  giNamespaceId :: string
  giGroupName :: string
  giDataId :: string
  giContent :: string
  giMd5 :: string
  giType :: string

record ConfigListenRequest =
  lqNamespaceId :: string
  lqGroupName :: string
  lqDataId :: string
  lqMd5 :: string

record ConfigChangedResponse =
  ccChanged :: bool
  ccContent :: string
  ccMd5 :: string

record HealthReportRequest =
  hqNamespaceId :: string
  hqGroupName :: string
  hqServiceName :: string
  hqIp :: string
  hqPort :: "32 word"

record Response =
  rpCode :: "32 word"
  rpMessage :: string

text \<open>A status: the codes the server uses, and those of the transport.\<close>

datatype grpc_code = InvalidArgument | Internal | NotFound | OtherCode nat

type_synonym grpc_status = "grpc_code \<times> string"

definition resp_ok :: Response where
  "resp_ok = \<lparr>rpCode = 0, rpMessage = ''ok''\<rparr>"

definition defaultVal :: "string \<Rightarrow> string \<Rightarrow> string" where
  "defaultVal v d = (if v = [] then d else v)"

definition status_of :: "grpc_code \<Rightarrow> err + 'a \<Rightarrow> grpc_status + Response" where
  "status_of code r = (case r of Inl e \<Rightarrow> Inl (code, err_text e) | Inr _ \<Rightarrow> Inr resp_ok)"

section \<open>Naming service\<close>

definition rpc_instance :: "RegisterInstanceRequest \<Rightarrow> ServiceInstance" where
  "rpc_instance q = zero_inst\<lparr>
     siNamespaceID := defaultVal (rgqNamespaceId q) ''public'',
     siGroupName := defaultVal (rgqGroupName q) ''DEFAULT_GROUP'',
     siServiceName := rgqServiceName q,
     siClusterName := defaultVal (rgqClusterName q) ''DEFAULT'',
     siIP := rgqIp q, siPort := sint (rgqPort q), siWeight := rgqWeight q, siEphemeral := rgqEphemeral q,
     siMetadata := defaultVal (rgqMetadata q) ''{}''\<rparr>"

definition grpc_RegisterInstance ::
  "clocks \<Rightarrow> RegisterInstanceRequest \<Rightarrow> ('i, 's, 'c, 'h, 'n, 'd) app
   \<Rightarrow> ('i, 's, 'c, 'h, 'n, 'd) app \<times> (grpc_status + Response)" where
  "grpc_RegisterInstance ck q A =
     map_prod id (status_of InvalidArgument) (with_registry (RegisterInstance (ckBeat ck) (rpc_instance q)) A)"

definition rpc_key :: "DeregisterInstanceRequest \<Rightarrow> inst_key" where
  "rpc_key q = (defaultVal (dqNamespaceId q) ''public'', defaultVal (dqGroupName q) ''DEFAULT_GROUP'',
     dqServiceName q, defaultVal (dqClusterName q) ''DEFAULT'', dqIp q, sint (dqPort q))"

definition grpc_DeregisterInstance ::
  "DeregisterInstanceRequest \<Rightarrow> ('i, 's, 'c, 'h, 'n, 'd) app
   \<Rightarrow> ('i, 's, 'c, 'h, 'n, 'd) app \<times> (grpc_status + Response)" where
  "grpc_DeregisterInstance q A =
     map_prod id (status_of Internal) (with_registry (DeregisterInstance (rpc_key q)) A)"

definition grpc_Heartbeat ::
  "DeregisterInstanceRequest \<Rightarrow> ('i, 's, 'c, 'h, 'n, 'd) app
   \<Rightarrow> ('i, 's, 'c, 'h, 'n, 'd) app \<times> (grpc_status + Response)" where
  "grpc_Heartbeat q A = map_prod id (status_of Internal) (with_registry (Heartbeat (rpc_key q)) A)"

definition toProtoInstance :: "ServiceInstance \<Rightarrow> InstanceInfo" where
  "toProtoInstance x = \<lparr>iiId = siID x, iiNamespaceId = siNamespaceID x, iiGroupName = siGroupName x,
     iiServiceName = siServiceName x, iiClusterName = siClusterName x, iiIp = siIP x,
     iiPort = word_of_int (siPort x), iiWeight = siWeight x, iiHealthy = siHealthy x,
     iiEnabled = siEnabled x, iiEphemeral = siEphemeral x, iiMetadata = siMetadata x\<rparr>"

definition grpc_GetInstances ::
  "InstanceQuery \<Rightarrow> ('i, 's, 'c, 'h, 'n, 'd) app \<Rightarrow> grpc_status + InstanceListResponse" where
  "grpc_GetInstances q A =
     (case GetInstances (defaultVal (iqNamespaceId q) ''public'') (defaultVal (iqGroupName q) ''DEFAULT_GROUP'')
             (iqServiceName q) (ParseClusters (iqClusters q)) (iqHealthyOnly q) (registry_of A) of
        Inl e \<Rightarrow> Inl (Internal, err_text e)
      | Inr xs \<Rightarrow> Inr \<lparr>ilInstances = map toProtoInstance xs, ilCount = of_nat (length xs)\<rparr>)"

section \<open>Configuration service\<close>

definition grpc_GetConfig :: "ConfigQuery \<Rightarrow> ('i, 's, 'c, 'h, 'n, 'd) app \<Rightarrow> grpc_status + ConfigInfo" where
  "grpc_GetConfig q A =
     (case GetConfig (defaultVal (cqNamespaceId q) ''public'') (defaultVal (cqGroupName q) ''DEFAULT_GROUP'')
             (cqDataId q) (config_of A) of
        Inl e \<Rightarrow> Inl (NotFound, ''config not found'')
      | Inr it \<Rightarrow> Inr \<lparr>giNamespaceId = ciNamespaceID it, giGroupName = ciGroupName it, giDataId = ciDataID it,
          giContent = ciContent it, giMd5 = ciMD5 it, giType = ciType it\<rparr>)"

definition grpc_PublishConfig ::
  "ConfigPublishRequest \<Rightarrow> ('i, 's, 'c, 'h, 'n, 'd) app
   \<Rightarrow> ('i, 's, 'c, 'h, 'n, 'd) app \<times> (grpc_status + Response)" where
  "grpc_PublishConfig q A =
     map_prod id (status_of Internal)
       (with_config (PublishConfig (defaultVal (pqNamespaceId q) ''public'') (defaultVal (pqGroupName q) ''DEFAULT_GROUP'')
          (pqDataId q) (pqContent q) (defaultVal (pqType q) ''text'')) A)"

text \<open>
  \<open>evs\<close> are the events of the long poll, \<open>A\<close> the state when it returns, which the second read
  sees. \<^const>\<open>None\<close>: none of the events ends the poll.
\<close>

definition no_change :: ConfigChangedResponse where
  "no_change = \<lparr>ccChanged = False, ccContent = [], ccMd5 = []\<rparr>"

definition grpc_ListenConfig ::
  "('c, 'h) poll_event list \<Rightarrow> ConfigListenRequest \<Rightarrow> ('i, 's, 'c, 'h, 'n, 'd) app
   \<Rightarrow> (grpc_status + ConfigChangedResponse) option" where
  "grpc_ListenConfig evs q A =
     (let ns = defaultVal (lqNamespaceId q) ''public''; grp = defaultVal (lqGroupName q) ''DEFAULT_GROUP''
      in case LongPoll ns [(serviceKey ns grp (lqDataId q), lqMd5 q)] evs of
           None \<Rightarrow> None
         | Some (Inl e) \<Rightarrow> Some (Inl (Internal, gerr_text e))
         | Some (Inr changed) \<Rightarrow>
             Some (Inr (if changed = [] then no_change
                        else case GetConfig ns grp (lqDataId q) (config_of A) of
                               Inl e \<Rightarrow> no_change
                             | Inr it \<Rightarrow> \<lparr>ccChanged = True, ccContent = ciContent it, ccMd5 = ciMD5 it\<rparr>)))"

section \<open>Health service\<close>

text \<open>Both reports look the instance up in the cluster \<^verbatim>\<open>DEFAULT\<close>, whatever its own is.\<close>

definition grpc_report ::
  "(nat \<Rightarrow> string \<Rightarrow> string \<Rightarrow> string \<Rightarrow> ('i, 's, 'c, 'h, 'n, 'd) app \<Rightarrow> ('i, 's, 'c, 'h, 'n, 'd) app)
   \<Rightarrow> HealthReportRequest \<Rightarrow> ('i, 's, 'c, 'h, 'n, 'd) app
   \<Rightarrow> ('i, 's, 'c, 'h, 'n, 'd) app \<times> (grpc_status + Response)" where
  "grpc_report act q A =
     (let ns = defaultVal (hqNamespaceId q) ''public''; grp = defaultVal (hqGroupName q) ''DEFAULT_GROUP''
      in case InstanceStore_Get (ns, grp, hqServiceName q, ''DEFAULT'', hqIp q, sint (hqPort q)) (apInst A) of
           Inl e \<Rightarrow> (A, Inl (NotFound, ''instance not found''))
         | Inr inst \<Rightarrow> (act (siID inst) ns grp (hqServiceName q) A, Inr resp_ok))"

definition grpc_ReportFailure ::
  "clocks \<Rightarrow> HealthReportRequest \<Rightarrow> ('i, 's, 'c, 'h, 'n, 'd) app
   \<Rightarrow> ('i, 's, 'c, 'h, 'n, 'd) app \<times> (grpc_status + Response)" where
  "grpc_ReportFailure ck =
     grpc_report (\<lambda>i ns grp svc. with_checker (ReportFailure (ckFail1 ck) (ckFail2 ck) i ns grp svc))"

definition grpc_ReportSuccess ::
  "HealthReportRequest \<Rightarrow> ('i, 's, 'c, 'h, 'n, 'd) app
   \<Rightarrow> ('i, 's, 'c, 'h, 'n, 'd) app \<times> (grpc_status + Response)" where
  "grpc_ReportSuccess = grpc_report (\<lambda>i ns grp svc. with_checker (ReportSuccess i))"

end
