(* ===== verification/GrpcClient.thy ===== *)
theory GrpcClient
  imports ClientConn GrpcServer
begin

text \<open>
  \<^verbatim>\<open>src/pkg/client/grpc.go\<close>: the calls of the SDK over gRPC. The generated stubs are a record
  of functions, one for each method the client calls, from the request to a status or a
  response (\<^verbatim>\<open>GrpcStubs\<close> has the code behind them); \<open>net n\<close> are the stubs of connection \<open>n\<close>. The deadline of a call is part of what
  its stub returns.
\<close>

record grpc_stubs =
  callRegister :: "RegisterInstanceRequest \<Rightarrow> grpc_status + Response"
  callDeregister :: "DeregisterInstanceRequest \<Rightarrow> grpc_status + Response"
  callHeartbeat :: "DeregisterInstanceRequest \<Rightarrow> grpc_status + Response"
  callGetInstances :: "InstanceQuery \<Rightarrow> grpc_status + InstanceListResponse"
  callGetConfig :: "ConfigQuery \<Rightarrow> grpc_status + ConfigInfo"
  callPublishConfig :: "ConfigPublishRequest \<Rightarrow> grpc_status + Response"
  callListenConfig :: "ConfigListenRequest \<Rightarrow> grpc_status + ConfigChangedResponse"
  callReportFailure :: "HealthReportRequest \<Rightarrow> grpc_status + Response"
  callReportSuccess :: "HealthReportRequest \<Rightarrow> grpc_status + Response"

type_synonym grpc_net = "nat \<Rightarrow> grpc_stubs"

datatype grpc_err = NoGRPC | RpcError grpc_status | NoHealthy

definition with_grpc :: "grpc_net \<Rightarrow> conns \<Rightarrow> (grpc_stubs \<Rightarrow> grpc_status + 'a) \<Rightarrow> grpc_err + 'a" where
  "with_grpc net C call =
     (if \<not> HasGRPC C then Inl NoGRPC else map_sum RpcError id (call (net (the (coGrpc C)))))"

definition failure :: "grpc_err + 'a \<Rightarrow> grpc_err option" where
  "failure r = (case r of Inl e \<Rightarrow> Some e | Inr _ \<Rightarrow> None)"

section \<open>Services\<close>

definition register_msg :: "RegisterOptions \<Rightarrow> RegisterInstanceRequest" where
  "register_msg opts = \<lparr>rgqNamespaceId = withDefault (roNamespaceID opts) ''public'',
     rgqGroupName = withDefault (roGroupName opts) ''DEFAULT_GROUP'', rgqServiceName = roServiceName opts,
     rgqClusterName = withDefault (roClusterName opts) ''DEFAULT'', rgqIp = roIP opts,
     rgqPort = word_of_int (roPort opts), rgqWeight = roWeight opts, rgqEphemeral = roEphemeral opts,
     rgqMetadata = withDefault (roMetadata opts) ''{}''\<rparr>"

definition instance_msg :: "string \<Rightarrow> string \<Rightarrow> string \<Rightarrow> string \<Rightarrow> string \<Rightarrow> int \<Rightarrow> DeregisterInstanceRequest" where
  "instance_msg ns grp svc cl ip port = \<lparr>dqNamespaceId = withDefault ns ''public'',
     dqGroupName = withDefault grp ''DEFAULT_GROUP'', dqServiceName = svc, dqClusterName = withDefault cl ''DEFAULT'',
     dqIp = ip, dqPort = word_of_int port\<rparr>"

definition GRPCRegisterInstance :: "RegisterOptions \<Rightarrow> grpc_net \<Rightarrow> conns \<Rightarrow> grpc_err option" where
  "GRPCRegisterInstance opts net C = failure (with_grpc net C (\<lambda>s. callRegister s (register_msg opts)))"

definition GRPCDeregisterInstance ::
  "string \<Rightarrow> string \<Rightarrow> string \<Rightarrow> string \<Rightarrow> string \<Rightarrow> int \<Rightarrow> grpc_net \<Rightarrow> conns \<Rightarrow> grpc_err option" where
  "GRPCDeregisterInstance ns grp svc cl ip port net C =
     failure (with_grpc net C (\<lambda>s. callDeregister s (instance_msg ns grp svc cl ip port)))"

definition GRPCSendHeartbeat ::
  "string \<Rightarrow> string \<Rightarrow> string \<Rightarrow> string \<Rightarrow> string \<Rightarrow> int \<Rightarrow> grpc_net \<Rightarrow> conns \<Rightarrow> grpc_err option" where
  "GRPCSendHeartbeat ns grp svc cl ip port net C =
     failure (with_grpc net C (\<lambda>s. callHeartbeat s (instance_msg ns grp svc cl ip port)))"

definition of_info :: "InstanceInfo \<Rightarrow> Instance" where
  "of_info p = \<lparr>inID = iiId p, inNamespaceID = iiNamespaceId p, inGroupName = iiGroupName p,
     inServiceName = iiServiceName p, inClusterName = iiClusterName p, inIP = iiIp p, inPort = sint (iiPort p),
     inWeight = iiWeight p, inHealthy = iiHealthy p, inEnabled = iiEnabled p, inEphemeral = iiEphemeral p,
     inMetadata = iiMetadata p\<rparr>"

definition GRPCGetInstances ::
  "string \<Rightarrow> string \<Rightarrow> string \<Rightarrow> bool \<Rightarrow> grpc_net \<Rightarrow> conns \<Rightarrow> grpc_err + Instance list" where
  "GRPCGetInstances ns grp svc healthyOnly net C =
     map_sum id (\<lambda>r. map of_info (ilInstances r))
       (with_grpc net C (\<lambda>s. callGetInstances s \<lparr>iqNamespaceId = withDefault ns ''public'',
          iqGroupName = withDefault grp ''DEFAULT_GROUP'', iqServiceName = svc, iqHealthyOnly = healthyOnly,
          iqClusters = []\<rparr>))"

definition GRPCSelectInstanceWithKey ::
  "(vnode list \<Rightarrow> vnode list) \<Rightarrow> lb_rand \<Rightarrow> string \<Rightarrow> string \<Rightarrow> string \<Rightarrow> int \<Rightarrow> string
   \<Rightarrow> grpc_net \<Rightarrow> conns \<Rightarrow> client \<Rightarrow> client \<times> (grpc_err + Instance option)" where
  "GRPCSelectInstanceWithKey srt rnd ns grp svc strategy hashKey net C c =
     (case GRPCGetInstances ns grp svc True net C of
        Inl e \<Rightarrow> (c, Inl e)
      | Inr xs \<Rightarrow>
          if xs = [] then (c, Inl NoHealthy)
          else map_prod id Inr (pick_by srt rnd strategy (ns @ ''#'' @ grp @ ''#'' @ svc) hashKey xs c))"

definition GRPCSelectInstance ::
  "(vnode list \<Rightarrow> vnode list) \<Rightarrow> lb_rand \<Rightarrow> string \<Rightarrow> string \<Rightarrow> string \<Rightarrow> int
   \<Rightarrow> grpc_net \<Rightarrow> conns \<Rightarrow> client \<Rightarrow> client \<times> (grpc_err + Instance option)" where
  "GRPCSelectInstance srt rnd ns grp svc strategy net C c =
     GRPCSelectInstanceWithKey srt rnd ns grp svc strategy [] net C c"

section \<open>Configurations\<close>

definition GRPCGetConfig :: "string \<Rightarrow> string \<Rightarrow> string \<Rightarrow> grpc_net \<Rightarrow> conns \<Rightarrow> grpc_err + CfgItem" where
  "GRPCGetConfig ns grp did net C =
     map_sum id (\<lambda>r. \<lparr>cgNamespaceID = giNamespaceId r, cgGroupName = giGroupName r, cgDataID = giDataId r,
         cgContent = giContent r, cgMD5 = giMd5 r, cgType = giType r\<rparr>)
       (with_grpc net C (\<lambda>s. callGetConfig s \<lparr>cqNamespaceId = withDefault ns ''public'',
          cqGroupName = withDefault grp ''DEFAULT_GROUP'', cqDataId = did\<rparr>))"

definition GRPCPublishConfig ::
  "string \<Rightarrow> string \<Rightarrow> string \<Rightarrow> string \<Rightarrow> string \<Rightarrow> grpc_net \<Rightarrow> conns \<Rightarrow> grpc_err option" where
  "GRPCPublishConfig ns grp did content typ net C =
     failure (with_grpc net C (\<lambda>s. callPublishConfig s \<lparr>pqNamespaceId = withDefault ns ''public'',
       pqGroupName = withDefault grp ''DEFAULT_GROUP'', pqDataId = did, pqContent = content,
       pqType = withDefault typ ''text''\<rparr>))"

text \<open>
  The loop of a watch. What happens at the top of a round is an event: the watch has been
  cancelled, or it listens and gets an answer - through the stub it finds then, so that a
  missing connection (\<^verbatim>\<open>configClient\<close> is nil) is a panic. After an error the loop waits and
  goes round again. The result is the list of contents handed to the callback, and whether
  the goroutine panicked.
\<close>

datatype watch_event = Cancelled | Round grpc_net conns

definition listen_msg :: "string \<Rightarrow> string \<Rightarrow> string \<Rightarrow> string \<Rightarrow> ConfigListenRequest" where
  "listen_msg ns grp did md5sum = \<lparr>lqNamespaceId = withDefault ns ''public'',
     lqGroupName = withDefault grp ''DEFAULT_GROUP'', lqDataId = did, lqMd5 = md5sum\<rparr>"

definition grpc_watch_init :: "string \<Rightarrow> string \<Rightarrow> string \<Rightarrow> grpc_net \<Rightarrow> conns \<Rightarrow> watch" where
  "grpc_watch_init ns grp did net C =
     (case GRPCGetConfig ns grp did net C of
        Inl e \<Rightarrow> \<lparr>wMD5 = [], wContent = []\<rparr>
      | Inr it \<Rightarrow> \<lparr>wMD5 = cgMD5 it, wContent = cgContent it\<rparr>)"

definition grpc_watch_answer :: "grpc_status + ConfigChangedResponse \<Rightarrow> watch \<Rightarrow> watch \<times> string list" where
  "grpc_watch_answer r w =
     (case r of
        Inl e \<Rightarrow> (w, [])
      | Inr resp \<Rightarrow>
          if ccChanged resp \<and> ccMd5 resp \<noteq> wMD5 w
          then if ccContent resp \<noteq> wContent w then (\<lparr>wMD5 = ccMd5 resp, wContent = ccContent resp\<rparr>, [ccContent resp])
               else (w\<lparr>wMD5 := ccMd5 resp\<rparr>, [])
          else (w, []))"

fun grpc_watch_loop :: "string \<Rightarrow> string \<Rightarrow> string \<Rightarrow> watch_event list \<Rightarrow> watch \<Rightarrow> string list \<times> bool" where
  "grpc_watch_loop ns grp did [] w = ([], False)"
| "grpc_watch_loop ns grp did (Cancelled # evs) w = ([], False)"
| "grpc_watch_loop ns grp did (Round net C # evs) w =
     (case coGrpc C of
        None \<Rightarrow> ([], True)
      | Some n \<Rightarrow>
          (let (w', out) = grpc_watch_answer (callListenConfig (net n) (listen_msg ns grp did (wMD5 w))) w;
               (rest, bad) = grpc_watch_loop ns grp did evs w'
           in (out @ rest, bad)))"

definition GRPCWatchConfig ::
  "string \<Rightarrow> string \<Rightarrow> string \<Rightarrow> grpc_net \<Rightarrow> conns \<Rightarrow> watch_event list \<Rightarrow> string list \<times> bool" where
  "GRPCWatchConfig ns grp did net C evs = grpc_watch_loop ns grp did evs (grpc_watch_init ns grp did net C)"

section \<open>Reports\<close>

definition report_msg :: "string \<Rightarrow> string \<Rightarrow> string \<Rightarrow> string \<Rightarrow> int \<Rightarrow> HealthReportRequest" where
  "report_msg ns grp svc ip port = \<lparr>hqNamespaceId = withDefault ns ''public'',
     hqGroupName = withDefault grp ''DEFAULT_GROUP'', hqServiceName = svc, hqIp = ip, hqPort = word_of_int port\<rparr>"

definition GRPCReportFailure ::
  "string \<Rightarrow> string \<Rightarrow> string \<Rightarrow> string \<Rightarrow> int \<Rightarrow> grpc_net \<Rightarrow> conns \<Rightarrow> grpc_err option" where
  "GRPCReportFailure ns grp svc ip port net C =
     failure (with_grpc net C (\<lambda>s. callReportFailure s (report_msg ns grp svc ip port)))"

definition GRPCReportSuccess ::
  "string \<Rightarrow> string \<Rightarrow> string \<Rightarrow> string \<Rightarrow> int \<Rightarrow> grpc_net \<Rightarrow> conns \<Rightarrow> grpc_err option" where
  "GRPCReportSuccess ns grp svc ip port net C =
     failure (with_grpc net C (\<lambda>s. callReportSuccess s (report_msg ns grp svc ip port)))"

section \<open>Watching\<close>

text \<open>The contents a watch hands out, one after the other, are all different from the one before.\<close>

lemma watch_answer_content:
  "grpc_watch_answer r w = (w', out) \<Longrightarrow>
     (out = [] \<and> wContent w' = wContent w) \<or> (\<exists>c. out = [c] \<and> c \<noteq> wContent w \<and> wContent w' = c)"
  by (auto simp: grpc_watch_answer_def split: sum.splits if_splits)

definition grpc_poll :: "string \<Rightarrow> string \<Rightarrow> string \<Rightarrow> grpc_net \<times> nat \<Rightarrow> watch \<Rightarrow> watch \<times> string list" where
  "grpc_poll ns grp did r w =
     (case r of (net, n) \<Rightarrow> grpc_watch_answer (callListenConfig (net n) (listen_msg ns grp did (wMD5 w))) w)"

interpretation grpc_watch: watcher "grpc_poll ns grp did"
  by unfold_locales (auto simp: grpc_poll_def dest: watch_answer_content)

fun rounds :: "watch_event list \<Rightarrow> (grpc_net \<times> nat) list" where
  "rounds (Round net C # evs) = (case coGrpc C of None \<Rightarrow> [] | Some n \<Rightarrow> (net, n) # rounds evs)"
| "rounds _ = []"

lemma watch_loop_run: "fst (grpc_watch_loop ns grp did evs w) = run_watch (grpc_poll ns grp did) (rounds evs) w"
proof (induction evs arbitrary: w)
  case (Cons ev evs)
  then show ?case by (cases ev) (simp_all add: grpc_poll_def split_beta Let_def split: option.split)
qed simp

text \<open>
  A watch reports changes only: no content is handed to the callback twice in a row, and
  the first one differs from the content read when the watch began.
\<close>
theorem watch_reports_changes:
  "distinct_adj (wContent (grpc_watch_init ns grp did net C) # fst (GRPCWatchConfig ns grp did net C evs))"
  unfolding GRPCWatchConfig_def watch_loop_run by (rule grpc_watch.reports_changes)

definition before_cancel :: "watch_event list \<Rightarrow> watch_event list" where
  "before_cancel evs = takeWhile (\<lambda>ev. case ev of Cancelled \<Rightarrow> False | Round _ _ \<Rightarrow> True) evs"

definition unconnected :: "watch_event \<Rightarrow> bool" where
  "unconnected ev = (case ev of Cancelled \<Rightarrow> False | Round _ C \<Rightarrow> \<not> HasGRPC C)"

lemma unconnected_simps: "unconnected (Round net C) \<longleftrightarrow> coGrpc C = None"
  by (simp add: unconnected_def HasGRPC_def)

lemma watch_loop_panics: "snd (grpc_watch_loop ns grp did evs w) \<longleftrightarrow> list_ex unconnected (before_cancel evs)"
proof (induction evs arbitrary: w)
  case (Cons ev evs)
  show ?case
  proof (cases ev)
    case (Round net C)
    then show ?thesis
      using Cons by (cases "coGrpc C") (simp_all add: before_cancel_def unconnected_simps split_beta)
  qed (simp add: before_cancel_def)
qed (simp add: before_cancel_def)

text \<open>
  C31. A watch needs the connection at every round: it panics exactly if the client is not
  connected at the beginning of some round that comes before the cancellation, be it that it
  never connected or that it has disconnected meanwhile. (The other calls return an error
  instead.)
\<close>
theorem watch_panics_iff:
  "snd (GRPCWatchConfig ns grp did net C evs) \<longleftrightarrow> list_ex unconnected (before_cancel evs)"
  by (simp add: GRPCWatchConfig_def watch_loop_panics)

end
