(* ===== verification/Protocols.thy ===== *)
theory Protocols
  imports ApiServer TcpServer TcpClient GrpcClient
begin

text \<open>
  The client and the server put together, over the three protocols: what a call of the SDK
  (\<^verbatim>\<open>src/pkg/client\<close>) does to the registry of the server that receives it. A TCP call goes
  through the text it writes on the connection and the line handler that reads it, a gRPC
  call through its message, an HTTP call through its parameters as the form of the request.
\<close>

section \<open>One line of the TCP protocol\<close>

lemma printable_newline: "printable s \<Longrightarrow> CHR 0x0A \<notin> set s"
  by (auto simp: printable_def)

lemma printable_last: "printable s \<Longrightarrow> s \<noteq> [] \<Longrightarrow> 32 \<le> byte (last s)"
  by (simp add: printable_def)

lemma scan_one:
  assumes "printable l" "l \<noteq> []" "length l < 1048576"
  shows "scan_lines (l @ [CHR 0x0A]) = [l]"
proof -
  have "split_on CHR 0x0A (l @ CHR 0x0A # []) = [l, []]"
    using split_on_append [of "CHR 0x0A" l "[]"] printable_newline [OF assms(1)] by simp
  moreover have "last l \<noteq> CHR 0x0D" using printable_last [OF assms(1,2)] by auto
  ultimately show ?thesis using assms by (simp add: scan_lines_def strip_cr_def)
qed

lemma handle_one:
  assumes "printable l" "l \<noteq> []" "length l < 1048576"
  shows "handleConn envs (l @ [CHR 0x0A]) A = map_prod id (\<lambda>r. r @ [CHR 0x0A]) (processLine (envs 0) l A)"
  using assms(2) by (simp add: handleConn_def scan_one [OF assms] split: prod.split)

lemma split_cmd:
  assumes "ascii cmd" "to_upper cmd = cmd" "CHR '' '' \<notin> set cmd"
  shows "split_line te (cmd @ '' '' @ payload) = (cmd, payload)"
proof -
  have "\<And>x. x \<in> set cmd \<Longrightarrow> x \<noteq> CHR '' ''" using assms(3) by blast
  then have "takeWhile (\<lambda>c. c \<noteq> CHR '' '') (cmd @ '' '' @ payload) = cmd"
    "dropWhile (\<lambda>c. c \<noteq> CHR '' '') (cmd @ '' '' @ payload) = '' '' @ payload"
    by (simp_all add: takeWhile_append2 dropWhile_append2)
  then show ?thesis using assms by (simp add: split_line_def go_upper_def)
qed

text \<open>What a TCP call writes on its connection, and what the server makes of it.\<close>

definition tcp_text :: "string \<Rightarrow> string \<Rightarrow> string" where
  "tcp_text cmd payload = cmd @ '' '' @ payload @ [CHR 0x0A]"

text \<open>A connection to a server in state \<open>A\<close> reads the first line of what the server writes.\<close>

definition server_net :: "(nat \<Rightarrow> tcp_env) \<Rightarrow> ('i, 's, 'c, 'h, 'n, 'd) app \<Rightarrow> tcp_net" where
  "server_net envs A n text =
     (let out = snd (handleConn envs text A)
      in if CHR 0x0A \<in> set out then ReadText (takeWhile (\<lambda>c. c \<noteq> CHR 0x0A) out @ [CHR 0x0A]) else ReadError ''EOF'')"

lemma tcp_line:
  assumes "printable (cmd @ payload)" "length (cmd @ payload) < 1048575" "cmd \<noteq> []"
  shows "handleConn envs (tcp_text cmd payload) A =
    map_prod id (\<lambda>r. r @ [CHR 0x0A]) (processLine (envs 0) (cmd @ '' '' @ payload) A)"
  using handle_one [of "cmd @ '' '' @ payload" envs A] assms by (simp add: tcp_text_def)

section \<open>Registration\<close>

text \<open>The instance a client means by its options.\<close>

definition offered :: "RegisterOptions \<Rightarrow> ServiceInstance" where
  "offered opts = zero_inst\<lparr>
     siNamespaceID := withDefault (roNamespaceID opts) ''public'',
     siGroupName := withDefault (roGroupName opts) ''DEFAULT_GROUP'', siServiceName := roServiceName opts,
     siClusterName := withDefault (roClusterName opts) ''DEFAULT'', siIP := roIP opts, siPort := roPort opts,
     siWeight := roWeight opts, siEphemeral := roEphemeral opts, siMetadata := withDefault (roMetadata opts) ''{}''\<rparr>"

text \<open>Options that the protocols can carry: texts in UTF-8, a port that fits \<^verbatim>\<open>int32\<close>.\<close>

definition opts_ok :: "RegisterOptions \<Rightarrow> bool" where
  "opts_ok opts \<longleftrightarrow> valid_utf8 (roNamespaceID opts) \<and> valid_utf8 (roGroupName opts) \<and> valid_utf8 (roServiceName opts) \<and>
     valid_utf8 (roClusterName opts) \<and> valid_utf8 (roIP opts) \<and> valid_utf8 (roMetadata opts) \<and>
     - (2 ^ 31) \<le> roPort opts \<and> roPort opts < 2 ^ 31"

text \<open>A text for the weight that the receiver reads as the weight.\<close>

definition weight_text :: "(f64 \<Rightarrow> string) \<Rightarrow> (string \<Rightarrow> f64 option) \<Rightarrow> f64 \<Rightarrow> bool" where
  "weight_text fmt pf w \<longleftrightarrow> (\<exists>x. w = Fin x) \<and> num_ok (fmt w) \<and> pf (fmt w) = Some w"

definition register_members :: "(f64 \<Rightarrow> string) \<Rightarrow> RegisterOptions \<Rightarrow> (string \<times> jval) list" where
  "register_members fmt opts =
     [(''clusterName'', VStr (withDefault (roClusterName opts) ''DEFAULT'')), (''ephemeral'', VBool (roEphemeral opts)),
      (''groupName'', VStr (withDefault (roGroupName opts) ''DEFAULT_GROUP'')), (''ip'', VStr (roIP opts)),
      (''metadata'', VStr (withDefault (roMetadata opts) ''{}'')),
      (''namespaceId'', VStr (withDefault (roNamespaceID opts) ''public'')), (''port'', VNum (itoa (roPort opts))),
      (''serviceName'', VStr (roServiceName opts)), (''weight'', VNum (fmt (roWeight opts)))]"

lemma register_payload_members:
  assumes "roWeight opts = Fin x"
  shows "register_payload fmt opts = json_text (VObj (register_members fmt opts))"
  using assms
  by (simp add: register_payload_def json_float_def map_payload_def sort_members_def inst_members_def register_members_def
      del: json_text.simps)

lemma valid_literals: "valid_utf8 ''public''" "valid_utf8 ''DEFAULT_GROUP''" "valid_utf8 ''DEFAULT''" "valid_utf8 ''{}''"
  "valid_utf8 ''clusterName''" "valid_utf8 ''ephemeral''" "valid_utf8 ''groupName''" "valid_utf8 ''ip''" "valid_utf8 ''metadata''"
  "valid_utf8 ''namespaceId''" "valid_utf8 ''port''" "valid_utf8 ''serviceName''" "valid_utf8 ''weight''"
  by (rule ascii_valid_utf8, simp add: ascii_def)+

lemma register_json_ok:
  assumes "opts_ok opts" "weight_text fmt pf (roWeight opts)"
  shows "json_ok 10000 (VObj (register_members fmt opts))"
  using assms by (simp add: register_members_def opts_ok_def weight_text_def valid_literals num_ok_itoa withDefault_def)

lemma int32_range: "- (2 ^ 31) \<le> p \<Longrightarrow> p < 2 ^ 31 \<Longrightarrow> int64_min \<le> p \<and> p \<le> int64_max" for p :: int
  by (simp add: int64_min_def int64_max_def)

lemma read_register_members:
  assumes "opts_ok opts" "weight_text fmt (teParseFloat te) (roWeight opts)"
  shows "map_option req_instance (read_registerReq te (register_members fmt opts)) = Some (offered opts)"
proof -
  have port: "dec_int (VNum (itoa (roPort opts))) = Some (roPort opts)"
    using int32_range [of "roPort opts"] assms(1) by (intro dec_int_itoa) (simp_all add: opts_ok_def)
  have w: "teParseFloat te (fmt (roWeight opts)) = Some (roWeight opts)" using assms(2) by (simp add: weight_text_def)
  have "read_registerReq te (register_members fmt opts) =
      Some \<lparr>rrNamespaceID = withDefault (roNamespaceID opts) ''public'', rrGroupName = withDefault (roGroupName opts) ''DEFAULT_GROUP'',
        rrServiceName = roServiceName opts, rrClusterName = withDefault (roClusterName opts) ''DEFAULT'', rrIP = roIP opts,
        rrPort = roPort opts, rrWeight = roWeight opts, rrEphemeral = roEphemeral opts,
        rrMetadata = withDefault (roMetadata opts) ''{}''\<rparr>"
    unfolding register_members_def read_registerReq_def str_field_def int_field_def bool_field_def field_def
    using port w by (simp add: is_field_def to_lower_def lower_char_def dec_str_def dec_bool_def dec_float_def)
  then show ?thesis by (simp add: req_instance_def offered_def withDef_def withDefault_def)
qed

lemma tcp_register_line:
  assumes "opts_ok opts" "weight_text fmt (teParseFloat (envs 0)) (roWeight opts)"
    and "length (register_payload fmt opts) < 1048567"
  shows "handleConn envs (tcp_text ''REGISTER'' (register_payload fmt opts)) A =
    map_prod id (\<lambda>r. answer ''OK {\"registered\":true}'' r @ [CHR 0x0A])
      (with_registry (RegisterInstance (ckBeat (teClocks (envs 0))) (offered opts)) A)"
proof -
  obtain x where x: "roWeight opts = Fin x" using assms(2) by (auto simp: weight_text_def)
  note ok = register_json_ok [OF assms(1,2)]
  have payload: "register_payload fmt opts = json_text (VObj (register_members fmt opts))"
    by (rule register_payload_members [OF x])
  have "printable (register_payload fmt opts)" unfolding payload by (rule printable_json [OF ok])
  then have line: "handleConn envs (tcp_text ''REGISTER'' (register_payload fmt opts)) A =
      map_prod id (\<lambda>r. r @ [CHR 0x0A]) (processLine (envs 0) (''REGISTER'' @ '' '' @ register_payload fmt opts) A)"
    by (intro tcp_line) (use assms(3) in simp_all)
  have mem: "text_members (register_payload fmt opts) = Some (register_members fmt opts)"
    unfolding payload text_members_def json_roundtrip [OF ok] by simp
  have split: "split_line (envs 0) (''REGISTER'' @ '' '' @ register_payload fmt opts) = (''REGISTER'', register_payload fmt opts)"
    by (rule split_cmd) (simp_all add: ascii_def to_upper_def upper_char_def)
  obtain q where q: "read_registerReq (envs 0) (register_members fmt opts) = Some q" "req_instance q = offered opts"
    using read_register_members [OF assms(1,2)] by auto
  have "processLine (envs 0) (''REGISTER'' @ '' '' @ register_payload fmt opts) A = cmdRegister (envs 0) (register_payload fmt opts) A"
    unfolding processLine_def split by simp
  also have "\<dots> = map_prod id (answer ''OK {\"registered\":true}'')
      (with_registry (RegisterInstance (ckBeat (teClocks (envs 0))) (offered opts)) A)"
    by (simp add: cmdRegister_def with_req_def mem q)
  finally show ?thesis unfolding line by (simp only: prod.map_comp comp_def id_def)
qed

text \<open>An HTTP call whose parameters travel in the form.\<close>

definition form_of :: "(string \<times> string) list \<Rightarrow> greq" where
  "form_of params = \<lparr>rqForm = map_of params, rqQuery = (\<lambda>_. None), rqBody = []\<rparr>"

lemma form_register:
  assumes "opts_ok opts" "heParseFloat e (fmt (roWeight opts)) = roWeight opts"
  shows "form_instance e (form_of (register_params fmt opts)) = offered opts"
proof -
  have "atoi (itoa (roPort opts)) = roPort opts"
    using int32_range [of "roPort opts"] assms(1) by (intro atoi_itoa) (simp_all add: opts_ok_def)
  moreover have "parse_bool (bool_text b) = b" for b by (simp add: parse_bool_def bool_text_def)
  ultimately show ?thesis
    using assms(2) by (simp add: form_instance_def form_of_def register_params_def instance_params_def offered_def
        DefaultPostForm_def PostForm_def)
qed

lemma int32_word: "- (2 ^ 31) \<le> p \<Longrightarrow> p < 2 ^ 31 \<Longrightarrow> sint (word_of_int p :: 32 word) = p"
  by (simp add: signed_take_bit_int_eq_self sint_sbintrunc')

lemma rpc_register: "opts_ok opts \<Longrightarrow> rpc_instance (register_msg opts) = offered opts"
  using int32_word [of "roPort opts"]
  by (simp add: rpc_instance_def register_msg_def offered_def defaultVal_def withDefault_def opts_ok_def)

lemma registered_registry:
  "registry_of (fst (registerInstance e q A)) = fst (RegisterInstance (ckBeat (heClocks e)) (form_instance e q) (registry_of A))"
proof (cases "with_registry (RegisterInstance (ckBeat (heClocks e)) (form_instance e q)) A")
  case (Pair A1 r)
  then have "registry_of A1 = fst (RegisterInstance (ckBeat (heClocks e)) (form_instance e q) (registry_of A))"
    using with_registry_view(1) [of "RegisterInstance (ckBeat (heClocks e)) (form_instance e q)" A] by simp
  then show ?thesis using Pair by (cases r) (simp_all add: registerInstance_def notify_service_def)
qed

text \<open>
  C2. Three protocols, one registry: at the same time of day, the same options sent by the
  client over HTTP, as a line of the TCP protocol or as a gRPC message leave the server's
  registry in the same state, the one in which the instance the client means has been
  registered (for texts in UTF-8, a port of 32 bits and a weight whose text is read back).
  Neither TCP nor gRPC tells the peers.
\<close>
theorem registration_over_any_protocol:
  fixes A :: "('i, 's, 'c, 'h, 'n, 'd) app"
  assumes "opts_ok opts" "weight_text fmt (teParseFloat (envs 0)) (roWeight opts)"
    and "heParseFloat e (hfmt (roWeight opts)) = roWeight opts" "length (register_payload fmt opts) < 1048567"
    and "ckBeat (heClocks e) = now" "ckBeat (teClocks (envs 0)) = now" "ckBeat ck = now"
  defines "R \<equiv> fst (RegisterInstance now (offered opts) (registry_of A))"
    and "http \<equiv> fst (registerInstance e (form_of (register_params hfmt opts)) A)"
    and "tcp \<equiv> fst (handleConn envs (tcp_text ''REGISTER'' (register_payload fmt opts)) A)"
    and "rpc \<equiv> fst (grpc_RegisterInstance ck (register_msg opts) A)"
  shows "registry_of http = R \<and> registry_of tcp = R \<and> registry_of rpc = R \<and>
    apOutbox tcp = apOutbox A \<and> apOutbox rpc = apOutbox A"
  unfolding http_def tcp_def rpc_def R_def tcp_register_line [of opts fmt envs, OF assms(1,2,4)] registered_registry grpc_RegisterInstance_def
  using assms(5-7) form_register [of opts e hfmt, OF assms(1,3)] by (simp add: rpc_register [OF assms(1)])

section \<open>Discovery\<close>

text \<open>What a client sees of an instance.\<close>

definition client_view :: "ServiceInstance \<Rightarrow> Instance" where
  "client_view x = \<lparr>inID = siID x, inNamespaceID = siNamespaceID x, inGroupName = siGroupName x,
     inServiceName = siServiceName x, inClusterName = siClusterName x, inIP = siIP x, inPort = siPort x,
     inWeight = siWeight x, inHealthy = siHealthy x, inEnabled = siEnabled x, inEphemeral = siEphemeral x,
     inMetadata = siMetadata x\<rparr>"

definition sendable :: "tcp_env \<Rightarrow> (string \<Rightarrow> f64 option) \<Rightarrow> ServiceInstance \<Rightarrow> bool" where
  "sendable te pf x \<longleftrightarrow> valid_utf8 (siNamespaceID x) \<and> valid_utf8 (siGroupName x) \<and> valid_utf8 (siServiceName x) \<and>
     valid_utf8 (siClusterName x) \<and> valid_utf8 (siIP x) \<and> valid_utf8 (siMetadata x) \<and>
     valid_utf8 (teTimeText te (siLastBeat x)) \<and> valid_utf8 (teTimeText te (siCreatedAt x)) \<and>
     valid_utf8 (teTimeText te (siUpdatedAt x)) \<and> num_ok (teFloatText te (siWeight x)) \<and>
     pf (teFloatText te (siWeight x)) = Some (siWeight x) \<and> siID x < 2 ^ 64 \<and>
     - (2 ^ 31) \<le> siPort x \<and> siPort x < 2 ^ 31"

lemma dec_uint_itoa: "n < 2 ^ 64 \<Longrightarrow> dec_uint (VNum (itoa (int n))) = Some n"
  using digits10_digit by (auto simp: dec_uint_def itoa_def list_all_iff)

lemma dec_inst_json:
  assumes "sendable te pf x"
  shows "dec_Instance pf (inst_json te x) = Some (client_view x)"
proof -
  have port: "dec_int (VNum (itoa (siPort x))) = Some (siPort x)"
    using int32_range [of "siPort x"] assms by (intro dec_int_itoa) (simp_all add: sendable_def)
  have i: "dec_uint (VNum (itoa (int (siID x)))) = Some (siID x)"
    using assms by (intro dec_uint_itoa) (simp add: sendable_def)
  have w: "pf (teFloatText te (siWeight x)) = Some (siWeight x)" using assms by (simp add: sendable_def)
  show ?thesis
    unfolding inst_json_def dec_Instance_def jval.case read_Instance_def str_field_def int_field_def bool_field_def field_def
    using port i w
    by (simp add: is_field_def to_lower_def lower_char_def dec_str_def dec_bool_def dec_float_def client_view_def)
qed

lemma valid_inst_keys: "valid_utf8 ''id''" "valid_utf8 ''healthy''" "valid_utf8 ''enabled''" "valid_utf8 ''lastBeat''"
  "valid_utf8 ''createdAt''" "valid_utf8 ''updatedAt''" "valid_utf8 ''healthyOnly''"
  by (rule ascii_valid_utf8, simp add: ascii_def)+

lemma insts_json_ok:
  assumes "\<forall>x \<in> set xs. sendable te pf x"
  shows "json_ok 10000 (VArr (map (inst_json te) xs))"
  using assms by (simp add: inst_json_def sendable_def valid_literals valid_inst_keys num_ok_itoa)

lemma all_some_map: "\<forall>x \<in> set xs. f x = Some (g x) \<Longrightarrow> all_some (map f xs) = Some (map g xs)"
  by (induction xs) auto

lemma read_insts:
  assumes "\<forall>x \<in> set xs. sendable te pf x"
  shows "read_Instances pf (json_text (VArr (map (inst_json te) xs))) = Some (map client_view xs)"
proof -
  have "json_parse (json_text (VArr (map (inst_json te) xs))) = Some (VArr (map (inst_json te) xs))"
    by (rule json_roundtrip) (rule insts_json_ok [OF assms])
  moreover have "all_some (map (\<lambda>x. dec_Instance pf (inst_json te x)) xs) = Some (map client_view xs)"
    using assms dec_inst_json by (intro all_some_map) blast
  ultimately show ?thesis by (simp add: read_Instances_def comp_def del: json_text.simps)
qed

text \<open>A response line is read back without its newline.\<close>

lemma trim_newline:
  assumes "s \<noteq> []" "byte (hd s) < 128" "\<not> is_space (hd s)" "byte (last s) < 128" "\<not> is_space (last s)"
  shows "trim_space (s @ [CHR 0x0A]) = s"
proof -
  have f: "starts_with spaces s' = None" if "s' \<noteq> []" "hd s' = hd s" for s'
  proof (rule ccontr)
    assume "starts_with spaces s' \<noteq> None"
    then obtain w where w: "w \<in> set spaces" "w \<noteq> []" "take (length w) s' = w" using starts_with_Some by blast
    then have "hd w = hd s" using that by (metis hd_take length_greater_0_conv)
    then show False using assms spaces_ends [OF w(1)] by simp
  qed
  have b: "starts_with (map rev spaces) (rev s) = None"
  proof (rule ccontr)
    assume "starts_with (map rev spaces) (rev s) \<noteq> None"
    then obtain w where w: "w \<in> set spaces" "w \<noteq> []" "take (length w) (rev s) = rev w"
      using starts_with_Some [of "map rev spaces" "rev s"] by fastforce
    then have "hd (rev w) = hd (rev s)" by (metis hd_take length_greater_0_conv rev_is_Nil_conv)
    then show False using assms spaces_ends [OF w(1)] by (simp add: hd_rev)
  qed
  have sp: "spaces = [CHR 0x09] # [CHR 0x0A] # map rune_string (drop 2 space_runes)"
    using rune_string_ascii [of "CHR 0x09"] rune_string_ascii [of "CHR 0x0A"] by (simp add: spaces_def space_runes_def)
  have nl: "starts_with (map rev spaces) (CHR 0x0A # r) = Some [CHR 0x0A]" for r
    by (simp add: sp starts_with_def)
  have "strip_by (map rev spaces) (CHR 0x0A # rev s) = rev s"
    by (subst strip_by.simps) (simp add: nl strip_by_id [OF b])
  moreover have "strip_by spaces (s @ [CHR 0x0A]) = s @ [CHR 0x0A]" using f assms(1) by (simp add: strip_by_id)
  ultimately show ?thesis by (simp add: trim_space_def)
qed

text \<open>The payload of a query, as it arrives.\<close>

definition discover_members :: "string \<Rightarrow> string \<Rightarrow> string \<Rightarrow> bool \<Rightarrow> (string \<times> jval) list" where
  "discover_members ns grp svc h =
     [(''groupName'', VStr (withDefault grp ''DEFAULT_GROUP'')), (''healthyOnly'', VBool h),
      (''namespaceId'', VStr (withDefault ns ''public'')), (''serviceName'', VStr svc)]"

lemma discover_payload:
  "map_payload [(''namespaceId'', VStr (withDefault ns ''public'')), (''groupName'', VStr (withDefault grp ''DEFAULT_GROUP'')),
      (''serviceName'', VStr svc), (''healthyOnly'', VBool h)] = json_text (VObj (discover_members ns grp svc h))"
  by (simp add: map_payload_def sort_members_def discover_members_def del: json_text.simps)

lemma read_discover:
  "read_discoverReq (discover_members ns grp svc h) = Some \<lparr>drNamespaceID = withDefault ns ''public'',
     drGroupName = withDefault grp ''DEFAULT_GROUP'', drServiceName = svc, drHealthyOnly = h\<rparr>"
  unfolding discover_members_def read_discoverReq_def str_field_def bool_field_def field_def
  by (simp add: is_field_def to_lower_def lower_char_def dec_str_def dec_bool_def)

lemma withDef_twice: "d \<noteq> [] \<Longrightarrow> withDef (withDefault v d) d = withDefault v d"
  "d \<noteq> [] \<Longrightarrow> defaultVal (withDefault v d) d = withDefault v d"
  by (simp_all add: withDef_def withDefault_def defaultVal_def)

lemma server_answers:
  assumes "snd (handleConn envs text A) = r @ [CHR 0x0A]" "printable r"
  shows "server_net envs A n text = ReadText (r @ [CHR 0x0A])"
proof -
  have "\<And>c. c \<in> set r \<Longrightarrow> c \<noteq> CHR 0x0A" using printable_newline [OF assms(2)] by blast
  then show ?thesis by (simp add: server_net_def Let_def assms(1) takeWhile_append2)
qed

lemma array_text: "\<exists>t. json_text (VArr vs) = CHR ''['' # t @ '']''"
  by simp

lemma tcp_discover_line:
  assumes "valid_utf8 ns" "valid_utf8 grp" "valid_utf8 svc"
    and "length (json_text (VObj (discover_members ns grp svc h))) < 1048567"
    and "GetInstances (withDefault ns ''public'') (withDefault grp ''DEFAULT_GROUP'') svc [] h (registry_of A) = Inr xs"
  shows "snd (handleConn envs (tcp_text ''DISCOVER'' (json_text (VObj (discover_members ns grp svc h)))) A) =
    (''OK '' @ json_text (VArr (map (inst_json (envs 0)) xs))) @ [CHR 0x0A]"
proof -
  let ?p = "json_text (VObj (discover_members ns grp svc h))"
  have ok: "json_ok 10000 (VObj (discover_members ns grp svc h))"
    using assms(1-3) by (simp add: discover_members_def valid_literals valid_inst_keys withDefault_def)
  have "printable ?p" by (rule printable_json [OF ok])
  then have line: "handleConn envs (tcp_text ''DISCOVER'' ?p) A =
      map_prod id (\<lambda>r. r @ [CHR 0x0A]) (processLine (envs 0) (''DISCOVER'' @ '' '' @ ?p) A)"
    by (intro tcp_line) (use assms(4) in simp_all)
  have split: "split_line (envs 0) (''DISCOVER'' @ '' '' @ ?p) = (''DISCOVER'', ?p)"
    by (rule split_cmd) (simp_all add: ascii_def to_upper_def upper_char_def)
  have mem: "text_members ?p = Some (discover_members ns grp svc h)" unfolding text_members_def json_roundtrip [OF ok] by simp
  have "snd (processLine (envs 0) (''DISCOVER'' @ '' '' @ ?p) A) = ''OK '' @ json_text (VArr (map (inst_json (envs 0)) xs))"
    unfolding processLine_def split
    by (simp add: cmdDiscover_def with_req_def mem read_discover withDef_twice assms(5) del: json_text.simps)
  then show ?thesis unfolding line by (simp del: json_text.simps)
qed

text \<open>
  C7. Discovery over the line protocol shows what the registry holds: the client that asks a
  server for a service gets exactly the instances the naming service returns, every field of
  the struct included, after both texts - the query and the array of instances - have been
  printed, sent and parsed.
\<close>
theorem discovery_over_tcp:
  assumes "valid_utf8 ns" "valid_utf8 grp" "valid_utf8 svc"
    and "length (json_text (VObj (discover_members ns grp svc h))) < 1048567"
    and "GetInstances (withDefault ns ''public'') (withDefault grp ''DEFAULT_GROUP'') svc [] h (registry_of A) = Inr xs"
    and "\<forall>x \<in> set xs. sendable (envs 0) pf x" "coTcp C = Some n"
  shows "TCPGetInstances pf jerr ns grp svc h (server_net envs A) C = Inr (map client_view xs)"
proof -
  let ?t = "json_text (VArr (map (inst_json (envs 0)) xs))"
  have "printable (''OK '' @ ?t)" using printable_json [OF insts_json_ok [OF assms(6)]] by simp
  then have io: "server_net envs A n (tcp_text ''DISCOVER'' (json_text (VObj (discover_members ns grp svc h)))) =
      ReadText ((''OK '' @ ?t) @ [CHR 0x0A])"
    by (rule server_answers [OF tcp_discover_line [OF assms(1-5)]])
  obtain u where u: "?t = CHR ''['' # u @ '']''" using array_text by blast
  have "trim_space ((''OK '' @ ?t) @ [CHR 0x0A]) = ''OK '' @ ?t"
    by (rule trim_newline) (simp_all add: u is_space_def del: json_text.simps)
  then have "tcpSend (server_net envs A) C ''DISCOVER'' (json_text (VObj (discover_members ns grp svc h))) = Inr ?t"
    using io by (simp add: tcpSend_def assms(7) tcp_text_def has_prefix_def del: json_text.simps)
  then show ?thesis
    by (simp add: TCPGetInstances_def discover_payload read_insts [OF assms(6)] del: json_text.simps)
qed

section \<open>An example\<close>

definition demo_opts :: RegisterOptions where
  "demo_opts = \<lparr>roNamespaceID = [], roGroupName = [], roServiceName = ''svc'', roClusterName = [], roIP = ''10.0.0.1'',
     roPort = 80, roWeight = 1, roEphemeral = True, roMetadata = []\<rparr>"

definition demo_tenv :: tcp_env where
  "demo_tenv = \<lparr>teClocks = heClocks demo_env, teParseFloat = (\<lambda>_. Some 1), teFloatText = (\<lambda>_. ''1''),
     teTimeText = (\<lambda>_. ''2024-01-01T00:00:00Z''), teJsonError = (\<lambda>_. []), teUpper = id\<rparr>"

lemma demo_opts_ok: "opts_ok demo_opts"
  by (simp add: opts_ok_def demo_opts_def ascii_valid_utf8 ascii_def)

lemma num_ok_one: "num_ok ''1''"
  by (simp add: num_ok_def num_start_def num_done_def is_digit_def)

lemma demo_weight: "weight_text (\<lambda>_. ''1'') (teParseFloat demo_tenv) (roWeight demo_opts)"
  by (simp add: weight_text_def demo_tenv_def demo_opts_def one_f64_def num_ok_one)

lemma demo_payload_length: "length (register_payload (\<lambda>_. ''1'') demo_opts) < 1048567"
  by (simp add: register_payload_members [of _ 1] demo_opts_def one_f64_def register_members_def json_string_def
      escape_ascii_def withDefault_def itoa_def digits10.simps)

theorem registration_over_any_protocol_witness:
  "registry_of (fst (handleConn (\<lambda>_. demo_tenv) (tcp_text ''REGISTER'' (register_payload (\<lambda>_. ''1'') demo_opts)) demo_app)) =
     fst (RegisterInstance 7 (offered demo_opts) (registry_of demo_app)) \<and>
   registry_of (fst (grpc_RegisterInstance (heClocks demo_env) (register_msg demo_opts) demo_app)) =
     registry_of (fst (registerInstance demo_env (form_of (register_params (\<lambda>_. ''1'') demo_opts)) demo_app))"
  using registration_over_any_protocol [of demo_opts "\<lambda>_. ''1''" "\<lambda>_. demo_tenv" demo_env "\<lambda>_. ''1''" 7 "heClocks demo_env" demo_app,
      OF demo_opts_ok demo_weight _ demo_payload_length]
  by (simp add: demo_opts_def demo_env_def demo_tenv_def)

lemma demo_found: "GetInstances (withDefault [] ''public'') (withDefault [] ''DEFAULT_GROUP'') ''order'' [] True
    (registry_of demo_app) = Inr [demo_row]"
  by (simp add: GetInstances_def InstanceStore_ListByClusters_def demo_app_def mem_ops withDefault_def demo_row_def
      svc_where_def)

lemma demo_sendable: "sendable demo_tenv (\<lambda>_. Some 1) demo_row"
  by (simp add: sendable_def demo_tenv_def demo_row_def ascii_valid_utf8 ascii_def num_ok_one)

theorem discovery_over_tcp_witness:
  "TCPGetInstances (\<lambda>_. Some 1) id [] [] ''order'' True (server_net (\<lambda>_. demo_tenv) demo_app)
     \<lparr>coTcp = Some 1, coGrpc = None, coClosed = []\<rparr> = Inr [client_view demo_row]"
proof -
  have "length (json_text (VObj (discover_members [] [] ''order'' True))) < 1048567"
    by (simp add: discover_members_def json_string_def escape_ascii_def withDefault_def)
  from discovery_over_tcp [OF _ _ _ this demo_found, of "\<lambda>_. demo_tenv" "\<lambda>_. Some 1"] show ?thesis
    by (simp add: demo_sendable ascii_valid_utf8 ascii_def)
qed

text \<open>Stubs that reach a server in a fixed state.\<close>

definition grpc_to :: "('i, 's, 'c, 'h, 'n, 'd) app \<Rightarrow> clocks \<Rightarrow> grpc_stubs" where
  "grpc_to A ck = \<lparr>callRegister = (\<lambda>q. snd (grpc_RegisterInstance ck q A)),
     callDeregister = (\<lambda>q. snd (grpc_DeregisterInstance q A)), callHeartbeat = (\<lambda>q. snd (grpc_Heartbeat q A)),
     callGetInstances = (\<lambda>q. grpc_GetInstances q A), callGetConfig = (\<lambda>q. grpc_GetConfig q A),
     callPublishConfig = (\<lambda>q. snd (grpc_PublishConfig q A)), callListenConfig = (\<lambda>_. Inr no_change),
     callReportFailure = (\<lambda>q. snd (grpc_ReportFailure ck q A)), callReportSuccess = (\<lambda>q. snd (grpc_ReportSuccess q A))\<rparr>"

end
