(* ===== verification/GrpcStubs.thy ===== *)
theory GrpcStubs
  imports GrpcClient GoJson
begin

text \<open>
  The code that protoc generates, \<^verbatim>\<open>src/pkg/grpcserver/benbroo_grpc.pb.go\<close> and the messages of
  \<^verbatim>\<open>benbroo.pb.go\<close>: the stubs the client calls, the handlers and the descriptions of the three
  services, and their registration by \<^verbatim>\<open>Register\<close> in \<^verbatim>\<open>src/pkg/grpcserver/server.go\<close>. A
  message travels as a value of \<open>rpc_msg\<close>, which stands for \<^verbatim>\<open>interface{}\<close> with its dynamic type.
  What lies between a stub and a handler, grpc-go, is a parameter \<open>cc\<close> (\<^verbatim>\<open>Invoke\<close> of the
  connection) with the documented behaviour of a unary call as the hypothesis \<open>delivers\<close>.
\<close>

section \<open>Messages\<close>

text \<open>\<open>T{}\<close>, the value \<^verbatim>\<open>Reset\<close> leaves and \<^verbatim>\<open>new\<close> begins with.\<close>

definition zero_RegisterInstanceRequest :: RegisterInstanceRequest where
  "zero_RegisterInstanceRequest = \<lparr>rgqNamespaceId = [], rgqGroupName = [], rgqServiceName = [], rgqClusterName = [],
     rgqIp = [], rgqPort = 0, rgqWeight = 0, rgqEphemeral = False, rgqMetadata = []\<rparr>"

definition zero_DeregisterInstanceRequest :: DeregisterInstanceRequest where
  "zero_DeregisterInstanceRequest = \<lparr>dqNamespaceId = [], dqGroupName = [], dqServiceName = [], dqClusterName = [],
     dqIp = [], dqPort = 0\<rparr>"

definition zero_InstanceQuery :: InstanceQuery where
  "zero_InstanceQuery = \<lparr>iqNamespaceId = [], iqGroupName = [], iqServiceName = [], iqHealthyOnly = False, iqClusters = []\<rparr>"

definition zero_InstanceListResponse :: InstanceListResponse where
  "zero_InstanceListResponse = \<lparr>ilInstances = [], ilCount = 0\<rparr>"

definition zero_InstanceInfo :: InstanceInfo where
  "zero_InstanceInfo = \<lparr>iiId = 0, iiNamespaceId = [], iiGroupName = [], iiServiceName = [], iiClusterName = [], iiIp = [],
     iiPort = 0, iiWeight = 0, iiHealthy = False, iiEnabled = False, iiEphemeral = False, iiMetadata = []\<rparr>"

definition zero_ConfigQuery :: ConfigQuery where
  "zero_ConfigQuery = \<lparr>cqNamespaceId = [], cqGroupName = [], cqDataId = []\<rparr>"

definition zero_ConfigPublishRequest :: ConfigPublishRequest where
  "zero_ConfigPublishRequest = \<lparr>pqNamespaceId = [], pqGroupName = [], pqDataId = [], pqContent = [], pqType = []\<rparr>"

definition zero_ConfigInfo :: ConfigInfo where
  "zero_ConfigInfo = \<lparr>giNamespaceId = [], giGroupName = [], giDataId = [], giContent = [], giMd5 = [], giType = []\<rparr>"

definition zero_ConfigListenRequest :: ConfigListenRequest where
  "zero_ConfigListenRequest = \<lparr>lqNamespaceId = [], lqGroupName = [], lqDataId = [], lqMd5 = []\<rparr>"

definition zero_ConfigChangedResponse :: ConfigChangedResponse where
  "zero_ConfigChangedResponse = \<lparr>ccChanged = False, ccContent = [], ccMd5 = []\<rparr>"

definition zero_HealthReportRequest :: HealthReportRequest where
  "zero_HealthReportRequest = \<lparr>hqNamespaceId = [], hqGroupName = [], hqServiceName = [], hqIp = [], hqPort = 0\<rparr>"

definition zero_Response :: Response where
  "zero_Response = \<lparr>rpCode = 0, rpMessage = []\<rparr>"

text \<open>A getter reads a field, and the zero of its type from a nil message.\<close>

definition getter :: "('m \<Rightarrow> 'v) \<Rightarrow> 'm \<Rightarrow> 'm option \<Rightarrow> 'v" where
  "getter sel zero x = (case x of None \<Rightarrow> sel zero | Some m \<Rightarrow> sel m)"

datatype rpc_msg =
    MRegister RegisterInstanceRequest
  | MDeregister DeregisterInstanceRequest
  | MHeartbeat DeregisterInstanceRequest
  | MQuery InstanceQuery
  | MInstances InstanceListResponse
  | MConfigQuery ConfigQuery
  | MPublish ConfigPublishRequest
  | MConfig ConfigInfo
  | MListen ConfigListenRequest
  | MChanged ConfigChangedResponse
  | MReport HealthReportRequest
  | MResponse Response

text \<open>The dynamic types.\<close>

datatype rpc_type =
    TRegister | TDeregister | THeartbeat | TQuery | TInstances | TConfigQuery | TPublish | TConfig
  | TListen | TChanged | TReport | TResponse

fun msg_type :: "rpc_msg \<Rightarrow> rpc_type" where
  "msg_type (MRegister _) = TRegister"
| "msg_type (MDeregister _) = TDeregister"
| "msg_type (MHeartbeat _) = THeartbeat"
| "msg_type (MQuery _) = TQuery"
| "msg_type (MInstances _) = TInstances"
| "msg_type (MConfigQuery _) = TConfigQuery"
| "msg_type (MPublish _) = TPublish"
| "msg_type (MConfig _) = TConfig"
| "msg_type (MListen _) = TListen"
| "msg_type (MChanged _) = TChanged"
| "msg_type (MReport _) = TReport"
| "msg_type (MResponse _) = TResponse"

text \<open>The texts of a message: protobuf carries them if they are UTF-8.\<close>

definition info_texts :: "InstanceInfo \<Rightarrow> string list" where
  "info_texts x = [iiNamespaceId x, iiGroupName x, iiServiceName x, iiClusterName x, iiIp x, iiMetadata x]"

fun msg_texts :: "rpc_msg \<Rightarrow> string list" where
  "msg_texts (MRegister q) = [rgqNamespaceId q, rgqGroupName q, rgqServiceName q, rgqClusterName q, rgqIp q, rgqMetadata q]"
| "msg_texts (MDeregister q) = [dqNamespaceId q, dqGroupName q, dqServiceName q, dqClusterName q, dqIp q]"
| "msg_texts (MHeartbeat q) = [dqNamespaceId q, dqGroupName q, dqServiceName q, dqClusterName q, dqIp q]"
| "msg_texts (MQuery q) = [iqNamespaceId q, iqGroupName q, iqServiceName q, iqClusters q]"
| "msg_texts (MInstances r) = concat (map info_texts (ilInstances r))"
| "msg_texts (MConfigQuery q) = [cqNamespaceId q, cqGroupName q, cqDataId q]"
| "msg_texts (MPublish q) = [pqNamespaceId q, pqGroupName q, pqDataId q, pqContent q, pqType q]"
| "msg_texts (MConfig r) = [giNamespaceId r, giGroupName r, giDataId r, giContent r, giMd5 r, giType r]"
| "msg_texts (MListen q) = [lqNamespaceId q, lqGroupName q, lqDataId q, lqMd5 q]"
| "msg_texts (MChanged r) = [ccContent r, ccMd5 r]"
| "msg_texts (MReport q) = [hqNamespaceId q, hqGroupName q, hqServiceName q, hqIp q]"
| "msg_texts (MResponse r) = [rpMessage r]"

definition msg_utf8 :: "rpc_msg \<Rightarrow> bool" where
  "msg_utf8 m \<longleftrightarrow> list_all valid_utf8 (msg_texts m)"

section \<open>Servers\<close>

text \<open>
  The three interfaces of a server. A method takes the message and the state and returns the
  new state and a response or a status; \<^const>\<open>None\<close>: it has not returned.
\<close>

type_synonym ('a, 'q, 'r) rpc_method = "'q \<Rightarrow> 'a \<Rightarrow> ('a \<times> (grpc_status + 'r)) option"

record 'a NamingServiceServer =
  nvRegisterInstance :: "('a, RegisterInstanceRequest, Response) rpc_method"
  nvDeregisterInstance :: "('a, DeregisterInstanceRequest, Response) rpc_method"
  nvHeartbeat :: "('a, DeregisterInstanceRequest, Response) rpc_method"
  nvGetInstances :: "('a, InstanceQuery, InstanceListResponse) rpc_method"

record 'a ConfigServiceServer =
  cvGetConfig :: "('a, ConfigQuery, ConfigInfo) rpc_method"
  cvPublishConfig :: "('a, ConfigPublishRequest, Response) rpc_method"
  cvListenConfig :: "('a, ConfigListenRequest, ConfigChangedResponse) rpc_method"

record 'a HealthServiceServer =
  hvReportFailure :: "('a, HealthReportRequest, Response) rpc_method"
  hvReportSuccess :: "('a, HealthReportRequest, Response) rpc_method"

text \<open>A Go value as a server: the interfaces it implements, which a type assertion asks for.\<close>

record 'a implementation =
  asNaming :: "'a NamingServiceServer option"
  asConfig :: "'a ConfigServiceServer option"
  asHealth :: "'a HealthServiceServer option"

text \<open>The servers to embed: every method answers \<^verbatim>\<open>codes.Unimplemented\<close>, which is 12.\<close>

definition unimplemented :: "string \<Rightarrow> ('a, 'q, 'r) rpc_method" where
  "unimplemented m q A = Some (A, Inl (OtherCode 12, ''method '' @ m @ '' not implemented''))"

definition UnimplementedNamingServiceServer :: "'a NamingServiceServer" where
  "UnimplementedNamingServiceServer = \<lparr>nvRegisterInstance = unimplemented ''RegisterInstance'',
     nvDeregisterInstance = unimplemented ''DeregisterInstance'',
     nvHeartbeat = unimplemented ''Heartbeat'',
     nvGetInstances = unimplemented ''GetInstances''\<rparr>"

definition UnimplementedConfigServiceServer :: "'a ConfigServiceServer" where
  "UnimplementedConfigServiceServer = \<lparr>cvGetConfig = unimplemented ''GetConfig'',
     cvPublishConfig = unimplemented ''PublishConfig'',
     cvListenConfig = unimplemented ''ListenConfig''\<rparr>"

definition UnimplementedHealthServiceServer :: "'a HealthServiceServer" where
  "UnimplementedHealthServiceServer = \<lparr>hvReportFailure = unimplemented ''ReportFailure'',
     hvReportSuccess = unimplemented ''ReportSuccess''\<rparr>"

section \<open>Handlers\<close>

text \<open>
  What a handler does: it returns, it does not (yet), or a type assertion in it panics. \<open>dec\<close>
  reads the request as a message of the type the handler has made; the interceptor, if the
  server has one, gets the request, the name of the method and the rest of the work.
\<close>

datatype 'a reply = Returned 'a "grpc_status + rpc_msg" | Unreturned | TypePanic

definition returned :: "('r \<Rightarrow> rpc_msg) \<Rightarrow> ('a \<times> (grpc_status + 'r)) option \<Rightarrow> 'a reply" where
  "returned f r = (case r of None \<Rightarrow> Unreturned | Some (A, x) \<Rightarrow> Returned A (map_sum id f x))"

record 'a server_info =
  uiServer :: "'a implementation"
  uiFullMethod :: string

type_synonym decoder = "rpc_type \<Rightarrow> grpc_status + rpc_msg"

type_synonym 'a rpc_handler = "rpc_msg \<Rightarrow> 'a \<Rightarrow> 'a reply"

type_synonym 'a interceptor = "rpc_msg \<Rightarrow> 'a server_info \<Rightarrow> 'a rpc_handler \<Rightarrow> 'a \<Rightarrow> 'a reply"

type_synonym 'a method_handler = "'a implementation \<Rightarrow> decoder \<Rightarrow> 'a interceptor option \<Rightarrow> 'a \<Rightarrow> 'a reply"

definition unary_handler ::
  "rpc_type \<Rightarrow> string \<Rightarrow> ('a implementation \<Rightarrow> 'a rpc_handler) \<Rightarrow> 'a method_handler" where
  "unary_handler ty full call srv dec interceptor A =
     (case dec ty of
        Inl e \<Rightarrow> Returned A (Inl e)
      | Inr q \<Rightarrow>
          (case interceptor of
             None \<Rightarrow> call srv q A
           | Some f \<Rightarrow> f q \<lparr>uiServer = srv, uiFullMethod = full\<rparr> (call srv) A))"

subsection \<open>\<open>NamingService\<close>\<close>

definition NamingService_RegisterInstance_FullMethodName :: string where
  "NamingService_RegisterInstance_FullMethodName = ''/benbroo.NamingService/RegisterInstance''"

definition NamingService_DeregisterInstance_FullMethodName :: string where
  "NamingService_DeregisterInstance_FullMethodName = ''/benbroo.NamingService/DeregisterInstance''"

definition NamingService_Heartbeat_FullMethodName :: string where
  "NamingService_Heartbeat_FullMethodName = ''/benbroo.NamingService/Heartbeat''"

definition NamingService_GetInstances_FullMethodName :: string where
  "NamingService_GetInstances_FullMethodName = ''/benbroo.NamingService/GetInstances''"

definition NamingService_RegisterInstance_call :: "'a implementation \<Rightarrow> 'a rpc_handler" where
  "NamingService_RegisterInstance_call srv m A =
     (case (asNaming srv, m) of (Some s, MRegister q) \<Rightarrow> returned MResponse (nvRegisterInstance s q A) | _ \<Rightarrow> TypePanic)"

definition NamingService_RegisterInstance_Handler :: "'a method_handler" where
  "NamingService_RegisterInstance_Handler = unary_handler TRegister NamingService_RegisterInstance_FullMethodName NamingService_RegisterInstance_call"

definition NamingService_DeregisterInstance_call :: "'a implementation \<Rightarrow> 'a rpc_handler" where
  "NamingService_DeregisterInstance_call srv m A =
     (case (asNaming srv, m) of (Some s, MDeregister q) \<Rightarrow> returned MResponse (nvDeregisterInstance s q A) | _ \<Rightarrow> TypePanic)"

definition NamingService_DeregisterInstance_Handler :: "'a method_handler" where
  "NamingService_DeregisterInstance_Handler = unary_handler TDeregister NamingService_DeregisterInstance_FullMethodName NamingService_DeregisterInstance_call"

definition NamingService_Heartbeat_call :: "'a implementation \<Rightarrow> 'a rpc_handler" where
  "NamingService_Heartbeat_call srv m A =
     (case (asNaming srv, m) of (Some s, MHeartbeat q) \<Rightarrow> returned MResponse (nvHeartbeat s q A) | _ \<Rightarrow> TypePanic)"

definition NamingService_Heartbeat_Handler :: "'a method_handler" where
  "NamingService_Heartbeat_Handler = unary_handler THeartbeat NamingService_Heartbeat_FullMethodName NamingService_Heartbeat_call"

definition NamingService_GetInstances_call :: "'a implementation \<Rightarrow> 'a rpc_handler" where
  "NamingService_GetInstances_call srv m A =
     (case (asNaming srv, m) of (Some s, MQuery q) \<Rightarrow> returned MInstances (nvGetInstances s q A) | _ \<Rightarrow> TypePanic)"

definition NamingService_GetInstances_Handler :: "'a method_handler" where
  "NamingService_GetInstances_Handler = unary_handler TQuery NamingService_GetInstances_FullMethodName NamingService_GetInstances_call"

subsection \<open>\<open>ConfigService\<close>\<close>

definition ConfigService_GetConfig_FullMethodName :: string where
  "ConfigService_GetConfig_FullMethodName = ''/benbroo.ConfigService/GetConfig''"

definition ConfigService_PublishConfig_FullMethodName :: string where
  "ConfigService_PublishConfig_FullMethodName = ''/benbroo.ConfigService/PublishConfig''"

definition ConfigService_ListenConfig_FullMethodName :: string where
  "ConfigService_ListenConfig_FullMethodName = ''/benbroo.ConfigService/ListenConfig''"

definition ConfigService_GetConfig_call :: "'a implementation \<Rightarrow> 'a rpc_handler" where
  "ConfigService_GetConfig_call srv m A =
     (case (asConfig srv, m) of (Some s, MConfigQuery q) \<Rightarrow> returned MConfig (cvGetConfig s q A) | _ \<Rightarrow> TypePanic)"

definition ConfigService_GetConfig_Handler :: "'a method_handler" where
  "ConfigService_GetConfig_Handler = unary_handler TConfigQuery ConfigService_GetConfig_FullMethodName ConfigService_GetConfig_call"

definition ConfigService_PublishConfig_call :: "'a implementation \<Rightarrow> 'a rpc_handler" where
  "ConfigService_PublishConfig_call srv m A =
     (case (asConfig srv, m) of (Some s, MPublish q) \<Rightarrow> returned MResponse (cvPublishConfig s q A) | _ \<Rightarrow> TypePanic)"

definition ConfigService_PublishConfig_Handler :: "'a method_handler" where
  "ConfigService_PublishConfig_Handler = unary_handler TPublish ConfigService_PublishConfig_FullMethodName ConfigService_PublishConfig_call"

definition ConfigService_ListenConfig_call :: "'a implementation \<Rightarrow> 'a rpc_handler" where
  "ConfigService_ListenConfig_call srv m A =
     (case (asConfig srv, m) of (Some s, MListen q) \<Rightarrow> returned MChanged (cvListenConfig s q A) | _ \<Rightarrow> TypePanic)"

definition ConfigService_ListenConfig_Handler :: "'a method_handler" where
  "ConfigService_ListenConfig_Handler = unary_handler TListen ConfigService_ListenConfig_FullMethodName ConfigService_ListenConfig_call"

subsection \<open>\<open>HealthService\<close>\<close>

definition HealthService_ReportFailure_FullMethodName :: string where
  "HealthService_ReportFailure_FullMethodName = ''/benbroo.HealthService/ReportFailure''"

definition HealthService_ReportSuccess_FullMethodName :: string where
  "HealthService_ReportSuccess_FullMethodName = ''/benbroo.HealthService/ReportSuccess''"

definition HealthService_ReportFailure_call :: "'a implementation \<Rightarrow> 'a rpc_handler" where
  "HealthService_ReportFailure_call srv m A =
     (case (asHealth srv, m) of (Some s, MReport q) \<Rightarrow> returned MResponse (hvReportFailure s q A) | _ \<Rightarrow> TypePanic)"

definition HealthService_ReportFailure_Handler :: "'a method_handler" where
  "HealthService_ReportFailure_Handler = unary_handler TReport HealthService_ReportFailure_FullMethodName HealthService_ReportFailure_call"

definition HealthService_ReportSuccess_call :: "'a implementation \<Rightarrow> 'a rpc_handler" where
  "HealthService_ReportSuccess_call srv m A =
     (case (asHealth srv, m) of (Some s, MReport q) \<Rightarrow> returned MResponse (hvReportSuccess s q A) | _ \<Rightarrow> TypePanic)"

definition HealthService_ReportSuccess_Handler :: "'a method_handler" where
  "HealthService_ReportSuccess_Handler = unary_handler TReport HealthService_ReportSuccess_FullMethodName HealthService_ReportSuccess_call"

section \<open>Descriptions and registration\<close>

text \<open>The interface in \<^verbatim>\<open>HandlerType\<close>, and a description; none of the services has streams.\<close>

datatype rpc_iface = INaming | IConfig | IHealth

record 'a service_desc =
  sdServiceName :: string
  sdHandlerType :: rpc_iface
  sdMethods :: "(string \<times> 'a method_handler) list"
  sdMetadata :: string

definition NamingService_ServiceDesc :: "'a service_desc" where
  "NamingService_ServiceDesc = \<lparr>sdServiceName = ''benbroo.NamingService'', sdHandlerType = INaming,
     sdMethods = [(''RegisterInstance'', NamingService_RegisterInstance_Handler),
       (''DeregisterInstance'', NamingService_DeregisterInstance_Handler),
       (''Heartbeat'', NamingService_Heartbeat_Handler),
       (''GetInstances'', NamingService_GetInstances_Handler)],
     sdMetadata = ''proto/benbroo.proto''\<rparr>"

definition ConfigService_ServiceDesc :: "'a service_desc" where
  "ConfigService_ServiceDesc = \<lparr>sdServiceName = ''benbroo.ConfigService'', sdHandlerType = IConfig,
     sdMethods = [(''GetConfig'', ConfigService_GetConfig_Handler),
       (''PublishConfig'', ConfigService_PublishConfig_Handler),
       (''ListenConfig'', ConfigService_ListenConfig_Handler)],
     sdMetadata = ''proto/benbroo.proto''\<rparr>"

definition HealthService_ServiceDesc :: "'a service_desc" where
  "HealthService_ServiceDesc = \<lparr>sdServiceName = ''benbroo.HealthService'', sdHandlerType = IHealth,
     sdMethods = [(''ReportFailure'', HealthService_ReportFailure_Handler),
       (''ReportSuccess'', HealthService_ReportSuccess_Handler)],
     sdMetadata = ''proto/benbroo.proto''\<rparr>"

text \<open>
  What has been registered with a grpc server, in order. The check for an embedded nil pointer
  at the beginning of the three functions does nothing for a server that has none.
\<close>

type_synonym 'a registered = "('a service_desc \<times> 'a implementation) list"

definition RegisterNamingServiceServer :: "'a registered \<Rightarrow> 'a implementation \<Rightarrow> 'a registered" where
  "RegisterNamingServiceServer s srv = s @ [(NamingService_ServiceDesc, srv)]"

definition RegisterConfigServiceServer :: "'a registered \<Rightarrow> 'a implementation \<Rightarrow> 'a registered" where
  "RegisterConfigServiceServer s srv = s @ [(ConfigService_ServiceDesc, srv)]"

definition RegisterHealthServiceServer :: "'a registered \<Rightarrow> 'a implementation \<Rightarrow> 'a registered" where
  "RegisterHealthServiceServer s srv = s @ [(HealthService_ServiceDesc, srv)]"

definition grpc_Register :: "'a implementation \<Rightarrow> 'a registered \<Rightarrow> 'a registered" where
  "grpc_Register s srv =
     RegisterHealthServiceServer (RegisterConfigServiceServer (RegisterNamingServiceServer srv s) s) s"

section \<open>Clients\<close>

text \<open>
  \<^verbatim>\<open>Invoke\<close> of a connection: the method, the request, the type of the message that receives the
  reply, and the state of the server it is connected to. A stub makes the message it returns;
  \<open>into\<close> is what the reply makes of it.
\<close>

type_synonym 'a invoke = "string \<Rightarrow> rpc_msg \<Rightarrow> rpc_type \<Rightarrow> 'a \<Rightarrow> ('a \<times> (grpc_status + rpc_msg)) option"

definition client_stub ::
  "string \<Rightarrow> ('q \<Rightarrow> rpc_msg) \<Rightarrow> rpc_type \<Rightarrow> (rpc_msg \<Rightarrow> 'r) \<Rightarrow> 'a invoke \<Rightarrow> ('a, 'q, 'r) rpc_method" where
  "client_stub full req ty into cc q A = map_option (map_prod id (map_sum id into)) (cc full (req q) ty A)"

fun into_Response :: "rpc_msg \<Rightarrow> Response" where
  "into_Response (MResponse r) = r"
| "into_Response _ = zero_Response"

fun into_InstanceListResponse :: "rpc_msg \<Rightarrow> InstanceListResponse" where
  "into_InstanceListResponse (MInstances r) = r"
| "into_InstanceListResponse _ = zero_InstanceListResponse"

fun into_ConfigInfo :: "rpc_msg \<Rightarrow> ConfigInfo" where
  "into_ConfigInfo (MConfig r) = r"
| "into_ConfigInfo _ = zero_ConfigInfo"

fun into_ConfigChangedResponse :: "rpc_msg \<Rightarrow> ConfigChangedResponse" where
  "into_ConfigChangedResponse (MChanged r) = r"
| "into_ConfigChangedResponse _ = zero_ConfigChangedResponse"

definition NamingServiceClient_RegisterInstance :: "'a invoke \<Rightarrow> ('a, RegisterInstanceRequest, Response) rpc_method" where
  "NamingServiceClient_RegisterInstance =
     client_stub NamingService_RegisterInstance_FullMethodName MRegister TResponse into_Response"

definition NamingServiceClient_DeregisterInstance :: "'a invoke \<Rightarrow> ('a, DeregisterInstanceRequest, Response) rpc_method" where
  "NamingServiceClient_DeregisterInstance =
     client_stub NamingService_DeregisterInstance_FullMethodName MDeregister TResponse into_Response"

definition NamingServiceClient_Heartbeat :: "'a invoke \<Rightarrow> ('a, DeregisterInstanceRequest, Response) rpc_method" where
  "NamingServiceClient_Heartbeat =
     client_stub NamingService_Heartbeat_FullMethodName MHeartbeat TResponse into_Response"

definition NamingServiceClient_GetInstances :: "'a invoke \<Rightarrow> ('a, InstanceQuery, InstanceListResponse) rpc_method" where
  "NamingServiceClient_GetInstances =
     client_stub NamingService_GetInstances_FullMethodName MQuery TInstances into_InstanceListResponse"

definition ConfigServiceClient_GetConfig :: "'a invoke \<Rightarrow> ('a, ConfigQuery, ConfigInfo) rpc_method" where
  "ConfigServiceClient_GetConfig =
     client_stub ConfigService_GetConfig_FullMethodName MConfigQuery TConfig into_ConfigInfo"

definition ConfigServiceClient_PublishConfig :: "'a invoke \<Rightarrow> ('a, ConfigPublishRequest, Response) rpc_method" where
  "ConfigServiceClient_PublishConfig =
     client_stub ConfigService_PublishConfig_FullMethodName MPublish TResponse into_Response"

definition ConfigServiceClient_ListenConfig :: "'a invoke \<Rightarrow> ('a, ConfigListenRequest, ConfigChangedResponse) rpc_method" where
  "ConfigServiceClient_ListenConfig =
     client_stub ConfigService_ListenConfig_FullMethodName MListen TChanged into_ConfigChangedResponse"

definition HealthServiceClient_ReportFailure :: "'a invoke \<Rightarrow> ('a, HealthReportRequest, Response) rpc_method" where
  "HealthServiceClient_ReportFailure =
     client_stub HealthService_ReportFailure_FullMethodName MReport TResponse into_Response"

definition HealthServiceClient_ReportSuccess :: "'a invoke \<Rightarrow> ('a, HealthReportRequest, Response) rpc_method" where
  "HealthServiceClient_ReportSuccess =
     client_stub HealthService_ReportSuccess_FullMethodName MReport TResponse into_Response"

end
