(* ===== verification/GrpcWire.thy ===== *)
theory GrpcWire
  imports Protocols GrpcStubs
begin

text \<open>
  The generated stubs and handlers put together: a call through a stub does what the method of
  the server does (\<^verbatim>\<open>src/pkg/grpcserver/server.go\<close>), if the connection delivers.
\<close>

section \<open>The server of this program\<close>

text \<open>
  \<open>ck\<close> is the clock during the call, \<open>evs\<close> what a long poll waits for. The state of a
  \<^verbatim>\<open>ListenConfig\<close> is the one in which it returns.
\<close>

definition grpc_server ::
  "clocks \<Rightarrow> ('c, 'h) poll_event list \<Rightarrow> ('i, 's, 'c, 'h, 'n, 'd) app implementation" where
  "grpc_server ck evs = \<lparr>
     asNaming = Some \<lparr>nvRegisterInstance = (\<lambda>q A. Some (grpc_RegisterInstance ck q A)),
       nvDeregisterInstance = (\<lambda>q A. Some (grpc_DeregisterInstance q A)),
       nvHeartbeat = (\<lambda>q A. Some (grpc_Heartbeat q A)),
       nvGetInstances = (\<lambda>q A. Some (A, grpc_GetInstances q A))\<rparr>,
     asConfig = Some \<lparr>cvGetConfig = (\<lambda>q A. Some (A, grpc_GetConfig q A)),
       cvPublishConfig = (\<lambda>q A. Some (grpc_PublishConfig q A)),
       cvListenConfig = (\<lambda>q A. map_option (Pair A) (grpc_ListenConfig evs q A))\<rparr>,
     asHealth = Some \<lparr>hvReportFailure = (\<lambda>q A. Some (grpc_ReportFailure ck q A)),
       hvReportSuccess = (\<lambda>q A. Some (grpc_ReportSuccess q A))\<rparr>\<rparr>"

section \<open>Delivery\<close>

text \<open>
  The documented behaviour of a unary call over an open connection to a server without
  interceptors: the request is decoded as what was sent, if it has the type the handler asks
  for; the handler registered under the service and the method in the name of the call runs;
  its status comes back, or its response, if it has the type the caller asks for. Messages
  whose texts are not UTF-8 are not covered, nor are handlers that panic.
\<close>

definition full_name :: "'a service_desc \<Rightarrow> string \<Rightarrow> string" where
  "full_name d mn = ''/'' @ sdServiceName d @ ''/'' @ mn"

definition decodes :: "(rpc_msg \<Rightarrow> decoder) \<Rightarrow> bool" where
  "decodes dec \<longleftrightarrow> (\<forall>q. msg_utf8 q \<longrightarrow> dec q (msg_type q) = Inr q)"

fun comes_back :: "rpc_type \<Rightarrow> 'a reply \<Rightarrow> ('a \<times> (grpc_status + rpc_msg)) option \<Rightarrow> bool" where
  "comes_back ty (Returned A (Inl e)) r \<longleftrightarrow> r = Some (A, Inl e)"
| "comes_back ty (Returned A (Inr m)) r \<longleftrightarrow> (msg_utf8 m \<and> msg_type m = ty \<longrightarrow> r = Some (A, Inr m))"
| "comes_back ty Unreturned r \<longleftrightarrow> r = None"
| "comes_back ty TypePanic r \<longleftrightarrow> True"

text \<open>
  The messages and the handlers are within the limits of grpc-go and of the client: a message is
  shorter than the four mebibytes a receiver accepts by default, and the handler answers before the
  deadline of the call (5 s, 35 s for \<^verbatim>\<open>ListenConfig\<close>).
\<close>

definition delivers :: "(rpc_msg \<Rightarrow> decoder) \<Rightarrow> 'a invoke \<Rightarrow> 'a registered \<Rightarrow> bool" where
  "delivers dec cc svcs \<longleftrightarrow> decodes dec \<and>
     (\<forall>(d, srv) \<in> set svcs. \<forall>(mn, h) \<in> set (sdMethods d). \<forall>q ty A.
        msg_utf8 q \<longrightarrow> comes_back ty (h srv (dec q) None A) (cc (full_name d mn) q ty A))"

lemma deliversD:
  assumes "delivers dec cc svcs" "(d, srv) \<in> set svcs" "(mn, h) \<in> set (sdMethods d)" "msg_utf8 q"
  shows "comes_back ty (h srv (dec q) None A) (cc (full_name d mn) q ty A)"
  using assms by (fastforce simp: delivers_def)

section \<open>Calls\<close>

datatype rpc_call =
    CallRegister RegisterInstanceRequest
  | CallDeregister DeregisterInstanceRequest
  | CallHeartbeat DeregisterInstanceRequest
  | CallGetInstances InstanceQuery
  | CallGetConfig ConfigQuery
  | CallPublish ConfigPublishRequest
  | CallListen ConfigListenRequest
  | CallFailure HealthReportRequest
  | CallSuccess HealthReportRequest

fun call_msg :: "rpc_call \<Rightarrow> rpc_msg" where
  "call_msg (CallRegister q) = MRegister q"
| "call_msg (CallDeregister q) = MDeregister q"
| "call_msg (CallHeartbeat q) = MHeartbeat q"
| "call_msg (CallGetInstances q) = MQuery q"
| "call_msg (CallGetConfig q) = MConfigQuery q"
| "call_msg (CallPublish q) = MPublish q"
| "call_msg (CallListen q) = MListen q"
| "call_msg (CallFailure q) = MReport q"
| "call_msg (CallSuccess q) = MReport q"

definition as_msg :: "('r \<Rightarrow> rpc_msg) \<Rightarrow> ('a \<times> (grpc_status + 'r)) option \<Rightarrow> ('a \<times> (grpc_status + rpc_msg)) option" where
  "as_msg f = map_option (map_prod id (map_sum id f))"

text \<open>The call through the generated stub, and the method of the server.\<close>

fun by_stub :: "'a invoke \<Rightarrow> rpc_call \<Rightarrow> 'a \<Rightarrow> ('a \<times> (grpc_status + rpc_msg)) option" where
  "by_stub cc (CallRegister q) A = as_msg MResponse (NamingServiceClient_RegisterInstance cc q A)"
| "by_stub cc (CallDeregister q) A = as_msg MResponse (NamingServiceClient_DeregisterInstance cc q A)"
| "by_stub cc (CallHeartbeat q) A = as_msg MResponse (NamingServiceClient_Heartbeat cc q A)"
| "by_stub cc (CallGetInstances q) A = as_msg MInstances (NamingServiceClient_GetInstances cc q A)"
| "by_stub cc (CallGetConfig q) A = as_msg MConfig (ConfigServiceClient_GetConfig cc q A)"
| "by_stub cc (CallPublish q) A = as_msg MResponse (ConfigServiceClient_PublishConfig cc q A)"
| "by_stub cc (CallListen q) A = as_msg MChanged (ConfigServiceClient_ListenConfig cc q A)"
| "by_stub cc (CallFailure q) A = as_msg MResponse (HealthServiceClient_ReportFailure cc q A)"
| "by_stub cc (CallSuccess q) A = as_msg MResponse (HealthServiceClient_ReportSuccess cc q A)"

fun by_method ::
  "clocks \<Rightarrow> ('c, 'h) poll_event list \<Rightarrow> rpc_call \<Rightarrow> ('i, 's, 'c, 'h, 'n, 'd) app
   \<Rightarrow> (('i, 's, 'c, 'h, 'n, 'd) app \<times> (grpc_status + rpc_msg)) option" where
  "by_method ck evs (CallRegister q) A = as_msg MResponse (Some (grpc_RegisterInstance ck q A))"
| "by_method ck evs (CallDeregister q) A = as_msg MResponse (Some (grpc_DeregisterInstance q A))"
| "by_method ck evs (CallHeartbeat q) A = as_msg MResponse (Some (grpc_Heartbeat q A))"
| "by_method ck evs (CallGetInstances q) A = as_msg MInstances (Some (A, grpc_GetInstances q A))"
| "by_method ck evs (CallGetConfig q) A = as_msg MConfig (Some (A, grpc_GetConfig q A))"
| "by_method ck evs (CallPublish q) A = as_msg MResponse (Some (grpc_PublishConfig q A))"
| "by_method ck evs (CallListen q) A = as_msg MChanged (map_option (Pair A) (grpc_ListenConfig evs q A))"
| "by_method ck evs (CallFailure q) A = as_msg MResponse (Some (grpc_ReportFailure ck q A))"
| "by_method ck evs (CallSuccess q) A = as_msg MResponse (Some (grpc_ReportSuccess q A))"

definition reply_utf8 :: "('a \<times> (grpc_status + rpc_msg)) option \<Rightarrow> bool" where
  "reply_utf8 r \<longleftrightarrow> (case r of Some (_, Inr m) \<Rightarrow> msg_utf8 m | _ \<Rightarrow> True)"

text \<open>One method: the stub finds the handler, the handler runs the method, the reply is read back.\<close>

definition handles :: "'a registered \<Rightarrow> string \<Rightarrow> 'a method_handler \<Rightarrow> 'a implementation \<Rightarrow> bool" where
  "handles svcs full h srv \<longleftrightarrow> (\<exists>d mn. (d, srv) \<in> set svcs \<and> (mn, h) \<in> set (sdMethods d) \<and> full = full_name d mn)"

lemma stub_result:
  assumes del: "delivers dec cc svcs" and h: "handles svcs full h srv" and q: "msg_utf8 (req q)"
    and ok: "reply_utf8 (as_msg f x)"
    and call: "\<And>dq. dq (msg_type (req q)) = Inr (req q) \<Longrightarrow> h srv dq None A = returned f x"
    and f: "\<And>r. msg_type (f r) = ty" "\<And>r. into (f r) = r"
  shows "client_stub full req ty into cc q A = x"
proof -
  obtain d mn where reg: "(d, srv) \<in> set svcs" "(mn, h) \<in> set (sdMethods d)" and full: "full = full_name d mn"
    using h by (auto simp: handles_def)
  have "dec (req q) (msg_type (req q)) = Inr (req q)" using del q by (auto simp: delivers_def decodes_def)
  then have "h srv (dec (req q)) None A = returned f x" by (rule call)
  then have ret: "comes_back ty (returned f x) (cc full (req q) ty A)"
    using deliversD [OF del reg q, of ty A] full by simp
  show ?thesis
  proof (cases x)
    case None
    then show ?thesis using ret by (simp add: returned_def client_stub_def)
  next
    case (Some p)
    obtain A' r where p: "p = (A', r)" by (cases p)
    then show ?thesis
      using ret ok Some f by (cases r) (simp_all add: returned_def client_stub_def reply_utf8_def as_msg_def)
  qed
qed

lemma stub_delivered:
  assumes "delivers dec cc svcs" "handles svcs full h srv" "msg_utf8 (req q)" "reply_utf8 (as_msg f x)"
    and "\<And>dq. dq (msg_type (req q)) = Inr (req q) \<Longrightarrow> h srv dq None A = returned f x"
    and "\<And>r. msg_type (f r) = ty" "\<And>r. into (f r) = r"
  shows "as_msg f (client_stub full req ty into cc q A) = as_msg f x"
  by (rule arg_cong [where f = "as_msg f"], rule stub_result [where f = f]) (fact assms)+

lemmas full_names = full_name_def
  NamingService_RegisterInstance_FullMethodName_def NamingService_DeregisterInstance_FullMethodName_def
  NamingService_Heartbeat_FullMethodName_def NamingService_GetInstances_FullMethodName_def
  ConfigService_GetConfig_FullMethodName_def ConfigService_PublishConfig_FullMethodName_def
  ConfigService_ListenConfig_FullMethodName_def HealthService_ReportFailure_FullMethodName_def
  HealthService_ReportSuccess_FullMethodName_def

lemmas descriptions = NamingService_ServiceDesc_def ConfigService_ServiceDesc_def HealthService_ServiceDesc_def

lemmas registrations = grpc_Register_def RegisterNamingServiceServer_def RegisterConfigServiceServer_def
  RegisterHealthServiceServer_def

lemmas handlers =
  NamingService_RegisterInstance_Handler_def NamingService_DeregisterInstance_Handler_def
  NamingService_Heartbeat_Handler_def NamingService_GetInstances_Handler_def
  ConfigService_GetConfig_Handler_def ConfigService_PublishConfig_Handler_def
  ConfigService_ListenConfig_Handler_def HealthService_ReportFailure_Handler_def
  HealthService_ReportSuccess_Handler_def

lemmas handler_calls =
  NamingService_RegisterInstance_call_def NamingService_DeregisterInstance_call_def
  NamingService_Heartbeat_call_def NamingService_GetInstances_call_def
  ConfigService_GetConfig_call_def ConfigService_PublishConfig_call_def
  ConfigService_ListenConfig_call_def HealthService_ReportFailure_call_def
  HealthService_ReportSuccess_call_def

lemmas client_stubs =
  NamingServiceClient_RegisterInstance_def NamingServiceClient_DeregisterInstance_def
  NamingServiceClient_Heartbeat_def NamingServiceClient_GetInstances_def
  ConfigServiceClient_GetConfig_def ConfigServiceClient_PublishConfig_def
  ConfigServiceClient_ListenConfig_def HealthServiceClient_ReportFailure_def
  HealthServiceClient_ReportSuccess_def

lemma registered_handler:
  "d \<in> set [NamingService_ServiceDesc, ConfigService_ServiceDesc, HealthService_ServiceDesc] \<Longrightarrow>
     map_of (sdMethods d) mn = Some h \<Longrightarrow> full = full_name d mn \<Longrightarrow> handles (grpc_Register srv []) full h srv"
  unfolding handles_def by (rule exI [of _ d], rule exI [of _ mn]) (auto simp: registrations dest: map_of_SomeD)

lemma registered_handlers:
  "handles (grpc_Register srv []) NamingService_RegisterInstance_FullMethodName NamingService_RegisterInstance_Handler srv"
  "handles (grpc_Register srv []) NamingService_DeregisterInstance_FullMethodName NamingService_DeregisterInstance_Handler srv"
  "handles (grpc_Register srv []) NamingService_Heartbeat_FullMethodName NamingService_Heartbeat_Handler srv"
  "handles (grpc_Register srv []) NamingService_GetInstances_FullMethodName NamingService_GetInstances_Handler srv"
  "handles (grpc_Register srv []) ConfigService_GetConfig_FullMethodName ConfigService_GetConfig_Handler srv"
  "handles (grpc_Register srv []) ConfigService_PublishConfig_FullMethodName ConfigService_PublishConfig_Handler srv"
  "handles (grpc_Register srv []) ConfigService_ListenConfig_FullMethodName ConfigService_ListenConfig_Handler srv"
  "handles (grpc_Register srv []) HealthService_ReportFailure_FullMethodName HealthService_ReportFailure_Handler srv"
  "handles (grpc_Register srv []) HealthService_ReportSuccess_FullMethodName HealthService_ReportSuccess_Handler srv"
  subgoal by (rule registered_handler [of NamingService_ServiceDesc "''RegisterInstance''"]) (simp_all add: descriptions full_names)
  subgoal by (rule registered_handler [of NamingService_ServiceDesc "''DeregisterInstance''"]) (simp_all add: descriptions full_names)
  subgoal by (rule registered_handler [of NamingService_ServiceDesc "''Heartbeat''"]) (simp_all add: descriptions full_names)
  subgoal by (rule registered_handler [of NamingService_ServiceDesc "''GetInstances''"]) (simp_all add: descriptions full_names)
  subgoal by (rule registered_handler [of ConfigService_ServiceDesc "''GetConfig''"]) (simp_all add: descriptions full_names)
  subgoal by (rule registered_handler [of ConfigService_ServiceDesc "''PublishConfig''"]) (simp_all add: descriptions full_names)
  subgoal by (rule registered_handler [of ConfigService_ServiceDesc "''ListenConfig''"]) (simp_all add: descriptions full_names)
  subgoal by (rule registered_handler [of HealthService_ServiceDesc "''ReportFailure''"]) (simp_all add: descriptions full_names)
  subgoal by (rule registered_handler [of HealthService_ServiceDesc "''ReportSuccess''"]) (simp_all add: descriptions full_names)
  done

text \<open>
  C30. A call through a generated stub is a call of the method: over a connection that delivers
  to a server on which \<^verbatim>\<open>Register\<close> has registered the three services, each of the nine calls of
  the client runs the method of the same name, in the state the server is in, on the message
  the client has sent, and the client gets the method's response or status (for messages whose
  texts are UTF-8).
\<close>
theorem stubs_reach_methods:
  assumes "delivers dec cc (grpc_Register (grpc_server ck evs) [])"
    and "msg_utf8 (call_msg c)" "reply_utf8 (by_method ck evs c A)"
  shows "by_stub cc c A = by_method ck evs c A"
proof -
  note reached = registered_handlers [THEN stub_delivered [OF assms(1)]]
  note parts = handlers handler_calls unary_handler_def grpc_server_def
  show ?thesis
    using assms(2,3) by (cases c) (simp_all only: by_stub.simps by_method.simps call_msg.simps client_stubs,
      (rule reached; simp add: parts)+)
qed

text \<open>
  An interceptor, if the server had one, would be told the name under which the method is
  registered, whatever the method, and only of requests that could be decoded.
\<close>

lemma interceptor_told:
  assumes "d \<in> set [NamingService_ServiceDesc, ConfigService_ServiceDesc, HealthService_ServiceDesc]"
    and "(mn, h) \<in> set (sdMethods d)"
  shows "\<exists>ty call. \<forall>srv dec f A. h srv dec (Some f) A =
    (case dec ty of Inl e \<Rightarrow> Returned A (Inl e)
     | Inr q \<Rightarrow> f q \<lparr>uiServer = srv, uiFullMethod = full_name d mn\<rparr> (call srv) A)"
proof -
  have "\<exists>ty call. h = unary_handler ty (full_name d mn) call"
    using assms by (auto simp: descriptions handlers full_names) (rule exI, rule exI, rule refl)+
  then obtain ty call where "h = unary_handler ty (full_name d mn) call" by blast
  then show ?thesis by (intro exI [of _ ty] exI [of _ call]) (simp add: unary_handler_def split: sum.split)
qed

section \<open>Discovery\<close>

text \<open>
  The stubs a client holds after \<^verbatim>\<open>ConnectGRPC\<close>, for calls that reach the server in state \<open>A\<close>;
  \<open>late\<close> is the status of a call that is not answered before its deadline.
\<close>

definition answered :: "grpc_status \<Rightarrow> ('a \<times> (grpc_status + 'r)) option \<Rightarrow> grpc_status + 'r" where
  "answered late r = (case r of None \<Rightarrow> Inl late | Some (_, x) \<Rightarrow> x)"

definition generated_stubs :: "grpc_status \<Rightarrow> 'a invoke \<Rightarrow> 'a \<Rightarrow> grpc_stubs" where
  "generated_stubs late cc A = \<lparr>
     callRegister = (\<lambda>q. answered late (NamingServiceClient_RegisterInstance cc q A)),
     callDeregister = (\<lambda>q. answered late (NamingServiceClient_DeregisterInstance cc q A)),
     callHeartbeat = (\<lambda>q. answered late (NamingServiceClient_Heartbeat cc q A)),
     callGetInstances = (\<lambda>q. answered late (NamingServiceClient_GetInstances cc q A)),
     callGetConfig = (\<lambda>q. answered late (ConfigServiceClient_GetConfig cc q A)),
     callPublishConfig = (\<lambda>q. answered late (ConfigServiceClient_PublishConfig cc q A)),
     callListenConfig = (\<lambda>q. answered late (ConfigServiceClient_ListenConfig cc q A)),
     callReportFailure = (\<lambda>q. answered late (HealthServiceClient_ReportFailure cc q A)),
     callReportSuccess = (\<lambda>q. answered late (HealthServiceClient_ReportSuccess cc q A))\<rparr>"

lemma stub_GetInstances:
  assumes "delivers dec cc (grpc_Register (grpc_server ck evs) [])" "msg_utf8 (MQuery q)"
    and "grpc_GetInstances q A = Inr r" "msg_utf8 (MInstances r)"
  shows "NamingServiceClient_GetInstances cc q A = Some (A, Inr r)"
  unfolding client_stubs
  by (rule registered_handlers(4) [THEN stub_result [OF assms(1)], where f = MInstances])
     (use assms(2-4) in \<open>simp_all add: handlers handler_calls unary_handler_def grpc_server_def reply_utf8_def as_msg_def\<close>)

lemma instances_ok:
  "msg_utf8 (MInstances \<lparr>ilInstances = map toProtoInstance xs, ilCount = k\<rparr>) \<longleftrightarrow>
     (\<forall>x \<in> set xs. list_all valid_utf8 (info_texts (toProtoInstance x)))"
  by (auto simp: msg_utf8_def list_all_iff)

text \<open>
  C29. Discovery over gRPC, all the way: the call of the SDK, the generated stub, the handler it
  reaches and the method of the server return exactly the instances the naming service
  returns, for ports of 32 bits and texts in UTF-8.
\<close>
theorem discovery_over_grpc:
  assumes "GetInstances (withDefault ns ''public'') (withDefault grp ''DEFAULT_GROUP'') svc [] h (registry_of A) = Inr xs"
    and "\<forall>x \<in> set xs. - (2 ^ 31) \<le> siPort x \<and> siPort x < 2 ^ 31" "valid_utf8 ns" "valid_utf8 grp" "valid_utf8 svc"
    and "\<forall>x \<in> set xs. list_all valid_utf8 (info_texts (toProtoInstance x))"
    and "delivers dec cc (grpc_Register (grpc_server ck evs) [])"
    and "coGrpc C = Some n" "net n = generated_stubs late cc A"
  shows "GRPCGetInstances ns grp svc h net C = Inr (map client_view xs)"
proof -
  let ?q = "\<lparr>iqNamespaceId = withDefault ns ''public'', iqGroupName = withDefault grp ''DEFAULT_GROUP'',
    iqServiceName = svc, iqHealthyOnly = h, iqClusters = []\<rparr>"
  let ?r = "\<lparr>ilInstances = map toProtoInstance xs, ilCount = of_nat (length xs)\<rparr>"
  have view: "of_info (toProtoInstance x) = client_view x" if "x \<in> set xs" for x
    using assms(2) that int32_word [of "siPort x"] by (simp add: of_info_def toProtoInstance_def client_view_def)
  have "valid_utf8 []" by (rule ascii_valid_utf8) (simp add: ascii_def)
  then have "msg_utf8 (MQuery ?q)" using assms(3-5) by (simp add: msg_utf8_def withDefault_def valid_literals)
  moreover have "grpc_GetInstances ?q A = Inr ?r"
    using assms(1) by (simp add: grpc_GetInstances_def withDef_twice ParseClusters_def)
  ultimately have "NamingServiceClient_GetInstances cc ?q A = Some (A, Inr ?r)"
    by (rule stub_GetInstances [OF assms(7)]) (use assms(6) in \<open>simp add: instances_ok\<close>)
  then show ?thesis
    using assms(8,9) view
    by (simp add: GRPCGetInstances_def with_grpc_def HasGRPC_def generated_stubs_def answered_def)
qed

section \<open>A connection\<close>

text \<open>A connection that finds the handler by its name and loses nothing.\<close>

definition methods :: "'a registered \<Rightarrow> (string \<times> 'a method_handler \<times> 'a implementation) list" where
  "methods svcs = concat (map (\<lambda>(d, srv). map (\<lambda>(mn, h). (full_name d mn, h, srv)) (sdMethods d)) svcs)"

definition exact :: "rpc_msg \<Rightarrow> decoder" where
  "exact q ty = (if ty = msg_type q then Inr q else Inl (Internal, ''wrong type''))"

definition direct :: "'a registered \<Rightarrow> 'a invoke" where
  "direct svcs full q ty A =
     (case map_of (methods svcs) full of
        None \<Rightarrow> Some (A, Inl (OtherCode 12, ''unknown method''))
      | Some (h, srv) \<Rightarrow> (case h srv (exact q) None A of Returned A' r \<Rightarrow> Some (A', r) | _ \<Rightarrow> None))"

lemma direct_delivers:
  assumes "distinct (map fst (methods svcs))"
  shows "delivers exact (direct svcs) svcs"
proof -
  have "map_of (methods svcs) (full_name d mn) = Some (h, srv)" if "(d, srv) \<in> set svcs" "(mn, h) \<in> set (sdMethods d)" for d srv mn h
  proof (rule map_of_is_SomeI [OF assms])
    show "(full_name d mn, h, srv) \<in> set (methods svcs)" using that by (force simp: methods_def)
  qed
  moreover have "comes_back ty r (case r of Returned A' x \<Rightarrow> Some (A', x) | _ \<Rightarrow> None)" for ty and r :: "'a reply"
    by (cases "(ty, r, Some (undefined, Inl (Internal, [])) :: ('a \<times> (grpc_status + rpc_msg)) option)" rule: comes_back.cases) simp_all
  ultimately show ?thesis by (auto simp: delivers_def decodes_def exact_def direct_def)
qed

text \<open>No two methods of the server have the same name.\<close>

lemma methods_distinct: "distinct (map fst (methods (grpc_Register srv [])))"
  by (simp add: methods_def registrations descriptions full_name_def)

lemmas direct_server = direct_delivers [OF methods_distinct]

theorem stubs_reach_methods_witness:
  "by_stub (direct (grpc_Register (grpc_server (heClocks demo_env) []) []))
     (CallHeartbeat (instance_msg [] [] ''order'' [] ''10.0.0.1'' 8080)) demo_app =
   by_method (heClocks demo_env) [] (CallHeartbeat (instance_msg [] [] ''order'' [] ''10.0.0.1'' 8080)) demo_app"
proof -
  have ok: "msg_utf8 (call_msg (CallHeartbeat (instance_msg [] [] ''order'' [] ''10.0.0.1'' 8080)))"
    by (simp add: msg_utf8_def instance_msg_def withDefault_def ascii_valid_utf8 ascii_def)
  have "valid_utf8 ''ok''" by (rule ascii_valid_utf8) (simp add: ascii_def)
  then have "reply_utf8 (by_method ck evs (CallHeartbeat q) A)" for ck evs q and A :: "('i, 's, 'c, 'h, 'n, 'd) app"
    by (cases "with_registry (Heartbeat (rpc_key q)) A"; cases "snd (with_registry (Heartbeat (rpc_key q)) A)")
       (simp_all add: reply_utf8_def as_msg_def grpc_Heartbeat_def status_of_def msg_utf8_def resp_ok_def)
  from stubs_reach_methods [OF direct_server ok this] show ?thesis .
qed

theorem discovery_over_grpc_witness:
  "GRPCGetInstances [] [] ''order'' True
     (\<lambda>_. generated_stubs (OtherCode 4, []) (direct (grpc_Register (grpc_server (heClocks demo_env) []) [])) demo_app)
     \<lparr>coTcp = None, coGrpc = Some 1, coClosed = []\<rparr> = Inr [client_view demo_row]"
proof -
  have "list_all valid_utf8 (info_texts (toProtoInstance demo_row))"
    by (simp add: info_texts_def toProtoInstance_def demo_row_def ascii_valid_utf8 ascii_def)
  then have u: "\<forall>x \<in> set [demo_row]. list_all valid_utf8 (info_texts (toProtoInstance x))" by simp
  have p: "\<forall>x \<in> set [demo_row]. - (2 ^ 31) \<le> siPort x \<and> siPort x < 2 ^ 31" by (simp add: demo_row_def)
  have v: "valid_utf8 []" "valid_utf8 ''order''" by (rule ascii_valid_utf8, simp add: ascii_def)+
  let ?C = "\<lparr>coTcp = None, coGrpc = Some 1, coClosed = []\<rparr>"
  show ?thesis
    using discovery_over_grpc [OF demo_found p v(1) v(1) v(2) u direct_server, of ?C 1 _ "(OtherCode 4, [])"] by simp
qed

end
