(* ===== verification/HttpJson.thy ===== *)
theory HttpJson
  imports Protocols
begin

text \<open>
  The bodies of the HTTP responses as texts: what \<^verbatim>\<open>c.JSON\<close> writes in the handlers of
  \<^verbatim>\<open>src/pkg/api/server.go\<close>, and what \<^verbatim>\<open>doRequest\<close> and \<^verbatim>\<open>GetConfig\<close> of
  \<^verbatim>\<open>src/pkg/client/client.go\<close> make of them. The client decodes a body twice: first into a
  \<^verbatim>\<open>map[string]interface{}\<close>, whose numbers are floats, then the member \<^verbatim>\<open>data\<close>, printed again,
  into its struct. How a float is printed and read, the text of a time and the wording of a JSON error are
  parameters.
\<close>

section \<open>What the server writes\<close>

text \<open>
  \<^verbatim>\<open>gin.H\<close> is a map: its members are sorted. The bodies of the calls a watch makes are spelled
  out, with the errors; \<open>page\<close> is the text of any other (the client of the watch never gets one).
\<close>

definition body_members :: "tcp_env \<Rightarrow> payload \<Rightarrow> (string \<times> jval) list option" where
  "body_members te p =
     (case p of
        JMsg code m \<Rightarrow> Some [(''code'', VNum (itoa code)), (''message'', VStr m)]
      | JDone \<Rightarrow> Some [(''code'', VNum (itoa 0)), (''message'', VStr ''ok''), (''data'', VBool True)]
      | JText t \<Rightarrow> Some [(''code'', VNum (itoa 0)), (''data'', VStr t)]
      | JConfig x \<Rightarrow> Some [(''code'', VNum (itoa 0)), (''data'', config_json te x)]
      | _ \<Rightarrow> None)"

definition body_text :: "tcp_env \<Rightarrow> (payload \<Rightarrow> string) \<Rightarrow> payload \<Rightarrow> string" where
  "body_text te page p = (case body_members te p of Some ms \<Rightarrow> map_payload ms | None \<Rightarrow> page p)"

section \<open>What the client reads\<close>

text \<open>\<^verbatim>\<open>json.Unmarshal\<close> into an \<^verbatim>\<open>interface{}\<close>: of two members with one key the last one stays.\<close>

fun generic :: "(string \<Rightarrow> f64 option) \<Rightarrow> jval \<Rightarrow> json option" where
  "generic pf VNull = Some JNull"
| "generic pf (VBool b) = Some (JBool b)"
| "generic pf (VNum lit) = map_option JNum (pf lit)"
| "generic pf (VStr s) = Some (JStr s)"
| "generic pf (VArr vs) = map_option JArr (all_some (map (generic pf) vs))"
| "generic pf (VObj ms) =
     map_option (\<lambda>kvs. JObj (fold (\<lambda>(k, v). AList.update k v) kvs []))
       (all_some (map (\<lambda>(k, v). map_option (Pair k) (generic pf v)) ms))"

text \<open>\<^verbatim>\<open>doRequest\<close>: the body as a map; \<^verbatim>\<open>null\<close> is the nil map.\<close>

definition read_body :: "(string \<Rightarrow> f64 option) \<Rightarrow> string \<Rightarrow> json_obj option" where
  "read_body pf body =
     (case Option.bind (json_parse body) (generic pf) of
        Some (JObj kvs) \<Rightarrow> Some kvs
      | Some JNull \<Rightarrow> Some []
      | _ \<Rightarrow> None)"

text \<open>\<^verbatim>\<open>json.Marshal\<close> of what has been decoded.\<close>

fun reprint :: "(f64 \<Rightarrow> string) \<Rightarrow> json \<Rightarrow> jval" where
  "reprint ff JNull = VNull"
| "reprint ff (JBool b) = VBool b"
| "reprint ff (JNum x) = VNum (ff x)"
| "reprint ff (JStr s) = VStr s"
| "reprint ff (JArr js) = VArr (map (reprint ff) js)"
| "reprint ff (JObj kvs) = VObj (sort_members (map (\<lambda>(k, j). (k, reprint ff j)) kvs))"

text \<open>\<^verbatim>\<open>GetConfig\<close>: the member \<^verbatim>\<open>data\<close> (nil if there is none), printed and decoded into the struct.\<close>

definition decode_config :: "(f64 \<Rightarrow> string) \<Rightarrow> (string \<Rightarrow> string) \<Rightarrow> json option \<Rightarrow> string + CfgItem" where
  "decode_config ff jerr d =
     (let data = json_text (reprint ff (case d of None \<Rightarrow> JNull | Some j \<Rightarrow> j))
      in case Option.bind (text_members data) read_CfgItem of None \<Rightarrow> Inl (jerr data) | Some y \<Rightarrow> Inr y)"

section \<open>Round trips\<close>

text \<open>
  What is relied on of \<^verbatim>\<open>strconv\<close>: the number zero is read as zero, any 64-bit number is
  read as some float, and a float is printed as a number.
\<close>

definition float_codec :: "(string \<Rightarrow> f64 option) \<Rightarrow> (f64 \<Rightarrow> string) \<Rightarrow> bool" where
  "float_codec pf ff \<longleftrightarrow> pf ''0'' = Some 0 \<and>
     (\<forall>n < 2 ^ 64. \<exists>x. pf (itoa (int n)) = Some (Fin x) \<and> num_ok (ff (Fin x)))"

text \<open>A configuration that the bodies carry unaltered: texts in UTF-8, an id of 64 bits.\<close>

definition item_texts :: "ConfigItem \<Rightarrow> string list" where
  "item_texts x = [ciNamespaceID x, ciGroupName x, ciDataID x, ciContent x, ciMD5 x, ciType x]"

definition printable_item :: "tcp_env \<Rightarrow> ConfigItem \<Rightarrow> bool" where
  "printable_item te x \<longleftrightarrow> list_all valid_utf8 (item_texts x) \<and> ciID x < 2 ^ 64 \<and>
     valid_utf8 (teTimeText te (ciCreatedAt x)) \<and> valid_utf8 (teTimeText te (ciUpdatedAt x))"

lemma itoa_zero: "itoa 0 = ''0''"
  by (simp add: itoa_def digits10.simps)

lemma num_ok_zero: "num_ok ''0''"
  using num_ok_itoa [of 0] by (simp add: itoa_zero)

lemma valid_body_keys: "valid_utf8 ''code''" "valid_utf8 ''data''" "valid_utf8 ''content''" "valid_utf8 ''dataId''"
  "valid_utf8 ''type''" "valid_utf8 ''md5''"
  by (rule ascii_valid_utf8, simp add: ascii_def)+

lemma text_read_back:
  assumes "valid_utf8 t" "pf ''0'' = Some 0"
  shows "read_body pf (body_text te page (JText t)) = Some [(''code'', JNum 0), (''data'', JStr t)]"
proof -
  have ok: "json_ok 10000 (VObj [(''code'', VNum ''0''), (''data'', VStr t)])"
    using assms(1) by (simp add: valid_body_keys num_ok_zero)
  have s: "sort_members [(''code'', VNum ''0''), (''data'', VStr t)] = [(''code'', VNum ''0''), (''data'', VStr t)]"
    by (simp add: sort_members_def)
  show ?thesis
    using assms(2)
    by (simp add: read_body_def body_text_def body_members_def map_payload_def s json_roundtrip [OF ok] itoa_zero
        del: json_text.simps)
qed

text \<open>The members of a configuration as a decoded map, and as it is printed again.\<close>

definition config_map :: "tcp_env \<Rightarrow> f64 \<Rightarrow> ConfigItem \<Rightarrow> json_obj" where
  "config_map te w x =
     [(''id'', JNum w), (''namespaceId'', JStr (ciNamespaceID x)), (''groupName'', JStr (ciGroupName x)),
      (''dataId'', JStr (ciDataID x)), (''content'', JStr (ciContent x)), (''md5'', JStr (ciMD5 x)),
      (''type'', JStr (ciType x)), (''createdAt'', JStr (teTimeText te (ciCreatedAt x))),
      (''updatedAt'', JStr (teTimeText te (ciUpdatedAt x)))]"

lemma config_read_back:
  assumes "printable_item te x" "pf ''0'' = Some 0" "pf (itoa (int (ciID x))) = Some w"
  shows "read_body pf (body_text te page (JConfig x)) = Some [(''code'', JNum 0), (''data'', JObj (config_map te w x))]"
proof -
  have ok: "json_ok 10000 (VObj [(''code'', VNum ''0''), (''data'', config_json te x)])"
    using assms(1)
    by (simp add: valid_body_keys num_ok_zero config_json_def printable_item_def item_texts_def num_ok_itoa valid_literals valid_inst_keys)
  have s: "sort_members [(''code'', VNum ''0''), (''data'', config_json te x)] =
      [(''code'', VNum ''0''), (''data'', config_json te x)]"
    by (simp add: sort_members_def)
  have g: "generic pf (config_json te x) = Some (JObj (config_map te w x))"
    using assms(3) by (simp add: config_json_def config_map_def)
  show ?thesis
    using assms(2)
    by (simp add: read_body_def body_text_def body_members_def map_payload_def s json_roundtrip [OF ok] itoa_zero g
        del: json_text.simps)
qed

definition config_view :: "ConfigItem \<Rightarrow> CfgItem" where
  "config_view x = \<lparr>cgNamespaceID = ciNamespaceID x, cgGroupName = ciGroupName x, cgDataID = ciDataID x,
     cgContent = ciContent x, cgMD5 = ciMD5 x, cgType = ciType x\<rparr>"

lemma config_decoded:
  assumes "printable_item te x" "num_ok (ff w)"
  shows "decode_config ff jerr (Some (JObj (config_map te w x))) = Inr (config_view x)"
proof -
  let ?ms = "[(''content'', VStr (ciContent x)), (''createdAt'', VStr (teTimeText te (ciCreatedAt x))),
      (''dataId'', VStr (ciDataID x)), (''groupName'', VStr (ciGroupName x)), (''id'', VNum (ff w)),
      (''md5'', VStr (ciMD5 x)), (''namespaceId'', VStr (ciNamespaceID x)), (''type'', VStr (ciType x)),
      (''updatedAt'', VStr (teTimeText te (ciUpdatedAt x)))]"
  have r: "reprint ff (JObj (config_map te w x)) = VObj ?ms"
    by (simp add: config_map_def sort_members_def)
  have ok: "json_ok 10000 (VObj ?ms)"
    using assms by (simp add: valid_body_keys printable_item_def item_texts_def valid_literals valid_inst_keys)
  have "read_CfgItem ?ms = Some (config_view x)"
    unfolding read_CfgItem_def str_field_def field_def
    by (simp add: is_field_def to_lower_def lower_char_def dec_str_def config_view_def)
  then show ?thesis
    by (simp add: decode_config_def Let_def text_members_def r json_roundtrip [OF ok] del: json_text.simps reprint.simps)
qed

text \<open>
  A stored configuration survives both decodings: the client that gets the body the server
  writes for it reads its names, content, digest and type.
\<close>
lemma config_round_trip:
  assumes "printable_item te x" "float_codec pf ff"
  obtains resp where "read_body pf (body_text te page (JConfig x)) = Some resp" "checkResp resp = None"
    "decode_config ff jerr (map_of resp ''data'') = Inr (config_view x)"
proof -
  obtain r where r: "pf (itoa (int (ciID x))) = Some (Fin r)" "num_ok (ff (Fin r))"
    using assms by (auto simp: float_codec_def printable_item_def)
  have z: "pf ''0'' = Some 0" using assms(2) by (simp add: float_codec_def)
  show ?thesis
    by (rule that [OF config_read_back [OF assms(1) z r(1)]])
       (simp_all add: checkResp_def config_decoded [where ff = ff, OF assms(1) r(2)])
qed

section \<open>UTF-8\<close>

text \<open>Texts joined by an ASCII character are UTF-8 if the parts are.\<close>

lemma valid_utf8_join:
  assumes "valid_utf8 a" "valid_utf8 b" "byte c < 128"
  shows "valid_utf8 (a @ c # b)"
  using assms by (simp add: valid_utf8_def range_runes_append_ascii rune_string_ascii)

lemma valid_utf8_nil: "valid_utf8 []"
  by (rule ascii_valid_utf8) (simp add: ascii_def)

lemma valid_serviceKey: "valid_utf8 ns \<Longrightarrow> valid_utf8 g \<Longrightarrow> valid_utf8 n \<Longrightarrow> valid_utf8 (serviceKey ns g n)"
  by (simp add: serviceKey_def valid_utf8_join)

lemma valid_change_lines:
  "\<forall>(k, h) \<in> set m. valid_utf8 k \<and> valid_utf8 h \<Longrightarrow> valid_utf8 (concat (map change_line m))"
proof (induction m)
  case (Cons kh m)
  obtain k h where kh: "kh = (k, h)" by (cases kh)
  have "valid_utf8 (k @ CHR 0x02 # (h @ CHR 0x02 # ([] @ CHR 0x0A # concat (map change_line m))))"
    using Cons kh by (intro valid_utf8_join valid_utf8_nil) auto
  moreover have "change_line (k, h) @ r = k @ CHR 0x02 # (h @ CHR 0x02 # ([] @ CHR 0x0A # r))" for r
    by (simp add: change_line_def)
  ultimately show ?case by (simp add: kh)
qed (simp add: valid_utf8_nil)

end
