(* ===== verification/Watching.thy ===== *)
theory Watching
  imports GrpcWire HttpJson
begin

text \<open>
  What crosses protocols besides instances: a configuration published over one and read over
  another, the watches of the clients against the long poll of the server, health reports,
  and the end of a TCP connection.
\<close>

section \<open>Configurations\<close>

definition publish_members :: "string \<Rightarrow> string \<Rightarrow> string \<Rightarrow> string \<Rightarrow> string \<Rightarrow> (string \<times> jval) list" where
  "publish_members ns grp did content cty =
     [(''content'', VStr content), (''dataId'', VStr did), (''groupName'', VStr (withDefault grp ''DEFAULT_GROUP'')),
      (''namespaceId'', VStr (withDefault ns ''public'')), (''type'', VStr (withDefault cty ''text''))]"

lemma publish_payload:
  "map_payload (cfg_members ns grp did @ [(''content'', VStr content), (''type'', VStr (withDefault cty ''text''))]) =
     json_text (VObj (publish_members ns grp did content cty))"
  by (simp add: map_payload_def sort_members_def cfg_members_def publish_members_def del: json_text.simps)

lemma read_publish:
  "read_configPubReq (publish_members ns grp did content cty) = Some \<lparr>cpNamespaceID = withDefault ns ''public'',
     cpGroupName = withDefault grp ''DEFAULT_GROUP'', cpDataID = did, cpContent = content, cpType = withDefault cty ''text''\<rparr>"
  unfolding publish_members_def read_configPubReq_def str_field_def field_def
  by (simp add: is_field_def to_lower_def lower_char_def dec_str_def)

lemma valid_cfg_keys: "valid_utf8 ''content''" "valid_utf8 ''dataId''" "valid_utf8 ''type''" "valid_utf8 ''text''"
  by (rule ascii_valid_utf8, simp add: ascii_def)+

lemma tcp_publish_line:
  assumes "valid_utf8 ns" "valid_utf8 grp" "valid_utf8 did" "valid_utf8 content" "valid_utf8 cty"
    and "length (json_text (VObj (publish_members ns grp did content cty))) < 1048565"
  shows "handleConn envs (tcp_text ''CONFIG_PUB'' (json_text (VObj (publish_members ns grp did content cty)))) A =
    map_prod id (\<lambda>r. answer ''OK {\"published\":true}'' r @ [CHR 0x0A])
      (with_config (PublishConfig (withDefault ns ''public'') (withDefault grp ''DEFAULT_GROUP'') did content
         (withDefault cty ''text'')) A)"
proof -
  let ?p = "json_text (VObj (publish_members ns grp did content cty))"
  have ok: "json_ok 10000 (VObj (publish_members ns grp did content cty))"
    using assms(1-5) by (simp add: publish_members_def valid_literals valid_cfg_keys withDefault_def)
  have "printable ?p" by (rule printable_json [OF ok])
  then have line: "handleConn envs (tcp_text ''CONFIG_PUB'' ?p) A =
      map_prod id (\<lambda>r. r @ [CHR 0x0A]) (processLine (envs 0) (''CONFIG_PUB'' @ '' '' @ ?p) A)"
    by (intro tcp_line) (use assms(6) in simp_all)
  have split: "split_line (envs 0) (''CONFIG_PUB'' @ '' '' @ ?p) = (''CONFIG_PUB'', ?p)"
    by (rule split_cmd) (simp_all add: ascii_def to_upper_def upper_char_def)
  have mem: "text_members ?p = Some (publish_members ns grp did content cty)" unfolding text_members_def json_roundtrip [OF ok] by simp
  have "processLine (envs 0) (''CONFIG_PUB'' @ '' '' @ ?p) A = cmdConfigPub (envs 0) ?p A"
    unfolding processLine_def split by simp
  also have "\<dots> = map_prod id (answer ''OK {\"published\":true}'')
      (with_config (PublishConfig (withDefault ns ''public'') (withDefault grp ''DEFAULT_GROUP'') did content
         (withDefault cty ''text'')) A)"
    by (simp add: cmdConfigPub_def with_req_def mem read_publish withDef_twice del: json_text.simps)
  finally show ?thesis unfolding line by (simp only: prod.map_comp comp_def id_def)
qed

lemma answer_ok:
  assumes "answer okay r = okay" "okay \<noteq> []" "hd okay \<noteq> CHR ''E''"
  shows "\<exists>x. r = Inr x"
  using assms by (cases r) (auto simp: answer_def)

text \<open>
  What a call of the SDK writes on its connection: the text that a connection which fails to
  read has been given.
\<close>

definition sent_text :: "(tcp_net \<Rightarrow> conns \<Rightarrow> conn_err option) \<Rightarrow> conns \<Rightarrow> string" where
  "sent_text call C = (case call (\<lambda>n text. ReadError text) C of Some (ReadFailed text) \<Rightarrow> text | _ \<Rightarrow> [])"

lemma sent_publish:
  "coTcp C = Some n \<Longrightarrow> sent_text (TCPPublishConfig ns grp did content cty) C =
     tcp_text ''CONFIG_PUB'' (json_text (VObj (publish_members ns grp did content cty)))"
  by (simp add: sent_text_def TCPPublishConfig_def publish_payload tcpSend_def sent_def tcp_text_def del: json_text.simps)

text \<open>A line that the scanner cannot hold is not answered.\<close>

lemma tcp_line_too_long:
  assumes "printable (cmd @ payload)" "1048575 \<le> length (cmd @ payload)"
  shows "handleConn envs (tcp_text cmd payload) A = (A, [])"
proof -
  have "CHR 0x0A \<notin> set (cmd @ '' '' @ payload)" using printable_newline [OF assms(1)] by auto
  then have "split_on CHR 0x0A ((cmd @ '' '' @ payload) @ CHR 0x0A # []) = [cmd @ '' '' @ payload, []]"
    using split_on_append [of "CHR 0x0A" "cmd @ '' '' @ payload" "[]"] by simp
  then have "scan_lines (tcp_text cmd payload) = []" using assms(2) by (simp add: scan_lines_def tcp_text_def)
  then show ?thesis by (simp add: handleConn_def)
qed

lemma tcp_publish_answered:
  assumes "valid_utf8 ns" "valid_utf8 grp" "valid_utf8 did" "valid_utf8 content" "valid_utf8 cty" "coTcp C = Some n"
    and "handleConn envs (sent_text (TCPPublishConfig ns grp did content cty) C) A = (A', ''OK {\"published\":true}'' @ [CHR 0x0A])"
  shows "PublishConfig (withDefault ns ''public'') (withDefault grp ''DEFAULT_GROUP'') did content (withDefault cty ''text'')
      (config_of A) = (config_of A', Inr ())"
    and "TCPPublishConfig ns grp did content cty (server_net envs A) C = None"
proof -
  let ?p = "json_text (VObj (publish_members ns grp did content cty))"
  let ?pub = "PublishConfig (withDefault ns ''public'') (withDefault grp ''DEFAULT_GROUP'') did content (withDefault cty ''text'')"
  note run = assms(7) [unfolded sent_publish [OF assms(6)]]
  have ok: "json_ok 10000 (VObj (publish_members ns grp did content cty))"
    using assms(1-5) by (simp add: publish_members_def valid_literals valid_cfg_keys withDefault_def)
  have pr: "printable (''CONFIG_PUB'' @ ?p)" using printable_json [OF ok] by simp
  have "length ?p < 1048565" using run tcp_line_too_long [OF pr, of envs A] by (cases "length ?p < 1048565") simp_all
  note line = tcp_publish_line [OF assms(1-5) this, of envs A]
  obtain A1 r where w: "with_config ?pub A = (A1, r)" by (cases "with_config ?pub A") blast
  have a: "A1 = A'" "answer ''OK {\"published\":true}'' r = ''OK {\"published\":true}''"
    using run unfolding line w by simp_all
  obtain u where "r = Inr u" using answer_ok [OF a(2)] by auto
  then show "?pub (config_of A) = (config_of A', Inr ())"
    using with_config_view(1,2) [of ?pub A] w a(1) by (simp add: prod_eq_iff)
  have "printable ''OK {\"published\":true}''" by simp
  then have "server_net envs A n (tcp_text ''CONFIG_PUB'' ?p) = ReadText (''OK {\"published\":true}'' @ [CHR 0x0A])"
    using run by (intro server_answers) simp_all
  moreover have "trim_space (''OK {\"published\":true}'' @ [CHR 0x0A]) = ''OK {\"published\":true}''"
    by (rule trim_newline) (simp_all add: is_space_def)
  ultimately show "TCPPublishConfig ns grp did content cty (server_net envs A) C = None"
    by (simp add: TCPPublishConfig_def publish_payload tcpSend_def assms(6) tcp_text_def has_prefix_def sent_def
        del: json_text.simps)
qed

lemma hex_ascii: "ascii (hex bs)"
proof -
  have "byte (hex_digit n) < 128" if "n < 16" for n
    using that by (auto simp: hex_digit_def take_bit_eq_mod)
  moreover have "unat b div 16 < 16" for b :: "8 word"
    using unat_byte [of b] by linarith
  ultimately show ?thesis by (auto simp: ascii_def hex_def)
qed

lemma publish_table:
  assumes "gorm_table cfg_schema (cs_items (cfStore S))" "PublishConfig ns grp did content typ S = (S', Inr ())"
  shows "gorm_table cfg_schema (cs_items (cfStore S'))"
  using tb_upsert_rows [OF assms(1) publish_Inr [OF assms(2), THEN conjunct1, unfolded upsert_item_def]] by simp

lemma stub_GetConfig:
  assumes "delivers dec cc (grpc_Register (grpc_server ck evs) [])" "msg_utf8 (MConfigQuery q)"
    and "\<And>r. grpc_GetConfig q A = Inr r \<Longrightarrow> msg_utf8 (MConfig r)"
  shows "ConfigServiceClient_GetConfig cc q A = Some (A, grpc_GetConfig q A)"
proof -
  have "reply_utf8 (as_msg MConfig (Some (A, grpc_GetConfig q A)))"
    using assms(3) by (cases "grpc_GetConfig q A") (simp_all add: reply_utf8_def as_msg_def)
  then show ?thesis
    unfolding client_stubs
    by (intro registered_handlers(5) [THEN stub_result [OF assms(1)], where f = MConfig])
       (use assms(2) in \<open>simp_all add: handlers handler_calls unary_handler_def grpc_server_def\<close>)
qed

text \<open>
  C10. A configuration that a client publishes over the line protocol is what a client
  reads over gRPC: if the server answers the line that the SDK's publishing call writes with OK,
  then that call returns without an error, and the SDK's reading call for the same (possibly
  empty) names, through the generated stub and over a connection that delivers to the server it
  left behind, gives the content, its digest and its type, unless the database fails. The names,
  the content and the type that are published, and the texts the table holds, are UTF-8: JSON
  and protobuf carry nothing else unaltered.
\<close>
theorem config_crosses_protocols:
  assumes "valid_utf8 ns" "valid_utf8 grp" "valid_utf8 did" "valid_utf8 content" "valid_utf8 cty"
    and "gorm_table cfg_schema (cs_items (apCfg A))" "coTcp C = Some m" "coGrpc C = Some n"
    and "handleConn envs (sent_text (TCPPublishConfig ns grp did content cty) C) A =
      (A', ''OK {\"published\":true}'' @ [CHR 0x0A])"
    and "\<forall>x \<in># rows (cs_items (apCfg A')). list_all valid_utf8 (item_texts x)"
    and "delivers dec cc (grpc_Register (grpc_server ck evs) [])" "net n = generated_stubs late cc A'"
  shows "TCPPublishConfig ns grp did content cty (server_net envs A) C = None \<and>
    (case GRPCGetConfig ns grp did net C of
       Inr it \<Rightarrow> cgContent it = content \<and> cgMD5 it = CalcMD5 content \<and> cgType it = withDefault cty ''text''
     | Inl e \<Rightarrow> (\<exists>m. GetConfig (withDefault ns ''public'') (withDefault grp ''DEFAULT_GROUP'') did (config_of A') = Inl (EDB (ErrDB m))))"
proof -
  let ?ns = "withDefault ns ''public''" and ?grp = "withDefault grp ''DEFAULT_GROUP''" and ?ct = "withDefault cty ''text''"
  let ?q = "\<lparr>cqNamespaceId = ?ns, cqGroupName = ?grp, cqDataId = did\<rparr>"
  note pub = tcp_publish_answered [OF assms(1-5,7,9)]
  have S: "gorm_table cfg_schema (cs_items (cfStore (config_of A)))" using assms(6) by simp
  note shown = publish_shows [OF S pub(1)]
  have g: "gorm_table cfg_schema (cs_items (apCfg A'))"
    using publish_table [OF S pub(1)] by simp
  have "?ct \<noteq> []" by (simp add: withDefault_def)
  then have ct: "or_else ?ct ''text'' = ?ct" by (simp add: or_else_def)
  have "it \<in># rows (cs_items (apCfg A'))" if "GetConfig ?ns ?grp did (config_of A') = Inr it" for it
    using that cstore.get_row [OF g, of _ it] by (auto simp: GetConfig_def ConfigStore_Get_def)
  then have texts: "msg_utf8 (MConfig r)" if "grpc_GetConfig ?q A' = Inr r" for r
    using that assms(10) by (auto simp: grpc_GetConfig_def withDef_twice msg_utf8_def item_texts_def split: sum.splits)
  have "msg_utf8 (MConfigQuery ?q)" using assms(1-3) by (simp add: msg_utf8_def withDefault_def valid_literals)
  from stub_GetConfig [OF assms(11) this texts]
  have "callGetConfig (net n) ?q = grpc_GetConfig ?q A'" by (simp add: assms(12) generated_stubs_def answered_def)
  then show ?thesis
    using pub(2) shown assms(8) ct
    by (cases "GetConfig ?ns ?grp did (config_of A')")
       (auto simp: GRPCGetConfig_def with_grpc_def HasGRPC_def grpc_GetConfig_def withDef_twice)
qed

definition demo_published ::
  "(ServiceInstance list, Service list, ConfigItem list, ConfigHistory list, Namespace list, ClusterNode list) app" where
  "demo_published = demo_app\<lparr>apCfg := cfStore demo_cfg1, apBus := cfBus demo_cfg1\<rparr>"

definition demo_conns :: conns where
  "demo_conns = \<lparr>coTcp = Some 1, coGrpc = Some 2, coClosed = []\<rparr>"

lemma demo_publish_over_tcp:
  "handleConn (\<lambda>_. demo_tenv) (sent_text (TCPPublishConfig [] [] ''app'' ''k=v'' []) demo_conns) demo_app =
     (demo_published, ''OK {\"published\":true}'' @ [CHR 0x0A])"
proof -
  have len: "length (json_text (VObj (publish_members [] [] ''app'' ''k=v'' []))) < 1048565"
    by (simp add: publish_members_def json_string_def escape_ascii_def withDefault_def)
  have c: "config_of demo_app = demo_cfg"
    by (simp add: config_of_def demo_app_def demo_cfg_def)
  have "PublishConfig (withDefault [] ''public'') (withDefault [] ''DEFAULT_GROUP'') ''app'' ''k=v'' (withDefault [] ''text'') demo_cfg
      = PublishConfig [] [] ''app'' ''k=v'' [] demo_cfg"
    by (simp add: PublishConfig_def withDefault_def)
  then have "with_config (PublishConfig (withDefault [] ''public'') (withDefault [] ''DEFAULT_GROUP'') ''app'' ''k=v''
      (withDefault [] ''text'')) demo_app = (demo_published, Inr ())"
    by (simp add: with_config_def c demo_publish demo_published_def)
  then show ?thesis
    by (subst sent_publish [where n = 1], simp add: demo_conns_def, subst tcp_publish_line [OF _ _ _ _ _ len])
       (simp_all add: ascii_valid_utf8 ascii_def answer_def)
qed

theorem config_crosses_protocols_witness:
  "TCPPublishConfig [] [] ''app'' ''k=v'' [] (server_net (\<lambda>_. demo_tenv) demo_app) demo_conns = None \<and>
   (case GRPCGetConfig [] [] ''app''
       (\<lambda>_. generated_stubs (OtherCode 4, []) (direct (grpc_Register (grpc_server (heClocks demo_env) []) [])) demo_published)
       demo_conns of
     Inr it \<Rightarrow> cgContent it = ''k=v'' \<and> cgMD5 it = CalcMD5 ''k=v'' \<and> cgType it = ''text''
   | Inl e \<Rightarrow> (\<exists>m. GetConfig ''public'' ''DEFAULT_GROUP'' ''app'' (config_of demo_published) = Inl (EDB (ErrDB m))))"
proof -
  have d: "withDefault [] v = v" for v by (simp add: withDefault_def)
  have tbl: "gorm_table cfg_schema (cs_items (apCfg demo_app))" by (simp add: demo_app_def demo_cfg_def)
  have u: "valid_utf8 []" "valid_utf8 ''app''" "valid_utf8 ''k=v''" by (simp_all add: ascii_valid_utf8 ascii_def)
  have texts: "\<forall>x \<in># rows (cs_items (apCfg demo_published)). list_all valid_utf8 (item_texts x)"
    using ascii_valid_utf8 [OF hex_ascii]
    by (simp add: demo_published_def demo_cfg1_def demo_item_def item_texts_def ascii_valid_utf8 ascii_def CalcMD5_def)
  have conns: "coTcp demo_conns = Some 1" "coGrpc demo_conns = Some 2" by (simp_all add: demo_conns_def)
  show ?thesis
    using config_crosses_protocols [OF u(1) u(1) u(2) u(3) u(1) tbl conns demo_publish_over_tcp texts direct_server,
        of "\<lambda>_. generated_stubs (OtherCode 4, []) (direct (grpc_Register (grpc_server (heClocks demo_env) []) [])) demo_published"
          "(OtherCode 4, [])"]
    unfolding d by simp
qed

section \<open>Watches\<close>

lemma trimSpace_id:
  assumes "s \<noteq> []" "\<not> blank (hd s)" "\<not> blank (last s)"
  shows "trimSpace s = s"
proof -
  have "dropWhile blank s = s" using assms by (cases s) auto
  moreover have "dropWhile blank (rev s) = rev s"
    using assms by (cases "rev s") (auto simp: last_rev hd_rev [symmetric])
  ultimately show ?thesis by (simp add: trimSpace_def)
qed

definition watch_entry :: "string \<Rightarrow> string \<Rightarrow> string \<Rightarrow> string \<Rightarrow> string" where
  "watch_entry did grp md5sum ns = did @ [CHR 0x02] @ grp @ [CHR 0x02] @ md5sum @ [CHR 0x02] @ ns"

lemma split_entry:
  assumes "CHR 0x02 \<notin> set did" "CHR 0x02 \<notin> set grp" "CHR 0x02 \<notin> set md5sum" "CHR 0x02 \<notin> set ns" "ns \<noteq> []"
  shows "go_split (watch_entry did grp md5sum ns) [CHR 0x02] = Some [did, grp, md5sum, ns]"
proof -
  have "split_on CHR 0x02 (watch_entry did grp md5sum ns) = [did, grp, md5sum, ns]"
    using split_on_append [OF assms(1)] split_on_append [OF assms(2)] split_on_append [OF assms(3)] assms(4)
    by (simp add: watch_entry_def)
  then show ?thesis using assms(5) by (simp add: go_split_char drop_last_nil_def)
qed

lemma split_listen:
  assumes "\<forall>s \<in> {did, grp, md5sum, ns}. CHR 0x01 \<notin> set s \<and> CHR 0x02 \<notin> set s" "did \<noteq> []" "ns \<noteq> []"
    and "\<not> blank (hd did)" "\<not> blank (last ns)"
  shows "splitListeningConfigs (watch_entry did grp md5sum ns @ [CHR 0x01]) = Some [[did, grp, md5sum, ns]]"
proof -
  let ?e = "watch_entry did grp md5sum ns"
  have "CHR 0x01 \<notin> set ?e" using assms(1) by (simp add: watch_entry_def)
  then have "split_on CHR 0x01 (?e @ [CHR 0x01]) = [?e, []]" using split_on_append [of "CHR 0x01" ?e "[]"] by simp
  then have go: "go_split (?e @ [CHR 0x01]) [CHR 0x01] = Some [?e]" by (simp add: go_split_char drop_last_nil_def)
  have "trimSpace ?e = ?e"
    by (rule trimSpace_id) (use assms(2-5) in \<open>simp_all add: watch_entry_def\<close>)
  moreover have "?e \<noteq> []" by (simp add: watch_entry_def)
  moreover have "go_split ?e [CHR 0x02] = Some [did, grp, md5sum, ns]" by (rule split_entry) (use assms(1,3) in simp_all)
  ultimately show ?thesis by (simp add: splitListeningConfigs_def go)
qed

text \<open>
  The server watches what the client asks for: the listening string of a watch, sent as
  the form of a poll, makes the handler poll the namespace of the configuration with exactly
  that configuration and the client's digest (for names without the two separators that do
  not begin or end in white space).
\<close>
theorem watch_listens_right:
  assumes "\<forall>s \<in> {did, grp, md5sum, ns}. CHR 0x01 \<notin> set s \<and> CHR 0x02 \<notin> set s" "did \<noteq> []" "\<not> blank (hd did)"
    and "ns \<noteq> [] \<longrightarrow> \<not> blank (last ns)"
  defines "ns' \<equiv> withDefault ns ''public''" and "grp' \<equiv> withDefault grp ''DEFAULT_GROUP''"
  shows "configListener e (form_of [(''Listening-Configs'', listen_string did grp md5sum ns), (''tenant'', ns')]) evs =
    (case LongPoll ns' [(serviceKey ns' grp' did, md5sum)] evs of
       None \<Rightarrow> Waiting
     | Some (Inl er) \<Rightarrow> Answered (reply_error 500 (gerr_text er))
     | Some (Inr changed) \<Rightarrow> Answered (reply (JText (concat (map change_line (heMapOrder e changed))))))"
proof -
  have l: "listen_string did grp md5sum ns = watch_entry did grp' md5sum ns' @ [CHR 0x01]"
    by (simp add: listen_string_def watch_entry_def ns'_def grp'_def)
  have ok: "\<forall>s \<in> {did, grp', md5sum, ns'}. CHR 0x01 \<notin> set s \<and> CHR 0x02 \<notin> set s"
    using assms(1) by (simp add: ns'_def grp'_def withDefault_def)
  have ns: "ns' \<noteq> []" "\<not> blank (last ns')"
    using assms(4) by (auto simp: ns'_def withDefault_def blank_def)
  have s: "splitListeningConfigs (listen_string did grp md5sum ns) = Some [[did, grp', md5sum, ns']]"
    unfolding l by (rule split_listen [OF ok assms(2) ns(1) assms(3) ns(2)])
  have ne: "listen_string did grp md5sum ns \<noteq> []" by (simp add: listen_string_def)
  show ?thesis
    using s ne ns(1)
    by (simp add: configListener_def form_of_def PostForm_def DefaultPostForm_def serviceKey_def Let_def)
qed

theorem watch_listens_right_witness:
  "configListener demo_env (form_of [(''Listening-Configs'', listen_string ''app'' [] ''d1'' []), (''tenant'', ''public'')]) [PollDeadline] =
     Answered (reply (JText []))"
  using watch_listens_right [of "''app''" "[]" "''d1''" "[]" demo_env "[PollDeadline]"]
  by (simp add: withDefault_def blank_def demo_env_def)

text \<open>
  C32. A gRPC watch is woken for nothing as soon as its namespace holds another
  configuration: the first tick of the poll answers \<open>changed\<close>, with the digest the client
  sent. The client drops the answer, keeps its state and polls again at once.
\<close>
theorem grpc_watch_spins:
  fixes A :: "('i, 's, 'c, 'h, 'n, 'd) app"
  assumes "GetAllMD5 (withDefault ns ''public'') st = Inr server" "map_of server k = Some h"
    and "k \<noteq> serviceKey (withDefault ns ''public'') (withDefault grp ''DEFAULT_GROUP'') did"
    and "GetConfig (withDefault ns ''public'') (withDefault grp ''DEFAULT_GROUP'') did (config_of A) = Inr it"
    and "wMD5 w = ciMD5 it"
  shows "\<exists>r. grpc_ListenConfig (PollTick st # evs) (listen_msg ns grp did (wMD5 w)) A = Some (Inr r) \<and>
    ccChanged r \<and> grpc_watch_answer (Inr r) w = (w, [])"
proof -
  let ?ns = "withDefault ns ''public''" and ?grp = "withDefault grp ''DEFAULT_GROUP''"
  obtain changed where c: "LongPoll ?ns [(serviceKey ?ns ?grp did, wMD5 w)] (PollTick st # evs) = Some (Inr changed)"
    "map_of changed k = Some h"
    using longpoll_wakes_on_unwatched [of "[(serviceKey ?ns ?grp did, wMD5 w)]" ?ns st server k h evs] assms(1-3) by auto
  have "changed \<noteq> []" using c(2) by auto
  then have "grpc_ListenConfig (PollTick st # evs) (listen_msg ns grp did (wMD5 w)) A =
      Some (Inr \<lparr>ccChanged = True, ccContent = ciContent it, ccMd5 = ciMD5 it\<rparr>)"
    using c(1) assms(4) by (simp add: grpc_ListenConfig_def listen_msg_def withDef_twice)
  then show ?thesis using assms(5) by (simp add: grpc_watch_answer_def)
qed

definition demo_two :: "(ConfigItem list, ConfigHistory list) config_store" where
  "demo_two = \<lparr>cs_items = mem_table cfg_schema [demo_item, demo_item\<lparr>ciID := 2, ciDataID := ''db''\<rparr>],
     cs_hist = mem_table hist_schema [], cs_commit = (\<lambda>_ _. None)\<rparr>"

theorem grpc_watch_spins_witness:
  "\<exists>r. grpc_ListenConfig [PollTick demo_two] (listen_msg [] [] ''app'' (CalcMD5 ''k=v'')) (demo_app\<lparr>apCfg := demo_two\<rparr>) = Some (Inr r) \<and>
    ccChanged r"
proof -
  have m: "GetAllMD5 (withDefault [] ''public'') demo_two =
      Inr [(''public#DEFAULT_GROUP#app'', CalcMD5 ''k=v''), (''public#DEFAULT_GROUP#db'', CalcMD5 ''k=v'')]"
    by (simp add: GetAllMD5_def ConfigStore_ListAllMD5_def demo_two_def mem_eval demo_item_def serviceKey_def withDefault_def)
  have g: "GetConfig (withDefault [] ''public'') (withDefault [] ''DEFAULT_GROUP'') ''app'' (config_of (demo_app\<lparr>apCfg := demo_two\<rparr>)) = Inr demo_item"
    by (simp add: GetConfig_def ConfigStore_Get_def first_item_def config_of_def demo_two_def mem_eval demo_item_def withDefault_def)
  show ?thesis
    using grpc_watch_spins [OF m _ _ g, of "''public#DEFAULT_GROUP#db''" "CalcMD5 ''k=v''" "\<lparr>wMD5 = CalcMD5 ''k=v'', wContent = ''k=v''\<rparr>" "[]"]
    by (auto simp: serviceKey_def withDefault_def demo_item_def)
qed

section \<open>Health reports\<close>

lemma param_form: "param (form_of ps) k = (case map_of ps k of None \<Rightarrow> [] | Some v \<Rightarrow> v)"
  by (simp add: param_def form_of_def PostForm_def Query_def split: option.split)

lemma paramDefault_form:
  "paramDefault (form_of ps) k d = (case map_of ps k of None \<Rightarrow> d | Some v \<Rightarrow> if v = [] then d else v)"
  by (simp add: paramDefault_def form_of_def DefaultPostForm_def DefaultQuery_def split: option.split)

lemma no_default_cluster:
  assumes "gorm_table inst_schema T"
    and "\<forall>x \<in># rows T. t_coll T (siIP x) ip \<and> siPort x = port \<longrightarrow> \<not> t_coll T (siClusterName x) ''DEFAULT''"
  shows "\<exists>e. InstanceStore_Get (ns, grp, svc, ''DEFAULT'', ip, port) T = Inl e"
proof (cases "InstanceStore_Get (ns, grp, svc, ''DEFAULT'', ip, port) T")
  case (Inr x)
  from istore.get_row [OF assms(1) this] assms(2) show ?thesis by auto
qed simp

text \<open>An answer that begins with \<open>ERR\<close> and a word is an error to the client, whatever white space is cut off.\<close>

lemma spaces_plain:
  assumes "w \<in> set spaces"
  shows "CHR ''i'' \<notin> set w"
proof -
  have "\<forall>c \<in> set w. byte c \<noteq> 105"
    using assms by (auto simp: spaces_def space_runes_def rune_string_def encode_rune_def)
  moreover have "byte CHR ''i'' = 105" by simp
  ultimately show ?thesis by blast
qed

lemma strip_by_stuck:
  assumes "\<forall>w \<in> set ws. c \<notin> set w"
  shows "\<exists>a'. strip_by ws (a @ c # b) = a' @ c # b"
proof (induction "length a" arbitrary: a rule: less_induct)
  case less
  show ?case
  proof (cases "starts_with ws (a @ c # b)")
    case None
    then show ?thesis by (auto simp: strip_by_id)
  next
    case (Some w)
    then have w: "c \<notin> set w" "w \<noteq> []" "take (length w) (a @ c # b) = w" using starts_with_Some assms by blast+
    have len: "length w \<le> length a"
    proof (rule ccontr)
      assume "\<not> length w \<le> length a"
      then have "c \<in> set (take (length w) (a @ c # b))" by (simp add: take_Cons')
      with w show False by simp
    qed
    then have "drop (length w) (a @ c # b) = drop (length w) a @ c # b" by simp
    moreover have "length (drop (length w) a) < length a" using w(2) len by (cases w) auto
    ultimately show ?thesis using less Some by (subst strip_by.simps) simp
  qed
qed

lemma trim_keeps_head:
  assumes "a \<noteq> []" "byte (hd a) < 128" "\<not> is_space (hd a)"
  shows "\<exists>b'. trim_space (a @ CHR ''i'' # b) = a @ CHR ''i'' # b'"
proof -
  have "starts_with spaces (a @ CHR ''i'' # b) = None"
  proof (rule ccontr)
    assume "starts_with spaces (a @ CHR ''i'' # b) \<noteq> None"
    then obtain w where w: "w \<in> set spaces" "w \<noteq> []" "take (length w) (a @ CHR ''i'' # b) = w"
      using starts_with_Some by blast
    then have "hd w = hd a" using assms(1) by (metis hd_append2 hd_take length_greater_0_conv)
    then show False using assms spaces_ends [OF w(1)] by simp
  qed
  then have "strip_by spaces (a @ CHR ''i'' # b) = a @ CHR ''i'' # b" by (rule strip_by_id)
  moreover obtain b' where "strip_by (map rev spaces) (rev b @ CHR ''i'' # rev a) = b' @ CHR ''i'' # rev a"
    using strip_by_stuck [of "map rev spaces" "CHR ''i''" "rev b" "rev a"] spaces_plain by auto
  ultimately show ?thesis by (simp add: trim_space_def)
qed

lemma error_reaches_client:
  assumes "handleConn envs text A = (A', ''ERR i'' @ r @ [CHR 0x0A])"
  shows "\<exists>t. server_net envs A n text = ReadText t \<and> has_prefix (trim_space t) ''ERR ''"
proof -
  let ?t = "''ERR '' @ CHR ''i'' # (takeWhile (\<lambda>c. c \<noteq> CHR 0x0A) (r @ [CHR 0x0A]) @ [CHR 0x0A])"
  obtain b where "trim_space ?t = ''ERR '' @ CHR ''i'' # b"
    using trim_keeps_head [of "''ERR ''"] by (auto simp: is_space_def)
  then have "has_prefix (trim_space ?t) ''ERR ''" by (simp add: has_prefix_def)
  then show ?thesis using assms by (simp add: server_net_def)
qed

lemma sent_reports:
  "coTcp C = Some n \<Longrightarrow> sent_text (TCPReportSuccess ns grp svc ip port) C =
     tcp_text ''HEALTH_OK'' (map_payload (report_members ns grp svc ip port))"
  "coTcp C = Some n \<Longrightarrow> sent_text (TCPReportFailure ns grp svc ip port) C =
     tcp_text ''HEALTH_FAIL'' (map_payload (report_members ns grp svc ip port))"
  by (simp_all add: sent_text_def TCPReportSuccess_def TCPReportFailure_def tcpSend_def sent_def tcp_text_def)

lemma read_report:
  assumes "- (2 ^ 31) \<le> port" "port < 2 ^ 31"
  shows "read_healthReportReq (sort_members (report_members ns grp svc ip port)) =
    Some \<lparr>hrNamespaceID = withDefault ns ''public'', hrGroupName = withDefault grp ''DEFAULT_GROUP'', hrServiceName = svc,
      hrIP = ip, hrPort = port\<rparr>"
proof -
  have "dec_int (VNum (itoa port)) = Some port"
    using int32_range [OF assms] by (intro dec_int_itoa) simp_all
  then show ?thesis
    unfolding report_members_def read_healthReportReq_def str_field_def int_field_def field_def
    by (simp add: sort_members_def is_field_def to_lower_def lower_char_def dec_str_def)
qed

lemma report_line_misses:
  assumes "\<And>ns grp svc. \<exists>e. InstanceStore_Get (ns, grp, svc, ''DEFAULT'', ip, port) (apInst A) = Inl e"
    and "- (2 ^ 31) \<le> port" "port < 2 ^ 31" "list_all valid_utf8 [ns, grp, svc, ip]"
    and "cmd = ''HEALTH_OK'' \<or> cmd = ''HEALTH_FAIL''"
  shows "\<exists>m. handleConn envs (tcp_text cmd (map_payload (report_members ns grp svc ip port))) A \<in>
    {(A, ''ERR instance not found: '' @ m @ [CHR 0x0A]), (A, [])}"
proof -
  let ?p = "map_payload (report_members ns grp svc ip port)"
  have "json_ok 10000 (VObj (report_members ns grp svc ip port))"
    using assms(4) by (simp add: report_members_def valid_literals num_ok_itoa withDefault_def)
  note p = payload_members [OF this]
  have pr: "printable (cmd @ ?p)" "cmd \<noteq> []" using p(2) assms(5) by auto
  show ?thesis
  proof (cases "length (cmd @ ?p) < 1048575")
    case True
    obtain er where er: "InstanceStore_Get (withDefault ns ''public'', withDefault grp ''DEFAULT_GROUP'', svc, ''DEFAULT'', ip, port)
        (apInst A) = Inl er" using assms(1) by blast
    have split: "split_line (envs 0) (cmd @ '' '' @ ?p) = (cmd, ?p)"
      by (rule split_cmd) (use assms(5) in \<open>auto simp: ascii_def to_upper_def upper_char_def\<close>)
    have "cmdHealthReport (envs 0) ?p ok A = (A, ''ERR instance not found: '' @ gerr_text er)" for ok
      using er by (simp add: cmdHealthReport_def with_req_def p(1) read_report [OF assms(2,3)] withDef_twice Let_def)
    then have "processLine (envs 0) (cmd @ '' '' @ ?p) A = (A, ''ERR instance not found: '' @ gerr_text er)"
      unfolding processLine_def split using assms(5) by auto
    then have "handleConn envs (tcp_text cmd ?p) A = (A, ''ERR instance not found: '' @ gerr_text er @ [CHR 0x0A])"
      unfolding tcp_line [OF pr(1) True pr(2)] by simp
    then show ?thesis by blast
  next
    case False
    then have "handleConn envs (tcp_text cmd ?p) A = (A, [])" by (intro tcp_line_too_long [OF pr(1)]) simp
    then show ?thesis by blast
  qed
qed

lemma report_line_refused:
  assumes "handleConn envs (tcp_text cmd payload) A \<in> {(A, ''ERR instance not found: '' @ m @ [CHR 0x0A]), (A, [])}"
    and "coTcp C = Some n"
  shows "sent (tcpSend (server_net envs A) C cmd payload) \<noteq> None"
proof (cases "handleConn envs (tcp_text cmd payload) A = (A, [])")
  case True
  then have "server_net envs A n (tcp_text cmd payload) = ReadError ''EOF''" by (simp add: server_net_def)
  then show ?thesis using assms(2) by (simp add: tcpSend_def tcp_text_def sent_def)
next
  case False
  then have "handleConn envs (tcp_text cmd payload) A = (A, ''ERR i'' @ (''nstance not found: '' @ m) @ [CHR 0x0A])"
    using assms(1) by simp
  from error_reaches_client [OF this, of n] show ?thesis
    using assms(2) by (auto simp: tcpSend_def tcp_text_def sent_def)
qed

text \<open>
  C33. An instance outside the cluster \<open>DEFAULT\<close> cannot be reported by the SDK: where no row of
  that address is in a cluster that the database takes for \<open>DEFAULT\<close> (whatever its collation; one
  that ignores case also takes \<open>default\<close> for it), a report of a failure or of a success, over
  HTTP, over the line protocol or over gRPC, leaves the server as it was, and the caller is told
  of an error: 404, a refused line (or a connection that ends, if the line is too long to be
  read), or a status \<open>NotFound\<close>. The port fits in 32 bits and the names and the address are UTF-8.
\<close>
theorem reports_miss_other_clusters:
  fixes A :: "('i, 's, 'c, 'h, 'n, 'd) app"
  assumes "gorm_table inst_schema (apInst A)"
    and "\<forall>x \<in># rows (apInst A). t_coll (apInst A) (siIP x) ip \<and> siPort x = port \<longrightarrow>
           \<not> t_coll (apInst A) (siClusterName x) ''DEFAULT''"
    and "- (2 ^ 31) \<le> port" "port < 2 ^ 31" "list_all valid_utf8 [ns, grp, svc, ip]" "coTcp C = Some n"
  shows "reportFail e (form_of (report_params ns grp svc ip port)) A = (A, reply_error 404 ''instance not found'') \<and>
    reportSucceed (form_of (report_params ns grp svc ip port)) A = (A, reply_error 404 ''instance not found'') \<and>
    fst (handleConn envs (sent_text (TCPReportFailure ns grp svc ip port) C) A) = A \<and>
    TCPReportFailure ns grp svc ip port (server_net envs A) C \<noteq> None \<and>
    fst (handleConn envs (sent_text (TCPReportSuccess ns grp svc ip port) C) A) = A \<and>
    TCPReportSuccess ns grp svc ip port (server_net envs A) C \<noteq> None \<and>
    grpc_ReportFailure ck (report_msg ns grp svc ip port) A = (A, Inl (NotFound, ''instance not found'')) \<and>
    grpc_ReportSuccess (report_msg ns grp svc ip port) A = (A, Inl (NotFound, ''instance not found''))"
proof (intro conjI)
  note miss = no_default_cluster [OF assms(1,2)]
  have p: "atoi (itoa port) = port"
    using int32_range [of port] assms(3,4) by (intro atoi_itoa) simp_all
  obtain e1 where "InstanceStore_Get (withDefault ns ''public'', withDefault grp ''DEFAULT_GROUP'', svc, ''DEFAULT'', ip, port) (apInst A) = Inl e1"
    using miss by blast
  then have "report_target (form_of (report_params ns grp svc ip port)) A = None"
    by (cases "ns = []"; cases "grp = []")
       (simp_all add: report_target_def param_form paramDefault_form report_params_def parse_uint64_def p withDefault_def)
  then show "reportFail e (form_of (report_params ns grp svc ip port)) A = (A, reply_error 404 ''instance not found'')"
    "reportSucceed (form_of (report_params ns grp svc ip port)) A = (A, reply_error 404 ''instance not found'')"
    by (simp_all add: reportFail_def reportSucceed_def)
  show "grpc_ReportFailure ck (report_msg ns grp svc ip port) A = (A, Inl (NotFound, ''instance not found''))"
    "grpc_ReportSuccess (report_msg ns grp svc ip port) A = (A, Inl (NotFound, ''instance not found''))"
    using miss [of "withDefault ns ''public''" "withDefault grp ''DEFAULT_GROUP''" svc] int32_word [OF assms(3,4)]
    by (auto simp: grpc_ReportFailure_def grpc_ReportSuccess_def grpc_report_def report_msg_def withDef_twice Let_def)
  let ?l = "\<lambda>cmd. tcp_text cmd (map_payload (report_members ns grp svc ip port))"
  obtain m m' where lines:
    "handleConn envs (?l ''HEALTH_FAIL'') A \<in> {(A, ''ERR instance not found: '' @ m @ [CHR 0x0A]), (A, [])}"
    "handleConn envs (?l ''HEALTH_OK'') A \<in> {(A, ''ERR instance not found: '' @ m' @ [CHR 0x0A]), (A, [])}"
    using report_line_misses [OF miss assms(3-5), of "''HEALTH_FAIL''" envs]
      report_line_misses [OF miss assms(3-5), of "''HEALTH_OK''" envs] by blast
  then show "fst (handleConn envs (sent_text (TCPReportFailure ns grp svc ip port) C) A) = A"
    "fst (handleConn envs (sent_text (TCPReportSuccess ns grp svc ip port) C) A) = A"
    unfolding sent_reports [OF assms(6)] by auto
  show "TCPReportFailure ns grp svc ip port (server_net envs A) C \<noteq> None"
    "TCPReportSuccess ns grp svc ip port (server_net envs A) C \<noteq> None"
    unfolding TCPReportFailure_def TCPReportSuccess_def
    by (rule report_line_refused [OF lines(1) assms(6)], rule report_line_refused [OF lines(2) assms(6)])
qed

definition demo_east ::
  "(ServiceInstance list, Service list, ConfigItem list, ConfigHistory list, Namespace list, ClusterNode list) app" where
  "demo_east = demo_app\<lparr>apInst := coll_table ignore_case inst_schema [demo_row\<lparr>siClusterName := ''east''\<rparr>]\<rparr>"

theorem reports_miss_other_clusters_witness:
  "reportFail demo_env (form_of (report_params [] [] ''order'' ''10.0.0.1'' 8080)) demo_east =
     (demo_east, reply_error 404 ''instance not found'') \<and>
   fst (handleConn (\<lambda>_. demo_tenv) (sent_text (TCPReportFailure [] [] ''order'' ''10.0.0.1'' 8080) demo_conns) demo_east) = demo_east \<and>
   TCPReportSuccess [] [] ''order'' ''10.0.0.1'' 8080 (server_net (\<lambda>_. demo_tenv) demo_east) demo_conns \<noteq> None"
proof -
  have "\<not> ignore_case ''east'' ''DEFAULT''" by code_simp
  then have "gorm_table inst_schema (apInst demo_east)" "\<forall>x \<in># rows (apInst demo_east).
      t_coll (apInst demo_east) (siIP x) ''10.0.0.1'' \<and> siPort x = 8080 \<longrightarrow> \<not> t_coll (apInst demo_east) (siClusterName x) ''DEFAULT''"
    by (simp_all add: demo_east_def coll_table_gorm [OF ignore_case_equivp] coll_ops)
  moreover have "list_all valid_utf8 [[], [], ''order'', ''10.0.0.1'']" by (simp add: ascii_valid_utf8 ascii_def)
  moreover have "coTcp demo_conns = Some 1" by (simp add: demo_conns_def)
  ultimately show ?thesis
    using reports_miss_other_clusters [of demo_east "''10.0.0.1''" 8080 "[]" "[]" "''order''" demo_conns 1 demo_env "\<lambda>_. demo_tenv"]
    by simp
qed

section \<open>The end of a connection\<close>

definition lines_text :: "string list \<Rightarrow> string" where
  "lines_text ls = concat (map (\<lambda>l. l @ [CHR 0x0A]) ls)"

lemma split_lines_text:
  "\<forall>l \<in> set ls. CHR 0x0A \<notin> set l \<Longrightarrow> split_on CHR 0x0A (lines_text ls @ t) = ls @ split_on CHR 0x0A t"
proof (induction ls)
  case (Cons l ls)
  then show ?case using split_on_append [of "CHR 0x0A" l "lines_text ls @ t"] by (simp add: lines_text_def)
qed (simp add: lines_text_def)

lemma scan_lines_text:
  assumes "\<forall>l \<in> set ls. CHR 0x0A \<notin> set l \<and> length l < 1048576"
  shows "scan_lines (lines_text ls) = map strip_cr ls"
proof -
  have parts: "split_on CHR 0x0A (lines_text ls) = ls @ [[]]" using split_lines_text [of ls "[]"] assms by simp
  have tw: "takeWhile (\<lambda>l. length l < 1048576) ls = ls" using assms by (simp add: takeWhile_eq_all_conv)
  show ?thesis by (simp add: scan_lines_def parts tw)
qed

text \<open>
  A line of a mebibyte or more ends the connection: what came before it is served as if it
  had never been sent, and nothing that comes after it is.
\<close>
theorem long_line_ends_connection:
  assumes "\<forall>l \<in> set ls. CHR 0x0A \<notin> set l \<and> length l < 1048576"
    and "CHR 0x0A \<notin> set long" "1048576 \<le> length long"
  shows "handleConn envs (lines_text ls @ long @ CHR 0x0A # rest) A = handleConn envs (lines_text ls) A"
proof -
  let ?t = "lines_text ls @ long @ CHR 0x0A # rest"
  have parts: "split_on CHR 0x0A ?t = ls @ long # split_on CHR 0x0A rest"
    using split_lines_text [of ls] split_on_append [OF assms(2)] assms(1) by simp
  have tw: "takeWhile (\<lambda>l. length l < 1048576) (ls @ long # xs) = ls" for xs
    using assms(1,3) by (simp add: takeWhile_append)
  have "scan_lines ?t = map strip_cr ls"
    unfolding scan_lines_def parts Let_def by (simp add: butlast_append tw)
  then show ?thesis using scan_lines_text [OF assms(1)] by (simp add: handleConn_def)
qed

theorem long_line_ends_connection_witness:
  "handleConn (\<lambda>_. demo_tenv) (lines_text [''PING''] @ replicate 1048576 CHR ''x'' @ CHR 0x0A # ''PING'') demo_app =
     handleConn (\<lambda>_. demo_tenv) (lines_text [''PING'']) demo_app"
  by (rule long_line_ends_connection) simp_all

end
