(* ===== verification/StoreInv.thy ===== *)
theory StoreInv
  imports Storage
begin

text \<open>
  What stays true of a table whatever the stores do to it: its handle obeys the laws of
  gorm, no two rows have one unique key, and no two rows have one id. Every statement of a
  store is an upsert, an update that keeps keys and ids, or a delete; each keeps the three
  (locales \<open>keyed_rows\<close> and \<open>id_rows\<close>), so every method of the five stores does.
\<close>

definition ids_unique :: "'r schema \<Rightarrow> ('d, 'r) table \<Rightarrow> bool" where
  "ids_unique sc T \<longleftrightarrow> key_unique (\<lambda>_ i x. sc_id sc x = i) (sc_id sc) T"

definition wf_rows ::
  "'r schema \<Rightarrow> ((string \<Rightarrow> string \<Rightarrow> bool) \<Rightarrow> 'k \<Rightarrow> 'r \<Rightarrow> bool) \<Rightarrow> ('r \<Rightarrow> 'k) \<Rightarrow> ('d, 'r) table \<Rightarrow> bool" where
  "wf_rows sc keq key T \<longleftrightarrow> gorm_table sc T \<and> key_unique keq key T"

definition wf_table ::
  "'r schema \<Rightarrow> ((string \<Rightarrow> string \<Rightarrow> bool) \<Rightarrow> 'k \<Rightarrow> 'r \<Rightarrow> bool) \<Rightarrow> ('r \<Rightarrow> 'k) \<Rightarrow> ('d, 'r) table \<Rightarrow> bool" where
  "wf_table sc keq key T \<longleftrightarrow> wf_rows sc keq key T \<and> ids_unique sc T"

lemma wf_table_laws: "wf_table sc keq key T \<Longrightarrow> gorm_table sc T"
  by (simp add: wf_table_def wf_rows_def)

lemma key_unique_filter:
  assumes "key_unique keq key T" "t_coll T' = t_coll T" "rows T' = filter_mset p (rows T)"
  shows "key_unique keq key T'"
  unfolding key_unique_def assms(2,3)
proof
  fix r assume "r \<in># filter_mset p (rows T)"
  then have "size (filter_mset (keq (t_coll T) (key r)) (rows T)) \<le> 1"
    using assms(1) by (simp add: key_unique_def)
  moreover have "filter_mset (keq (t_coll T) (key r)) (filter_mset p (rows T))
      = filter_mset p (filter_mset (keq (t_coll T) (key r)) (rows T))"
    by (simp add: filter_filter_mset conj_commute)
  ultimately show "size (filter_mset (keq (t_coll T) (key r)) (filter_mset p (rows T))) \<le> 1"
    by (metis le_trans size_filter_mset_lesseq)
qed

lemma key_unique_image:
  assumes "key_unique keq key T" "t_coll T' = t_coll T" "rows T' = image_mset f (rows T)"
    and "\<And>x. key (f x) = key x" "\<And>k x. keq (t_coll T) k (f x) = keq (t_coll T) k x"
  shows "key_unique keq key T'"
  unfolding key_unique_def assms(2,3)
  using assms(1) by (auto simp: key_unique_def assms(4,5) filter_mset_image_mset)

lemma tb_update_image:
  assumes "gorm_table sc T" "tb_update c f T = Inr T'"
  obtains p t v where "gorm_table sc T'" "t_coll T' = t_coll T"
    "rows T' = image_mset (\<lambda>x. if p x then sc_touch sc v (f t x) else x) (rows T)"
proof (cases c)
  case None
  with assms(2) tb_update_no_cond [OF assms(1), of f] show ?thesis by simp
next
  case (Some p)
  with tb_update_rows [OF assms(1) assms(2) [unfolded Some]] that show ?thesis
    by (auto simp: update_effect_def)
qed

context keyed_rows
begin

lemma keq_cong: "equivp coll \<Longrightarrow> key x = key y \<Longrightarrow> keq coll k x = keq coll k y"
  using keq_refl keq_trans by metis

lemma put_wf: "wf_rows sc keq key T \<Longrightarrow> put r T = Inr T' \<Longrightarrow> wf_rows sc keq key T'"
  using put_keeps_unique put_rows unfolding wf_rows_def by blast

lemma delete_wf: "wf_rows sc keq key T \<Longrightarrow> tb_delete c T = Inr T' \<Longrightarrow> wf_rows sc keq key T'"
  unfolding wf_rows_def using tb_delete_rows key_unique_filter by metis

lemma update_wf:
  assumes "wf_rows sc keq key T" "tb_update c f T = Inr T'" "\<And>t x. key (f t x) = key x"
  shows "wf_rows sc keq key T'"
proof -
  note T = assms(1) [unfolded wf_rows_def]
  from tb_update_image [OF T [THEN conjunct1] assms(2)] obtain p t v where
    u: "gorm_table sc T'" "t_coll T' = t_coll T" and
    r: "rows T' = image_mset (\<lambda>x. if p x then sc_touch sc v (f t x) else x) (rows T)" .
  have k: "key (if p x then sc_touch sc v (f t x) else x) = key x" for x
    by (simp add: key_stable assms(3))
  have "keq (t_coll T) k (if p x then sc_touch sc v (f t x) else x) = keq (t_coll T) k x" for k x
    using keq_cong [OF coll_equivp k] T by blast
  with u k show ?thesis
    unfolding wf_rows_def using key_unique_image [OF T [THEN conjunct2] _ r] by blast
qed

end

section \<open>Ids\<close>

locale id_rows = keyed_rows sc keq key asg put
  for sc :: "'r schema"
    and keq :: "(string \<Rightarrow> string \<Rightarrow> bool) \<Rightarrow> 'k \<Rightarrow> 'r \<Rightarrow> bool"
    and key :: "'r \<Rightarrow> 'k"
    and asg :: "'r \<Rightarrow> 'r \<Rightarrow> 'r"
    and put :: "'r \<Rightarrow> ('d, 'r) table \<Rightarrow> gerr + ('d, 'r) table" +
  assumes id_stable: "sc_id sc (asg x n) = sc_id sc x" "sc_id sc (sc_set_id sc i r) = i"
      "sc_id sc (sc_touch sc t r) = sc_id sc r"
begin

lemma put_ids:
  assumes "gorm_table sc T" "ids_unique sc T" "put r T = Inr T'"
  shows "ids_unique sc T'"
  using assms(1,3)
proof (cases rule: put_cases)
  case (update t n)
  have "t_coll T' = t_coll T" using put_rows [OF assms(1,3)] by simp
  from key_unique_image [OF assms(2) [unfolded ids_unique_def] this update(3)] show ?thesis
    by (simp add: ids_unique_def id_stable)
next
  case (insert t n i)
  have none: "filter_mset (\<lambda>x. sc_id sc x = i) (rows T) = {#}" using insert(3) by auto
  show ?thesis
    using assms(2) insert(3) none
    by (auto simp: ids_unique_def key_unique_def insert(5) id_stable simp del: filter_mset_eq_mempty_iff)
qed

lemma put_wf_table: "wf_table sc keq key T \<Longrightarrow> put r T = Inr T' \<Longrightarrow> wf_table sc keq key T'"
  using put_wf put_ids unfolding wf_table_def wf_rows_def by blast

lemma delete_wf_table: "wf_table sc keq key T \<Longrightarrow> tb_delete c T = Inr T' \<Longrightarrow> wf_table sc keq key T'"
  using delete_wf tb_delete_rows key_unique_filter unfolding wf_table_def wf_rows_def ids_unique_def by metis

lemma update_wf_table:
  assumes "wf_table sc keq key T" "tb_update c f T = Inr T'"
    and "\<And>t x. key (f t x) = key x" "\<And>t x. sc_id sc (f t x) = sc_id sc x"
  shows "wf_table sc keq key T'"
proof -
  note w = assms(1) [unfolded wf_table_def]
  from tb_update_image [OF wf_table_laws [OF assms(1)] assms(2)] obtain p t v where
    u: "gorm_table sc T'" "t_coll T' = t_coll T" and
    r: "rows T' = image_mset (\<lambda>x. if p x then sc_touch sc v (f t x) else x) (rows T)" .
  have "ids_unique sc T'"
    unfolding ids_unique_def
    by (rule key_unique_image [OF w [THEN conjunct2, unfolded ids_unique_def] _ r])
       (simp_all add: u id_stable assms(4))
  with update_wf [OF w [THEN conjunct1] assms(2,3)] show ?thesis by (simp add: wf_table_def)
qed

end

interpretation iids: id_rows inst_schema inst_where inst_key inst_assign InstanceStore_Create
  by unfold_locales (simp_all add: inst_assign_def)

interpretation sids: id_rows svc_schema service_where svc_key svc_assign ServiceStore_Create
  by unfold_locales (simp_all add: svc_assign_def)

interpretation cids: id_rows cfg_schema cfg_where cfg_key cfg_assign upsert_item
  by unfold_locales (simp_all add: cfg_assign_def)

interpretation dids: id_rows node_schema "\<lambda>c k x. c (cnAddress x) k" cnAddress node_assign ClusterNodeStore_Upsert
  by unfold_locales (simp_all add: node_assign_def)

section \<open>The tables of the program\<close>

abbreviation wf_inst :: "'d inst_table \<Rightarrow> bool" where
  "wf_inst \<equiv> wf_table inst_schema inst_where inst_key"

abbreviation wf_svc :: "'d svc_table \<Rightarrow> bool" where
  "wf_svc \<equiv> wf_table svc_schema service_where svc_key"

abbreviation wf_cfg :: "('d, ConfigItem) table \<Rightarrow> bool" where
  "wf_cfg \<equiv> wf_table cfg_schema cfg_where cfg_key"

abbreviation wf_ns :: "'d ns_table \<Rightarrow> bool" where
  "wf_ns \<equiv> wf_rows ns_schema (\<lambda>c k x. c (nsID x) k) nsID"

abbreviation wf_node :: "'d node_table \<Rightarrow> bool" where
  "wf_node \<equiv> wf_table node_schema (\<lambda>c k x. c (cnAddress x) k) cnAddress"

definition wf_config_store :: "('d, 'h) config_store \<Rightarrow> bool" where
  "wf_config_store S \<longleftrightarrow> wf_cfg (cs_items S) \<and> gorm_table hist_schema (cs_hist S)"

named_theorems keeps_wf "every method of a store keeps its table well formed"

lemma InstanceStore_wf [keeps_wf]:
  "wf_inst T \<Longrightarrow> InstanceStore_Create r T = Inr T' \<Longrightarrow> wf_inst T'"
  "wf_inst T \<Longrightarrow> InstanceStore_Delete k T = Inr T' \<Longrightarrow> wf_inst T'"
  "wf_inst T \<Longrightarrow> InstanceStore_Update r T = Inr T' \<Longrightarrow> wf_inst T'"
  "wf_inst T \<Longrightarrow> InstanceStore_UpdateHeartbeat k T = Inr T' \<Longrightarrow> wf_inst T'"
  "wf_inst T \<Longrightarrow> InstanceStore_UpdateHealthy i h T = Inr T' \<Longrightarrow> wf_inst T'"
  by (erule (1) iids.put_wf_table)
     (simp_all only: InstanceStore_Delete_def InstanceStore_Update_def InstanceStore_UpdateHeartbeat_def
        InstanceStore_UpdateHealthy_def,
      (erule (1) iids.delete_wf_table iids.update_wf_table; simp add: inst_key_def)+)

lemma ServiceStore_wf [keeps_wf]:
  "wf_svc T \<Longrightarrow> ServiceStore_Create s T = Inr T' \<Longrightarrow> wf_svc T'"
  "wf_svc T \<Longrightarrow> ServiceStore_Delete sk T = Inr T' \<Longrightarrow> wf_svc T'"
  "wf_svc T \<Longrightarrow> ServiceStore_UpdateHealthConfig sk c T = Inr T' \<Longrightarrow> wf_svc T'"
  by (erule (1) sids.put_wf_table)
     (simp_all only: ServiceStore_Delete_def ServiceStore_UpdateHealthConfig_def,
      (erule (1) sids.delete_wf_table sids.update_wf_table; simp add: svc_key_def set_health_cols_def)+)

lemma cs_tx_wf:
  assumes "wf_config_store S" "cs_tx S step history = Inr S'" "\<And>T. step = Inr T \<Longrightarrow> wf_cfg T"
  shows "wf_config_store S'"
proof -
  obtain items hist where i: "step = Inr items" and h: "tb_insert history (cs_hist S) = Inr hist"
    and S': "S' = S\<lparr>cs_items := items, cs_hist := hist\<rparr>"
    using assms(2) by (auto simp: cs_tx_def split: sum.splits option.splits)
  have "gorm_table hist_schema hist"
    using assms(1) tb_insert_rows [OF _ h] by (auto simp: wf_config_store_def)
  with assms(3) [OF i] show ?thesis by (simp add: wf_config_store_def S')
qed

lemma ConfigStore_wf [keeps_wf]:
  "wf_config_store S \<Longrightarrow> ConfigStore_Publish it h S = Inr S' \<Longrightarrow> wf_config_store S'"
  "wf_config_store S \<Longrightarrow> ConfigStore_Delete ck h S = Inr S' \<Longrightarrow> wf_config_store S'"
  unfolding ConfigStore_Publish_def ConfigStore_Delete_def delete_item_def
proof -
  assume S: "wf_config_store S"
  then have items: "wf_cfg (cs_items S)" by (simp add: wf_config_store_def)
  show "cs_tx S (upsert_item it (cs_items S)) h = Inr S' \<Longrightarrow> wf_config_store S'"
    by (erule cs_tx_wf [OF S]) (rule cids.put_wf_table [OF items])
  show "cs_tx S (tb_delete (cfg_where (t_coll (cs_items S)) ck) (cs_items S)) h = Inr S' \<Longrightarrow> wf_config_store S'"
    by (erule cs_tx_wf [OF S]) (rule cids.delete_wf_table [OF items])
qed

lemma NamespaceStore_wf [keeps_wf]:
  "wf_ns T \<Longrightarrow> NamespaceStore_Create ns T = Inr T' \<Longrightarrow> wf_ns T'"
  "wf_ns T \<Longrightarrow> NamespaceStore_Delete i T = Inr T' \<Longrightarrow> wf_ns T'"
  "wf_ns T \<Longrightarrow> NamespaceStore_Update ns T = Inr T' \<Longrightarrow> wf_ns T'"
  by (erule (1) nstore.put_wf)
     (simp_all only: NamespaceStore_Delete_def NamespaceStore_Update_def,
      (erule (1) nstore.delete_wf nstore.update_wf; simp)+)

lemma ClusterNodeStore_wf [keeps_wf]:
  "wf_node T \<Longrightarrow> ClusterNodeStore_Upsert n T = Inr T' \<Longrightarrow> wf_node T'"
  "wf_node T \<Longrightarrow> ClusterNodeStore_MarkDown a T = Inr T' \<Longrightarrow> wf_node T'"
  by (erule (1) dids.put_wf_table)
     (simp only: ClusterNodeStore_MarkDown_def, erule (1) dids.update_wf_table; simp)

section \<open>Transactions\<close>

text \<open>
  \<^verbatim>\<open>Tx\<close> of \<^verbatim>\<open>src/pkg/storage/db.go\<close>: the function's changes are committed if it returns no error,
  and rolled back if it or the commit fails.
\<close>

definition Tx :: "('s \<Rightarrow> gerr option) \<Rightarrow> ('s \<Rightarrow> gerr + 's) \<Rightarrow> 's \<Rightarrow> 's \<times> gerr option" where
  "Tx commit fn s =
     (case fn s of
        Inl e \<Rightarrow> (s, Some e)
      | Inr s' \<Rightarrow> (case commit s' of Some e \<Rightarrow> (s, Some e) | None \<Rightarrow> (s', None)))"

lemma Tx_all_or_nothing:
  "Tx commit fn s = (s', r) \<Longrightarrow> (r = None \<longrightarrow> fn s = Inr s' \<and> commit s' = None) \<and> (r \<noteq> None \<longrightarrow> s' = s)"
  by (auto simp: Tx_def split: sum.splits option.splits)

text \<open>The transactions of the configuration store are of this kind.\<close>

definition stored :: "('d, 'h) config_store \<Rightarrow> gerr + ('d, 'h) config_store \<Rightarrow> ('d, 'h) config_store \<times> gerr option" where
  "stored S r = (case r of Inl e \<Rightarrow> (S, Some e) | Inr S' \<Rightarrow> (S', None))"

definition with_history ::
  "(('d, ConfigItem) table \<Rightarrow> gerr + ('d, ConfigItem) table) \<Rightarrow> ConfigHistory \<Rightarrow> ('d, 'h) config_store \<Rightarrow> gerr + ('d, 'h) config_store" where
  "with_history step history S =
     (case step (cs_items S) of
        Inl e \<Rightarrow> Inl e
      | Inr items \<Rightarrow> map_sum id (\<lambda>hist. S\<lparr>cs_items := items, cs_hist := hist\<rparr>) (tb_insert history (cs_hist S)))"

lemma config_store_transactions:
  fixes S :: "('d, 'h) config_store"
  defines "commit \<equiv> \<lambda>S'. cs_commit S' (t_data (cs_items S')) (t_data (cs_hist S'))"
  shows "stored S (ConfigStore_Publish item history S) = Tx commit (with_history (upsert_item item) history) S"
    and "stored S (ConfigStore_Delete k history S) = Tx commit (with_history (delete_item k) history) S"
  by (auto simp: commit_def stored_def ConfigStore_Publish_def ConfigStore_Delete_def cs_tx_def Tx_def with_history_def
      split: sum.split option.split)

end
