(* ===== verification/HttpWatch.thy ===== *)
theory HttpWatch
  imports Watching StoreInv
begin

text \<open>
  The watch of the SDK over HTTP (\<^verbatim>\<open>WatchConfig\<close> in \<^verbatim>\<open>src/pkg/client/client.go\<close>) against the
  HTTP server (\<^verbatim>\<open>src/pkg/api/server.go\<close>): what a round of the watch makes of a configuration
  that has changed. Between them is \<^verbatim>\<open>net/http\<close>: a request reaches the handler of its method
  and path with the parameters the client gave it, and the text of the body comes back.
\<close>

definition query_of :: "(string \<times> string) list \<Rightarrow> greq" where
  "query_of params = \<lparr>rqForm = (\<lambda>_. None), rqQuery = map_of params, rqBody = []\<rparr>"

definition request_of :: "http_req \<Rightarrow> greq" where
  "request_of q = (if hrMethod q \<in> {''POST'', ''PUT''} then form_of (hrParams q) else query_of (hrParams q))"

definition http_to ::
  "string \<Rightarrow> tcp_env \<Rightarrow> (payload \<Rightarrow> string) \<Rightarrow> (string \<Rightarrow> f64 option) \<Rightarrow> http_env \<Rightarrow> ('c, 'h) poll_event list
   \<Rightarrow> ('i, 's, 'c, 'h, 'n, 'd) app \<Rightarrow> transport" where
  "http_to base te page pf e evs A q =
     (if take (length base) (hrURL q) \<noteq> base then Inl ''no such host''
      else case snd (serve e evs (hrMethod q) (drop (length base) (hrURL q)) (request_of q) A) of
             Answered r \<Rightarrow> (case read_body pf (body_text te page (rsBody r)) of
                               None \<Rightarrow> Inl ''invalid JSON response''
                             | Some obj \<Rightarrow> Inr obj)
           | Panicked \<Rightarrow> Inl ''invalid JSON response (status 500): ''
           | Waiting \<Rightarrow> Inl ''timeout'')"

section \<open>A changed configuration is seen\<close>

text \<open>
  The tables compare names by their collation, so the row that is found may spell them
  otherwise. Two rows whose names are spelled alike are one.
\<close>

lemma get_config_row:
  assumes "gorm_table cfg_schema (cs_items (cfStore S))" "GetConfig ns grp did S = Inr it" "ns \<noteq> []" "grp \<noteq> []"
  shows "it \<in># rows (cs_items (cfStore S)) \<and> t_coll (cs_items (cfStore S)) (ciNamespaceID it) ns"
proof -
  have "first_item (ns, grp, did) (cs_items (cfStore S)) = Inr it"
    using assms(2-4) by (simp add: GetConfig_def ConfigStore_Get_def or_else_def)
  from cstore.get_row [OF assms(1) this] show ?thesis by (simp add: cfg_key_def)
qed

lemma config_row_unique:
  assumes "wf_config_store st" "r \<in># rows (cs_items st)" "it \<in># rows (cs_items st)" "cfg_key r = cfg_key it"
  shows "r = it"
proof -
  have wf: "gorm_table cfg_schema (cs_items st)" "key_unique cfg_where cfg_key (cs_items st)"
    using assms(1) by (simp_all add: wf_config_store_def wf_table_def wf_rows_def)
  let ?M = "filter_mset (cfg_where (t_coll (cs_items st)) (cfg_key it)) (rows (cs_items st))"
  have "r \<in># ?M" "it \<in># ?M" using assms(2-4) coll_refl [OF wf(1)] by (simp_all add: cfg_key_def)
  with cstore.unique_at [OF wf] show ?thesis by (rule size_le_1_unique)
qed

text \<open>The digest map tells every stored configuration whose digest is not the client's.\<close>

definition plain_item :: "ConfigItem \<Rightarrow> bool" where
  "plain_item r \<longleftrightarrow> CHR ''#'' \<notin> set (ciNamespaceID r) \<and> CHR ''#'' \<notin> set (ciGroupName r)"

lemma changed_digest_polled:
  assumes "wf_config_store st" "\<forall>r \<in># rows (cs_items st). plain_item r"
    and "it \<in># rows (cs_items st)" "t_coll (cs_items st) (ciNamespaceID it) ns" "ciMD5 it \<noteq> h"
    and "GetAllMD5 ns st = Inr server"
  shows "poll_changed [(k, h)] server \<noteq> []"
proof
  let ?key = "\<lambda>r. serviceKey (ciNamespaceID r) (ciGroupName r) (ciDataID r)"
  assume "poll_changed [(k, h)] server = []"
  then have eq: "map_of server = map_of [(k, h)]"
    using poll_unchanged [of "[(k, h)]"] GetAllMD5_distinct [OF assms(6)] by simp
  have g: "gorm_table cfg_schema (cs_items st)"
    using assms(1) by (simp add: wf_config_store_def wf_table_def wf_rows_def)
  note exact = all_md5_exact [OF g assms(6)]
  have "?key it \<in> dom (map_of server)" using exact assms(3,4) by blast
  then have k: "?key it = k" by (simp add: eq split: if_splits)
  have "map_of server k = Some h" by (simp add: eq)
  with exact obtain r where r: "r \<in># rows (cs_items st)" "h = ciMD5 r" "k = ?key r" by blast
  have "cfg_key r = cfg_key it"
    using serviceKey_inj [OF _ _ _ _ r(3) [folded k]] r(1) assms(2,3) by (auto simp: plain_item_def cfg_key_def)
  from config_row_unique [OF assms(1) r(1) assms(3) this] r(2) assms(5) show False by simp
qed

text \<open>What is announced as changed is UTF-8 if the names and the stored texts are.\<close>

lemma set_update_subset: "set (AList.update k v m) \<subseteq> insert (k, v) (set m)"
  by (induction m) auto

lemma put_where_pairs:
  "\<forall>kv \<in> set m. P kv \<Longrightarrow> \<forall>(k, v) \<in> set src. P (k, f v) \<Longrightarrow> \<forall>kv \<in> set (put_where p f src m). P kv"
proof (induction src arbitrary: m)
  case (Cons kv src)
  obtain k v where kv: "kv = (k, v)" by (cases kv)
  have "\<forall>kv \<in> set (if p k v then AList.update k (f v) m else m). P kv"
    using Cons.prems set_update_subset [of k "f v" m] by (auto simp: kv)
  from Cons.IH [OF this] Cons.prems(2) show ?case by (simp add: put_where_def kv)
qed (simp add: put_where_def)

lemma poll_changed_utf8:
  assumes "gorm_table cfg_schema (cs_items st)" "GetAllMD5 ns st = Inr server" "valid_utf8 k"
    and "\<forall>r \<in># rows (cs_items st). list_all valid_utf8 (item_texts r)"
  shows "\<forall>(k', h') \<in> set (poll_changed [(k, h)] server). valid_utf8 k' \<and> valid_utf8 h'"
proof -
  let ?P = "\<lambda>(k', h'). valid_utf8 k' \<and> valid_utf8 h'"
  have server: "?P (k', h')" if "(k', h') \<in> set server" for k' h'
  proof -
    have "map_of server k' = Some h'" using that GetAllMD5_distinct [OF assms(2)] by simp
    with all_md5_exact [OF assms(1,2)] obtain r where "r \<in># rows (cs_items st)"
      "k' = serviceKey (ciNamespaceID r) (ciGroupName r) (ciDataID r)" "h' = ciMD5 r" by blast
    then show ?thesis using assms(4) by (auto simp: item_texts_def intro: valid_serviceKey)
  qed
  have "\<forall>kv \<in> set (put_where (\<lambda>k' h'. map_of [(k, h)] k' \<noteq> Some h') id server []). ?P kv"
    by (intro put_where_pairs) (use server in auto)
  then have "\<forall>kv \<in> set (poll_changed [(k, h)] server). ?P kv"
    unfolding poll_changed_def by (rule put_where_pairs) (auto simp: assms(3) valid_utf8_nil)
  then show ?thesis by auto
qed

text \<open>
  C28. A change reaches an HTTP watch in its next round: if the server holds the
  configuration with a digest other than the one the watch remembers, the round asks, is told,
  fetches the item and hands its content to the callback (unless the content is the one it
  handed out last), and remembers both, after the texts of both bodies have been printed by the
  server and parsed by the client. The names of the watch are UTF-8, hold neither separator of the
  listening string, and do not begin or end it with white space. The server's table is well
  formed (it always is: C3), compares names by any collation, and holds UTF-8 texts and no \<open>#\<close> in a
  namespace or group; its clock and ids can be printed. Of \<^verbatim>\<open>strconv\<close> it is
  relied on that the number zero is read as zero and that ids survive as some float.
\<close>
theorem http_watch_sees_change:
  assumes "\<forall>s \<in> {did, grp, wMD5 w, ns}. CHR 0x01 \<notin> set s \<and> CHR 0x02 \<notin> set s" "did \<noteq> []" "\<not> blank (hd did)"
    and "ns \<noteq> [] \<longrightarrow> \<not> blank (last ns)" "list_all valid_utf8 [ns, grp, did]"
    and "wf_config_store (apCfg A)" "\<forall>r \<in># rows (cs_items (apCfg A)). plain_item r \<and> printable_item te r"
    and "GetConfig (withDefault ns ''public'') (withDefault grp ''DEFAULT_GROUP'') did (config_of A) = Inr it"
    and "ciMD5 it \<noteq> wMD5 w" "GetAllMD5 (withDefault ns ''public'') (apCfg A) = Inr server"
    and "float_codec pf ff" "\<forall>m. mset (heMapOrder e m) = mset m"
  shows "watch_round (decode_config ff jerr) ns grp did
      (http_to (clServer c) te page pf e (PollTick (apCfg A) # evs) A) c w =
    (\<lparr>wMD5 = ciMD5 it, wContent = ciContent it\<rparr>,
     if ciContent it = wContent w then None else Some (ciContent it), False)"
proof -
  let ?ns = "withDefault ns ''public''" and ?grp = "withDefault grp ''DEFAULT_GROUP''"
  let ?net = "http_to (clServer c) te page pf e (PollTick (apCfg A) # evs) A"
  let ?key = "serviceKey ?ns ?grp did"
  have ne: "?ns \<noteq> []" "?grp \<noteq> []" by (simp_all add: withDefault_def)
  have g: "gorm_table cfg_schema (cs_items (apCfg A))"
    using assms(6) by (simp add: wf_config_store_def wf_table_def wf_rows_def)
  note it = get_config_row [of "config_of A", unfolded config_of_simps, OF g assms(8) ne]
  have item: "printable_item te it" using it assms(7) by blast
  have plain: "\<forall>r \<in># rows (cs_items (apCfg A)). plain_item r"
    and utf8: "\<forall>r \<in># rows (cs_items (apCfg A)). list_all valid_utf8 (item_texts r)"
    using assms(7) by (auto simp: printable_item_def)
  define changed where "changed = poll_changed [(?key, wMD5 w)] server"
  have some: "changed \<noteq> []"
    unfolding changed_def by (rule changed_digest_polled [OF assms(6) plain it [THEN conjunct1] it [THEN conjunct2] assms(9,10)])
  have "valid_utf8 ?key" using assms(5) by (intro valid_serviceKey) (simp_all add: withDefault_def valid_literals)
  note lines = poll_changed_utf8 [OF g assms(10) this utf8, of "wMD5 w", folded changed_def]
  have poll: "LongPoll ?ns [(?key, wMD5 w)] (PollTick (apCfg A) # evs) = Some (Inr changed)"
    using some by (simp add: assms(10) changed_def [symmetric] Let_def)
  let ?text = "concat (map change_line (heMapOrder e changed))"
  have same: "set (heMapOrder e changed) = set changed" "heMapOrder e changed \<noteq> []"
    using assms(12) some by (metis set_mset_mset, metis mset_zero_iff)
  have filled: "?text \<noteq> []" using same(2) by (cases "heMapOrder e changed") (simp_all add: change_line_def)
  have "valid_utf8 ?text" using lines by (intro valid_change_lines) (simp only: same(1))
  then have told: "read_body pf (body_text te page (JText ?text)) = Some [(''code'', JNum 0), (''data'', JStr ?text)]"
    using assms(11) by (intro text_read_back) (simp_all add: float_codec_def)
  obtain resp where resp: "read_body pf (body_text te page (JConfig it)) = Some resp" "checkResp resp = None"
      "decode_config ff jerr (map_of resp ''data'') = Inr (config_view it)"
    by (rule config_round_trip [OF item assms(11)])
  have ask: "do_req ''POST'' ''/v1/cs/configs/listener''
      [(''Listening-Configs'', listen_string did grp (wMD5 w) ns), (''tenant'', ?ns)] ?net c =
      Inr [(''code'', JNum 0), (''data'', JStr ?text)]"
    using watch_listens_right [OF assms(1-4), of e "PollTick (apCfg A) # evs"] poll told
    by (simp add: do_req_def http_to_def serve_def route_eval request_of_def reply_def del: LongPoll.simps)
  have "do_req ''GET'' ''/v1/cs/configs'' (config_params ns grp did) ?net c = Inr resp"
    using assms(8) resp(1)
    by (simp add: do_req_def http_to_def serve_def route_eval request_of_def query_of_def config_params_def
        getConfig_def DefaultQuery_def Query_def reply_def)
  then have fetch: "client_GetConfig (decode_config ff jerr) ns grp did ?net c = Inr (config_view it)"
    by (simp add: client_GetConfig_def resp(2,3))
  show ?thesis
    using filled by (auto simp: watch_round_def ask fetch config_view_def assms(9))
qed

lemma length_hex [simp]: "length (hex bs) = 2 * length bs"
  by (induction bs) (simp_all add: hex_def)

lemma length_md5 [simp]: "length (md5 bs) = 16"
  by (simp add: md5_def Let_def split: prod.splits)

lemma length_CalcMD5 [simp]: "length (CalcMD5 s) = 32"
  by (simp add: CalcMD5_def)

lemma CalcMD5_nonempty: "CalcMD5 s \<noteq> []"
  using length_CalcMD5 [of s] by (cases "CalcMD5 s") simp_all

text \<open>On a server whose table ignores case, watching \<open>APP\<close>: the row is spelled \<open>app\<close>.\<close>

definition demo_floats :: "string \<Rightarrow> f64 option" where
  "demo_floats lit = Some (if lit = ''0'' then 0 else 1)"

lemma demo_float_codec: "float_codec demo_floats (\<lambda>_. ''1'')"
  by (auto simp: float_codec_def demo_floats_def num_ok_one zero_f64_def one_f64_def)

definition demo_caseless ::
  "(ServiceInstance list, Service list, ConfigItem list, ConfigHistory list, Namespace list, ClusterNode list) app" where
  "demo_caseless = demo_app\<lparr>apCfg := \<lparr>cs_items = coll_table ignore_case cfg_schema [demo_item],
     cs_hist = mem_table hist_schema [], cs_commit = (\<lambda>_ _. None)\<rparr>\<rparr>"

theorem http_watch_sees_change_witness:
  "watch_round (decode_config (\<lambda>_. ''1'') id) [] [] ''APP''
     (http_to [] demo_tenv (\<lambda>_. []) demo_floats demo_env [PollTick (apCfg demo_caseless)] demo_caseless)
     (NewClient []) \<lparr>wMD5 = [], wContent = []\<rparr> =
   (\<lparr>wMD5 = CalcMD5 ''k=v'', wContent = ''k=v''\<rparr>, Some ''k=v'', False)"
proof -
  let ?w = "\<lparr>wMD5 = [], wContent = []\<rparr>"
  let ?T = "coll_table ignore_case cfg_schema [demo_item]"
  have g: "gorm_table cfg_schema ?T" by (rule coll_table_gorm [OF ignore_case_equivp])
  have wf: "wf_config_store (apCfg demo_caseless)"
    by (simp add: demo_caseless_def wf_config_store_def wf_table_def wf_rows_def ids_unique_def key_unique_def g coll_ops mem_rows)
  have ascii: "list_all valid_utf8 (item_texts demo_item)"
    using ascii_valid_utf8 [OF hex_ascii]
    by (simp add: demo_item_def item_texts_def ascii_valid_utf8 ascii_def CalcMD5_def)
  have rows: "\<forall>r \<in># rows (cs_items (apCfg demo_caseless)). plain_item r \<and> printable_item demo_tenv r"
    using ascii
    by (simp add: demo_caseless_def coll_ops printable_item_def demo_tenv_def ascii_valid_utf8 ascii_def)
       (simp add: demo_item_def plain_item_def)
  have case_less: "ignore_case ''app'' ''APP''" "ignore_case s s" for s
    by (code_simp, simp add: ignore_case_def)
  have get: "GetConfig (withDefault [] ''public'') (withDefault [] ''DEFAULT_GROUP'') ''APP'' (config_of demo_caseless) = Inr demo_item"
    using case_less
    by (simp add: GetConfig_def ConfigStore_Get_def first_item_def config_of_def demo_caseless_def coll_ops mem_first_def
        withDefault_def or_else_def) (simp add: demo_item_def)
  have digests: "GetAllMD5 (withDefault [] ''public'') (apCfg demo_caseless) = Inr [(''public#DEFAULT_GROUP#app'', CalcMD5 ''k=v'')]"
    using case_less(2)
    by (simp add: GetAllMD5_def ConfigStore_ListAllMD5_def demo_caseless_def coll_ops withDefault_def)
       (simp add: demo_item_def serviceKey_def)
  have u: "ciMD5 demo_item \<noteq> wMD5 ?w" "list_all valid_utf8 [[], [], ''APP'']"
    using CalcMD5_nonempty by (simp_all add: demo_item_def ascii_valid_utf8 ascii_def)
  have "watch_round (decode_config (\<lambda>_. ''1'') id) [] [] ''APP''
      (http_to (clServer (NewClient [])) demo_tenv (\<lambda>_. []) demo_floats demo_env (PollTick (apCfg demo_caseless) # []) demo_caseless)
      (NewClient []) ?w =
    (\<lparr>wMD5 = ciMD5 demo_item, wContent = ciContent demo_item\<rparr>,
     if ciContent demo_item = wContent ?w then None else Some (ciContent demo_item), False)"
    by (rule http_watch_sees_change [OF _ _ _ _ u(2) wf rows get u(1) digests demo_float_codec])
       (simp_all add: blank_def demo_env_def)
  then show ?thesis by (simp add: demo_item_def NewClient_def trim_slashes_def)
qed

end
