(* ===== verification/TcpConns.thy ===== *)
theory TcpConns
  imports Prelude
begin

text \<open>
  The connections of the TCP server (\<^verbatim>\<open>Start\<close>, \<^verbatim>\<open>Stop\<close>, \<^verbatim>\<open>acceptLoop\<close> and the deferred
  function of \<^verbatim>\<open>handleConn\<close> in \<^verbatim>\<open>src/pkg/tcpserver/server.go\<close>) as a step relation: the
  accept loop, the handlers and \<^verbatim>\<open>Stop\<close> run concurrently, and a step is what one of them does
  without another coming in between. A connection is a number. \<open>tsOpen\<close> are the connections
  whose socket is open, \<open>tsConns\<close> the map \<^verbatim>\<open>s.conns\<close>, \<open>tsPending\<close> the connection that
  \<^verbatim>\<open>Accept\<close> has returned and the loop has not yet entered in the map.

  Two pairs of statements are one step each. \<open>enter\<close> is the insertion in the map and the \<^verbatim>\<open>go\<close>
  statement after it, \<open>leave\<close> is \<^verbatim>\<open>conn.Close\<close> and the deletion from the map. The only statement
  of another goroutine that could see the moment between them is the \<^verbatim>\<open>conn.Close\<close> of \<^verbatim>\<open>Stop\<close>,
  and coming right after the pair it has the same effect: it closes a connection whose handler
  then starts on a closed socket, or closes a second time one that is closed already. The accept
  loop gives up (\<open>give_up\<close>) on any error of \<^verbatim>\<open>Accept\<close> once the stop channel is closed, whether the
  listener is closed yet or not; before that it goes on, which is no step.
\<close>

datatype stop_phase = Running | StopSignalled | ListenerClosed | Stopped

record tcp_server =
  tsListening :: bool
  tsPhase :: stop_phase
  tsAccepting :: bool
  tsPending :: "nat option"
  tsConns :: "nat set"
  tsHandlers :: "nat set"
  tsOpen :: "nat set"

definition tcp_started :: tcp_server where
  "tcp_started = \<lparr>tsListening = True, tsPhase = Running, tsAccepting = True, tsPending = None, tsConns = {},
     tsHandlers = {}, tsOpen = {}\<rparr>"

text \<open>The address a server reports: that of its listener, once it has one.\<close>

definition tcp_Addr :: "string \<Rightarrow> string option \<Rightarrow> string" where
  "tcp_Addr addr bound = (case bound of None \<Rightarrow> addr | Some a \<Rightarrow> a)"

inductive tcp_step :: "tcp_server \<Rightarrow> tcp_server \<Rightarrow> bool" where
  accept: "tsAccepting s \<Longrightarrow> tsListening s \<Longrightarrow> tsPending s = None \<Longrightarrow> c \<notin> tsOpen s \<union> tsHandlers s \<Longrightarrow>
     tcp_step s (s\<lparr>tsPending := Some c, tsOpen := insert c (tsOpen s)\<rparr>)"
| enter: "tsPending s = Some c \<Longrightarrow>
     tcp_step s (s\<lparr>tsPending := None, tsConns := insert c (tsConns s), tsHandlers := insert c (tsHandlers s)\<rparr>)"
| leave: "c \<in> tsHandlers s \<Longrightarrow>
     tcp_step s (s\<lparr>tsOpen := tsOpen s - {c}, tsConns := tsConns s - {c}, tsHandlers := tsHandlers s - {c}\<rparr>)"
| give_up: "tsAccepting s \<Longrightarrow> tsPending s = None \<Longrightarrow> tsPhase s \<noteq> Running \<Longrightarrow>
     tcp_step s (s\<lparr>tsAccepting := False\<rparr>)"
| stop_signal: "tsPhase s = Running \<Longrightarrow> tcp_step s (s\<lparr>tsPhase := StopSignalled\<rparr>)"
| stop_listener: "tsPhase s = StopSignalled \<Longrightarrow> tcp_step s (s\<lparr>tsPhase := ListenerClosed, tsListening := False\<rparr>)"
| stop_conns: "tsPhase s = ListenerClosed \<Longrightarrow> tcp_step s (s\<lparr>tsPhase := Stopped, tsOpen := tsOpen s - tsConns s\<rparr>)"

definition tcp_reachable :: "tcp_server \<Rightarrow> bool" where
  "tcp_reachable s \<longleftrightarrow> tcp_step\<^sup>*\<^sup>* tcp_started s"

text \<open>
  What holds in every state: a connection is in the map exactly as long as its handler runs;
  what is open is in the map or pending; the listener is open until \<^verbatim>\<open>Stop\<close> closes it; and
  once \<^verbatim>\<open>Stop\<close> has gone over the map, only one connection can be open.
\<close>

definition tcp_inv :: "tcp_server \<Rightarrow> bool" where
  "tcp_inv s \<longleftrightarrow> tsConns s = tsHandlers s \<and> tsOpen s \<subseteq> tsConns s \<union> set_option (tsPending s) \<and>
     (tsListening s \<longleftrightarrow> tsPhase s = Running \<or> tsPhase s = StopSignalled) \<and>
     (tsPhase s = Stopped \<longrightarrow> (\<exists>c. tsOpen s \<subseteq> {c} \<and> (\<forall>d. tsPending s = Some d \<longrightarrow> d = c)))"

lemma tcp_inv_started: "tcp_inv tcp_started"
  by (simp add: tcp_inv_def tcp_started_def)

lemma tcp_inv_step:
  assumes "tcp_step s t" "tcp_inv s"
  shows "tcp_inv t"
  using assms
proof cases
  case stop_conns
  obtain c where "set_option (tsPending s) \<subseteq> {c}" by (cases "tsPending s") auto
  then have "tsOpen s - tsConns s \<subseteq> {c}" "\<forall>d. tsPending s = Some d \<longrightarrow> d = c"
    using assms(2) by (auto simp: tcp_inv_def)
  then show ?thesis using stop_conns assms(2) by (auto simp: tcp_inv_def)
qed (auto simp: tcp_inv_def)

lemma tcp_reachable_inv:
  assumes "tcp_reachable s"
  shows "tcp_inv s"
proof -
  have "tcp_step\<^sup>*\<^sup>* tcp_started s" using assms by (simp add: tcp_reachable_def)
  then show ?thesis by (induction rule: rtranclp_induct) (auto intro: tcp_inv_started tcp_inv_step)
qed

text \<open>
  C34. The server's bookkeeping of connections: in every reachable state a connection is
  in the map exactly while its handler runs, every open connection is in the map or has just
  been accepted, and when \<^verbatim>\<open>Stop\<close> has returned at most one connection is still open.
\<close>
theorem connections_tracked:
  assumes "tcp_reachable s"
  shows "tsConns s = tsHandlers s \<and> tsOpen s \<subseteq> tsConns s \<union> set_option (tsPending s) \<and>
    (tsPhase s = Stopped \<longrightarrow> (\<exists>c. tsOpen s \<subseteq> {c}))"
  using tcp_reachable_inv [OF assms] by (auto simp: tcp_inv_def)

definition tcp_left_over :: tcp_server where
  "tcp_left_over = \<lparr>tsListening = False, tsPhase = Stopped, tsAccepting = True, tsPending = None, tsConns = {1},
     tsHandlers = {1}, tsOpen = {1}\<rparr>"

lemma tcp_reachable_step: "tcp_reachable s \<Longrightarrow> tcp_step s t \<Longrightarrow> tcp_reachable t"
  by (auto simp: tcp_reachable_def intro: rtranclp.rtrancl_into_rtrancl)

lemma left_over_reachable: "tcp_reachable tcp_left_over"
proof -
  have "tcp_reachable tcp_started" by (simp add: tcp_reachable_def)
  from tcp_reachable_step [OF this accept [of _ 1]] have a: "tcp_reachable (tcp_started\<lparr>tsPending := Some 1, tsOpen := {1}\<rparr>)"
    by (simp add: tcp_started_def)
  from tcp_reachable_step [OF this stop_signal]
  have "tcp_reachable (tcp_started\<lparr>tsPhase := StopSignalled, tsPending := Some 1, tsOpen := {1}\<rparr>)"
    by (simp add: tcp_started_def)
  from tcp_reachable_step [OF this stop_listener]
  have "tcp_reachable (tcp_started\<lparr>tsListening := False, tsPhase := ListenerClosed, tsPending := Some 1, tsOpen := {1}\<rparr>)"
    by (simp add: tcp_started_def)
  from tcp_reachable_step [OF this stop_conns]
  have "tcp_reachable (tcp_started\<lparr>tsListening := False, tsPhase := Stopped, tsPending := Some 1, tsOpen := {1}\<rparr>)"
    by (simp add: tcp_started_def)
  from tcp_reachable_step [OF this enter [of _ 1]] show ?thesis by (simp add: tcp_started_def tcp_left_over_def)
qed

theorem connections_tracked_witness:
  "tsConns tcp_left_over = tsHandlers tcp_left_over \<and> (\<exists>c. tsOpen tcp_left_over \<subseteq> {c})"
  using connections_tracked [OF left_over_reachable] by (simp add: tcp_left_over_def)

text \<open>
  One connection can survive \<^verbatim>\<open>Stop\<close>: it was accepted, and the accept loop enters it in
  the map only after \<^verbatim>\<open>Stop\<close> has closed the connections of the map. Its handler keeps serving
  it until the client leaves.
\<close>
theorem connection_survives_stop:
  "\<exists>s. tcp_reachable s \<and> tsPhase s = Stopped \<and> (\<exists>c. c \<in> tsOpen s \<and> c \<in> tsHandlers s)"
  using left_over_reachable by (intro exI [of _ tcp_left_over]) (simp add: tcp_left_over_def)

end
