(* ===== verification/Db.thy ===== *)
theory Db
  imports GoText
begin

text \<open>
  \<^verbatim>\<open>src/pkg/storage/db.go\<close>: the connection to MySQL. The data source name is built from the
  configuration, the database is created if it is missing, then gorm connects and migrates
  the tables. \<^verbatim>\<open>sql.Open\<close>, the statements it runs, \<^verbatim>\<open>gorm.Open\<close> and \<^verbatim>\<open>AutoMigrate\<close> are
  parameters on a state of the MySQL server.
\<close>

section \<open>Configuration\<close>

record StorageConfig =
  dbHost :: string
  dbPort :: int
  dbUsername :: string
  dbPassword :: string
  dbDatabase :: string
  dbCharset :: string
  dbMaxIdleConns :: int
  dbMaxOpenConns :: int
  dbDSN :: string

definition str_or :: "string \<Rightarrow> string \<Rightarrow> string" where
  "str_or v d = (if v = [] then d else v)"

definition int_or :: "int \<Rightarrow> int \<Rightarrow> int" where
  "int_or v d = (if v = 0 then d else v)"

definition db_applyDefaults :: "StorageConfig \<Rightarrow> StorageConfig" where
  "db_applyDefaults c = c\<lparr>
     dbHost := str_or (dbHost c) ''127.0.0.1'',
     dbPort := int_or (dbPort c) 3306,
     dbDatabase := str_or (dbDatabase c) ''benbroo'',
     dbCharset := str_or (dbCharset c) ''utf8mb4'',
     dbMaxIdleConns := int_or (dbMaxIdleConns c) 10,
     dbMaxOpenConns := int_or (dbMaxOpenConns c) 100\<rparr>"

definition db_usable :: "StorageConfig \<Rightarrow> bool" where
  "db_usable c \<longleftrightarrow> dbHost c \<noteq> [] \<and> dbPort c \<noteq> 0 \<and> dbDatabase c \<noteq> [] \<and> dbCharset c \<noteq> [] \<and>
     dbMaxIdleConns c \<noteq> 0 \<and> dbMaxOpenConns c \<noteq> 0"

interpretation db_defaults: defaults db_applyDefaults db_usable
  by unfold_locales (auto simp: db_applyDefaults_def db_usable_def str_or_def int_or_def)

text \<open>The account and address part of a data source name, and the whole of it.\<close>

definition dsn_prefix :: "StorageConfig \<Rightarrow> string" where
  "dsn_prefix c = dbUsername c @ '':'' @ dbPassword c @ ''@tcp('' @ dbHost c @ '':'' @ itoa (dbPort c) @ '')''"

definition buildDSN :: "StorageConfig \<Rightarrow> string" where
  "buildDSN c0 =
     (if dbDSN c0 \<noteq> [] then dbDSN c0
      else let c = db_applyDefaults c0
           in dsn_prefix c @ ''/'' @ dbDatabase c @ ''?charset='' @ dbCharset c @ ''&parseTime=True&loc=Local'')"

section \<open>Creating the database\<close>

text \<open>
  What \<^verbatim>\<open>ensureDatabase\<close> reads off the name: the part before the first slash, and the text
  after it up to a question mark.
\<close>

definition dsn_parts :: "string \<Rightarrow> (string \<times> string) option" where
  "dsn_parts dsn =
     (if CHR ''/'' \<notin> set dsn then None
      else let dbName = hd (split_n CHR ''?'' 2 (tl (dropWhile (\<lambda>c. c \<noteq> CHR ''/'') dsn)))
           in if dbName = [] then None else Some (takeWhile (\<lambda>c. c \<noteq> CHR ''/'') dsn, dbName))"

definition root_dsn :: "string \<Rightarrow> string" where
  "root_dsn prefix = prefix @ ''/?charset=utf8mb4&parseTime=True&loc=Local''"

definition create_stmt :: "string \<Rightarrow> string" where
  "create_stmt dbName = ''CREATE DATABASE IF NOT EXISTS `'' @ dbName
     @ ''` DEFAULT CHARACTER SET utf8mb4 COLLATE utf8mb4_unicode_ci''"

record ('st, 'db) db_env =
  sqlOpen :: "string \<Rightarrow> string + (string \<Rightarrow> 'st \<Rightarrow> 'st \<times> string option)"
  gormOpen :: "string \<Rightarrow> 'st \<Rightarrow> string + 'db"
  gormDB :: "'db \<Rightarrow> string option"
  autoMigrate :: "'db \<Rightarrow> 'st \<Rightarrow> 'st \<times> string option"

definition ensureDatabase :: "('st, 'db) db_env \<Rightarrow> string \<Rightarrow> 'st \<Rightarrow> 'st \<times> string option" where
  "ensureDatabase e dsn s =
     (case dsn_parts dsn of
        None \<Rightarrow> (s, None)
      | Some (prefix, dbName) \<Rightarrow>
          (case sqlOpen e (root_dsn prefix) of
             Inl er \<Rightarrow> (s, Some er)
           | Inr exec \<Rightarrow> exec (create_stmt dbName) s))"

section \<open>Connecting\<close>

datatype storage_err = EnsureFailed string | ConnectFailed string | HandleFailed string | MigrateFailed string

record 'db storage =
  sgDB :: 'db
  sgMaxIdle :: int
  sgMaxOpen :: int

definition storage_New ::
  "('st, 'db) db_env \<Rightarrow> StorageConfig \<Rightarrow> 'st \<Rightarrow> 'st \<times> (storage_err + 'db storage)" where
  "storage_New e cfg0 s =
     (let cfg = db_applyDefaults cfg0; dsn = buildDSN cfg
      in case ensureDatabase e dsn s of
           (s1, Some er) \<Rightarrow> (s1, Inl (EnsureFailed er))
         | (s1, None) \<Rightarrow>
             (case gormOpen e dsn s1 of
                Inl er \<Rightarrow> (s1, Inl (ConnectFailed er))
              | Inr db \<Rightarrow>
                  (case gormDB e db of
                     Some er \<Rightarrow> (s1, Inl (HandleFailed er))
                   | None \<Rightarrow>
                       (case autoMigrate e db s1 of
                          (s2, Some er) \<Rightarrow> (s2, Inl (MigrateFailed er))
                        | (s2, None) \<Rightarrow>
                            (s2, Inr \<lparr>sgDB = db, sgMaxIdle = dbMaxIdleConns cfg, sgMaxOpen = dbMaxOpenConns cfg\<rparr>)))))"

section \<open>Which database is created\<close>

lemma split_at_char:
  assumes "c \<notin> set p"
  shows "takeWhile (\<lambda>x. x \<noteq> c) (p @ c # q) = p" "dropWhile (\<lambda>x. x \<noteq> c) (p @ c # q) = c # q"
proof -
  have "\<And>x. x \<in> set p \<Longrightarrow> x \<noteq> c" using assms by blast
  then show "takeWhile (\<lambda>x. x \<noteq> c) (p @ c # q) = p" "dropWhile (\<lambda>x. x \<noteq> c) (p @ c # q) = c # q"
    by (simp_all add: takeWhile_append2 dropWhile_append2)
qed

lemma takeWhile_no_char: "c \<notin> set s \<Longrightarrow> takeWhile (\<lambda>x. x \<noteq> c) s = s"
  by (induction s) auto

lemma split_two: "hd (split_n c 2 s) = takeWhile (\<lambda>x. x \<noteq> c) s"
  by (simp add: numeral_2_eq_2 takeWhile_no_char)

lemma dsn_parts_at:
  assumes "CHR ''/'' \<notin> set p" "takeWhile (\<lambda>c. c \<noteq> CHR ''?'') q \<noteq> []"
  shows "dsn_parts (p @ CHR ''/'' # q) = Some (p, takeWhile (\<lambda>c. c \<noteq> CHR ''?'') q)"
  using assms split_at_char [OF assms(1)] by (simp add: dsn_parts_def split_two)

lemma itoa_chars: "c \<in> set (itoa i) \<Longrightarrow> c = CHR ''-'' \<or> is_digit c"
  using digits10_digit by (auto simp: itoa_def split: if_splits)

lemma no_slash_prefix:
  assumes "CHR ''/'' \<notin> set (dbUsername c @ dbPassword c @ dbHost c)"
  shows "CHR ''/'' \<notin> set (dsn_prefix (db_applyDefaults c))"
  using assms itoa_chars [of "CHR ''/''"]
  by (auto simp: dsn_prefix_def db_applyDefaults_def str_or_def is_digit_def)

lemma buildDSN_prefix:
  assumes "dbDSN c = []"
  shows "buildDSN c = dsn_prefix (db_applyDefaults c) @ CHR ''/'' #
    (dbDatabase (db_applyDefaults c) @ ''?charset='' @ dbCharset (db_applyDefaults c) @ ''&parseTime=True&loc=Local'')"
  using assms by (simp add: buildDSN_def Let_def)

lemma ensure_configured:
  assumes "dbDSN c = []" "CHR ''/'' \<notin> set (dbUsername c @ dbPassword c @ dbHost c)" "CHR ''?'' \<notin> set (dbDatabase c)"
  defines "d \<equiv> db_applyDefaults c"
  shows "ensureDatabase e (buildDSN c) s =
    (case sqlOpen e (root_dsn (dsn_prefix d)) of
       Inl er \<Rightarrow> (s, Some er)
     | Inr exec \<Rightarrow> exec (create_stmt (dbDatabase d)) s)"
proof -
  have u: "db_usable d" unfolding d_def by (rule db_defaults.fill_usable)
  have "CHR ''?'' \<notin> set (dbDatabase d)" using assms(3) by (simp add: d_def db_applyDefaults_def str_or_def)
  then have "takeWhile (\<lambda>x. x \<noteq> CHR ''?'') (dbDatabase d @ ''?charset='' @ dbCharset d @ ''&parseTime=True&loc=Local'') = dbDatabase d"
    using split_at_char(1) [of "CHR ''?''" "dbDatabase d"] by simp
  moreover have "dbDatabase d \<noteq> []" using u by (simp add: db_usable_def)
  ultimately have "dsn_parts (buildDSN c) = Some (dsn_prefix d, dbDatabase d)"
    unfolding buildDSN_prefix [OF assms(1)] using dsn_parts_at [OF no_slash_prefix [OF assms(2)]] by (simp add: d_def)
  then show ?thesis by (simp add: ensureDatabase_def)
qed

text \<open>
  The database that is made sure to exist is the configured one (or the default one), on
  the configured server and account, whenever neither the account nor the address contains a
  slash, and the name no question mark.
\<close>
theorem ensure_creates_configured:
  assumes "dbDSN c = []" "CHR ''/'' \<notin> set (dbUsername c @ dbPassword c @ dbHost c)" "CHR ''?'' \<notin> set (dbDatabase c)"
  defines "d \<equiv> db_applyDefaults c"
  shows "ensureDatabase e (buildDSN c) s =
    (case sqlOpen e (root_dsn (dsn_prefix d)) of
       Inl er \<Rightarrow> (s, Some er)
     | Inr exec \<Rightarrow> exec (create_stmt (dbDatabase d)) s)"
  unfolding d_def by (rule ensure_configured [OF assms(1-3)])

definition demo_db :: StorageConfig where
  "demo_db = \<lparr>dbHost = [], dbPort = 0, dbUsername = ''root'', dbPassword = ''s3'', dbDatabase = ''reg'', dbCharset = [],
     dbMaxIdleConns = 0, dbMaxOpenConns = 0, dbDSN = []\<rparr>"

text \<open>A server that keeps the statements it has run, and takes any account.\<close>

definition log_db :: "(string list, unit) db_env" where
  "log_db = \<lparr>sqlOpen = (\<lambda>_. Inr (\<lambda>q s. (q # s, None))), gormOpen = (\<lambda>_ _. Inr ()), gormDB = (\<lambda>_. None),
     autoMigrate = (\<lambda>_ s. (s, None))\<rparr>"

theorem ensure_creates_configured_witness:
  "ensureDatabase log_db (buildDSN demo_db) [] = ([create_stmt ''reg''], None)"
  using ensure_creates_configured [of demo_db log_db "[]"]
  by (simp add: demo_db_def log_db_def db_applyDefaults_def str_or_def)

text \<open>
  With a slash in the password the source name is cut there: the server is asked for an
  account with half the password, and the database it is to create is named after the other
  half and the address.
\<close>
theorem slash_in_password_misleads:
  assumes "dbDSN c = []" "CHR ''/'' \<notin> set (dbUsername c)" "dbPassword c = p @ CHR ''/'' # q" "CHR ''/'' \<notin> set p"
    "CHR ''?'' \<notin> set q" "CHR ''?'' \<notin> set (dbHost c)" "CHR ''?'' \<notin> set (dbDatabase c)"
  defines "d \<equiv> db_applyDefaults c"
  shows "dsn_parts (buildDSN c) =
    Some (dbUsername c @ '':'' @ p,
          q @ ''@tcp('' @ dbHost d @ '':'' @ itoa (dbPort d) @ '')/'' @ dbDatabase d)"
proof -
  let ?n = "q @ ''@tcp('' @ dbHost d @ '':'' @ itoa (dbPort d) @ '')/'' @ dbDatabase d"
  have d: "dbUsername d = dbUsername c" "dbPassword d = p @ CHR ''/'' # q"
    by (simp_all add: d_def db_applyDefaults_def assms(3))
  have "CHR ''?'' \<notin> set ?n"
    using assms(5-7) itoa_chars [of "CHR ''?''"] by (auto simp: d_def db_applyDefaults_def str_or_def is_digit_def)
  then have name: "takeWhile (\<lambda>x. x \<noteq> CHR ''?'') (?n @ CHR ''?'' # r) = ?n" for r by (rule split_at_char(1))
  have eq: "buildDSN c = (dbUsername c @ '':'' @ p) @ CHR ''/'' # (?n @ CHR ''?'' # (''charset='' @ dbCharset d @ ''&parseTime=True&loc=Local''))"
    unfolding buildDSN_prefix [OF assms(1)] by (simp add: dsn_prefix_def d d_def [symmetric])
  have "CHR ''/'' \<notin> set (dbUsername c @ '':'' @ p)" using assms(2,4) by simp
  moreover have "?n \<noteq> []" by simp
  ultimately show ?thesis unfolding eq using dsn_parts_at name by metis
qed

theorem slash_in_password_misleads_witness:
  "dsn_parts (buildDSN (demo_db\<lparr>dbPassword := ''a/b''\<rparr>)) = Some (''root:a'', ''b@tcp(127.0.0.1:3306)/reg'')"
  using slash_in_password_misleads [of "demo_db\<lparr>dbPassword := ''a/b''\<rparr>" "''a''" "''b''"]
  by (simp add: demo_db_def db_applyDefaults_def str_or_def int_or_def itoa_def digits10.simps)

text \<open>
  A storage that is returned was opened with the built source name after the database was
  ensured and the tables were migrated, with pool limits that are the configured ones or the
  defaults, never zero.
\<close>
theorem storage_ready:
  assumes "storage_New e c s = (s', Inr st)"
  shows "(\<exists>s1. ensureDatabase e (buildDSN (db_applyDefaults c)) s = (s1, None) \<and>
       gormOpen e (buildDSN (db_applyDefaults c)) s1 = Inr (sgDB st) \<and> autoMigrate e (sgDB st) s1 = (s', None)) \<and>
     sgMaxIdle st \<noteq> 0 \<and> sgMaxOpen st \<noteq> 0"
proof -
  have "db_usable (db_applyDefaults c)" by (rule db_defaults.fill_usable)
  then show ?thesis
    using assms by (auto simp: storage_New_def Let_def db_usable_def split: prod.splits option.splits sum.splits)
qed

theorem storage_ready_witness:
  "sgMaxIdle \<lparr>sgDB = (), sgMaxIdle = 10, sgMaxOpen = 100\<rparr> \<noteq> 0 \<and> ensureDatabase log_db (buildDSN (db_applyDefaults demo_db)) [] = ([create_stmt ''reg''], None)"
proof -
  have e: "ensureDatabase log_db (buildDSN (db_applyDefaults demo_db)) [] = ([create_stmt ''reg''], None)"
    by (simp add: ensureDatabase_def dsn_parts_def buildDSN_def demo_db_def log_db_def db_applyDefaults_def str_or_def
        int_or_def dsn_prefix_def itoa_def digits10.simps numeral_2_eq_2 create_stmt_def)
  have "storage_New log_db demo_db [] = ([create_stmt ''reg''], Inr \<lparr>sgDB = (), sgMaxIdle = 10, sgMaxOpen = 100\<rparr>)"
    by (simp add: storage_New_def Let_def e) (simp add: log_db_def demo_db_def db_applyDefaults_def int_or_def)
  from storage_ready [OF this] e show ?thesis by simp
qed

end
