(* ===== verification/Dns.thy ===== *)
theory Dns
  imports Naming
begin

text \<open>
  \<^verbatim>\<open>src/pkg/dns/server.go\<close>: the names the DNS server understands, the order in which it
  returns instances, and the answers it builds. A slice with a negative bound is a panic,
  the value \<^const>\<open>None\<close>. The DNS library is not part of the repository: a message is its
  question and the records appended to it.
\<close>

section \<open>Configuration\<close>

record DnsConfig =
  dcPort :: int
  dcDomain :: string
  dcTTL :: "32 word"

definition dns_fill :: "DnsConfig \<Rightarrow> DnsConfig" where
  "dns_fill c =
     (let d = or_else (dcDomain c) ''benbroo.''
      in c\<lparr>dcPort := or_int (dcPort c) 8553,
           dcDomain := (if has_suffix d ''.'' then d else d @ ''.''),
           dcTTL := (if dcTTL c = 0 then 5 else dcTTL c)\<rparr>)"

definition dns_usable :: "DnsConfig \<Rightarrow> bool" where
  "dns_usable c \<longleftrightarrow> dcPort c \<noteq> 0 \<and> dcDomain c \<noteq> [] \<and> has_suffix (dcDomain c) ''.'' \<and> dcTTL c \<noteq> 0"

interpretation dns_defaults: defaults dns_fill dns_usable
  by unfold_locales (auto simp: dns_fill_def dns_usable_def or_else_def or_int_def Let_def)

section \<open>Names\<close>

definition parseName :: "string \<Rightarrow> string \<Rightarrow> (string \<times> string \<times> string) option option" where
  "parseName domain name0 =
     (let name = trim_suffix name0 ''.''; suffix = trim_suffix domain ''.''
      in if \<not> has_suffix (to_lower name) (to_lower suffix) then Some None
         else let n = int (length name) - int (length suffix) - 1
              in if n < 0 then None
                 else case split_n CHR ''.'' 3 (take (nat n) name) of
                        svc # grp # ns # _ \<Rightarrow> Some (Some (ns, grp, svc))
                      | _ \<Rightarrow> Some None)"

section \<open>Order of the answers\<close>

definition swap_at :: "nat \<Rightarrow> nat \<Rightarrow> 'a list \<Rightarrow> 'a list" where
  "swap_at i j xs = xs[i := xs ! j, j := xs ! i]"

definition sort_pass :: "nat \<Rightarrow> ServiceInstance list \<Rightarrow> ServiceInstance list" where
  "sort_pass i xs =
     fold (\<lambda>j xs. if siWeight (xs ! i) < siWeight (xs ! j) then swap_at i j xs else xs) [Suc i..<length xs] xs"

definition exchange_sort :: "ServiceInstance list \<Rightarrow> ServiceInstance list" where
  "exchange_sort xs = fold sort_pass [0..<length xs] xs"

definition rotate_by :: "int \<Rightarrow> 'a list \<Rightarrow> 'a list" where
  "rotate_by r xs = (if 0 < r then drop (nat r) xs @ take (nat r) xs else xs)"

definition sum_weights :: "ServiceInstance list \<Rightarrow> f64" where
  "sum_weights xs = foldl (\<lambda>t x. t + siWeight x) 0 xs"

text \<open>Go's \<^verbatim>\<open>%\<close> truncates: the remainder has the sign of the dividend.\<close>

definition go_rem :: "int \<Rightarrow> int \<Rightarrow> int" where
  "go_rem a b = sgn a * (\<bar>a\<bar> mod \<bar>b\<bar>)"

type_synonym rr_index = "string \<Rightarrow> int"

definition dns_weightedSelect ::
  "ServiceInstance list \<Rightarrow> string \<Rightarrow> rr_index \<Rightarrow> rr_index \<times> ServiceInstance list" where
  "dns_weightedSelect instances domain rr =
     (if length instances \<le> 1 \<or> sum_weights instances \<le> 0 then (rr, instances)
      else let idx = rr domain
           in (rr(domain := int64 (idx + 1)),
               rotate_by (go_rem idx (int (length instances))) (exchange_sort instances)))"

text \<open>\<open>u\<close> is \<^verbatim>\<open>rand.Float64()\<close>, \<open>k\<close> is \<^verbatim>\<open>rand.Intn(len)\<close>; \<^const>\<open>None\<close> is the panic on an empty list.\<close>

fun first_reaching :: "f64 \<Rightarrow> f64 \<Rightarrow> ServiceInstance list \<Rightarrow> ServiceInstance option" where
  "first_reaching r c [] = None"
| "first_reaching r c (x # xs) = (if r \<le> c + siWeight x then Some x else first_reaching r (c + siWeight x) xs)"

definition randomWeightedPick :: "f64 \<Rightarrow> nat \<Rightarrow> ServiceInstance list \<Rightarrow> ServiceInstance option" where
  "randomWeightedPick u k xs =
     (if xs = [] then None
      else if sum_weights xs \<le> 0 then Some (xs ! k)
      else case first_reaching (u * sum_weights xs) 0 xs of Some x \<Rightarrow> Some x | None \<Rightarrow> Some (last xs))"

section \<open>Answers\<close>

type_synonym ip4 = "nat \<times> nat \<times> nat \<times> nat"

datatype dns_rr =
    RR_A string "32 word" ip4
  | RR_SRV string "32 word" "16 word" "16 word" "16 word" string

record dns_msg =
  mAnswer :: "dns_rr list"
  mExtra :: "dns_rr list"

text \<open>
  \<^verbatim>\<open>net.ParseIP(s).To4()\<close>: dotted decimal without leading zeros; \<open>ip6\<close> is what it yields
  for a string whose first separator is a colon (an IPv6 address may hold an IPv4 one).
\<close>

definition parse_octet :: "string \<Rightarrow> nat option" where
  "parse_octet s =
     (if s \<noteq> [] \<and> list_all is_digit s \<and> length s \<le> 3 \<and> (1 < length s \<longrightarrow> hd s \<noteq> CHR ''0'') \<and> digits_val s < 256
      then Some (digits_val s) else None)"

definition parse_ip4 :: "(string \<Rightarrow> ip4 option) \<Rightarrow> string \<Rightarrow> ip4 option" where
  "parse_ip4 ip6 s =
     (if has_prefix (filter (\<lambda>c. c = CHR ''.'' \<or> c = CHR '':'') s) '':'' then ip6 s
      else case map parse_octet (split_on CHR ''.'' s) of
             [Some a, Some b, Some c, Some d] \<Rightarrow> Some (a, b, c, d)
           | _ \<Rightarrow> None)"

text \<open>\<^verbatim>\<open>uint16(f)\<close> truncates; outside the range the result depends on the machine (\<open>oor\<close>).\<close>

definition f64_to_u16 :: "(f64 \<Rightarrow> 16 word) \<Rightarrow> f64 \<Rightarrow> 16 word" where
  "f64_to_u16 oor f =
     (case f of
        Fin x \<Rightarrow> if - 1 < x \<and> x < 65536 then word_of_int (if x < 0 then 0 else \<lfloor>x\<rfloor>) else oor f
      | _ \<Rightarrow> oor f)"

record dns_env =
  deCfg :: DnsConfig
  deIp6 :: "string \<Rightarrow> ip4 option"
  deOor :: "f64 \<Rightarrow> 16 word"

definition getHealthyInstances ::
  "string \<Rightarrow> string \<Rightarrow> string \<Rightarrow> ('i, 's) registry \<Rightarrow> ServiceInstance list" where
  "getHealthyInstances ns grp svc R = (case GetInstances ns grp svc [] True R of Inl e \<Rightarrow> [] | Inr xs \<Rightarrow> xs)"

definition a_records :: "dns_env \<Rightarrow> string \<Rightarrow> ServiceInstance \<Rightarrow> dns_rr list" where
  "a_records e name x = (case parse_ip4 (deIp6 e) (siIP x) of None \<Rightarrow> [] | Some ip \<Rightarrow> [RR_A name (dcTTL (deCfg e)) ip])"

definition srv_target :: "nat \<Rightarrow> string \<Rightarrow> string" where
  "srv_target i name = ''inst'' @ itoa (int i) @ ''.'' @ name"

definition handleA :: "dns_env \<Rightarrow> ('i, 's) registry \<Rightarrow> string \<Rightarrow> rr_index \<times> dns_msg \<Rightarrow> (rr_index \<times> dns_msg) option" where
  "handleA e R name st =
     (case parseName (dcDomain (deCfg e)) name of
        None \<Rightarrow> None
      | Some None \<Rightarrow> Some st
      | Some (Some (ns, grp, svc)) \<Rightarrow>
          let xs = getHealthyInstances ns grp svc R
          in if xs = [] then Some st
             else let (rr, sel) = dns_weightedSelect xs name (fst st)
                  in Some (rr, (snd st)\<lparr>mAnswer := mAnswer (snd st) @ concat (map (a_records e name) sel)\<rparr>))"

definition handleSRV :: "dns_env \<Rightarrow> ('i, 's) registry \<Rightarrow> string \<Rightarrow> rr_index \<times> dns_msg \<Rightarrow> (rr_index \<times> dns_msg) option" where
  "handleSRV e R name st =
     (case parseName (dcDomain (deCfg e)) name of
        None \<Rightarrow> None
      | Some None \<Rightarrow> Some st
      | Some (Some (ns, grp, svc)) \<Rightarrow>
          let xs = getHealthyInstances ns grp svc R
          in if xs = [] then Some st
             else let (rr, sel) = dns_weightedSelect xs name (fst st);
                      num = enumerate 0 sel
                  in Some (rr, (snd st)\<lparr>
                       mAnswer := mAnswer (snd st) @ map (\<lambda>(i, x). RR_SRV name (dcTTL (deCfg e)) 0
                          (f64_to_u16 (deOor e) (siWeight x)) (word_of_int (siPort x)) (srv_target i name)) num,
                       mExtra := mExtra (snd st) @ concat (map (\<lambda>(i, x). a_records e (srv_target i name) x) num)\<rparr>))"

definition handle_question :: "dns_env \<Rightarrow> ('i, 's) registry \<Rightarrow> string \<times> nat \<Rightarrow> rr_index \<times> dns_msg \<Rightarrow> (rr_index \<times> dns_msg) option" where
  "handle_question e R q st =
     (case q of (name, qtype) \<Rightarrow>
        if qtype = 1 then handleA e R name st
        else if qtype = 33 then handleSRV e R name st
        else if qtype = 255 then Option.bind (handleA e R name st) (handleSRV e R name)
        else Some st)"

fun handleDNS :: "dns_env \<Rightarrow> ('i, 's) registry \<Rightarrow> (string \<times> nat) list \<Rightarrow> rr_index \<times> dns_msg \<Rightarrow> (rr_index \<times> dns_msg) option" where
  "handleDNS e R [] st = Some st"
| "handleDNS e R (q # qs) st = Option.bind (handle_question e R q st) (handleDNS e R qs)"

section \<open>Names: properties\<close>

lemma trim_dot: "trim_suffix (s @ ''.'') ''.'' = s"
  by (rule trim_suffix_append)

lemma to_lower_inj_len: "to_lower s = to_lower t \<Longrightarrow> length s = length t"
  by (metis length_to_lower)

lemma split3:
  assumes "CHR ''.'' \<notin> set a" "CHR ''.'' \<notin> set b"
  shows "split_n CHR ''.'' 3 (a @ ''.'' @ b @ ''.'' @ c) = [a, b, c]"
  using split_n_append [of "CHR ''.''" a 1 "b @ ''.'' @ c"] split_n_append [of "CHR ''.''" b 0 c] assms
  by (simp add: numeral_eq_Suc)

text \<open>
  C26. A query for \<open>service.group.namespace.domain\<close> is understood: for a service and a group
  without dots, any namespace, and the domain in any mixture of upper and lower case, the
  three parts come back as they were written.
\<close>
theorem parse_name_roundtrip:
  assumes "CHR ''.'' \<notin> set svc" "CHR ''.'' \<notin> set grp"
    and "domain = apex @ ''.''" "to_lower apex2 = to_lower apex"
  shows "parseName domain (svc @ ''.'' @ grp @ ''.'' @ ns @ ''.'' @ apex2 @ ''.'') = Some (Some (ns, grp, svc))"
proof -
  let ?p = "svc @ ''.'' @ grp @ ''.'' @ ns"
  have name: "trim_suffix (svc @ ''.'' @ grp @ ''.'' @ ns @ ''.'' @ apex2 @ ''.'') ''.'' = ?p @ ''.'' @ apex2"
    using trim_dot [of "?p @ ''.'' @ apex2"] by simp
  have "has_suffix (to_lower (?p @ ''.'' @ apex2)) (to_lower apex)"
    using has_suffix_append [of "to_lower (?p @ ''.'')" "to_lower apex"]
    by (simp only: to_lower_append assms(4) append_assoc)
  moreover have "length apex2 = length apex" using to_lower_inj_len assms(4) .
  moreover have "split_n CHR ''.'' 3 ?p = [svc, grp, ns]" by (rule split3 [OF assms(1,2)])
  ultimately show ?thesis
    unfolding parseName_def name assms(3) trim_dot by (simp add: Let_def nat_add_distrib)
qed

theorem parse_name_roundtrip_witness:
  "parseName ''benbroo.'' ''order-service.DEFAULT_GROUP.public.BenBroo.'' = Some (Some (''public'', ''DEFAULT_GROUP'', ''order-service''))"
proof -
  have "to_lower ''BenBroo'' = to_lower ''benbroo''" by code_simp
  from parse_name_roundtrip [of "''order-service''" "''DEFAULT_GROUP''" "''benbroo.''" "''benbroo''" "''BenBroo''" "''public''", OF _ _ _ this]
  show ?thesis by simp
qed

text \<open>
  A query for the domain itself kills the server: parsing panics exactly for the names
  that are the configured domain, in any case and with or without the final dot (the
  prefix then has length minus one). In particular \<open>benbroo.\<close> does.
\<close>
theorem domain_query_panics:
  "(parseName domain name = None \<longleftrightarrow> to_lower (trim_suffix name ''.'') = to_lower (trim_suffix domain ''.'')) \<and>
   parseName (dcDomain (dns_fill \<lparr>dcPort = 0, dcDomain = [], dcTTL = 0\<rparr>)) ''benbroo.'' = None"
proof -
  have iff: "parseName domain name = None \<longleftrightarrow> to_lower (trim_suffix name ''.'') = to_lower (trim_suffix domain ''.'')"
    for domain name
  proof -
    let ?n = "trim_suffix name ''.''" and ?s = "trim_suffix domain ''.''"
    show ?thesis
    proof (cases "has_suffix (to_lower ?n) (to_lower ?s)")
      case True
      then obtain p where p: "to_lower ?n = p @ to_lower ?s" using has_suffix_exists by blast
      then have len: "length ?n = length p + length ?s" by (metis length_append length_to_lower)
      have "parseName domain name = None \<longleftrightarrow> p = []"
        using True len by (auto simp: parseName_def Let_def split: list.split)
      with p show ?thesis by simp
    next
      case False
      then have "to_lower ?n \<noteq> to_lower ?s" using has_suffix_append [of "[]" "to_lower ?s"] by auto
      with False show ?thesis by (simp add: parseName_def Let_def)
    qed
  qed
  have "dcDomain (dns_fill \<lparr>dcPort = 0, dcDomain = [], dcTTL = 0\<rparr>) = ''benbroo.''"
    by (simp add: dns_fill_def Let_def has_suffix_def)
  then show ?thesis using iff [of "''benbroo.''" "''benbroo.''"] iff [of domain name] by simp
qed

section \<open>Order: properties\<close>

lemma mset_swap_at: "i < length xs \<Longrightarrow> j < length xs \<Longrightarrow> mset (swap_at i j xs) = mset xs"
  by (simp add: swap_at_def mset_swap)

lemma length_swap_at [simp]: "length (swap_at i j xs) = length xs"
  by (simp add: swap_at_def)

definition pass_step :: "nat \<Rightarrow> nat \<Rightarrow> ServiceInstance list \<Rightarrow> ServiceInstance list" where
  "pass_step i j xs = (if siWeight (xs ! i) < siWeight (xs ! j) then swap_at i j xs else xs)"

lemma length_pass_step [simp]: "length (pass_step i j xs) = length xs"
  by (simp add: pass_step_def)

lemma length_pass_fold [simp]: "length (fold (pass_step i) js xs) = length xs"
  by (induction js arbitrary: xs) simp_all

lemma sort_pass_fold: "sort_pass i xs = fold (pass_step i) [Suc i..<length xs] xs"
  by (simp add: sort_pass_def pass_step_def [abs_def])

lemma mset_pass_fold:
  "i < length xs \<Longrightarrow> \<forall>j \<in> set js. j < length xs \<Longrightarrow> mset (fold (pass_step i) js xs) = mset xs"
  by (induction js arbitrary: xs) (simp_all add: pass_step_def mset_swap_at)

lemma mset_sort_pass: "i < length xs \<Longrightarrow> mset (sort_pass i xs) = mset xs"
  unfolding sort_pass_fold by (rule mset_pass_fold) simp_all

lemma length_sort_pass [simp]: "length (sort_pass i xs) = length xs"
  by (simp add: sort_pass_fold)

lemma mset_exchange: "mset (exchange_sort xs) = mset xs"
proof -
  have "\<forall>i \<in> set is. i < length ys \<Longrightarrow> mset (fold sort_pass is ys) = mset ys" for "is" ys
    by (induction "is" arbitrary: ys) (simp_all add: mset_sort_pass)
  then show ?thesis by (simp add: exchange_sort_def)
qed

lemma length_exchange [simp]: "length (exchange_sort xs) = length xs"
  using mset_exchange by (metis size_mset)

text \<open>After the pass for position \<open>i\<close>, no weight behind it is larger.\<close>

lemma pass_fold_max:
  assumes "i < length xs" "\<forall>j \<in> set js. i < j \<and> j < length xs" "\<forall>x \<in> set xs. siWeight x \<noteq> NaN"
    and "D \<inter> set js = {}" "\<forall>k \<in> D. k < length xs \<and> k \<noteq> i \<and> siWeight (xs ! k) \<le> siWeight (xs ! i)" "distinct js"
  shows "\<forall>k \<in> D \<union> set js. siWeight (fold (pass_step i) js xs ! k) \<le> siWeight (fold (pass_step i) js xs ! i)"
  using assms
proof (induction js arbitrary: xs D)
  case (Cons j js)
  let ?xs = "pass_step i j xs"
  have j: "i < j" "j < length xs" using Cons.prems(2) by simp_all
  have nn: "siWeight (xs ! i) \<noteq> NaN" "siWeight (xs ! j) \<noteq> NaN" using Cons.prems(1,3) j by simp_all
  have set: "set ?xs = set xs"
    using mset_swap_at [OF Cons.prems(1) j(2)] by (simp add: pass_step_def) (metis set_mset_mset)
  have new: "\<forall>k \<in> insert j D. k < length ?xs \<and> k \<noteq> i \<and> siWeight (?xs ! k) \<le> siWeight (?xs ! i)"
  proof
    fix k assume k: "k \<in> insert j D"
    show "k < length ?xs \<and> k \<noteq> i \<and> siWeight (?xs ! k) \<le> siWeight (?xs ! i)"
    proof (cases "siWeight (xs ! i) < siWeight (xs ! j)")
      case True
      then have s: "?xs ! i = xs ! j" "?xs ! j = xs ! i"
        using j Cons.prems(1) by (simp_all add: pass_step_def swap_at_def)
      have o: "k \<noteq> j \<Longrightarrow> k \<noteq> i \<Longrightarrow> ?xs ! k = xs ! k" using True by (simp add: pass_step_def swap_at_def)
      show ?thesis
        using k Cons.prems(5) s o True j f64_le_trans [of "siWeight (xs ! k)" "siWeight (xs ! i)" "siWeight (xs ! j)"]
        by (cases "k = j") (auto simp: less_eq_f64_def)
    next
      case False
      then have "siWeight (xs ! j) \<le> siWeight (xs ! i)" using f64_not_less nn by blast
      with False k Cons.prems(5) j show ?thesis by (auto simp: pass_step_def)
    qed
  qed
  have "\<forall>k \<in> insert j D \<union> set js. siWeight (fold (pass_step i) js ?xs ! k) \<le> siWeight (fold (pass_step i) js ?xs ! i)"
  proof (rule Cons.IH)
    show "i < length ?xs" "distinct js" using Cons.prems(1,6) by simp_all
    show "\<forall>k \<in> set js. i < k \<and> k < length ?xs" using Cons.prems(2) by simp
    show "\<forall>x \<in> set ?xs. siWeight x \<noteq> NaN" unfolding set by (rule Cons.prems(3))
    show "insert j D \<inter> set js = {}" using Cons.prems(4,6) by auto
    show "\<forall>k \<in> insert j D. k < length ?xs \<and> k \<noteq> i \<and> siWeight (?xs ! k) \<le> siWeight (?xs ! i)" by (rule new)
  qed
  then show ?case by simp
qed simp

lemma pass_fold_prefix:
  "i < length xs \<Longrightarrow> \<forall>j \<in> set js. i < j \<and> j < length xs \<Longrightarrow> take i (fold (pass_step i) js xs) = take i xs"
proof (induction js arbitrary: xs)
  case (Cons j js)
  then have "take i (pass_step i j xs) = take i xs" by (simp add: pass_step_def swap_at_def)
  with Cons.IH [of "pass_step i j xs"] Cons.prems show ?case by simp
qed simp

lemma sort_pass_keeps:
  assumes "i < length xs"
  shows "take i (sort_pass i xs) = take i xs" and "mset (drop i (sort_pass i xs)) = mset (drop i xs)"
proof -
  show t: "take i (sort_pass i xs) = take i xs"
    unfolding sort_pass_fold by (rule pass_fold_prefix) (use assms in auto)
  have "mset (drop i (sort_pass i xs)) + mset (take i (sort_pass i xs)) = mset (drop i xs) + mset (take i xs)"
    by (simp add: mset_drop_take mset_sort_pass [OF assms])
  then show "mset (drop i (sort_pass i xs)) = mset (drop i xs)" by (simp add: t)
qed

definition sorted_upto :: "nat \<Rightarrow> ServiceInstance list \<Rightarrow> bool" where
  "sorted_upto i xs \<longleftrightarrow> (\<forall>a < i. \<forall>x \<in> set (drop (Suc a) xs). siWeight x \<le> siWeight (xs ! a))"

lemma set_drop_nth: "set (drop m xs) = {xs ! k | k. m \<le> k \<and> k < length xs}"
proof -
  have "x \<in> set (drop m xs) \<longleftrightarrow> (\<exists>k. x = xs ! k \<and> m \<le> k \<and> k < length xs)" for x
  proof
    assume "x \<in> set (drop m xs)"
    then obtain j where "j < length xs - m" "x = xs ! (m + j)" by (auto simp: in_set_conv_nth)
    then show "\<exists>k. x = xs ! k \<and> m \<le> k \<and> k < length xs" by (intro exI [of _ "m + j"]) simp
  next
    assume "\<exists>k. x = xs ! k \<and> m \<le> k \<and> k < length xs"
    then obtain k where k: "x = xs ! k" "m \<le> k" "k < length xs" by blast
    then have "drop m xs ! (k - m) = x" "k - m < length (drop m xs)" by simp_all
    then show "x \<in> set (drop m xs)" by (metis nth_mem)
  qed
  then show ?thesis by blast
qed

lemma sort_pass_sorted:
  assumes "i < length xs" "\<forall>x \<in> set xs. siWeight x \<noteq> NaN" "sorted_upto i xs"
  shows "sorted_upto (Suc i) (sort_pass i xs)"
  unfolding sorted_upto_def
proof (intro allI impI ballI)
  fix a x assume a: "a < Suc i" and x: "x \<in> set (drop (Suc a) (sort_pass i xs))"
  let ?ys = "sort_pass i xs"
  show "siWeight x \<le> siWeight (?ys ! a)"
  proof (cases "a = i")
    case True
    have "\<forall>k \<in> {} \<union> set [Suc i..<length xs]. siWeight (fold (pass_step i) [Suc i..<length xs] xs ! k) \<le> siWeight (fold (pass_step i) [Suc i..<length xs] xs ! i)"
      by (rule pass_fold_max) (use assms in auto)
    with x True show ?thesis by (auto simp: sort_pass_fold set_drop_nth)
  next
    case False
    with a have a: "a < i" by simp
    note k = sort_pass_keeps [OF assms(1)]
    have "?ys ! a = xs ! a" using a k(1) by (metis nth_take)
    moreover have "mset (drop (Suc a) ?ys) = mset (drop (Suc a) xs)"
    proof -
      have d: "mset (drop (Suc a) zs) + mset (take (Suc a) zs) = mset zs" for zs :: "ServiceInstance list"
        by (rule mset_drop_take)
      have "take (Suc a) ?ys = take (Suc a) xs" using a k(1) by (metis Suc_leI min.absorb1 take_take)
      with d [of ?ys] d [of xs] mset_sort_pass [OF assms(1)] show ?thesis by (metis add_right_cancel)
    qed
    then have "x \<in> set (drop (Suc a) xs)" using x by (metis set_mset_mset)
    ultimately show ?thesis using assms(3) a by (simp add: sorted_upto_def)
  qed
qed

lemma exchange_sorted:
  assumes "\<forall>x \<in> set xs. siWeight x \<noteq> NaN"
  shows "sorted_wrt (\<lambda>x y. siWeight y \<le> siWeight x) (exchange_sort xs)"
proof -
  have "n \<le> length xs \<Longrightarrow> sorted_upto n (fold sort_pass [0..<n] xs) \<and> mset (fold sort_pass [0..<n] xs) = mset xs" for n
  proof (induction n)
    case (Suc n)
    let ?ys = "fold sort_pass [0..<n] xs"
    have IH: "sorted_upto n ?ys" "mset ?ys = mset xs" using Suc by simp_all
    have l: "n < length ?ys" using Suc.prems IH(2) by (metis Suc_le_lessD size_mset)
    have "\<forall>x \<in> set ?ys. siWeight x \<noteq> NaN" using assms IH(2) by (metis set_mset_mset)
    with sort_pass_sorted [OF l _ IH(1)] mset_sort_pass [OF l] IH(2) show ?case by simp
  qed (simp add: sorted_upto_def)
  then have "sorted_upto (length xs) (exchange_sort xs)" by (simp add: exchange_sort_def)
  then show ?thesis
    unfolding sorted_upto_def sorted_wrt_iff_nth_less set_drop_nth length_exchange Suc_le_eq
    by (metis (mono_tags, lifting) mem_Collect_eq less_trans)
qed

section \<open>Turns of the DNS answers\<close>

definition dns_turn :: "nat \<Rightarrow> ServiceInstance list \<Rightarrow> ServiceInstance" where
  "dns_turn k xs = hd (rotate_by (go_rem (int k) (int (length xs))) (exchange_sort xs))"

lemma rotate_by_turn:
  assumes "xs \<noteq> []"
  shows "rotate_by (go_rem (int k) (int (length xs))) (exchange_sort xs) = rotate k (exchange_sort xs)"
proof -
  have "go_rem (int k) (int (length xs)) = int (k mod length xs)"
    by (cases "k = 0") (simp_all add: go_rem_def zmod_int)
  then show ?thesis by (simp add: rotate_by_def rotate_drop_take)
qed

interpretation dns_turns: turns exchange_sort dns_turn
proof
  fix xs :: "ServiceInstance list" and k
  show "mset (exchange_sort xs) = mset xs" by (rule mset_exchange)
  assume xs: "xs \<noteq> []"
  then have "exchange_sort xs \<noteq> []" by (metis mset_exchange mset_zero_iff)
  then show "dns_turn k xs = exchange_sort xs ! (k mod length xs)"
    by (simp add: dns_turn_def rotate_by_turn [OF xs] hd_rotate_conv_nth)
qed

text \<open>
  Consecutive queries for the A records of one name, each a message of its own; \<^const>\<open>None\<close> if the
  handler panics. The counters of the server are what one query leaves to the next.
\<close>

definition fresh_reply :: dns_msg where
  "fresh_reply = \<lparr>mAnswer = [], mExtra = []\<rparr>"

fun a_queries :: "nat \<Rightarrow> dns_env \<Rightarrow> ('i, 's) registry \<Rightarrow> string \<Rightarrow> rr_index \<Rightarrow> dns_msg list option" where
  "a_queries 0 e R name rr = Some []"
| "a_queries (Suc n) e R name rr =
     (case handleDNS e R [(name, 1)] (rr, fresh_reply) of
        None \<Rightarrow> None
      | Some (rr', m) \<Rightarrow> map_option (Cons m) (a_queries n e R name rr'))"

lemma select_rotates:
  assumes "1 < length xs" "\<not> sum_weights xs \<le> 0" "rr name = int k" "int k < int64_max"
  shows "dns_weightedSelect xs name rr = (rr(name := int (Suc k)), rotate k (exchange_sort xs))"
proof -
  have "int64 (int k + 1) = int (Suc k)"
    using assms(4) int64_id [of "int (Suc k)"] by (simp add: int64_min_def add.commute)
  then show ?thesis
    using assms(1-3) rotate_by_turn [of xs k] by (cases "xs = []") (auto simp: dns_weightedSelect_def Let_def)
qed

lemma a_queries_rotate:
  assumes "parseName (dcDomain (deCfg e)) name = Some (Some (ns, grp, svc))" "getHealthyInstances ns grp svc R = xs"
    and "1 < length xs" "\<not> sum_weights xs \<le> 0" "rr name = int k" "int k + int n \<le> int64_max"
  shows "a_queries n e R name rr =
    Some (map (\<lambda>j. \<lparr>mAnswer = concat (map (a_records e name) (rotate (k + j) (exchange_sort xs))), mExtra = []\<rparr>) [0..<n])"
  using assms(5,6)
proof (induction n arbitrary: rr k)
  case (Suc n)
  let ?m = "\<lambda>j. \<lparr>mAnswer = concat (map (a_records e name) (rotate j (exchange_sort xs))), mExtra = []\<rparr>"
  have xs: "xs \<noteq> []" using assms(3) by auto
  have "dns_weightedSelect xs name rr = (rr(name := int (Suc k)), rotate k (exchange_sort xs))"
    by (rule select_rotates [OF assms(3,4), of rr name k]) (use Suc.prems in simp_all)
  then have q: "handleDNS e R [(name, 1)] (rr, fresh_reply) = Some (rr(name := int (Suc k)), ?m k)"
    using xs by (simp add: handle_question_def handleA_def assms(1,2) fresh_reply_def)
  have "a_queries n e R name (rr(name := int (Suc k))) = Some (map (\<lambda>j. ?m (Suc k + j)) [0..<n])"
    using Suc.prems(2) by (intro Suc.IH) simp_all
  with q have "a_queries (Suc n) e R name rr = Some (?m k # map (\<lambda>j. ?m (Suc k + j)) [0..<n])" by simp
  also have "?m k # map (\<lambda>j. ?m (Suc k + j)) [0..<n] = map (\<lambda>j. ?m (k + j)) [0..<Suc n]"
    by (simp add: upt_conv_Cons map_Suc_upt [symmetric] del: upt_Suc)
  finally show ?case .
qed simp

text \<open>
  C25. Weights decide nothing but the cyclic order of the answers: as many consecutive queries for
  the A records of a name as its service has healthy instances are all answered, each with the
  records of all of them - one for every instance that has an IPv4 address - in the descending
  order of weights, rotated by one from query to query. So if all have an IPv4 address, each comes
  first exactly once, a heavy one no more often than a light one. (This is for at least two
  healthy instances, the sum of whose weights is above zero and none of whose weights is NaN,
  while they stay the same and the counter of the name does not overflow.)
\<close>
theorem first_answer_is_uniform:
  assumes "parseName (dcDomain (deCfg e)) name = Some (Some (ns, grp, svc))" "getHealthyInstances ns grp svc R = xs"
    and "1 < length xs" "\<not> sum_weights xs \<le> 0" "\<forall>x \<in> set xs. siWeight x \<noteq> NaN"
    and "0 \<le> rr name" "rr name + int (length xs) \<le> int64_max"
  shows "\<exists>ys msgs. a_queries (length xs) e R name rr = Some msgs \<and> length msgs = length xs \<and>
    mset ys = mset xs \<and> sorted_wrt (\<lambda>x y. siWeight y \<le> siWeight x) ys \<and>
    (\<forall>j < length xs. mAnswer (msgs ! j) = concat (map (a_records e name) (rotate (nat (rr name) + j) ys))) \<and>
    ((\<forall>x \<in> set xs. parse_ip4 (deIp6 e) (siIP x) \<noteq> None) \<longrightarrow>
       image_mset (\<lambda>m. hd (mAnswer m)) (mset msgs) = image_mset (\<lambda>x. hd (a_records e name x)) (mset xs))"
proof -
  define k where "k = nat (rr name)"
  let ?ys = "exchange_sort xs"
  let ?m = "\<lambda>j. \<lparr>mAnswer = concat (map (a_records e name) (rotate (k + j) ?ys)), mExtra = []\<rparr>"
  have xs: "xs \<noteq> []" using assms(3) by auto
  have a: "a_queries (length xs) e R name rr = Some (map ?m [0..<length xs])"
    by (rule a_queries_rotate [OF assms(1-4)]) (use assms(6,7) in \<open>simp_all add: k_def\<close>)
  have first: "hd (mAnswer (?m j)) = hd (a_records e name (dns_turn (k + j) xs))"
    if "\<forall>x \<in> set xs. parse_ip4 (deIp6 e) (siIP x) \<noteq> None" for j
  proof -
    have "rotate (k + j) ?ys \<noteq> []" using xs mset_exchange [of xs] by auto
    then obtain y zs where r: "rotate (k + j) ?ys = y # zs" by (cases "rotate (k + j) ?ys") auto
    then have y: "y = dns_turn (k + j) xs" by (simp add: dns_turn_def rotate_by_turn [OF xs] del: of_nat_add)
    have "set (rotate (k + j) ?ys) = set xs" using mset_exchange [of xs] by (metis set_mset_mset set_rotate)
    then have "y \<in> set xs" using r by auto
    with that have "parse_ip4 (deIp6 e) (siIP y) \<noteq> None" by blast
    then show ?thesis by (auto simp: r y [symmetric] a_records_def)
  qed
  have "image_mset (\<lambda>m. hd (mAnswer m)) (mset (map ?m [0..<length xs])) = image_mset (\<lambda>x. hd (a_records e name x)) (mset xs)"
    if "\<forall>x \<in> set xs. parse_ip4 (deIp6 e) (siIP x) \<noteq> None"
  proof -
    have "image_mset (\<lambda>m. hd (mAnswer m)) (mset (map ?m [0..<length xs])) =
        image_mset (\<lambda>x. hd (a_records e name x)) (mset (map (\<lambda>j. dns_turn (k + j) xs) [0..<length xs]))"
      unfolding mset_map [symmetric] map_map comp_def first [OF that] ..
    then show ?thesis using dns_turns.round_takes_each [OF xs, of k] by simp
  qed
  then show ?thesis
    using a exchange_sorted [OF assms(5)] mset_exchange [of xs]
    by (intro exI [of _ ?ys] exI [of _ "map ?m [0..<length xs]"]) (simp add: k_def)
qed

definition dns_demo_rows :: "ServiceInstance list" where
  "dns_demo_rows = map (\<lambda>(ip, w). zero_inst\<lparr>siNamespaceID := ''public'', siGroupName := ''DEFAULT_GROUP'',
     siServiceName := ''order'', siIP := ip, siHealthy := True, siEnabled := True, siWeight := w\<rparr>)
     [(''10.0.0.1'', 1), (''10.0.0.2'', Fin 100)]"

definition dns_demo_env :: dns_env where
  "dns_demo_env = \<lparr>deCfg = \<lparr>dcPort = 8553, dcDomain = ''benbroo.'', dcTTL = 5\<rparr>, deIp6 = (\<lambda>_. None), deOor = (\<lambda>_. 0)\<rparr>"

theorem first_answer_is_uniform_witness:
  "\<exists>msgs. a_queries 2 dns_demo_env (demo_reg\<lparr>rgInst := mem_table inst_schema dns_demo_rows\<rparr>)
      ''order.DEFAULT_GROUP.public.benbroo.'' (\<lambda>_. 0) = Some msgs \<and>
    {#hd (mAnswer m). m \<in># mset msgs#} =
      {#RR_A ''order.DEFAULT_GROUP.public.benbroo.'' 5 (10, 0, 0, 1), RR_A ''order.DEFAULT_GROUP.public.benbroo.'' 5 (10, 0, 0, 2)#}"
proof -
  let ?R = "demo_reg\<lparr>rgInst := mem_table inst_schema dns_demo_rows\<rparr>"
  let ?name = "''order.DEFAULT_GROUP.public.benbroo.''"
  have name: "parseName (dcDomain (deCfg dns_demo_env)) ?name = Some (Some (''public'', ''DEFAULT_GROUP'', ''order''))"
    by code_simp
  have insts: "getHealthyInstances ''public'' ''DEFAULT_GROUP'' ''order'' ?R = dns_demo_rows"
    by (simp add: getHealthyInstances_def GetInstances_def InstanceStore_ListByClusters_def
        mem_ops svc_where_def dns_demo_rows_def)
  have "Fin 1 + Fin 100 = Fin 101" using f64_add_int [of 1 100] by simp
  then have "\<not> sum_weights dns_demo_rows \<le> 0"
    by (simp add: sum_weights_def zero_f64_def one_f64_def dns_demo_rows_def)
  note t = first_answer_is_uniform [OF name insts _ this, of "\<lambda>_. 0"]
  have ip: "parse_ip4 (\<lambda>_. None) ''10.0.0.1'' = Some (10, 0, 0, 1)" "parse_ip4 (\<lambda>_. None) ''10.0.0.2'' = Some (10, 0, 0, 2)"
    by code_simp+
  then have rec: "map (\<lambda>x. hd (a_records dns_demo_env ?name x)) dns_demo_rows = [RR_A ?name 5 (10, 0, 0, 1), RR_A ?name 5 (10, 0, 0, 2)]"
    by (simp add: a_records_def dns_demo_env_def dns_demo_rows_def)
  have len: "length dns_demo_rows = 2" by (simp add: dns_demo_rows_def)
  have four: "\<forall>x \<in> set dns_demo_rows. parse_ip4 (deIp6 dns_demo_env) (siIP x) \<noteq> None"
    by (simp add: dns_demo_rows_def dns_demo_env_def ip)
  have weights: "\<forall>x \<in> set dns_demo_rows. siWeight x \<noteq> NaN"
    by (simp add: dns_demo_rows_def one_f64_def)
  from t weights obtain msgs where "a_queries 2 dns_demo_env ?R ?name (\<lambda>_. 0) = Some msgs"
    "image_mset (\<lambda>m. hd (mAnswer m)) (mset msgs) = image_mset (\<lambda>x. hd (a_records dns_demo_env ?name x)) (mset dns_demo_rows)"
    using four by (auto simp: len int64_max_def)
  then show ?thesis unfolding mset_map [symmetric] rec by auto
qed

end
