(* ===== verification/ServerMain.thy ===== *)
theory ServerMain
  imports App Db Dns
begin

text \<open>
  \<^verbatim>\<open>src/cmd/server/main.go\<close>: the configuration of the process and the composition of its
  parts. Reading the file, parsing YAML, the database and the listening sockets are
  parameters; the goroutines of the parts are the step functions of their theories. The
  result of \<open>boot\<close> is the state that the handlers of the three servers start from.
\<close>

section \<open>Configuration\<close>

record AppConfig =
  mcPort :: int
  mcGrpcPort :: int
  mcDnsPort :: int
  mcTcpPort :: int
  mcHost :: string
  mcMySQL :: StorageConfig
  mcSelfAddr :: string
  mcMembers :: "string list"
  mcHealth :: Config
  mcAuth :: AuthConfig
  mcLogLevel :: string
  mcLogOutput :: string

definition default_config :: AppConfig where
  "default_config = \<lparr>mcPort = 8848, mcGrpcPort = 9848, mcDnsPort = 8553, mcTcpPort = 6848, mcHost = ''0.0.0.0'',
     mcMySQL = \<lparr>dbHost = ''127.0.0.1'', dbPort = 3306, dbUsername = ''root'', dbPassword = ''root'',
       dbDatabase = ''benbroo'', dbCharset = ''utf8mb4'', dbMaxIdleConns = 10, dbMaxOpenConns = 100, dbDSN = []\<rparr>,
     mcSelfAddr = ''127.0.0.1:8848'', mcMembers = [''127.0.0.1:8848''],
     mcHealth = \<lparr>CheckInterval = 5, FailThreshold = 3, RemoveTimeout = 30, PassiveWindow = 60,
       PassiveThreshold = 5, RecoveryThreshold = 3, ActiveTimeout = 3\<rparr>,
     mcAuth = DefaultConfig, mcLogLevel = ''info'', mcLogOutput = []\<rparr>"

text \<open>\<open>Inl\<close> is the panic on a file that does not parse.\<close>

definition loadConfig :: "(string \<Rightarrow> string + AppConfig) \<Rightarrow> string option \<Rightarrow> string + AppConfig" where
  "loadConfig yaml file =
     (case file of
        None \<Rightarrow> Inr default_config
      | Some data \<Rightarrow> (case yaml data of Inl e \<Rightarrow> Inl (''invalid config: '' @ e) | Inr cfg \<Rightarrow> Inr cfg))"

definition dns_port :: "AppConfig \<Rightarrow> int" where
  "dns_port cfg = (if mcDnsPort cfg = 0 then 8553 else mcDnsPort cfg)"

definition tcp_port :: "AppConfig \<Rightarrow> int" where
  "tcp_port cfg = (if mcTcpPort cfg = 0 then int64 (mcPort cfg - 2000) else mcTcpPort cfg)"

definition grpc_port :: "AppConfig \<Rightarrow> int" where
  "grpc_port cfg = (if mcGrpcPort cfg = 0 then int64 (mcPort cfg + 1000) else mcGrpcPort cfg)"

definition listen_addr :: "AppConfig \<Rightarrow> int \<Rightarrow> string" where
  "listen_addr cfg port = mcHost cfg @ '':'' @ itoa port"

section \<open>Composition\<close>

record ('i, 's, 'c, 'h, 'n, 'd) stores =
  soInst :: "('i, ServiceInstance) table"
  soSvc :: "('s, Service) table"
  soCfg :: "('c, 'h) config_store"
  soNs :: "'n ns_table"
  soNode :: "('d, ClusterNode) table"

text \<open>A failure to create the default namespace is only logged.\<close>

definition boot ::
  "(nat \<Rightarrow> int) \<Rightarrow> AppConfig \<Rightarrow> ('i, 's, 'c, 'h, 'n, 'd) stores \<Rightarrow> ('i, 's, 'c, 'h, 'n, 'd) app" where
  "boot nows cfg st =
     (let chk = NewChecker (soInst st) (soSvc st) NewEventBus (mcHealth cfg)
      in \<lparr>apInst = soInst st, apSvc = soSvc st, apCfg = soCfg st,
          apNs = (case InitDefault (soNs st) of Inl e \<Rightarrow> soNs st | Inr T \<Rightarrow> T),
          apMgr = Start nows (NewManager (mcSelfAddr cfg) (mcMembers cfg) (soNode st)),
          apBus = NewEventBus, apHealth = hkCfg chk, apFails = activeFails chk, apSuccess = activeSuccess chk,
          apPassive = hkPassive chk, apAuth = NewAuthManager (mcAuth cfg), apSyncer = True, apOutbox = []\<rparr>)"

text \<open>
  The process after \<^verbatim>\<open>main\<close> has started everything, or the failure that ended it. \<open>stores_of\<close>
  are the tables behind a database handle; \<open>listen\<close> is \<^verbatim>\<open>net.Listen\<close> on an address, an
  error or nothing; \<open>dns_early\<close> is the error of a DNS listener within its first 100 ms. A
  DNS or TCP server that does not start is only logged.
\<close>

datatype fatal = BadConfig string | NoLogger string | NoDatabase storage_err | NoGrpcListener string

record ('i, 's, 'c, 'h, 'n, 'd) process =
  pcApp :: "('i, 's, 'c, 'h, 'n, 'd) app"
  pcDns :: "DnsConfig option"
  pcTcp :: "string option"
  pcGrpc :: string
  pcHttp :: string

record ('i, 's, 'c, 'h, 'n, 'd, 'st, 'db) main_env =
  meYaml :: "string \<Rightarrow> string + AppConfig"
  meLogger :: "bool \<Rightarrow> string option"
  meDb :: "('st, 'db) db_env"
  meStores :: "'db \<Rightarrow> 'st \<Rightarrow> ('i, 's, 'c, 'h, 'n, 'd) stores"
  meClock :: "nat \<Rightarrow> int"
  meListen :: "string \<Rightarrow> string option"
  meDnsEarly :: "DnsConfig \<Rightarrow> string option"

text \<open>\<open>build\<close> is zap's \<^verbatim>\<open>Build\<close> on the development or the production configuration, its error if any.\<close>

definition initLogger :: "(bool \<Rightarrow> string option) \<Rightarrow> string \<Rightarrow> string option" where
  "initLogger build level =
     (case build (level = ''debug'') of Some er \<Rightarrow> Some (''failed to init logger: '' @ er) | None \<Rightarrow> None)"

definition main_dns :: "AppConfig \<Rightarrow> DnsConfig" where
  "main_dns cfg = dns_fill \<lparr>dcPort = dns_port cfg, dcDomain = [], dcTTL = 0\<rparr>"

definition main_start ::
  "('i, 's, 'c, 'h, 'n, 'd, 'st, 'db) main_env \<Rightarrow> string option \<Rightarrow> 'st
   \<Rightarrow> fatal + ('i, 's, 'c, 'h, 'n, 'd) process" where
  "main_start e file s =
     (case loadConfig (meYaml e) file of
        Inl m \<Rightarrow> Inl (BadConfig m)
      | Inr cfg \<Rightarrow>
          (case initLogger (meLogger e) (mcLogLevel cfg) of
             Some m \<Rightarrow> Inl (NoLogger m)
           | None \<Rightarrow>
          (case storage_New (meDb e) (mcMySQL cfg) s of
             (s', Inl er) \<Rightarrow> Inl (NoDatabase er)
           | (s', Inr sto) \<Rightarrow>
               (let app = boot (meClock e) cfg (meStores e (sgDB sto) s');
                    tcpAddr = listen_addr cfg (tcp_port cfg); grpcAddr = listen_addr cfg (grpc_port cfg)
                in case meListen e grpcAddr of
                     Some er \<Rightarrow> Inl (NoGrpcListener er)
                   | None \<Rightarrow> Inr \<lparr>pcApp = app,
                       pcDns = (if meDnsEarly e (main_dns cfg) = None then Some (main_dns cfg) else None),
                       pcTcp = (if meListen e tcpAddr = None then Some tcpAddr else None),
                       pcGrpc = grpcAddr, pcHttp = listen_addr cfg (mcPort cfg)\<rparr>))))"

section \<open>Ports\<close>

text \<open>
  The ports derived from the HTTP port: the three are different, and they are ports
  exactly if the HTTP port is above 2000 and at most 64535. Below that the TCP server does
  not start (which is only logged), above it the process ends.
\<close>
theorem derived_ports:
  assumes "mcTcpPort cfg = 0" "mcGrpcPort cfg = 0" "0 \<le> mcPort cfg" "mcPort cfg \<le> 65535"
  shows "distinct [mcPort cfg, tcp_port cfg, grpc_port cfg] \<and>
    (0 < tcp_port cfg \<longleftrightarrow> 2000 < mcPort cfg) \<and> (grpc_port cfg \<le> 65535 \<longleftrightarrow> mcPort cfg \<le> 64535)"
proof -
  have "int64 (mcPort cfg - 2000) = mcPort cfg - 2000" "int64 (mcPort cfg + 1000) = mcPort cfg + 1000"
    using assms by (simp_all add: int64_id int64_min_def int64_max_def)
  then show ?thesis using assms by (auto simp: tcp_port_def grpc_port_def)
qed

text \<open>The explicit defaults of a missing file are the derived ones.\<close>

theorem derived_ports_witness:
  "let cfg = default_config\<lparr>mcTcpPort := 0, mcGrpcPort := 0\<rparr>
   in distinct [mcPort cfg, tcp_port cfg, grpc_port cfg] \<and> 0 < tcp_port cfg \<and>
      tcp_port cfg = mcTcpPort default_config \<and> grpc_port cfg = mcGrpcPort default_config"
  using derived_ports [of "default_config\<lparr>mcTcpPort := 0, mcGrpcPort := 0\<rparr>"]
  by (simp add: default_config_def tcp_port_def grpc_port_def int64_def)

text \<open>
  Without a configuration file the process that starts listens on the documented ports,
  and its database is \<open>benbroo\<close> on the local server, made sure to exist before it is opened.
\<close>
theorem default_start:
  assumes "main_start e None s = Inr p"
  shows "pcHttp p = ''0.0.0.0:8848'' \<and> pcGrpc p = ''0.0.0.0:9848'' \<and>
    (pcTcp p = Some ''0.0.0.0:6848'' \<or> pcTcp p = None) \<and> meListen e (pcGrpc p) = None \<and>
    (\<exists>s1. ensureDatabase (meDb e) (buildDSN (mcMySQL default_config)) s = (s1, None))"
proof -
  have d: "db_applyDefaults (mcMySQL default_config) = mcMySQL default_config"
    by (rule db_defaults.keeps) (simp add: default_config_def db_usable_def)
  obtain s' sto where sto: "storage_New (meDb e) (mcMySQL default_config) s = (s', Inr sto)"
    using assms by (auto simp: main_start_def loadConfig_def split: prod.splits sum.splits option.splits)
  have port: "itoa 8848 = ''8848''" "itoa 9848 = ''9848''" "itoa 6848 = ''6848''"
    by (simp_all add: itoa_def digits10.simps)
  have addr: "listen_addr default_config (mcPort default_config) = ''0.0.0.0:8848''"
    "listen_addr default_config (grpc_port default_config) = ''0.0.0.0:9848''"
    "listen_addr default_config (tcp_port default_config) = ''0.0.0.0:6848''"
    by (simp_all add: listen_addr_def default_config_def grpc_port_def tcp_port_def port)
  have "\<exists>s1. ensureDatabase (meDb e) (buildDSN (mcMySQL default_config)) s = (s1, None)"
    using sto by (auto simp: storage_New_def Let_def d split: prod.splits option.splits)
  then show ?thesis
    using assms sto by (auto simp: main_start_def loadConfig_def Let_def addr split: option.splits if_splits)
qed

definition demo_main ::
  "(ServiceInstance list, Service list, ConfigItem list, ConfigHistory list, Namespace list, ClusterNode list,
    string list, unit) main_env" where
  "demo_main = \<lparr>meYaml = (\<lambda>_. Inl []), meLogger = (\<lambda>_. None), meDb = log_db,
     meStores = (\<lambda>_ _. \<lparr>soInst = mem_table inst_schema [], soSvc = mem_table svc_schema [],
       soCfg = cfStore demo_cfg, soNs = mem_table ns_schema [], soNode = mem_table node_schema []\<rparr>),
     meClock = (\<lambda>_. 0), meListen = (\<lambda>_. None), meDnsEarly = (\<lambda>_. None)\<rparr>"

lemma demo_stored: "\<exists>st. storage_New log_db (mcMySQL default_config) s = (create_stmt ''benbroo'' # s, Inr st)"
proof -
  have e: "ensureDatabase log_db (buildDSN (mcMySQL default_config)) s = (create_stmt ''benbroo'' # s, None)"
    by (subst ensure_configured) (simp_all add: default_config_def log_db_def db_applyDefaults_def str_or_def)
  have d: "db_applyDefaults (mcMySQL default_config) = mcMySQL default_config"
    by (rule db_defaults.keeps) (simp add: default_config_def db_usable_def)
  show ?thesis by (simp add: storage_New_def Let_def d e) (simp add: log_db_def)
qed

theorem default_start_witness:
  "\<exists>p. main_start demo_main None [] = Inr p \<and> pcHttp p = ''0.0.0.0:8848'' \<and> pcGrpc p = ''0.0.0.0:9848''"
proof -
  obtain p where p: "main_start demo_main None [] = Inr p"
    using demo_stored [of "[]"] by (auto simp: main_start_def loadConfig_def initLogger_def demo_main_def Let_def)
  with default_start [OF p] show ?thesis by blast
qed

section \<open>The first seconds\<close>

lemma upsert_nodes: "mgNodes (upsert_node x M) = mgNodes M" "mgSelf (upsert_node x M) = mgSelf M"
  by (simp_all add: upsert_node_def split: sum.split)

lemma Start_nodes: "mgNodes (Start nows M) = mgNodes M"
proof -
  have "mgNodes (fold (\<lambda>(k, addr) M. if addr = mgSelf M then M else upsert_node (up_node addr (nows (Suc k))) M) xs M0)
      = mgNodes M0" for xs and M0 :: "'a manager"
    by (induction xs arbitrary: M0) (auto simp: upsert_nodes)
  then show ?thesis by (simp add: Start_def upsert_nodes)
qed

text \<open>
  A server that has just started is the leader in its own eyes, whatever its address and
  the other nodes: the list of nodes is empty until the first heartbeat tick, five seconds
  later. So two servers that start together on one database both lead.
\<close>
theorem every_fresh_node_leads:
  "IsLeader (apMgr (boot nows cfg st)) \<and> ShouldCheckInstance key (apMgr (boot nows cfg st)) = Some True"
  by (simp add: boot_def Let_def IsLeader_def ShouldCheckInstance_def Start_nodes NewManager_def up_addrs_def)

text \<open>
  What a server starts with, whatever the configuration says: usable health thresholds
  and account, a bus nobody listens on, a syncer, and - unless the table refuses it - the
  namespace \<open>public\<close>.
\<close>
theorem boot_ready:
  fixes nows :: "nat \<Rightarrow> int" and cfg :: AppConfig
  assumes "gorm_table ns_schema (soNs st)" "InitDefault (soNs st) = Inr T"
  defines "A \<equiv> boot nows cfg st"
  shows "has_ns ''public'' (apNs A) \<and> cfg_usable (apHealth A) \<and> amSecretKey (apAuth A) \<noteq> [] \<and>
    checker_of A = NewChecker (soInst st) (soSvc st) NewEventBus (mcHealth cfg) \<and> apSyncer A \<and> apBus A = NewEventBus"
proof (intro conjI)
  have "has_ns ''public'' T"
    using create_keeps [OF assms(1) assms(2) [unfolded InitDefault_def]] by (simp add: new_ns_def)
  then show "has_ns ''public'' (apNs A)" by (simp add: A_def boot_def Let_def assms(2))
  show "cfg_usable (apHealth A)" by (simp add: A_def boot_def Let_def NewChecker_usable)
  have "acSecretKey (auth_fill (mcAuth cfg)) \<noteq> []"
    using auth_defaults.fill_usable [of "mcAuth cfg"] by (simp add: auth_usable_def)
  then show "amSecretKey (apAuth A) \<noteq> []"
    by (simp add: A_def boot_def Let_def NewAuthManager_def bytes_of_def)
  show "checker_of A = NewChecker (soInst st) (soSvc st) NewEventBus (mcHealth cfg)"
    by (simp add: A_def boot_def Let_def checker_of_def NewChecker_def)
  show "apSyncer A" "apBus A = NewEventBus" by (simp_all add: A_def boot_def Let_def)
qed

theorem boot_ready_witness:
  "has_ns ''public'' (apNs (boot (\<lambda>_. 0) default_config (meStores demo_main () [])))"
proof -
  obtain T where "InitDefault (soNs (meStores demo_main () [])) = Inr T"
    by (simp add: demo_main_def InitDefault_def NamespaceStore_Create_def mem_ops)
  from boot_ready [OF _ this] show ?thesis by (simp add: demo_main_def mem_ops)
qed

end
