(* ===== verification/Running.thy ===== *)
theory Running
  imports ApiServer TcpServer GrpcServer ServerMain StoreInv
begin

text \<open>
  A running server: the requests of the three protocols, the passes of the health checker
  and the ticks of the cluster manager act on one state, one after the other, in any order.
  The section shows what never breaks in it: the tables keep unique keys and ids, the event
  bus has no closed channel subscribed and the health thresholds stay usable. A server starts
  that way (\<open>boot\<close>) on tables that are so.
\<close>

section \<open>Events\<close>

datatype rpc =
    RpcRegister RegisterInstanceRequest | RpcDeregister DeregisterInstanceRequest
  | RpcHeartbeat DeregisterInstanceRequest | RpcPublish ConfigPublishRequest
  | RpcFailure HealthReportRequest | RpcSuccess HealthReportRequest

fun run_rpc :: "clocks \<Rightarrow> rpc \<Rightarrow> ('i, 's, 'c, 'h, 'n, 'd) app \<Rightarrow> ('i, 's, 'c, 'h, 'n, 'd) app" where
  "run_rpc ck (RpcRegister q) A = fst (grpc_RegisterInstance ck q A)"
| "run_rpc ck (RpcDeregister q) A = fst (grpc_DeregisterInstance q A)"
| "run_rpc ck (RpcHeartbeat q) A = fst (grpc_Heartbeat q A)"
| "run_rpc ck (RpcPublish q) A = fst (grpc_PublishConfig q A)"
| "run_rpc ck (RpcFailure q) A = fst (grpc_ReportFailure ck q A)"
| "run_rpc ck (RpcSuccess q) A = fst (grpc_ReportSuccess q A)"

text \<open>
  The remaining calls of the gRPC service only read. A TCP event is a whole connection; the
  lines of several connections interleave as events of one line each. A call on the bus itself
  is one of the program's own packages that subscribes, waits or cancels (at present none does).
\<close>

datatype ('c, 'h) server_event =
    HttpRequest http_env "('c, 'h) poll_event list" string string greq
  | TcpInput "nat \<Rightarrow> tcp_env" string
  | GrpcCall clocks rpc
  | HealthPass "nat \<Rightarrow> check_env"
  | ClusterTick int int
  | BusCall bus_op

fun on_event :: "('c, 'h) server_event \<Rightarrow> ('i, 's, 'c, 'h, 'n, 'd) app \<Rightarrow> ('i, 's, 'c, 'h, 'n, 'd) app" where
  "on_event (HttpRequest e evs meth path q) A = fst (serve e evs meth path q A)"
| "on_event (TcpInput envs input) A = fst (handleConn envs input A)"
| "on_event (GrpcCall ck q) A = run_rpc ck q A"
| "on_event (HealthPass envs) A = with_checker (runActiveCheck envs) A"
| "on_event (ClusterTick t1 t2) A = A\<lparr>apMgr := heartbeat_tick t1 t2 (apMgr A)\<rparr>"
| "on_event (BusCall a) A = A\<lparr>apBus := bus_step a (apBus A)\<rparr>"

inductive server_step :: "('i, 's, 'c, 'h, 'n, 'd) app \<Rightarrow> ('i, 's, 'c, 'h, 'n, 'd) app \<Rightarrow> bool" where
  step: "server_step A (on_event ev A)"

inductive server_reach ::
  "('i, 's, 'c, 'h, 'n, 'd) app \<Rightarrow> ('i, 's, 'c, 'h, 'n, 'd) app \<Rightarrow> bool" for A where
  init: "server_reach A A"
| more: "server_reach A B \<Longrightarrow> server_step B C \<Longrightarrow> server_reach A C"

lemma by_id_unique: "wf_inst T \<Longrightarrow> size (by_id i T) \<le> 1"
proof (cases "by_id i T = {#}")
  case False
  assume "wf_inst T"
  moreover from False obtain x where "x \<in># rows T" "siID x = i"
    unfolding by_id_def by (meson filter_mset_eq_mempty_iff)
  ultimately show ?thesis by (auto simp: wf_table_def ids_unique_def key_unique_def by_id_def)
qed simp

section \<open>The invariant\<close>

definition reg_ok :: "('i, 's) registry \<Rightarrow> bool" where
  "reg_ok R \<longleftrightarrow> wf_inst (rgInst R) \<and> wf_svc (rgSvc R) \<and> bus_ok (rgBus R)"

definition confs_ok :: "('c, 'h) cfg_service \<Rightarrow> bool" where
  "confs_ok S \<longleftrightarrow> wf_config_store (cfStore S) \<and> bus_ok (cfBus S)"

definition checker_ok :: "('i, 's) checker \<Rightarrow> bool" where
  "checker_ok C \<longleftrightarrow> wf_inst (hkInst C) \<and> wf_svc (hkSvc C) \<and> bus_ok (hkBus C) \<and> cfg_usable (hkCfg C) \<and>
     (\<forall>i. 0 \<le> activeFails C i \<and> 0 \<le> activeSuccess C i)"

definition app_ok :: "('i, 's, 'c, 'h, 'n, 'd) app \<Rightarrow> bool" where
  "app_ok A \<longleftrightarrow> reg_ok (registry_of A) \<and> confs_ok (config_of A) \<and> checker_ok (checker_of A) \<and>
     wf_ns (apNs A) \<and> wf_node (mgStore (apMgr A))"

named_theorems keeps_ok "what a component does keeps its part of the state in order"

subsection \<open>Components\<close>

lemma RegisterInstance_ok [keeps_ok]: "reg_ok R \<Longrightarrow> reg_ok (fst (RegisterInstance now r R))"
  by (auto simp: RegisterInstance_def reg_ok_def Let_def intro: keeps_wf svc_bus.publish_ok split: sum.split)

lemma DeregisterInstance_ok [keeps_ok]: "reg_ok R \<Longrightarrow> reg_ok (fst (DeregisterInstance k R))"
  by (auto simp: DeregisterInstance_def reg_ok_def intro: keeps_wf svc_bus.publish_ok split: sum.split prod.split)

lemma UpdateInstance_ok [keeps_ok]: "reg_ok R \<Longrightarrow> reg_ok (fst (UpdateInstance r R))"
  by (auto simp: UpdateInstance_def reg_ok_def intro: keeps_wf svc_bus.publish_ok split: sum.split)

lemma Heartbeat_ok [keeps_ok]: "reg_ok R \<Longrightarrow> reg_ok (fst (Heartbeat k R))"
  by (auto simp: Heartbeat_def reg_ok_def intro: keeps_wf split: sum.split)

lemma CreateService_ok [keeps_ok]: "reg_ok R \<Longrightarrow> reg_ok (fst (CreateService s R))"
  by (auto simp: CreateService_def reg_ok_def intro: keeps_wf split: sum.split)

lemma PublishConfig_ok [keeps_ok]: "confs_ok S \<Longrightarrow> confs_ok (fst (PublishConfig ns grp did c t S))"
  by (auto simp: PublishConfig_def confs_ok_def Let_def intro: keeps_wf cfg_bus.publish_ok split: sum.split)

lemma DeleteConfig_ok [keeps_ok]: "confs_ok S \<Longrightarrow> confs_ok (fst (DeleteConfig ns grp did S))"
  by (auto simp: DeleteConfig_def confs_ok_def Let_def intro: keeps_wf cfg_bus.publish_ok split: sum.split prod.split)

lemma set_healthy_ok: "checker_ok C \<Longrightarrow> checker_ok (set_healthy i h C)"
  by (auto simp: set_healthy_def checker_ok_def intro: keeps_wf split: sum.split)

lemma publish_for_ok: "checker_ok C \<Longrightarrow> checker_ok (publish_for ns grp svc C)"
  by (auto simp: publish_for_def checker_ok_def intro: svc_bus.publish_ok)

lemma counters_ok:
  assumes "checker_ok C" "0 \<le> a" "0 \<le> b"
  shows "checker_ok (C\<lparr>activeFails := (activeFails C)(i := a), activeSuccess := (activeSuccess C)(i := b)\<rparr>)"
    and "checker_ok (C\<lparr>activeSuccess := (activeSuccess C)(i := b), activeFails := (activeFails C)(i := a)\<rparr>)"
  using assms by (simp_all add: checker_ok_def)

lemma passive_ok: "checker_ok C \<Longrightarrow> checker_ok (C\<lparr>hkPassive := t\<rparr>)"
  by (simp add: checker_ok_def)

lemma mark_ok: "checker_ok C \<Longrightarrow> checker_ok (markUnhealthy inst C)" "checker_ok C \<Longrightarrow> checker_ok (markHealthy inst C)"
  by (simp_all add: markUnhealthy_def markHealthy_def set_healthy_ok publish_for_ok)

lemma ReportFailure_ok [keeps_ok]: "checker_ok C \<Longrightarrow> checker_ok (ReportFailure t1 t2 i ns grp svc C)"
  by (auto simp: ReportFailure_def Let_def intro!: publish_for_ok set_healthy_ok passive_ok split: prod.split)

lemma ReportSuccess_ok [keeps_ok]: "checker_ok C \<Longrightarrow> checker_ok (ReportSuccess i C)"
  by (simp add: ReportSuccess_def passive_ok)

lemma processActiveResult_ok: "checker_ok C \<Longrightarrow> checker_ok (processActiveResult inst h C)"
  by (auto simp: processActiveResult_def Let_def add_increasing2 checker_ok_def [THEN iffD1]
      intro!: mark_ok counters_ok)

lemma check_instance_ok: "checker_ok C \<Longrightarrow> checker_ok (check_instance m e inst C)"
  by (simp add: check_instance_def Let_def mark_ok processActiveResult_ok)

lemma runActiveCheck_ok [keeps_ok]: "checker_ok C \<Longrightarrow> checker_ok (runActiveCheck envs C)"
proof -
  assume "checker_ok C"
  then have "checker_ok (fold (\<lambda>(k, inst). check_instance m (envs k) inst) xs C)" for m xs
    by (induction xs arbitrary: C) (auto simp: check_instance_ok)
  with \<open>checker_ok C\<close> show ?thesis by (simp add: runActiveCheck_def split: sum.split)
qed

lemma ns_step_ok: "wf_ns T \<Longrightarrow> wf_ns (ns_step a T)"
  by (cases a) (auto simp: ns_Create_def ns_Delete_def ns_Update_def keep_on_err_def intro: keeps_wf split: sum.split)

lemma namespaces_ok [keeps_ok]:
  "wf_ns T \<Longrightarrow> wf_ns (fst (ns_Create i name desc T))"
  "wf_ns T \<Longrightarrow> wf_ns (fst (ns_Delete i T))"
  "wf_ns T \<Longrightarrow> wf_ns (fst (ns_Update i name desc T))"
  using ns_step_ok [of T "NsCreate i name desc"] ns_step_ok [of T "NsDelete i"] ns_step_ok [of T "NsUpdate i name desc"]
  by simp_all

lemma upsert_node_ok: "wf_node (mgStore M) \<Longrightarrow> wf_node (mgStore (upsert_node n M))"
  by (auto simp: upsert_node_def intro: keeps_wf split: sum.split)

lemma mark_down_ok: "wf_node T \<Longrightarrow> wf_node (mark_down a T)"
  by (auto simp: mark_down_def intro: keeps_wf split: sum.split)

lemma Start_ok: "wf_node (mgStore M) \<Longrightarrow> wf_node (mgStore (Start nows M))"
proof -
  have "wf_node (mgStore M) \<Longrightarrow> wf_node (mgStore (fold (\<lambda>(k, addr) M. if addr = mgSelf M then M
      else upsert_node (up_node addr (nows (Suc k))) M) xs M))" for xs and M :: "'a manager"
    by (induction xs arbitrary: M) (auto simp: upsert_node_ok)
  then show "wf_node (mgStore M) \<Longrightarrow> wf_node (mgStore (Start nows M))"
    by (simp add: Start_def upsert_node_ok)
qed

lemma heartbeat_tick_ok [keeps_ok]: "wf_node (mgStore M) \<Longrightarrow> wf_node (mgStore (heartbeat_tick t1 t2 M))"
proof -
  have "wf_node T \<Longrightarrow> wf_node (fold (\<lambda>node T. if cnAddress node = self then T
      else if expired t1 node then mark_down (cnAddress node) T else T) xs T)" for self xs and T :: "'a node_table"
    by (induction xs arbitrary: T) (auto simp: mark_down_ok)
  then show "wf_node (mgStore M) \<Longrightarrow> wf_node (mgStore (heartbeat_tick t1 t2 M))"
    by (simp add: heartbeat_tick_def updateSelfHeartbeat_def refreshNodes_def upsert_node_ok split: sum.split)
qed

subsection \<open>The whole state\<close>

lemmas view_defs = registry_of_def config_of_def checker_of_def
lemmas ok_defs = app_ok_def reg_ok_def confs_ok_def checker_ok_def

lemma with_registry_ok:
  assumes "app_ok A" "reg_ok (registry_of A) \<Longrightarrow> reg_ok (fst (f (registry_of A)))"
  shows "app_ok (fst (with_registry f A))"
  using assms by (cases "f (registry_of A)") (auto simp: with_registry_def ok_defs view_defs)

lemma with_config_ok:
  assumes "app_ok A" "confs_ok (config_of A) \<Longrightarrow> confs_ok (fst (f (config_of A)))"
  shows "app_ok (fst (with_config f A))"
  using assms by (cases "f (config_of A)") (auto simp: with_config_def ok_defs view_defs)

lemma with_checker_ok:
  assumes "app_ok A" "checker_ok (checker_of A) \<Longrightarrow> checker_ok (f (checker_of A))"
  shows "app_ok (with_checker f A)"
  using assms by (auto simp: with_checker_def Let_def ok_defs view_defs)

lemma with_namespaces_ok:
  assumes "app_ok A" "wf_ns (apNs A) \<Longrightarrow> wf_ns (fst (f (apNs A)))"
  shows "app_ok (fst (with_namespaces f A))"
  using assms by (cases "f (apNs A)") (auto simp: with_namespaces_def ok_defs view_defs)

lemma app_parts_ok:
  "app_ok A \<Longrightarrow> app_ok (send_sync rs A)"
  "app_ok A \<Longrightarrow> app_ok (notify_service e ns grp svc A)"
  "app_ok A \<Longrightarrow> app_ok (notify_config e ns grp svc A)"
  "app_ok A \<Longrightarrow> app_ok (A\<lparr>apBus := apply_event ev (apBus A)\<rparr>)"
  "app_ok A \<Longrightarrow> wf_svc S \<Longrightarrow> app_ok (A\<lparr>apSvc := S\<rparr>)"
  "app_ok A \<Longrightarrow> wf_node (mgStore M) \<Longrightarrow> app_ok (A\<lparr>apMgr := M\<rparr>)"
  by (auto simp: send_sync_def notify_service_def notify_config_def apply_event_def ok_defs view_defs
      intro: svc_bus.publish_ok cfg_bus.publish_ok)

subsection \<open>The servers\<close>

lemma calls_ok:
  assumes "app_ok A"
  shows "app_ok (fst (with_registry (RegisterInstance now r) A))" "app_ok (fst (with_registry (DeregisterInstance k) A))"
    "app_ok (fst (with_registry (UpdateInstance r) A))" "app_ok (fst (with_registry (Heartbeat k) A))"
    "app_ok (fst (with_registry (CreateService s) A))" "app_ok (fst (with_config (PublishConfig ns grp did c t) A))"
    "app_ok (fst (with_config (DeleteConfig ns grp did) A))" "app_ok (with_checker (ReportFailure t1 t2 i ns grp svc) A)"
    "app_ok (with_checker (ReportSuccess i) A)" "app_ok (with_checker (runActiveCheck envs) A)"
    "app_ok (fst (with_namespaces (ns_Create i' name desc) A))" "app_ok (fst (with_namespaces (ns_Delete i') A))"
    "app_ok (fst (with_namespaces (ns_Update i' name desc) A))"
  using assms by (simp_all add: with_registry_ok with_config_ok with_checker_ok with_namespaces_ok keeps_ok)

lemma notified_ok:
  "app_ok (fst p) \<Longrightarrow> (\<And>y A. app_ok A \<Longrightarrow> app_ok (g y A)) \<Longrightarrow>
   app_ok (fst (case p of (A', Inl er) \<Rightarrow> (A', x er) | (A', Inr y) \<Rightarrow> (g y A', z y)))"
  by (cases p; cases "snd p") auto

lemma notifying_handlers_ok:
  assumes "app_ok A"
  shows "app_ok (fst (registerInstance e q A))" "app_ok (fst (deregisterInstance e q A))"
    "app_ok (fst (publishConfig e q A))" "app_ok (fst (deleteConfig e q A))"
  unfolding registerInstance_def deregisterInstance_def publishConfig_def deleteConfig_def Let_def
  by (rule notified_ok, rule calls_ok [OF assms], erule app_parts_ok)+

lemma handlers_ok:
  assumes "app_ok A"
  shows "app_ok (fst (updateInstance e q A))" "app_ok (fst (heartbeat q A))" "app_ok (fst (createService e q A))"
    "app_ok (fst (createNamespace q A))" "app_ok (fst (updateNamespace q A))" "app_ok (fst (deleteNamespace q A))"
    "app_ok (fst (reportFail e q A))" "app_ok (fst (reportSucceed q A))" "app_ok (fst (clusterSync e q A))"
  by (simp_all add: updateInstance_def heartbeat_def createService_def createNamespace_def updateNamespace_def
        deleteNamespace_def reportFail_def reportSucceed_def clusterSync_def assms calls_ok app_parts_ok
        split: option.split sum.split)

lemma updateHealthConfig_ok: "app_ok A \<Longrightarrow> app_ok (fst (updateHealthConfig q A))"
proof -
  assume A: "app_ok A"
  then have "wf_svc (apSvc A)" by (simp add: app_ok_def reg_ok_def)
  with A show ?thesis
    by (auto simp: updateHealthConfig_def Let_def intro: app_parts_ok(5) ServiceStore_wf(3) split: sum.split)
qed

lemma serve_ok: "app_ok A \<Longrightarrow> app_ok (fst (serve e evs meth path q A))"
proof -
  assume A: "app_ok A"
  have "app_ok (fst (run_handler h e evs q A))" for h
    by (cases h) (simp_all add: A notifying_handlers_ok handlers_ok updateHealthConfig_ok)
  with A show ?thesis by (simp add: serve_def split: option.split)
qed

lemma with_req_ok:
  "app_ok A \<Longrightarrow> (\<And>x. app_ok (fst (body x A))) \<Longrightarrow> app_ok (fst (with_req e rd payload body A))"
  by (simp add: with_req_def split: option.split)

lemma commands_ok:
  assumes "app_ok A"
  shows "app_ok (fst (cmdRegister e p A))" "app_ok (fst (cmdDeregister e p A))" "app_ok (fst (cmdHeartbeat e p A))"
    "app_ok (fst (cmdDiscover e p A))" "app_ok (fst (cmdConfigGet e p A))" "app_ok (fst (cmdConfigPub e p A))"
    "app_ok (fst (cmdConfigDel e p A))" "app_ok (fst (cmdHealthReport e p b A))"
  unfolding cmdRegister_def cmdDeregister_def cmdHeartbeat_def cmdDiscover_def cmdConfigGet_def
    cmdConfigPub_def cmdConfigDel_def cmdHealthReport_def Let_def
  by (rule with_req_ok [OF assms], simp add: assms calls_ok split: sum.split)+

lemma processLine_ok: "app_ok A \<Longrightarrow> app_ok (fst (processLine e line A))"
  by (cases "split_line e line") (simp add: processLine_def Let_def commands_ok)

lemma handleConn_ok: "app_ok A \<Longrightarrow> app_ok (fst (handleConn envs input A))"
proof -
  have "app_ok A \<Longrightarrow> app_ok (fst (handle_lines envs k ls A))" for k ls
  proof (induction envs k ls A rule: handle_lines.induct)
    case (2 envs k l ls A)
    show ?case
    proof (cases "l = []")
      case False
      obtain A1 r where p: "processLine (envs k) l A = (A1, r)" by (cases "processLine (envs k) l A") auto
      have "app_ok A1" using processLine_ok [OF 2(3), of "envs k" l] p by simp
      with 2(2) [OF False p [symmetric] refl] False p show ?thesis
        by (auto split: prod.split)
    qed (use 2 in simp)
  qed simp
  then show "app_ok A \<Longrightarrow> app_ok (fst (handleConn envs input A))" by (simp add: handleConn_def)
qed

lemma run_rpc_ok: "app_ok A \<Longrightarrow> app_ok (run_rpc ck q A)"
  by (cases q)
     (auto simp: grpc_RegisterInstance_def grpc_DeregisterInstance_def grpc_Heartbeat_def grpc_PublishConfig_def
        grpc_ReportFailure_def grpc_ReportSuccess_def grpc_report_def Let_def calls_ok split: sum.split)

lemma on_event_ok: "app_ok A \<Longrightarrow> app_ok (on_event ev A)"
proof (cases ev)
  case (ClusterTick t1 t2)
  assume A: "app_ok A"
  then have "wf_node (mgStore (apMgr A))" by (simp add: app_ok_def)
  with A ClusterTick show ?thesis by (simp add: app_parts_ok heartbeat_tick_ok)
next
  case (BusCall a)
  assume "app_ok A"
  then show ?thesis by (auto simp: BusCall ok_defs view_defs intro: bus_step_ok)
qed (simp_all add: serve_ok handleConn_ok run_rpc_ok with_checker_ok runActiveCheck_ok)

lemma reach_ok: "server_reach A B \<Longrightarrow> app_ok A \<Longrightarrow> app_ok B"
  by (induction rule: server_reach.induct) (auto simp: on_event_ok elim: server_step.cases)

section \<open>From the start\<close>

definition stores_ok :: "('i, 's, 'c, 'h, 'n, 'd) stores \<Rightarrow> bool" where
  "stores_ok st \<longleftrightarrow> wf_inst (soInst st) \<and> wf_svc (soSvc st) \<and> wf_config_store (soCfg st) \<and> wf_ns (soNs st) \<and>
     wf_node (soNode st)"

lemma boot_ok:
  assumes "stores_ok st"
  shows "app_ok (boot nows cfg st)"
proof -
  have wf: "wf_ns (soNs st)" using assms by (simp add: stores_ok_def)
  have "wf_ns (case InitDefault (soNs st) of Inl e \<Rightarrow> soNs st | Inr T \<Rightarrow> T)"
    using wf NamespaceStore_wf(1) [OF wf] by (auto simp: InitDefault_def split: sum.split)
  moreover have "wf_node (mgStore (Start nows (NewManager (mcSelfAddr cfg) (mcMembers cfg) (soNode st))))"
    using assms by (intro Start_ok) (simp add: NewManager_def stores_ok_def)
  ultimately show ?thesis
    using assms NewChecker_usable [of "soInst st" "soSvc st" NewEventBus "mcHealth cfg"]
    by (simp add: boot_def Let_def stores_ok_def ok_defs view_defs NewChecker_def)
qed

lemma app_ok_facts:
  assumes "app_ok A"
  shows "app_ok A \<and> (\<forall>k. size (filter_mset (inst_where (t_coll (apInst A)) k) (rows (apInst A))) \<le> 1) \<and>
    (\<forall>i. size (filter_mset (\<lambda>x. siID x = i) (rows (apInst A))) \<le> 1) \<and>
    \<not> ch_panic (busChans (apBus A)) \<and> cfg_usable (apHealth A)"
proof -
  have i: "wf_inst (apInst A)" and rest: "bus_ok (apBus A)" "cfg_usable (apHealth A)"
    using assms by (simp_all add: ok_defs view_defs)
  have "size (filter_mset (\<lambda>x. siID x = j) (rows (apInst A))) \<le> 1" for j
    using by_id_unique [OF i, of j] by (simp add: by_id_def)
  with assms i rest show ?thesis
    using istore.unique_at [of "apInst A"]
    by (simp add: wf_table_def wf_rows_def bus_ok_def chans_ok_def)
qed

text \<open>
  C3. Whatever requests the three servers get, whatever the health checker finds, whenever the
  cluster manager ticks and whoever subscribes to the bus, waits on it and cancels: in every state
  a server reaches from its start by such events, one after the other, the tables obey their
  laws, no two instances have one address key (as the database compares keys) and no two one id,
  no channel of the event bus was used after it was closed, and the health thresholds are usable.
\<close>
theorem every_state_is_ok:
  assumes "stores_ok st" "server_reach (boot nows cfg st) A"
  shows "app_ok A \<and> (\<forall>k. size (filter_mset (inst_where (t_coll (apInst A)) k) (rows (apInst A))) \<le> 1) \<and>
    (\<forall>i. size (filter_mset (\<lambda>x. siID x = i) (rows (apInst A))) \<le> 1) \<and>
    \<not> ch_panic (busChans (apBus A)) \<and> cfg_usable (apHealth A)"
  by (rule app_ok_facts, rule reach_ok [OF assms(2) boot_ok [OF assms(1)]])

text \<open>
  A server that starts on empty tables in memory: a subscription, then a pass of the health checker.
\<close>

theorem every_state_is_ok_witness:
  "app_ok (on_event (HealthPass all_fail) (on_event (BusCall (SubService ''public'' ''DEFAULT_GROUP'' ''order''))
     (boot (\<lambda>_. 0) default_config (meStores demo_main () []))))"
proof -
  have "stores_ok (meStores demo_main () [])"
    by (simp add: stores_ok_def demo_main_def demo_cfg_def wf_table_def wf_rows_def wf_config_store_def ids_unique_def
        key_unique_def mem_ops)
  from every_state_is_ok [OF this more [OF more [OF init step] step]] show ?thesis by blast
qed

section \<open>One report, one instance\<close>

definition touches_one :: "'d inst_table \<Rightarrow> 'd inst_table \<Rightarrow> bool" where
  "touches_one T T' \<longleftrightarrow> size (rows T - rows T') \<le> 1 \<and> size (rows T') = size (rows T)"

lemma image_if_diff: "M - image_mset (\<lambda>x. if c x then g x else x) M \<subseteq># filter_mset c M"
proof -
  have "image_mset (\<lambda>x. if c x then g x else x) M
      = image_mset g (filter_mset c M) + filter_mset (\<lambda>x. \<not> c x) M"
    by (simp add: image_mset_If)
  moreover have "M = filter_mset c M + filter_mset (\<lambda>x. \<not> c x) M" by (rule multiset_partition)
  ultimately have "M - image_mset (\<lambda>x. if c x then g x else x) M
      = filter_mset c M - image_mset g (filter_mset c M)"
    by (metis add_diff_cancel_right)
  then show ?thesis by simp
qed

lemma set_healthy_touches:
  assumes "wf_inst (hkInst C)"
  shows "touches_one (hkInst C) (hkInst (set_healthy i h C))"
proof (cases "InstanceStore_UpdateHealthy i h (hkInst C)")
  case (Inr T)
  from tb_update_rows [OF wf_table_laws [OF assms] Inr [unfolded InstanceStore_UpdateHealthy_def]]
  obtain g where r: "rows T = image_mset (\<lambda>x. if siID x = i then g x else x) (rows (hkInst C))"
    by (auto simp: update_effect_def)
  have "size (rows (hkInst C) - rows T) \<le> size (by_id i (hkInst C))"
    unfolding r by_id_def by (intro size_mset_mono image_if_diff)
  with by_id_unique [OF assms, of i] show ?thesis
    by (simp add: touches_one_def set_healthy_def Inr r)
qed (simp add: touches_one_def set_healthy_def)

lemma set_healthy_inst: "hkInst C' = hkInst C \<Longrightarrow> hkInst (set_healthy i h C') = hkInst (set_healthy i h C)"
  by (simp add: set_healthy_def split: sum.split)

lemma mark_touches:
  fixes C C' :: "('i, 's) checker"
  assumes "wf_inst (hkInst C)" "hkInst C' = hkInst C"
  shows "touches_one (hkInst C) (hkInst (markUnhealthy inst C'))" "touches_one (hkInst C) (hkInst (markHealthy inst C'))"
    "touches_one (hkInst C) (hkInst (set_healthy i h C'))" "touches_one (hkInst C) (hkInst C')"
  using set_healthy_touches [OF assms(1)] set_healthy_inst [OF assms(2)]
  by (simp_all add: markUnhealthy_def markHealthy_def publish_for_def assms(2)) (simp add: touches_one_def)

text \<open>
  A failure report or a probe concerns one instance: it changes at most one row of the
  instance table and adds or removes none, in every state with unique ids.
\<close>
theorem report_touches_one:
  assumes "app_ok A"
  shows "touches_one (apInst A) (apInst (with_checker (ReportFailure t1 t2 i ns grp svc) A)) \<and>
    touches_one (apInst A) (apInst (with_checker (check_instance m e inst) A))"
proof -
  have wf: "wf_inst (hkInst (checker_of A))" using assms by (simp add: app_ok_def checker_ok_def)
  have inst: "apInst (with_checker f A) = hkInst (f (checker_of A))" "apInst A = hkInst (checker_of A)" for f
    by (simp_all add: with_checker_def checker_of_def Let_def)
  show ?thesis
    unfolding inst
    by (simp add: ReportFailure_def check_instance_def processActiveResult_def Let_def mark_touches [OF wf]
        split: prod.split)
qed

lemma mem_wf:
  "rows T = {#r#} \<Longrightarrow> gorm_table sc T \<Longrightarrow> wf_table sc keq key T"
  "rows T = {#} \<Longrightarrow> gorm_table sc T \<Longrightarrow> wf_table sc keq key T"
  "rows T = {#r#} \<Longrightarrow> gorm_table sc T \<Longrightarrow> wf_rows sc keq key T"
  "rows T = {#} \<Longrightarrow> gorm_table sc T \<Longrightarrow> wf_rows sc keq key T"
  by (simp_all add: wf_table_def wf_rows_def ids_unique_def key_unique_def)

definition demo_running ::
  "(ServiceInstance list, Service list, ConfigItem list, ConfigHistory list, Namespace list, ClusterNode list) app" where
  "demo_running = demo_app\<lparr>apNs := mem_table ns_schema [new_ns ''public'' ''Public'' []],
     apMgr := NewManager ''a'' [''a''] (mem_table node_schema [])\<rparr>"

lemma demo_running_ok: "app_ok demo_running"
  unfolding ok_defs view_defs demo_running_def demo_app_def
  by (simp add: mem_wf wf_config_store_def demo_cfg_def NewManager_def new_ns_def
      health_defaults.fill_usable)

theorem report_touches_one_witness:
  "touches_one (apInst demo_running)
     (apInst (with_checker (ReportFailure 1 2 1 ''public'' ''DEFAULT_GROUP'' ''order'') demo_running))"
  using report_touches_one [OF demo_running_ok] by blast
end
