(* ===== verification/Lifecycle.thy ===== *)
theory Lifecycle
  imports Running
begin

text \<open>
  Starting and stopping. The DNS server (\<^verbatim>\<open>NewServer\<close>, \<^verbatim>\<open>Start\<close>, \<^verbatim>\<open>Stop\<close> in
  \<^verbatim>\<open>src/pkg/dns/server.go\<close>) runs two listeners of the library; their outcome in the first
  100 ms is a parameter. The health checker, the cluster manager and the syncer each run one
  loop that waits for its ticker or its stop channel; the shutdown at the end of \<^verbatim>\<open>main\<close>
  closes the stop channels one after the other while the loops and the servers go on.
\<close>

section \<open>The DNS server\<close>

text \<open>\<open>Ended m\<close>: \<^verbatim>\<open>ListenAndServe\<close> has returned the error \<open>m\<close>.\<close>

datatype serving = NotMade | Serving | Ended string | ShutDown

record dns_server =
  dvCfg :: DnsConfig
  dvUdp :: serving
  dvTcp :: serving
  dvClosed :: bool

record dns_listeners =
  dlUdp :: "string option"
  dlTcp :: "string option"
  dlTcpFirst :: bool

definition dns_NewServer :: "DnsConfig \<Rightarrow> dns_server" where
  "dns_NewServer cfg = \<lparr>dvCfg = dns_fill cfg, dvUdp = NotMade, dvTcp = NotMade, dvClosed = False\<rparr>"

definition outcome_of :: "string option \<Rightarrow> serving" where
  "outcome_of r = (case r of None \<Rightarrow> Serving | Some m \<Rightarrow> Ended m)"

text \<open>The first error to arrive in \<^verbatim>\<open>errCh\<close> is returned; the other listener is left as it is.\<close>

definition first_error :: "dns_listeners \<Rightarrow> string option" where
  "first_error e =
     (case (if dlTcpFirst e then dlTcp e else dlUdp e) of
        Some m \<Rightarrow> Some m
      | None \<Rightarrow> (if dlTcpFirst e then dlUdp e else dlTcp e))"

definition dns_Start :: "dns_listeners \<Rightarrow> dns_server \<Rightarrow> dns_server \<times> string option" where
  "dns_Start e s =
     (s\<lparr>dvUdp := outcome_of (dlUdp e), dvTcp := outcome_of (dlTcp e)\<rparr>,
      map_option (\<lambda>m. ''DNS server start failed: '' @ m) (first_error e))"

fun shut_down :: "serving \<Rightarrow> serving" where
  "shut_down Serving = ShutDown"
| "shut_down x = x"

text \<open>\<^const>\<open>None\<close>: the panic of closing a closed channel.\<close>

definition dns_Stop :: "dns_server \<Rightarrow> dns_server option" where
  "dns_Stop s =
     (if dvClosed s then None
      else Some (s\<lparr>dvClosed := True, dvUdp := shut_down (dvUdp s), dvTcp := shut_down (dvTcp s)\<rparr>))"

text \<open>
  \<^verbatim>\<open>Start\<close> reports an error exactly if one of the listeners fails in the first 100 ms. The
  other one then goes on serving, although \<^verbatim>\<open>main\<close> logs that the DNS server did not start;
  \<^verbatim>\<open>Stop\<close> ends both in any case.
\<close>
theorem dns_start_outcome:
  assumes "dns_Start e (dns_NewServer cfg) = (s, err)"
  shows "(err = None \<longleftrightarrow> dvUdp s = Serving \<and> dvTcp s = Serving) \<and>
    (err \<noteq> None \<and> (dlUdp e = None \<or> dlTcp e = None) \<longrightarrow> (dvUdp s = Serving) \<noteq> (dvTcp s = Serving)) \<and>
    (\<exists>t. dns_Stop s = Some t \<and> dvUdp t \<noteq> Serving \<and> dvTcp t \<noteq> Serving \<and> dns_Stop t = None)"
  using assms
  by (cases "dlUdp e"; cases "dlTcp e"; cases "dlTcpFirst e")
     (auto simp: dns_Start_def dns_NewServer_def dns_Stop_def first_error_def outcome_of_def)

theorem dns_start_outcome_witness:
  "\<exists>s err. dns_Start \<lparr>dlUdp = None, dlTcp = Some ''address already in use'', dlTcpFirst = True\<rparr>
      (dns_NewServer \<lparr>dcPort = 53, dcDomain = [], dcTTL = 0\<rparr>) = (s, err) \<and> err \<noteq> None \<and> dvUdp s = Serving"
  (is "\<exists>s err. ?start = (s, err) \<and> _")
proof -
  obtain s err where s: "?start = (s, err)" by (cases ?start) auto
  then have "err \<noteq> None" "dvTcp s \<noteq> Serving" by (auto simp: dns_Start_def first_error_def outcome_of_def)
  with dns_start_outcome [OF s] s show ?thesis by auto
qed

section \<open>Loops\<close>

text \<open>The parts \<^verbatim>\<open>main\<close> stops, in its order; the first three run a loop.\<close>

datatype part = PChecker | PCluster | PSyncer | PDns | PTcp | PGrpc | PHttp

definition stop_order :: "part list" where
  "stop_order = [PChecker, PCluster, PSyncer, PDns, PTcp, PGrpc, PHttp]"

definition loops :: "part set" where
  "loops = {PChecker, PCluster, PSyncer}"

record ('i, 's, 'c, 'h, 'n, 'd) node_state =
  noApp :: "('i, 's, 'c, 'h, 'n, 'd) app"
  noClosed :: "part set"
  noExited :: "part set"
  noCalled :: "part list"
  noRpcs :: nat
  noPanicked :: bool

definition node_started :: "('i, 's, 'c, 'h, 'n, 'd) app \<Rightarrow> ('i, 's, 'c, 'h, 'n, 'd) node_state" where
  "node_started A = \<lparr>noApp = A, noClosed = {}, noExited = {}, noCalled = [], noRpcs = 0, noPanicked = False\<rparr>"

text \<open>
  What one iteration of a loop does: \<^verbatim>\<open>activeLoop\<close> runs a pass, \<^verbatim>\<open>heartbeatLoop\<close> refreshes the
  nodes and its own row, \<^verbatim>\<open>syncLoop\<close> writes a line to the log.
\<close>

record tick_env =
  tkChecks :: "nat \<Rightarrow> check_env"
  tkRefresh :: int
  tkBeat :: int

definition activeLoop_body :: "(nat \<Rightarrow> check_env) \<Rightarrow> ('i, 's, 'c, 'h, 'n, 'd) app \<Rightarrow> ('i, 's, 'c, 'h, 'n, 'd) app" where
  "activeLoop_body envs = with_checker (runActiveCheck envs)"

definition heartbeatLoop_body :: "int \<Rightarrow> int \<Rightarrow> ('i, 's, 'c, 'h, 'n, 'd) app \<Rightarrow> ('i, 's, 'c, 'h, 'n, 'd) app" where
  "heartbeatLoop_body t1 t2 A = A\<lparr>apMgr := heartbeat_tick t1 t2 (apMgr A)\<rparr>"

definition syncLoop_body :: "('i, 's, 'c, 'h, 'n, 'd) app \<Rightarrow> ('i, 's, 'c, 'h, 'n, 'd) app" where
  "syncLoop_body A = A"

fun loop_body :: "tick_env \<Rightarrow> part \<Rightarrow> ('i, 's, 'c, 'h, 'n, 'd) app \<Rightarrow> ('i, 's, 'c, 'h, 'n, 'd) app" where
  "loop_body e PChecker A = activeLoop_body (tkChecks e) A"
| "loop_body e PCluster A = heartbeatLoop_body (tkRefresh e) (tkBeat e) A"
| "loop_body e PSyncer A = syncLoop_body A"
| "loop_body e _ A = A"

text \<open>\<^verbatim>\<open>Stop\<close> of a part closes its stop channel: a second call panics.\<close>

definition call_stop :: "part \<Rightarrow> ('i, 's, 'c, 'h, 'n, 'd) node_state \<Rightarrow> ('i, 's, 'c, 'h, 'n, 'd) node_state" where
  "call_stop p N =
     (if p \<in> noClosed N then N\<lparr>noCalled := noCalled N @ [p], noPanicked := True\<rparr>
      else N\<lparr>noCalled := noCalled N @ [p], noClosed := insert p (noClosed N)\<rparr>)"

text \<open>
  The statements of \<^verbatim>\<open>main\<close> after the signal, one step each. \<^verbatim>\<open>GracefulStop\<close> refuses new RPCs from
  its call on and returns when the running ones have ended: what comes after it in \<^verbatim>\<open>main\<close>
  has to wait for them. \<open>noRpcs\<close> counts the RPCs in progress.
\<close>

definition grpc_drained :: "('i, 's, 'c, 'h, 'n, 'd) node_state \<Rightarrow> bool" where
  "grpc_drained N \<longleftrightarrow> (PGrpc \<in> noClosed N \<longrightarrow> noRpcs N = 0)"

text \<open>
  The loops all have the same \<^verbatim>\<open>select\<close> over their ticker and their stop channel. A loop may
  still choose its ticker when both are ready; when it has seen the stop it is gone. \<open>serve\<close>
  is a request, which the servers may still be working on while they stop.
\<close>

inductive node_step ::
  "('i, 's, 'c, 'h, 'n, 'd) node_state \<Rightarrow> ('i, 's, 'c, 'h, 'n, 'd) node_state \<Rightarrow> bool" where
  serve: "node_step N (N\<lparr>noApp := on_event ev (noApp N)\<rparr>)"
    if "\<forall>envs. ev \<noteq> HealthPass envs" "\<forall>a b. ev \<noteq> ClusterTick a b"
| tick: "node_step N (N\<lparr>noApp := loop_body e p (noApp N)\<rparr>)" if "p \<in> loops" "p \<notin> noExited N"
| leave: "node_step N (N\<lparr>noExited := insert p (noExited N)\<rparr>)" if "p \<in> loops" "p \<in> noClosed N" "p \<notin> noExited N"
| rpc_begin: "node_step N (N\<lparr>noRpcs := Suc (noRpcs N)\<rparr>)" if "PGrpc \<notin> noClosed N"
| rpc_end: "node_step N (N\<lparr>noRpcs := n\<rparr>)" if "noRpcs N = Suc n"
| shutdown: "node_step N (call_stop (stop_order ! length (noCalled N)) N)"
    if "length (noCalled N) < length stop_order" "grpc_drained N"

inductive node_reach ::
  "('i, 's, 'c, 'h, 'n, 'd) node_state \<Rightarrow> ('i, 's, 'c, 'h, 'n, 'd) node_state \<Rightarrow> bool" for N where
  here: "node_reach N N"
| onward: "node_reach N M \<Longrightarrow> node_step M K \<Longrightarrow> node_reach N K"

definition node_inv :: "('i, 's, 'c, 'h, 'n, 'd) node_state \<Rightarrow> bool" where
  "node_inv N \<longleftrightarrow> app_ok (noApp N) \<and> \<not> noPanicked N \<and> noCalled N = take (length (noCalled N)) stop_order \<and>
     noClosed N = set (noCalled N) \<and> noExited N \<subseteq> noClosed N \<inter> loops \<and> (PHttp \<in> noClosed N \<longrightarrow> noRpcs N = 0)"

lemma stop_order_distinct: "distinct stop_order" by (simp add: stop_order_def)

text \<open>\<^verbatim>\<open>main\<close> comes to the HTTP server only after \<^verbatim>\<open>GracefulStop\<close>.\<close>

lemma grpc_before_http: "PHttp \<in> set (take k stop_order) \<Longrightarrow> PGrpc \<in> set (take k stop_order)"
proof -
  assume h: "PHttp \<in> set (take k stop_order)"
  have "PHttp \<notin> set (take 6 stop_order)" by (simp add: stop_order_def)
  moreover have "set (take k stop_order) \<subseteq> set (take 6 stop_order)" if "k \<le> 6"
    using that by (rule set_take_subset_set_take)
  ultimately have "6 \<le> k" using h by (meson nat_le_linear subsetD)
  then have "set (take 6 stop_order) \<subseteq> set (take k stop_order)" by (rule set_take_subset_set_take)
  moreover have "PGrpc \<in> set (take 6 stop_order)" by (simp add: stop_order_def)
  ultimately show ?thesis by blast
qed

lemma http_closed: "node_inv N \<Longrightarrow> PHttp \<in> noClosed N \<Longrightarrow> PGrpc \<in> noClosed N"
  using grpc_before_http [of "length (noCalled N)"] by (metis node_inv_def)

lemma loop_body_ok: "app_ok A \<Longrightarrow> app_ok (loop_body e p A)"
  using on_event_ok [of A "HealthPass (tkChecks e)"] on_event_ok [of A "ClusterTick (tkRefresh e) (tkBeat e)"]
  by (cases p) (simp_all add: activeLoop_body_def heartbeatLoop_body_def syncLoop_body_def)

lemma node_step_inv: "node_step N M \<Longrightarrow> node_inv N \<Longrightarrow> node_inv M"
proof (induction rule: node_step.induct)
  case (shutdown N)
  let ?k = "length (noCalled N)"
  let ?M = "call_stop (stop_order ! ?k) N"
  have eq: "take (Suc ?k) stop_order = noCalled N @ [stop_order ! ?k]"
    using shutdown(1,3) by (simp add: node_inv_def take_Suc_conv_app_nth)
  have "distinct (take (Suc ?k) stop_order)" by (simp add: stop_order_distinct)
  then have "stop_order ! ?k \<notin> noClosed N"
    using shutdown(3) unfolding eq by (simp add: node_inv_def)
  then have inv: "noCalled ?M = take (length (noCalled ?M)) stop_order" "\<not> noPanicked ?M"
      "noClosed ?M = set (noCalled ?M)" "app_ok (noApp ?M)" "noExited ?M \<subseteq> noClosed ?M \<inter> loops" "noRpcs ?M = noRpcs N"
    using shutdown(3) eq by (auto simp: node_inv_def call_stop_def)
  have "noRpcs N = 0" if http: "PHttp \<in> noClosed ?M"
  proof (cases "PHttp \<in> noClosed N")
    case False
    have "PGrpc \<in> noClosed ?M" using http inv(1,3) grpc_before_http by metis
    moreover have "stop_order ! ?k = PHttp" using http False by (auto simp: call_stop_def split: if_splits)
    ultimately have "PGrpc \<in> noClosed N" by (auto simp: call_stop_def split: if_splits)
    with shutdown(2) show ?thesis by (simp add: grpc_drained_def)
  qed (use shutdown(3) in \<open>simp add: node_inv_def\<close>)
  with inv show ?case by (simp add: node_inv_def)
next
  case (rpc_begin N)
  then show ?case using http_closed [of N] by (auto simp: node_inv_def)
qed (auto simp: node_inv_def on_event_ok loop_body_ok)

lemma node_reach_inv: "node_reach N M \<Longrightarrow> node_inv N \<Longrightarrow> node_inv M"
  by (induction rule: node_reach.induct) (auto dest: node_step_inv)

lemma reach_trans: "node_reach M K \<Longrightarrow> node_reach N M \<Longrightarrow> node_reach N K"
  by (induction rule: node_reach.induct) (auto intro: onward)

text \<open>The RPCs in progress can end.\<close>

lemma rpcs_drain: "node_reach N (N\<lparr>noRpcs := 0\<rparr>)"
proof (induction "noRpcs N" arbitrary: N)
  case 0
  then have "N\<lparr>noRpcs := 0\<rparr> = N" by simp
  with here show ?case by metis
next
  case (Suc n)
  have "node_step N (N\<lparr>noRpcs := n\<rparr>)" using Suc(2) by (intro node_step.rpc_end) simp
  with reach_trans [OF _ onward [OF here]] Suc(1) [of "N\<lparr>noRpcs := n\<rparr>"] show ?case by force
qed

lemma calls_complete:
  assumes "node_inv N"
  shows "\<exists>M. node_reach N M \<and> node_inv M \<and> noCalled M = stop_order"
  using assms
proof (induction "length stop_order - length (noCalled N)" arbitrary: N)
  case 0
  then have "noCalled N = stop_order" by (simp add: node_inv_def)
  with 0(2) here show ?case by blast
next
  case (Suc n)
  then have less: "length (noCalled N) < length stop_order" by simp
  let ?D = "N\<lparr>noRpcs := 0\<rparr>"
  let ?M = "call_stop (stop_order ! length (noCalled ?D)) ?D"
  have drained: "node_reach N ?D" by (rule rpcs_drain)
  have step: "node_step ?D ?M" using less by (intro node_step.shutdown) (simp_all add: grpc_drained_def)
  have "node_inv ?M" by (rule node_step_inv [OF step node_reach_inv [OF drained Suc(3)]])
  moreover have "length (noCalled ?M) = Suc (length (noCalled N))" by (simp add: call_stop_def)
  ultimately obtain K where "node_reach ?M K" "node_inv K" "noCalled K = stop_order"
    using Suc(1) [of ?M] Suc(2) by fastforce
  with reach_trans [OF _ onward [OF drained step]] show ?case by blast
qed

lemma leave_reach:
  assumes "p \<in> loops" "p \<in> noClosed N"
  shows "node_reach N (N\<lparr>noExited := insert p (noExited N)\<rparr>)"
proof (cases "p \<in> noExited N")
  case True
  then have "N\<lparr>noExited := insert p (noExited N)\<rparr> = N" by (simp add: insert_absorb)
  with here show ?thesis by metis
next
  case False
  with assms show ?thesis by (intro onward [OF here] node_step.leave)
qed

lemma exits_complete:
  assumes "node_inv N" "noCalled N = stop_order"
  shows "\<exists>M. node_reach N M \<and> noCalled M = stop_order \<and> noExited M = loops"
proof -
  have closed: "noClosed N = set stop_order" "noExited N \<subseteq> loops" using assms by (auto simp: node_inv_def)
  let ?leave = "\<lambda>p M. M\<lparr>noExited := insert p (noExited M)\<rparr>"
  have 1: "node_reach N (?leave PChecker N)"
    by (rule leave_reach) (simp_all add: closed loops_def stop_order_def)
  have 2: "node_reach (?leave PChecker N) (?leave PCluster (?leave PChecker N))"
    by (rule leave_reach) (simp_all add: closed loops_def stop_order_def)
  have 3: "node_reach (?leave PCluster (?leave PChecker N)) (?leave PSyncer (?leave PCluster (?leave PChecker N)))"
    by (rule leave_reach) (simp_all add: closed loops_def stop_order_def)
  have "noExited (?leave PSyncer (?leave PCluster (?leave PChecker N))) = loops"
    using closed(2) by (auto simp: loops_def)
  moreover have "noCalled (?leave PSyncer (?leave PCluster (?leave PChecker N))) = stop_order"
    by (simp add: assms(2))
  ultimately show ?thesis using reach_trans [OF 3 reach_trans [OF 2 1]] by blast
qed

text \<open>
  Whatever comes in between, no stop channel is closed twice, a loop ends only after its stop,
  no RPC is in progress when the HTTP server is stopped, and the state stays in order to the
  end; from every state the shutdown can be completed, once the RPCs in progress have ended,
  with all three loops gone.
\<close>
theorem shutdown_is_clean:
  assumes "app_ok A" "node_reach (node_started A) N"
  shows "\<not> noPanicked N \<and> noCalled N = take (length (noCalled N)) stop_order \<and>
    noExited N \<subseteq> set (noCalled N) \<and> app_ok (noApp N) \<and> (PHttp \<in> set (noCalled N) \<longrightarrow> noRpcs N = 0) \<and>
    (\<exists>M. node_reach N M \<and> noCalled M = stop_order \<and> noExited M = loops)"
proof -
  have inv: "node_inv N"
    by (rule node_reach_inv [OF assms(2)]) (simp add: node_inv_def node_started_def assms(1))
  obtain K where K: "node_reach N K" "node_inv K" "noCalled K = stop_order" using calls_complete [OF inv] by blast
  obtain M where "node_reach K M" "noCalled M = stop_order" "noExited M = loops"
    using exits_complete [OF K(2,3)] by blast
  then have "\<exists>M. node_reach N M \<and> noCalled M = stop_order \<and> noExited M = loops"
    using reach_trans [OF _ K(1)] by blast
  moreover have "noExited N \<subseteq> set (noCalled N)" using inv unfolding node_inv_def by blast
  moreover have "PHttp \<in> set (noCalled N) \<longrightarrow> noRpcs N = 0" using inv by (simp add: node_inv_def)
  ultimately show ?thesis using inv unfolding node_inv_def by blast
qed

theorem shutdown_is_clean_witness:
  "\<exists>N. node_reach (node_started demo_running) N \<and> noCalled N = stop_order \<and> noExited N = loops"
  using shutdown_is_clean [OF demo_running_ok here] by blast

end
