(* ===== verification/EventRace.thy ===== *)
theory EventRace
  imports EventBus
begin

text \<open>
  The interleaving of one publication with subscriptions and cancellations on one key of
  the bus (\<^verbatim>\<open>src/pkg/subscribe/eventbus.go\<close>). \<^verbatim>\<open>Publish\<close> copies the slice header under
  the read lock and sends after releasing it; \<^verbatim>\<open>Unsubscribe\<close> shifts the elements of the
  same backing array and closes the channel. A step is what happens between two points
  where another goroutine may run.
\<close>

text \<open>
  \<open>rArr\<close> is the backing array (its length is the capacity), \<open>rLen\<close> the length of the slice
  in the map. A running publication holds its length, its position and, once an
  \<^verbatim>\<open>append\<close> has moved the slice to a new array, the old array.
\<close>

record race =
  rArr :: "nat list"
  rLen :: nat
  rClosed :: "nat \<Rightarrow> bool"
  rFull :: "nat \<Rightarrow> bool"
  rPub :: "(nat \<times> nat \<times> nat list option) option"
  rPanic :: bool

definition keep_old :: "nat list \<Rightarrow> (nat \<times> nat \<times> nat list option) option \<Rightarrow> (nat \<times> nat \<times> nat list option) option" where
  "keep_old a p = (case p of Some (n, i, None) \<Rightarrow> Some (n, i, Some a) | _ \<Rightarrow> p)"

definition pub_view :: "race \<Rightarrow> nat list option \<Rightarrow> nat list" where
  "pub_view s v = (case v of None \<Rightarrow> rArr s | Some a \<Rightarrow> a)"

text \<open>\<^verbatim>\<open>append(subs[:i], subs[i+1:]...)\<close> on the array: the elements behind move down by one.\<close>

definition shift_down :: "nat \<Rightarrow> nat \<Rightarrow> nat list \<Rightarrow> nat list" where
  "shift_down i n a = take i a @ take (n - i - 1) (drop (i + 1) a) @ drop (n - 1) a"

definition fresh_chan :: "nat \<Rightarrow> race \<Rightarrow> bool" where
  "fresh_chan c s \<longleftrightarrow> \<not> rClosed s c \<and> c \<notin> set (take (rLen s) (rArr s))"

inductive race_step :: "race \<Rightarrow> race \<Rightarrow> bool" where
  subscribe: "\<not> rPanic s \<Longrightarrow> fresh_chan c s \<Longrightarrow> rLen s < length (rArr s) \<Longrightarrow>
    race_step s (s\<lparr>rArr := (rArr s)[rLen s := c], rLen := rLen s + 1\<rparr>)"
| subscribe_grow: "\<not> rPanic s \<Longrightarrow> fresh_chan c s \<Longrightarrow> rLen s = length (rArr s) \<Longrightarrow>
    race_step s (s\<lparr>rArr := rArr s @ c # spare, rLen := rLen s + 1, rPub := keep_old (rArr s) (rPub s)\<rparr>)"
| unsubscribe: "\<not> rPanic s \<Longrightarrow> i < rLen s \<Longrightarrow> c = rArr s ! i \<Longrightarrow> c \<notin> set (take i (rArr s)) \<Longrightarrow>
    race_step s (s\<lparr>rArr := shift_down i (rLen s) (rArr s), rLen := rLen s - 1,
                  rPanic := rClosed s c, rClosed := (rClosed s)(c := True)\<rparr>)"
| publish: "\<not> rPanic s \<Longrightarrow> rPub s = None \<Longrightarrow> race_step s (s\<lparr>rPub := Some (rLen s, 0, None)\<rparr>)"
| send: "\<not> rPanic s \<Longrightarrow> rPub s = Some (n, i, v) \<Longrightarrow> i < n \<Longrightarrow> c = pub_view s v ! i \<Longrightarrow>
    race_step s (if rClosed s c then s\<lparr>rPanic := True\<rparr>
                 else s\<lparr>rFull := (rFull s)(c := True), rPub := Some (n, i + 1, v)\<rparr>)"
| finish: "\<not> rPanic s \<Longrightarrow> rPub s = Some (n, n, v) \<Longrightarrow> race_step s (s\<lparr>rPub := None\<rparr>)"

definition race_init :: race where
  "race_init = \<lparr>rArr = [], rLen = 0, rClosed = (\<lambda>_. False), rFull = (\<lambda>_. False), rPub = None, rPanic = False\<rparr>"

text \<open>A step that does not cancel a subscription while a publication is running.\<close>

definition calm :: "race \<Rightarrow> race \<Rightarrow> bool" where
  "calm s s' \<longleftrightarrow> race_step s s' \<and> (rPub s = None \<or> rLen s \<le> rLen s')"

definition slice_open :: "race \<Rightarrow> bool" where
  "slice_open s \<longleftrightarrow> rLen s \<le> length (rArr s) \<and> distinct (take (rLen s) (rArr s)) \<and>
     (\<forall>c \<in> set (take (rLen s) (rArr s)). \<not> rClosed s c) \<and> \<not> rPanic s"

definition pub_open :: "race \<Rightarrow> bool" where
  "pub_open s \<longleftrightarrow> (case rPub s of None \<Rightarrow> True
     | Some (n, i, v) \<Rightarrow> i \<le> n \<and> n \<le> length (pub_view s v) \<and> (v = None \<longrightarrow> n \<le> rLen s) \<and>
         (\<forall>c \<in> set (take n (pub_view s v)). \<not> rClosed s c))"

lemma take_nth_closed:
  "i < n \<Longrightarrow> n \<le> length xs \<Longrightarrow> \<forall>c \<in> set (take n xs). P c \<Longrightarrow> P (xs ! i)"
  by (metis length_take min.absorb2 nth_mem nth_take)

lemma take_shift_down:
  assumes "i < n" "n \<le> length a"
  shows "take (n - 1) (shift_down i n a) = take i a @ drop (i + 1) (take n a)"
proof -
  have "length (take i a @ take (n - i - 1) (drop (i + 1) a)) = n - 1" using assms by simp
  then have "take (n - 1) (shift_down i n a) = take i a @ take (n - i - 1) (drop (i + 1) a)"
    unfolding shift_down_def by (metis append.assoc append_eq_conv_conj)
  then show ?thesis by (simp add: drop_take)
qed

lemma calm_keeps:
  assumes "calm s s'" "slice_open s" "pub_open s"
  shows "slice_open s' \<and> pub_open s'"
proof -
  have "race_step s s'" and q: "rPub s = None \<or> rLen s \<le> rLen s'" using assms(1) by (simp_all add: calm_def)
  then show ?thesis
  proof (cases rule: race_step.cases)
    case (subscribe c)
    have t: "take (Suc (rLen s)) ((rArr s)[rLen s := c]) = take (rLen s) (rArr s) @ [c]"
      using subscribe(4) by (simp add: take_Suc_conv_app_nth)
    have v: "n \<le> rLen s \<Longrightarrow> take n ((rArr s)[rLen s := c]) = take n (rArr s)" for n
      by simp
    show ?thesis
      using assms(2,3) subscribe t v unfolding slice_open_def pub_open_def fresh_chan_def
      by (auto simp: pub_view_def split: option.splits)
  next
    case (subscribe_grow c spare)
    show ?thesis
      using assms(2,3) subscribe_grow unfolding slice_open_def pub_open_def fresh_chan_def
      by (auto simp: pub_view_def keep_old_def split: option.splits)
  next
    case (unsubscribe i c)
    have p: "rPub s = None" using q unsubscribe by auto
    have len: "rLen s \<le> length (rArr s)" using assms(2) by (simp add: slice_open_def)
    have c: "\<not> rClosed s c" "c \<in> set (take (rLen s) (rArr s))"
      using assms(2) unsubscribe(3,4) len take_nth_closed [of i "rLen s" "rArr s"]
      by (auto simp: slice_open_def in_set_conv_nth)
    have split: "take (rLen s) (rArr s) = take i (rArr s) @ c # drop (Suc i) (take (rLen s) (rArr s))"
      using id_take_nth_drop [of i "take (rLen s) (rArr s)"] unsubscribe(3,4) len by (simp add: min_def)
    have d: "distinct (take i (rArr s) @ c # drop (Suc i) (take (rLen s) (rArr s)))"
      using assms(2) split by (simp add: slice_open_def)
    have sub: "set (take i (rArr s) @ drop (Suc i) (take (rLen s) (rArr s))) \<subseteq> set (take (rLen s) (rArr s))"
      using arg_cong [OF split, of set] by auto
    have sh: "take (rLen s - 1) (shift_down i (rLen s) (rArr s)) = take i (rArr s) @ drop (Suc i) (take (rLen s) (rArr s))"
      using take_shift_down [OF unsubscribe(3) len] by simp
    have l: "length (shift_down i (rLen s) (rArr s)) = length (rArr s)"
      using unsubscribe(3) len by (simp add: shift_down_def)
    have "slice_open s'"
      unfolding unsubscribe(1) slice_open_def
      using d sub c(1) assms(2) len l by (auto simp: slice_open_def sh simp del: One_nat_def)
    with p show ?thesis by (simp add: unsubscribe(1) pub_open_def)
  next
    case publish
    then show ?thesis using assms(2,3) by (simp add: slice_open_def pub_open_def pub_view_def)
  next
    case (send n i v c)
    have "n \<le> length (pub_view s v)" "\<forall>c \<in> set (take n (pub_view s v)). \<not> rClosed s c"
      using assms(3) send(3) by (simp_all add: pub_open_def)
    from take_nth_closed [OF send(4) this] have "\<not> rClosed s c" using send(5) by simp
    then show ?thesis
      using assms(2,3) send by (auto simp: slice_open_def pub_open_def pub_view_def split: option.splits)
  next
    case (finish n v)
    then show ?thesis using assms(2) by (simp add: slice_open_def pub_open_def)
  qed
qed

lemma calm_safe:
  assumes "calm\<^sup>*\<^sup>* race_init s"
  shows "\<not> rPanic s"
proof -
  have "slice_open s \<and> pub_open s"
    using assms
  proof (induction rule: rtranclp_induct)
    case base
    show ?case by (simp add: race_init_def slice_open_def pub_open_def)
  next
    case (step s s')
    then show ?case using calm_keeps by blast
  qed
  then show ?thesis by (simp add: slice_open_def)
qed

text \<open>
  C21. The bus can bring the process down: a publication that has copied the list of
  subscribers, a cancellation that closes one of these channels, and the send on it are a
  run that ends in a panic. The overlap is what it takes: a run in which nobody cancels a
  subscription while a publication is under way never panics, whatever else happens.
\<close>
theorem publish_races_with_cancel:
  "(\<exists>s. race_step\<^sup>*\<^sup>* race_init s \<and> rPanic s) \<and> \<not> (\<exists>s. calm\<^sup>*\<^sup>* race_init s \<and> rPanic s)"
proof (intro conjI)
  define s1 where "s1 = race_init\<lparr>rArr := [7], rLen := 1\<rparr>"
  define s2 where "s2 = s1\<lparr>rPub := Some (1, 0, None)\<rparr>"
  define s3 where "s3 = s2\<lparr>rArr := [7], rLen := 0, rPanic := False, rClosed := (rClosed s2)(7 := True)\<rparr>"
  have "race_step race_init (race_init\<lparr>rArr := rArr race_init @ 7 # [], rLen := rLen race_init + 1,
      rPub := keep_old (rArr race_init) (rPub race_init)\<rparr>)"
    by (rule race_step.subscribe_grow) (simp_all add: race_init_def fresh_chan_def)
  then have 1: "race_step race_init s1" by (simp add: s1_def race_init_def keep_old_def)
  have "race_step s1 (s1\<lparr>rPub := Some (rLen s1, 0, None)\<rparr>)"
    by (rule race_step.publish) (simp_all add: s1_def race_init_def)
  then have 2: "race_step s1 s2" by (simp add: s2_def s1_def)
  have "race_step s2 (s2\<lparr>rArr := shift_down 0 (rLen s2) (rArr s2), rLen := rLen s2 - 1,
      rPanic := rClosed s2 7, rClosed := (rClosed s2)(7 := True)\<rparr>)"
    by (rule race_step.unsubscribe) (simp_all add: s2_def s1_def race_init_def)
  then have 3: "race_step s2 s3" by (simp add: s3_def s2_def s1_def race_init_def shift_down_def)
  have "race_step s3 (if rClosed s3 7 then s3\<lparr>rPanic := True\<rparr>
      else s3\<lparr>rFull := (rFull s3)(7 := True), rPub := Some (1, 0 + 1, None)\<rparr>)"
    by (rule race_step.send) (simp_all add: s3_def s2_def s1_def race_init_def pub_view_def)
  then have 4: "race_step s3 (s3\<lparr>rPanic := True\<rparr>)" by (simp add: s3_def)
  define s4 where "s4 = s3\<lparr>rPanic := True\<rparr>"
  have "race_step\<^sup>*\<^sup>* race_init s4"
    using 1 2 3 4 unfolding s4_def by (meson rtranclp.rtrancl_into_rtrancl rtranclp.rtrancl_refl)
  moreover have "rPanic s4" by (simp add: s4_def)
  ultimately show "\<exists>s. race_step\<^sup>*\<^sup>* race_init s \<and> rPanic s" by blast
  show "\<not> (\<exists>s. calm\<^sup>*\<^sup>* race_init s \<and> rPanic s)" using calm_safe by blast
qed

end
