(* ===== verification/DemoClient.thy ===== *)
theory DemoClient
  imports TcpClient GrpcClient "HOL-Library.State_Monad"
begin

text \<open>
  \<^verbatim>\<open>src/cmd/client/main.go\<close>: the program that exercises the whole SDK. It is written in the
  state monad over what it holds (the client and its connections), what it has printed and
  the calls it has made. A statement returns how it ends: with the next statement, with a
  \<^verbatim>\<open>break\<close> or \<^verbatim>\<open>return\<close>, or with a panic. The world is a record of functions of that state, so
  that servers, sockets, random numbers and timing may depend on all that happened before.
\<close>

section \<open>State and world\<close>

datatype proto = Http | Grpc | Tcp

datatype demo_call =
    Register proto RegisterOptions
  | Deregister proto string string string string string int
  | Beat proto string string string string string int
  | StartBeat string
  | StopBeat string
  | StopBeats
  | Discover proto string string string bool
  | Select proto string string string LBStrategy string
  | Publish proto string string string string string
  | Fetch proto string string string
  | Delete proto string string string
  | Report proto bool string string string string int
  | WatchCfg string string string
  | Connect proto "string + nat"
  | Disconnect proto
  | Ping

text \<open>
  \<open>dmPending\<close> are the contents the running watch has still to hand to its callback, and
  \<open>dmChanges\<close> is \<^verbatim>\<open>changeCount\<close>.
\<close>

record demo =
  dmClient :: client
  dmConns :: conns
  dmOut :: "string list"
  dmCalls :: "(demo_call \<times> bool) list"
  dmPending :: "string list"
  dmChanges :: int

record world =
  dwHttp :: "demo \<Rightarrow> transport"
  dwTcp :: "demo \<Rightarrow> tcp_net"
  dwGrpc :: "demo \<Rightarrow> grpc_net"
  dwDial :: "demo \<Rightarrow> string \<Rightarrow> string + nat"
  dwRand :: "demo \<Rightarrow> lb_rand"
  dwWatch :: "demo \<Rightarrow> http_event list"
  dwDeliver :: "demo \<Rightarrow> nat"
  dwMapOrder :: "demo \<Rightarrow> (string \<times> int) list \<Rightarrow> (string \<times> int) list"
  dwLookupHost :: "demo \<Rightarrow> string \<Rightarrow> string + string list"
  dwLookupCNAME :: "demo \<Rightarrow> string \<Rightarrow> string + string"
  dwReach :: "demo \<Rightarrow> string \<Rightarrow> string option"
  dwFmt :: "f64 \<Rightarrow> string"
  dwFmt1 :: "f64 \<Rightarrow> string"
  dwJsonFmt :: "f64 \<Rightarrow> string"
  dwParse :: "string \<Rightarrow> f64 option"
  dwInst :: "json \<Rightarrow> Instance option"
  dwCfg :: "json option \<Rightarrow> string + CfgItem"
  dwJsonErr :: "string \<Rightarrow> string"
  dwSort :: "vnode list \<Rightarrow> vnode list"
  dwErr :: "client_err \<Rightarrow> string"
  dwConnErr :: "conn_err \<Rightarrow> string"
  dwGrpcErr :: "grpc_err \<Rightarrow> string"

section \<open>Statements\<close>

datatype flow = Next | Stop | Panic

type_synonym 'a prog = "(demo, 'a) state"

type_synonym stmt = "flow prog"

fun block :: "stmt list \<Rightarrow> stmt" where
  "block [] = State_Monad.return Next"
| "block (m # ms) = do { f \<leftarrow> m; if f = Next then block ms else State_Monad.return f }"

text \<open>A \<^verbatim>\<open>for\<close> over a range: a \<^verbatim>\<open>break\<close> ends the loop only.\<close>

fun for_each :: "('a \<Rightarrow> stmt) \<Rightarrow> 'a list \<Rightarrow> stmt" where
  "for_each b [] = State_Monad.return Next"
| "for_each b (x # xs) = do {
     f \<leftarrow> b x;
     case f of Next \<Rightarrow> for_each b xs | Stop \<Rightarrow> State_Monad.return Next | Panic \<Rightarrow> State_Monad.return Panic }"

text \<open>A function: a \<^verbatim>\<open>return\<close> ends the function only, and a \<^verbatim>\<open>defer\<close> runs however the rest ends.\<close>

definition func :: "stmt \<Rightarrow> stmt" where
  "func m = do { f \<leftarrow> m; State_Monad.return (if f = Stop then Next else f) }"

definition with_defer :: "unit prog \<Rightarrow> stmt \<Rightarrow> stmt" where
  "with_defer d m = do { f \<leftarrow> m; d; State_Monad.return f }"

section \<open>Printing and waiting\<close>

text \<open>
  The goroutine of the watch runs beside the program: before a line is printed and during a
  sleep, some of its pending contents are handed over, each printing a line and counting.
\<close>

definition watch_line :: "string \<Rightarrow> string" where
  "watch_line c = ''      [WATCH] Config changed! New value: '' @ c"

definition delivered :: "nat \<Rightarrow> demo \<Rightarrow> demo" where
  "delivered k s = s\<lparr>dmOut := dmOut s @ map watch_line (take k (dmPending s)), dmPending := drop k (dmPending s),
     dmChanges := dmChanges s + int (length (take k (dmPending s)))\<rparr>"

definition printed :: "string \<Rightarrow> demo \<Rightarrow> demo" where
  "printed l s = s\<lparr>dmOut := dmOut s @ [l]\<rparr>"

definition say :: "world \<Rightarrow> string \<Rightarrow> stmt" where
  "say E l = State (\<lambda>s. (Next, printed l (delivered (dwDeliver E s) s)))"

definition sleep :: "world \<Rightarrow> stmt" where
  "sleep E = State (\<lambda>s. (Next, delivered (dwDeliver E s) s))"

definition heading :: "world \<Rightarrow> string \<Rightarrow> stmt" where
  "heading E title = block [say E [], say E (''--- '' @ title @ '' ---'')]"

definition ok :: "world \<Rightarrow> string \<Rightarrow> stmt" where
  "ok E msg = say E (''  [OK] '' @ msg)"

definition fail :: "world \<Rightarrow> string \<Rightarrow> stmt" where
  "fail E msg = say E (''  [FAIL] '' @ msg)"

definition report :: "world \<Rightarrow> string + 'a \<Rightarrow> string \<Rightarrow> string \<Rightarrow> stmt" where
  "report E r bad good = (case r of Inl e \<Rightarrow> fail E (bad @ e) | Inr _ \<Rightarrow> ok E good)"

section \<open>Calls of the SDK\<close>

definition called :: "demo_call \<Rightarrow> bool \<Rightarrow> demo \<Rightarrow> demo" where
  "called k good s = s\<lparr>dmCalls := dmCalls s @ [(k, good)]\<rparr>"

definition attempt :: "demo_call \<Rightarrow> (demo \<Rightarrow> client \<times> (string + 'a)) \<Rightarrow> (string + 'a) prog" where
  "attempt k f = State (\<lambda>s. case f s of (c, r) \<Rightarrow> (r, called k (\<not> isl r) (s\<lparr>dmClient := c\<rparr>)))"

definition ask :: "demo_call \<Rightarrow> (demo \<Rightarrow> string + 'a) \<Rightarrow> (string + 'a) prog" where
  "ask k f = attempt k (\<lambda>s. (dmClient s, f s))"

definition call_outcome :: "('e \<Rightarrow> string) \<Rightarrow> 'e option \<Rightarrow> string + unit" where
  "call_outcome txt r = (case r of None \<Rightarrow> Inr () | Some e \<Rightarrow> Inl (txt e))"

text \<open>What each protocol makes of a call.\<close>

fun register :: "world \<Rightarrow> proto \<Rightarrow> RegisterOptions \<Rightarrow> (string + unit) prog" where
  "register E Http opts = ask (Register Http opts)
     (\<lambda>s. call_outcome (dwErr E) (client_RegisterInstance (dwFmt E) opts (dwHttp E s) (dmClient s)))"
| "register E Grpc opts = ask (Register Grpc opts)
     (\<lambda>s. call_outcome (dwGrpcErr E) (GRPCRegisterInstance opts (dwGrpc E s) (dmConns s)))"
| "register E Tcp opts = ask (Register Tcp opts)
     (\<lambda>s. call_outcome (dwConnErr E) (TCPRegisterInstance (dwJsonFmt E) opts (dwTcp E s) (dmConns s)))"

fun deregister :: "world \<Rightarrow> proto \<Rightarrow> string \<Rightarrow> string \<Rightarrow> string \<Rightarrow> string \<Rightarrow> string \<Rightarrow> int \<Rightarrow> (string + unit) prog" where
  "deregister E Http ns grp svc cl ip port = ask (Deregister Http ns grp svc cl ip port)
     (\<lambda>s. call_outcome (dwErr E) (client_DeregisterInstance ns grp svc cl ip port (dwHttp E s) (dmClient s)))"
| "deregister E Grpc ns grp svc cl ip port = ask (Deregister Grpc ns grp svc cl ip port)
     (\<lambda>s. call_outcome (dwGrpcErr E) (GRPCDeregisterInstance ns grp svc cl ip port (dwGrpc E s) (dmConns s)))"
| "deregister E Tcp ns grp svc cl ip port = ask (Deregister Tcp ns grp svc cl ip port)
     (\<lambda>s. call_outcome (dwConnErr E) (TCPDeregisterInstance ns grp svc cl ip port (dwTcp E s) (dmConns s)))"

fun beat :: "world \<Rightarrow> proto \<Rightarrow> string \<Rightarrow> string \<Rightarrow> string \<Rightarrow> string \<Rightarrow> string \<Rightarrow> int \<Rightarrow> (string + unit) prog" where
  "beat E Http ns grp svc cl ip port = ask (Beat Http ns grp svc cl ip port)
     (\<lambda>s. call_outcome (dwErr E) (SendHeartbeat ns grp svc cl ip port (dwHttp E s) (dmClient s)))"
| "beat E Grpc ns grp svc cl ip port = ask (Beat Grpc ns grp svc cl ip port)
     (\<lambda>s. call_outcome (dwGrpcErr E) (GRPCSendHeartbeat ns grp svc cl ip port (dwGrpc E s) (dmConns s)))"
| "beat E Tcp ns grp svc cl ip port = ask (Beat Tcp ns grp svc cl ip port)
     (\<lambda>s. call_outcome (dwConnErr E) (TCPSendHeartbeat ns grp svc cl ip port (dwTcp E s) (dmConns s)))"

fun discover :: "world \<Rightarrow> proto \<Rightarrow> string \<Rightarrow> string \<Rightarrow> string \<Rightarrow> bool \<Rightarrow> (string + Instance list) prog" where
  "discover E Http ns grp svc hl = ask (Discover Http ns grp svc hl)
     (\<lambda>s. map_sum (dwErr E) id (client_GetInstances (dwInst E) ns grp svc hl (dwHttp E s) (dmClient s)))"
| "discover E Grpc ns grp svc hl = ask (Discover Grpc ns grp svc hl)
     (\<lambda>s. map_sum (dwGrpcErr E) id (GRPCGetInstances ns grp svc hl (dwGrpc E s) (dmConns s)))"
| "discover E Tcp ns grp svc hl = ask (Discover Tcp ns grp svc hl)
     (\<lambda>s. map_sum (dwConnErr E) id (TCPGetInstances (dwParse E) (dwJsonErr E) ns grp svc hl (dwTcp E s) (dmConns s)))"

fun select :: "world \<Rightarrow> proto \<Rightarrow> string \<Rightarrow> string \<Rightarrow> string \<Rightarrow> LBStrategy \<Rightarrow> string \<Rightarrow> (string + Instance option) prog" where
  "select E Http ns grp svc st key = attempt (Select Http ns grp svc st key)
     (\<lambda>s. map_prod id (map_sum (dwErr E) id) (SelectInstanceWithKey (dwSort E) (dwRand E s) (dwInst E) ns grp svc
        (int (lb_code st)) key (dwHttp E s) (dmClient s)))"
| "select E Grpc ns grp svc st key = attempt (Select Grpc ns grp svc st key)
     (\<lambda>s. map_prod id (map_sum (dwGrpcErr E) id) (GRPCSelectInstanceWithKey (dwSort E) (dwRand E s) ns grp svc
        (int (lb_code st)) key (dwGrpc E s) (dmConns s) (dmClient s)))"
| "select E Tcp ns grp svc st key = attempt (Select Tcp ns grp svc st key)
     (\<lambda>s. map_prod id (map_sum (dwConnErr E) id) (TCPSelectInstance (dwSort E) (dwRand E s) (dwParse E) (dwJsonErr E)
        ns grp svc (int (lb_code st)) (dwTcp E s) (dmConns s) (dmClient s)))"

fun publish :: "world \<Rightarrow> proto \<Rightarrow> string \<Rightarrow> string \<Rightarrow> string \<Rightarrow> string \<Rightarrow> string \<Rightarrow> (string + unit) prog" where
  "publish E Http ns grp did content t = ask (Publish Http ns grp did content t)
     (\<lambda>s. call_outcome (dwErr E) (client_PublishConfig ns grp did content t (dwHttp E s) (dmClient s)))"
| "publish E Grpc ns grp did content t = ask (Publish Grpc ns grp did content t)
     (\<lambda>s. call_outcome (dwGrpcErr E) (GRPCPublishConfig ns grp did content t (dwGrpc E s) (dmConns s)))"
| "publish E Tcp ns grp did content t = ask (Publish Tcp ns grp did content t)
     (\<lambda>s. call_outcome (dwConnErr E) (TCPPublishConfig ns grp did content t (dwTcp E s) (dmConns s)))"

fun fetched :: "world \<Rightarrow> proto \<Rightarrow> string \<Rightarrow> string \<Rightarrow> string \<Rightarrow> demo \<Rightarrow> string + CfgItem" where
  "fetched E Http ns grp did s = map_sum (dwErr E) id (client_GetConfig (dwCfg E) ns grp did (dwHttp E s) (dmClient s))"
| "fetched E Grpc ns grp did s = map_sum (dwGrpcErr E) id (GRPCGetConfig ns grp did (dwGrpc E s) (dmConns s))"
| "fetched E Tcp ns grp did s = map_sum (dwConnErr E) id (TCPGetConfig (dwJsonErr E) ns grp did (dwTcp E s) (dmConns s))"

definition fetch :: "world \<Rightarrow> proto \<Rightarrow> string \<Rightarrow> string \<Rightarrow> string \<Rightarrow> (string + CfgItem) prog" where
  "fetch E p ns grp did = ask (Fetch p ns grp did) (fetched E p ns grp did)"

text \<open>The SDK deletes configurations over HTTP and TCP only; it has no such call over gRPC.\<close>

definition http_delete :: "world \<Rightarrow> string \<Rightarrow> string \<Rightarrow> string \<Rightarrow> (string + unit) prog" where
  "http_delete E ns grp did = ask (Delete Http ns grp did)
     (\<lambda>s. call_outcome (dwErr E) (client_DeleteConfig ns grp did (dwHttp E s) (dmClient s)))"

definition tcp_delete :: "world \<Rightarrow> string \<Rightarrow> string \<Rightarrow> string \<Rightarrow> (string + unit) prog" where
  "tcp_delete E ns grp did = ask (Delete Tcp ns grp did)
     (\<lambda>s. call_outcome (dwConnErr E) (TCPDeleteConfig ns grp did (dwTcp E s) (dmConns s)))"

fun health :: "world \<Rightarrow> proto \<Rightarrow> bool \<Rightarrow> string \<Rightarrow> string \<Rightarrow> string \<Rightarrow> string \<Rightarrow> int \<Rightarrow> (string + unit) prog" where
  "health E Http good ns grp svc ip port = ask (Report Http good ns grp svc ip port)
     (\<lambda>s. call_outcome (dwErr E) ((if good then client_ReportSuccess else client_ReportFailure) ns grp svc ip port
        (dwHttp E s) (dmClient s)))"
| "health E Grpc good ns grp svc ip port = ask (Report Grpc good ns grp svc ip port)
     (\<lambda>s. call_outcome (dwGrpcErr E) ((if good then GRPCReportSuccess else GRPCReportFailure) ns grp svc ip port
        (dwGrpc E s) (dmConns s)))"
| "health E Tcp good ns grp svc ip port = ask (Report Tcp good ns grp svc ip port)
     (\<lambda>s. call_outcome (dwConnErr E) ((if good then TCPReportSuccess else TCPReportFailure) ns grp svc ip port
        (dwTcp E s) (dmConns s)))"

definition ping :: "world \<Rightarrow> (string + string) prog" where
  "ping E = ask Ping (\<lambda>s. map_sum (dwConnErr E) id (TCPPing (dwTcp E s) (dmConns s)))"

definition on_client :: "demo_call \<Rightarrow> (client \<Rightarrow> client) \<Rightarrow> stmt" where
  "on_client k f = do { _ \<leftarrow> attempt k (\<lambda>s. (f (dmClient s), Inr ())); State_Monad.return Next }"

text \<open>The two connections.\<close>

fun connect :: "world \<Rightarrow> proto \<Rightarrow> string \<Rightarrow> (string + unit) prog" where
  "connect E p addr = State (\<lambda>s.
     (let d = dwDial E s addr;
          (C, r) = (case p of Http \<Rightarrow> (dmConns s, None) | Grpc \<Rightarrow> ConnectGRPC d (dmConns s) | Tcp \<Rightarrow> ConnectTCP d (dmConns s))
      in (call_outcome (dwConnErr E) r, called (Connect p d) (r = None) (s\<lparr>dmConns := C\<rparr>))))"

fun disconnect :: "proto \<Rightarrow> unit prog" where
  "disconnect p = State (\<lambda>s.
     ((), called (Disconnect p) True
            (s\<lparr>dmConns := (case p of Http \<Rightarrow> dmConns s | Grpc \<Rightarrow> CloseGRPC (dmConns s) | Tcp \<Rightarrow> CloseTCP (dmConns s))\<rparr>)))"

text \<open>
  Starting the watch fixes the contents it will hand over; after the cancellation at most
  one round is still under way, and it hands over one content at most.
\<close>

definition watch_config :: "world \<Rightarrow> string \<Rightarrow> string \<Rightarrow> string \<Rightarrow> stmt" where
  "watch_config E ns grp did = State (\<lambda>s. (Next,
     called (WatchCfg ns grp did) True
       (s\<lparr>dmPending := client_WatchConfig (dwCfg E) ns grp did (dwHttp E s) (dmClient s) (dwWatch E s)\<rparr>)))"

definition cancel_watch :: stmt where
  "cancel_watch = State (\<lambda>s. (Next, s\<lparr>dmPending := take 1 (dmPending s)\<rparr>))"

end
