(* ===== verification/DemoTests.thy ===== *)
theory DemoTests
  imports DemoClient
begin

text \<open>
  The tests of \<^verbatim>\<open>src/cmd/client/main.go\<close>, one definition for each, in the order of the
  program. The demo's own state and statements are those of \<^verbatim>\<open>DemoClient\<close>.
\<close>

abbreviation public :: string where "public \<equiv> ''public''"
abbreviation default_group :: string where "default_group \<equiv> ''DEFAULT_GROUP''"
abbreviation default_cluster :: string where "default_cluster \<equiv> ''DEFAULT''"

definition show_addr :: "string \<Rightarrow> int \<Rightarrow> string" where
  "show_addr ip port = ip @ '':'' @ itoa port"

section \<open>Registration\<close>

definition opts_of :: "string \<Rightarrow> string \<Rightarrow> string \<Rightarrow> string \<Rightarrow> int \<Rightarrow> f64 \<Rightarrow> string \<Rightarrow> RegisterOptions" where
  "opts_of ns grp svc ip port w meta = \<lparr>roNamespaceID = ns, roGroupName = grp, roServiceName = svc,
     roClusterName = [], roIP = ip, roPort = port, roWeight = w, roEphemeral = True, roMetadata = meta\<rparr>"

definition http_instances :: "RegisterOptions list" where
  "http_instances =
     [opts_of [] [] ''order-service'' ''192.168.1.10'' 8080 (Fin 1) ''{\"version\":\"v1.0\"}'',
      opts_of [] [] ''order-service'' ''192.168.1.11'' 8080 (Fin 2) ''{\"version\":\"v1.1\"}'',
      opts_of [] [] ''order-service'' ''192.168.1.12'' 8080 (Fin 3) ''{\"version\":\"v2.0\"}'',
      opts_of public default_group ''user-service'' ''192.168.2.10'' 9090 (Fin 1) []]"

definition register_one :: "world \<Rightarrow> nat \<times> RegisterOptions \<Rightarrow> stmt" where
  "register_one E p = (case p of (i, inst) \<Rightarrow> do {
     r \<leftarrow> register E Http inst;
     report E r (''Register instance '' @ itoa (int i + 1) @ '' failed: '')
       (''Registered: '' @ roServiceName inst @ ''/'' @ show_addr (roIP inst) (roPort inst) @
        '' (weight='' @ dwFmt1 E (roWeight inst) @ '')'') })"

definition testServiceRegistration :: "world \<Rightarrow> stmt" where
  "testServiceRegistration E = func (block
     [heading E ''1. Service Registration'', for_each (register_one E) (enumerate 0 http_instances)])"

section \<open>Discovery and load balancing\<close>

definition show_inst :: "world \<Rightarrow> Instance \<Rightarrow> string" where
  "show_inst E x = ''      -> '' @ show_addr (inIP x) (inPort x) @ '' (weight='' @ dwFmt1 E (inWeight x) @
     '', healthy='' @ bool_text (inHealthy x)"

definition list_instances :: "world \<Rightarrow> bool \<Rightarrow> Instance list \<Rightarrow> stmt" where
  "list_instances E meta = for_each (\<lambda>x.
     say E (show_inst E x @ (if meta then '', meta='' @ inMetadata x else []) @ '')''))"

text \<open>\<^verbatim>\<open>i\<close> calls of \<^verbatim>\<open>SelectInstance\<close> (or with a key), each shown; the first failure breaks the loop.\<close>

definition select_one :: "world \<Rightarrow> LBStrategy \<Rightarrow> string \<Rightarrow> string \<Rightarrow> string \<Rightarrow> nat \<Rightarrow> stmt" where
  "select_one E st key bad note i = do {
     r \<leftarrow> select E Http public default_group ''order-service'' st key;
     case r of
       Inl e \<Rightarrow> block [fail E (bad @ e), State_Monad.return Stop]
     | Inr None \<Rightarrow> State_Monad.return Panic
     | Inr (Some x) \<Rightarrow> say E (''      Call '' @ itoa (int i + 1) @ note @ '' -> '' @ show_addr (inIP x) (inPort x)) }"

definition bump :: "string \<Rightarrow> (string \<times> int) list \<Rightarrow> (string \<times> int) list" where
  "bump k cs = AList.update k (case map_of cs k of None \<Rightarrow> 1 | Some n \<Rightarrow> n + 1) cs"

text \<open>The counting loop returns the counts, or \<^const>\<open>None\<close> when a selection panics.\<close>

fun count_calls :: "world \<Rightarrow> nat \<Rightarrow> (string \<times> int) list \<Rightarrow> (string \<times> int) list option prog" where
  "count_calls E 0 cs = State_Monad.return (Some cs)"
| "count_calls E (Suc n) cs = do {
     r \<leftarrow> select E Http public default_group ''order-service'' LBWeightedRoundRobin [];
     case r of
       Inl e \<Rightarrow> do { _ \<leftarrow> fail E (''Weighted select failed: '' @ e); State_Monad.return (Some cs) }
     | Inr None \<Rightarrow> State_Monad.return None
     | Inr (Some x) \<Rightarrow> count_calls E n (bump (show_addr (inIP x) (inPort x)) cs) }"

definition show_counts :: "world \<Rightarrow> (string \<times> int) list \<Rightarrow> stmt" where
  "show_counts E cs = do {
     s \<leftarrow> State_Monad.get;
     for_each (\<lambda>(addr, cnt). say E (''      '' @ addr @ '' -> '' @ itoa cnt @ '' calls'')) (dwMapOrder E s cs) }"

definition count_weighted :: "world \<Rightarrow> stmt" where
  "count_weighted E = do {
     counts \<leftarrow> count_calls E 60 [];
     case counts of None \<Rightarrow> State_Monad.return Panic | Some cs \<Rightarrow> show_counts E cs }"

definition testServiceDiscovery :: "world \<Rightarrow> stmt" where
  "testServiceDiscovery E = func (block
     [heading E ''2. Service Discovery & Load Balancing'',
      do {
        r \<leftarrow> discover E Http public default_group ''order-service'' False;
        case r of
          Inl e \<Rightarrow> block [fail E (''GetInstances failed: '' @ e), State_Monad.return Stop]
        | Inr xs \<Rightarrow> block
            [ok E (''Found '' @ itoa (int (length xs)) @ '' instances for order-service''), list_instances E True xs] },
      say E ''  [LB] Round-Robin (3 calls):'',
      for_each (select_one E LBRoundRobin [] ''RoundRobin select failed: '' []) [0..<3],
      say E ''  [LB] Random (3 calls):'',
      for_each (select_one E LBRandom [] ''Random select failed: '' []) [0..<3],
      say E ''  [LB] Weighted (6 calls, weights 1:2:3):'',
      count_weighted E,
      ok E ''Load balancing strategies working'',
      say E ''  [LB] Consistent Hashing (same key -> same instance):'',
      for_each (select_one E LBConsistentHash ''user-123'' ''ConsistentHash select failed: '' '' (key=user-123)'') [0..<5],
      ok E ''Consistent hashing: same key always maps to same instance''])"

section \<open>Heartbeat\<close>

definition beat_1 :: string where
  "beat_1 = beat_key public default_group ''order-service'' default_cluster ''192.168.1.11'' 8080"

definition testHeartbeat :: "world \<Rightarrow> stmt" where
  "testHeartbeat E = func (block
     [heading E ''3. Heartbeat Mechanism'',
      do {
        r \<leftarrow> beat E Http public default_group ''order-service'' default_cluster ''192.168.1.10'' 8080;
        report E r ''Manual heartbeat failed: '' ''Manual heartbeat sent for order-service/192.168.1.10:8080'' },
      on_client (StartBeat beat_1) (StartAutoHeartbeat beat_1),
      ok E ''Auto-heartbeat started for order-service/192.168.1.11:8080 (interval=5s)'',
      say E ''      Waiting 6 seconds to observe heartbeats...'',
      sleep E,
      on_client (StopBeat beat_1) (StopAutoHeartbeat beat_1),
      ok E ''Auto-heartbeat stopped''])"

section \<open>Configurations\<close>

definition nl :: string where
  "nl = [CHR 0x0A]"

definition demo_configs :: "(string \<times> string \<times> string) list" where
  "demo_configs =
     [(''application.yaml'',
       ''server:'' @ nl @ ''  port: 8080'' @ nl @ ''spring:'' @ nl @ ''  datasource:'' @ nl @
       ''    url: jdbc:mysql://localhost:3306/mydb'', ''yaml''),
      (''database.properties'',
       ''db.host=localhost'' @ nl @ ''db.port=3306'' @ nl @ ''db.name=benbroo'' @ nl @ ''db.user=root'', ''properties''),
      (''feature-flags'', ''{\"enableNewUI\":true,\"enableCache\":false,\"maxRetries\":3}'', ''json'')]"

definition publish_one :: "world \<Rightarrow> string \<times> string \<times> string \<Rightarrow> stmt" where
  "publish_one E cfg = (case cfg of (did, content, t) \<Rightarrow> do {
     r \<leftarrow> publish E Http public default_group did content t;
     report E r (''Publish '' @ did @ '' failed: '') (''Published config: '' @ did @ '' (type='' @ t @ '')'') })"

text \<open>\<^verbatim>\<open>s[:n]\<close> panics when the string is shorter.\<close>

definition slice_to :: "nat \<Rightarrow> string \<Rightarrow> string option" where
  "slice_to n s = (if n \<le> length s then Some (take n s) else None)"

definition preview :: "string \<Rightarrow> string" where
  "preview content = (if 50 < length content then take 50 content @ ''...'' else content)"

definition got :: "world \<Rightarrow> string + CfgItem \<Rightarrow> string \<Rightarrow> (string \<Rightarrow> CfgItem \<Rightarrow> string) \<Rightarrow> stmt" where
  "got E r bad good = (case r of
       Inl e \<Rightarrow> fail E (bad @ e)
     | Inr item \<Rightarrow> (case slice_to 12 (cgMD5 item) of
                      None \<Rightarrow> State_Monad.return Panic
                    | Some digest \<Rightarrow> ok E (good digest item)))"

definition get_one :: "world \<Rightarrow> string \<times> string \<times> string \<Rightarrow> stmt" where
  "get_one E cfg = (case cfg of (did, _, _) \<Rightarrow> do {
     r \<leftarrow> fetch E Http public default_group did;
     got E r (''Get '' @ did @ '' failed: '')
       (\<lambda>digest item. ''Got config: '' @ cgDataID item @ '' (md5='' @ digest @ '') -> '' @ preview (cgContent item)) })"

definition testConfigManagement :: "world \<Rightarrow> stmt" where
  "testConfigManagement E = func (block
     [heading E ''4. Config Management (Pull/Publish/Delete)'',
      for_each (publish_one E) demo_configs,
      for_each (get_one E) demo_configs,
      do {
        r \<leftarrow> publish E Http public default_group ''application.yaml''
          (''server:'' @ nl @ ''  port: 9090'' @ nl @ ''spring:'' @ nl @ ''  datasource:'' @ nl @
           ''    url: jdbc:mysql://localhost:3306/prod_db'') ''yaml'';
        report E r ''Update config failed: '' ''Updated config: application.yaml (port changed to 9090)'' },
      do {
        r \<leftarrow> http_delete E public default_group ''feature-flags'';
        report E r ''Delete config failed: '' ''Deleted config: feature-flags'' }])"

section \<open>Watching\<close>

definition publish_update :: "world \<Rightarrow> nat \<Rightarrow> stmt" where
  "publish_update E i = block
     [sleep E,
      (let new_val = ''updated-value-'' @ itoa (int i) in do {
        r \<leftarrow> publish E Http public default_group ''watch-test'' new_val ''text'';
        case r of
          Inl e \<Rightarrow> fail E (''Publish update '' @ itoa (int i) @ '' failed: '' @ e)
        | Inr _ \<Rightarrow> say E (''      [PUB] Published update: '' @ new_val) })]"

definition testConfigWatch :: "world \<Rightarrow> stmt" where
  "testConfigWatch E = func (block
     [heading E ''5. Config Watch (Long Polling)'',
      do { _ \<leftarrow> publish E Http public default_group ''watch-test'' ''initial-value'' ''text''; State_Monad.return Next },
      watch_config E public default_group ''watch-test'',
      ok E ''Watching config 'watch-test' for changes...'',
      for_each (publish_update E) [1..<3],
      sleep E,
      cancel_watch,
      do {
        s \<leftarrow> State_Monad.get;
        if 0 < dmChanges s then ok E (''Config watch received '' @ itoa (dmChanges s) @ '' change(s)'')
        else say E ''      [INFO] Watch did not detect changes (may need longer polling)'' }])"

section \<open>Health\<close>

definition report_one :: "world \<Rightarrow> bool \<Rightarrow> string \<Rightarrow> string \<Rightarrow> nat \<Rightarrow> stmt" where
  "report_one E good bad ip _ = do {
     r \<leftarrow> health E Http good public default_group ''order-service'' ip 8080;
     case r of Inl e \<Rightarrow> fail E (bad @ e) | Inr _ \<Rightarrow> State_Monad.return Next }"

definition testHealthReporting :: "world \<Rightarrow> stmt" where
  "testHealthReporting E = func (block
     [heading E ''6. Health Reporting (Passive Check)'',
      for_each (report_one E True ''ReportSuccess failed: '' ''192.168.1.10'') [0..<3],
      ok E ''Reported 3 successes for order-service/192.168.1.10:8080'',
      for_each (report_one E False ''ReportFailure failed: '' ''192.168.1.12'') [0..<3],
      ok E ''Reported 3 failures for order-service/192.168.1.12:8080'',
      do {
        r \<leftarrow> discover E Http public default_group ''order-service'' False;
        case r of
          Inl e \<Rightarrow> fail E (''GetInstances for health check failed: '' @ e)
        | Inr xs \<Rightarrow> block
            [for_each (\<lambda>x. say E (''      '' @ show_addr (inIP x) (inPort x) @ '' -> '' @
               (if inHealthy x then ''HEALTHY'' else ''UNHEALTHY''))) xs,
             ok E ''Health status retrieved''] }])"

end
