(* ===== verification/DemoMain.thy ===== *)
theory DemoMain
  imports DemoTests
begin

text \<open>
  The second half of \<^verbatim>\<open>src/cmd/client/main.go\<close>: the tests of the protocols, the cleanup and
  \<^verbatim>\<open>main\<close>, which runs everything in turn. A protocol test connects, defers the closing of the
  connection and runs its session.
\<close>

definition grpcServerAddr :: string where "grpcServerAddr = ''localhost:9848''"
definition tcpServerAddr :: string where "tcpServerAddr = ''localhost:6848''"

definition chosen :: "world \<Rightarrow> string + Instance option \<Rightarrow> string \<Rightarrow> string \<Rightarrow> string \<Rightarrow> stmt" where
  "chosen E r bad pre post = (case r of
       Inl e \<Rightarrow> fail E (bad @ e)
     | Inr None \<Rightarrow> State_Monad.return Panic
     | Inr (Some x) \<Rightarrow> ok E (pre @ show_addr (inIP x) (inPort x) @ post))"

definition found :: "world \<Rightarrow> string + Instance list \<Rightarrow> string \<Rightarrow> string \<Rightarrow> string \<Rightarrow> stmt" where
  "found E r bad pre post = (case r of
       Inl e \<Rightarrow> fail E (bad @ e)
     | Inr xs \<Rightarrow> block [ok E (pre @ itoa (int (length xs)) @ post), list_instances E False xs])"

section \<open>gRPC\<close>

abbreviation grpc_service :: string where "grpc_service \<equiv> ''grpc-test-service''"

definition grpc_instances :: "RegisterOptions list" where
  "grpc_instances =
     [opts_of [] [] grpc_service ''10.0.0.1'' 7070 (Fin (3 / 2)) [], opts_of [] [] grpc_service ''10.0.0.2'' 7070 (Fin (5 / 2)) []]"

definition grpc_first :: "world \<Rightarrow> stmt" where
  "grpc_first E = do {
     r \<leftarrow> register E Grpc (grpc_instances ! 0);
     case r of
       Inl e \<Rightarrow> block [fail E (''gRPC RegisterInstance failed: '' @ e), State_Monad.return Stop]
     | Inr _ \<Rightarrow> ok E ''gRPC: Registered grpc-test-service/10.0.0.1:7070'' }"

definition grpc_calls :: "world \<Rightarrow> stmt list" where
  "grpc_calls E =
     [do {
        r \<leftarrow> register E Grpc (grpc_instances ! 1);
        report E r ''gRPC RegisterInstance #2 failed: '' ''gRPC: Registered grpc-test-service/10.0.0.2:7070'' },
      do {
        r \<leftarrow> beat E Grpc public default_group grpc_service default_cluster ''10.0.0.1'' 7070;
        report E r ''gRPC Heartbeat failed: '' ''gRPC: Heartbeat sent for grpc-test-service/10.0.0.1:7070'' },
      do {
        r \<leftarrow> discover E Grpc public default_group grpc_service False;
        found E r ''gRPC GetInstances failed: '' ''gRPC: Found '' '' instances for grpc-test-service'' },
      do {
        r \<leftarrow> select E Grpc public default_group grpc_service LBConsistentHash [];
        chosen E r ''gRPC SelectInstance failed: '' ''gRPC: Selected instance '' '' via ConsistentHash'' },
      do {
        r \<leftarrow> publish E Grpc public default_group ''grpc-config-test'' ''grpc-value-1'' ''text'';
        report E r ''gRPC PublishConfig failed: '' ''gRPC: Published config grpc-config-test'' },
      do {
        r \<leftarrow> fetch E Grpc public default_group ''grpc-config-test'';
        got E r ''gRPC GetConfig failed: ''
          (\<lambda>digest item. ''gRPC: Got config (content='' @ cgContent item @ '', md5='' @ digest @ '')'') },
      do {
        r \<leftarrow> health E Grpc True public default_group grpc_service ''10.0.0.1'' 7070;
        report E r ''gRPC ReportSuccess failed: '' ''gRPC: Reported success for grpc-test-service/10.0.0.1:7070'' },
      do {
        r \<leftarrow> health E Grpc False public default_group grpc_service ''10.0.0.2'' 7070;
        report E r ''gRPC ReportFailure failed: '' ''gRPC: Reported failure for grpc-test-service/10.0.0.2:7070'' },
      do {
        r \<leftarrow> deregister E Grpc public default_group grpc_service default_cluster ''10.0.0.1'' 7070;
        report E r ''gRPC Deregister #1 failed: '' ''gRPC: Deregistered grpc-test-service/10.0.0.1:7070'' },
      do {
        r \<leftarrow> deregister E Grpc public default_group grpc_service default_cluster ''10.0.0.2'' 7070;
        report E r ''gRPC Deregister #2 failed: '' ''gRPC: Deregistered grpc-test-service/10.0.0.2:7070'' }]"

definition testGRPC :: "world \<Rightarrow> stmt" where
  "testGRPC E = func (block
     [heading E ''7. gRPC Protocol'',
      do {
        r \<leftarrow> connect E Grpc grpcServerAddr;
        case r of
          Inl e \<Rightarrow> block
            [fail E (''gRPC connect failed: '' @ e),
             say E ''      Skipping gRPC tests (server may not be running gRPC)'', State_Monad.return Stop]
        | Inr _ \<Rightarrow> block
            [ok E (''Connected to gRPC server at '' @ grpcServerAddr),
             with_defer (disconnect Grpc) (block (grpc_first E # grpc_calls E))] }])"

section \<open>DNS\<close>

text \<open>
  \<open>dwReach\<close> is \<^verbatim>\<open>net.DialTimeout\<close> to the DNS server over the network it names, its error if any;
  the lookups are the resolver's. Slices are printed by \<^verbatim>\<open>%v\<close> in brackets.
\<close>

fun join_sp :: "string list \<Rightarrow> string" where
  "join_sp [] = []"
| "join_sp [x] = x"
| "join_sp (x # y # xs) = x @ '' '' @ join_sp (y # xs)"

definition show_list :: "string list \<Rightarrow> string" where
  "show_list xs = ''['' @ join_sp xs @ '']''"

definition dns_name :: string where
  "dns_name = ''order-service.DEFAULT_GROUP.public.benbroo.''"

definition testDNS :: "world \<Rightarrow> stmt" where
  "testDNS E = func (block
     [heading E ''8. DNS Service Discovery'',
      do {
        s \<leftarrow> State_Monad.get;
        case dwLookupHost E s dns_name of
          Inl e \<Rightarrow> block
            [say E (''      [INFO] DNS A record lookup for '' @ dns_name @ '': '' @ e),
             say E ''      (DNS server may not be accessible or no instances registered)'']
        | Inr ips \<Rightarrow> ok E (''DNS A record: '' @ dns_name @ '' -> '' @ show_list ips) },
      say E ''  [DNS] Attempting SRV lookup via direct UDP query...'',
      do {
        s \<leftarrow> State_Monad.get;
        case dwReach E s ''udp'' of
          Some e \<Rightarrow> block [say E (''      [INFO] Cannot connect to DNS server: '' @ e), State_Monad.return Stop]
        | None \<Rightarrow> State_Monad.return Next },
      do {
        s \<leftarrow> State_Monad.get;
        case dwLookupCNAME E s dns_name of
          Inl e \<Rightarrow> say E (''      [INFO] DNS CNAME lookup: '' @ e @ '' (expected for non-CNAME records)'')
        | Inr cname \<Rightarrow> ok E (''DNS CNAME: '' @ dns_name @ '' -> '' @ cname) },
      do {
        s \<leftarrow> State_Monad.get;
        case dwReach E s ''tcp'' of
          Some _ \<Rightarrow> say E ''      [INFO] DNS TCP port not reachable (server may not have started DNS)''
        | None \<Rightarrow> ok E ''DNS server is listening on port 8553 (TCP)'' }])"

section \<open>TCP\<close>

abbreviation tcp_service :: string where "tcp_service \<equiv> ''tcp-test-service''"

definition tcp_instances :: "RegisterOptions list" where
  "tcp_instances =
     [opts_of [] [] tcp_service ''10.1.0.1'' 5050 (Fin (3 / 2)) [], opts_of [] [] tcp_service ''10.1.0.2'' 5050 (Fin (5 / 2)) []]"

definition tcp_first :: "world \<Rightarrow> stmt list" where
  "tcp_first E =
     [do {
        pong \<leftarrow> ping E;
        case pong of
          Inl e \<Rightarrow> block [fail E (''TCP PING failed: '' @ e), State_Monad.return Stop]
        | Inr p \<Rightarrow> ok E (''TCP PING -> '' @ p) },
      do {
        r \<leftarrow> register E Tcp (tcp_instances ! 0);
        case r of
          Inl e \<Rightarrow> block [fail E (''TCP RegisterInstance failed: '' @ e), State_Monad.return Stop]
        | Inr _ \<Rightarrow> ok E ''TCP: Registered tcp-test-service/10.1.0.1:5050'' }]"

definition tcp_calls :: "world \<Rightarrow> stmt list" where
  "tcp_calls E =
     [do {
        r \<leftarrow> register E Tcp (tcp_instances ! 1);
        report E r ''TCP RegisterInstance #2 failed: '' ''TCP: Registered tcp-test-service/10.1.0.2:5050'' },
      do {
        r \<leftarrow> beat E Tcp public default_group tcp_service default_cluster ''10.1.0.1'' 5050;
        report E r ''TCP Heartbeat failed: '' ''TCP: Heartbeat sent for tcp-test-service/10.1.0.1:5050'' },
      do {
        r \<leftarrow> discover E Tcp public default_group tcp_service False;
        found E r ''TCP GetInstances failed: '' ''TCP: Found '' '' instances for tcp-test-service'' },
      do {
        r \<leftarrow> select E Tcp public default_group tcp_service LBRoundRobin [];
        chosen E r ''TCP SelectInstance failed: '' ''TCP: Selected instance '' '' via RoundRobin'' },
      do {
        r \<leftarrow> publish E Tcp public default_group ''tcp-config-test'' ''tcp-value-1'' ''text'';
        report E r ''TCP PublishConfig failed: '' ''TCP: Published config tcp-config-test'' },
      do {
        r \<leftarrow> fetch E Tcp public default_group ''tcp-config-test'';
        got E r ''TCP GetConfig failed: ''
          (\<lambda>digest item. ''TCP: Got config (content='' @ cgContent item @ '', md5='' @ digest @ '')'') },
      do {
        r \<leftarrow> health E Tcp True public default_group tcp_service ''10.1.0.1'' 5050;
        report E r ''TCP ReportSuccess failed: '' ''TCP: Reported success for tcp-test-service/10.1.0.1:5050'' },
      do {
        r \<leftarrow> health E Tcp False public default_group tcp_service ''10.1.0.2'' 5050;
        report E r ''TCP ReportFailure failed: '' ''TCP: Reported failure for tcp-test-service/10.1.0.2:5050'' },
      do {
        r \<leftarrow> deregister E Tcp public default_group tcp_service default_cluster ''10.1.0.1'' 5050;
        report E r ''TCP Deregister #1 failed: '' ''TCP: Deregistered tcp-test-service/10.1.0.1:5050'' },
      do {
        r \<leftarrow> deregister E Tcp public default_group tcp_service default_cluster ''10.1.0.2'' 5050;
        report E r ''TCP Deregister #2 failed: '' ''TCP: Deregistered tcp-test-service/10.1.0.2:5050'' },
      do {
        r \<leftarrow> tcp_delete E public default_group ''tcp-config-test'';
        report E r ''TCP DeleteConfig failed: '' ''TCP: Deleted config tcp-config-test'' }]"

definition testTCP :: "world \<Rightarrow> stmt" where
  "testTCP E = func (block
     [heading E ''9. TCP Socket Protocol'',
      do {
        r \<leftarrow> connect E Tcp tcpServerAddr;
        case r of
          Inl e \<Rightarrow> block
            [fail E (''TCP connect failed: '' @ e),
             say E ''      Skipping TCP tests (server may not be running TCP)'', State_Monad.return Stop]
        | Inr _ \<Rightarrow> block
            [ok E (''Connected to TCP server at '' @ tcpServerAddr),
             with_defer (disconnect Tcp) (block (tcp_first E @ tcp_calls E))] }])"

section \<open>Cleanup and the whole program\<close>

definition demo_left :: "(string \<times> string \<times> int) list" where
  "demo_left =
     [(''order-service'', ''192.168.1.10'', 8080), (''order-service'', ''192.168.1.11'', 8080),
      (''order-service'', ''192.168.1.12'', 8080), (''user-service'', ''192.168.2.10'', 9090)]"

definition deregister_one :: "world \<Rightarrow> string \<times> string \<times> int \<Rightarrow> stmt" where
  "deregister_one E x = (case x of (svc, ip, port) \<Rightarrow> do {
     r \<leftarrow> deregister E Http public default_group svc default_cluster ip port;
     report E r (''Deregister '' @ svc @ ''/'' @ show_addr ip port @ '' failed: '')
       (''Deregistered: '' @ svc @ ''/'' @ show_addr ip port) })"

definition delete_one :: "world \<Rightarrow> string \<Rightarrow> stmt" where
  "delete_one E did = do {
     r \<leftarrow> http_delete E public default_group did;
     case r of
       Inl e \<Rightarrow> say E (''      [WARN] Delete config '' @ did @ '': '' @ e)
     | Inr _ \<Rightarrow> ok E (''Deleted config: '' @ did) }"

definition testCleanup :: "world \<Rightarrow> stmt" where
  "testCleanup E = func (block
     [heading E ''10. Cleanup'',
      on_client StopBeats StopAllHeartbeats,
      ok E ''Stopped all heartbeats'',
      for_each (deregister_one E) demo_left,
      for_each (delete_one E) [''application.yaml'', ''database.properties'', ''watch-test'']])"

definition rule_line :: string where
  "rule_line = replicate 40 CHR ''=''"

definition demo_body :: "world \<Rightarrow> stmt" where
  "demo_body E = block
     [say E rule_line, say E ''  Benbroo Client SDK - Full Feature Test'', say E rule_line, say E [],
      testServiceRegistration E, testServiceDiscovery E, testHeartbeat E, testConfigManagement E, testConfigWatch E,
      testHealthReporting E, testGRPC E, testDNS E, testTCP E, testCleanup E,
      say E [], say E rule_line, say E ''  All tests completed!'', say E rule_line]"

definition demo_start :: demo where
  "demo_start = \<lparr>dmClient = NewClient ''http://localhost:8848'', dmConns = no_conns, dmOut = [], dmCalls = [],
     dmPending = [], dmChanges = 0\<rparr>"

definition demo_run :: "world \<Rightarrow> flow \<times> demo" where
  "demo_run E = run_state (demo_body E) demo_start"

end
