(* ===== verification/DemoRun.thy ===== *)
theory DemoRun
  imports DemoMain
begin

text \<open>
  What a run of the demo program shows, whatever the servers do. Statements are reasoned about
  with triples; the program is gone through once, in a locale that says what an assertion must
  survive (a printed line, a call, a step of the watch), and each property is an
  interpretation of it.
\<close>

declare block.simps(2) [simp del] for_each.simps(2) [simp del]

section \<open>Triples\<close>

definition triple :: "(demo \<Rightarrow> bool) \<Rightarrow> 'a prog \<Rightarrow> ('a \<Rightarrow> demo \<Rightarrow> bool) \<Rightarrow> bool" where
  "triple P m Q \<longleftrightarrow> (\<forall>s. P s \<longrightarrow> Q (fst (run_state m s)) (snd (run_state m s)))"

lemma triple_run: "triple P m Q \<Longrightarrow> P s \<Longrightarrow> run_state m s = (x, s') \<Longrightarrow> Q x s'"
  by (fastforce simp: triple_def)

lemma triple_return: "(\<And>s. P s \<Longrightarrow> Q x s) \<Longrightarrow> triple P (State_Monad.return x) Q"
  by (simp add: triple_def)

lemma triple_bind:
  "triple P m Q \<Longrightarrow> (\<And>x. triple (Q x) (f x) R) \<Longrightarrow> triple P (State_Monad.bind m f) R"
  by (fastforce simp: triple_def split_beta)

lemma triple_get: "(\<And>s. triple P (f s) Q) \<Longrightarrow> triple P (State_Monad.bind State_Monad.get f) Q"
  by (auto simp: triple_def)

lemma triple_weaken: "triple P m Q \<Longrightarrow> (\<And>x s. Q x s \<Longrightarrow> R x s) \<Longrightarrow> triple P m R"
  by (simp add: triple_def)

lemma triple_pre: "triple P m Q \<Longrightarrow> (\<And>s. R s \<Longrightarrow> P s) \<Longrightarrow> triple R m Q"
  by (simp add: triple_def)

lemma triple_both: "triple P m Q \<Longrightarrow> triple P' m Q' \<Longrightarrow> triple (\<lambda>s. P s \<and> P' s) m (\<lambda>x s. Q x s \<and> Q' x s)"
  by (simp add: triple_def)

lemma block_append: "block (ms @ ns) = do { f \<leftarrow> block ms; if f = Next then block ns else State_Monad.return f }"
proof (induction ms)
  case (Cons m ms)
  show ?case by (rule state_ext) (simp add: Cons block.simps(2) split_beta)
qed (rule state_ext, simp)

section \<open>What a run is judged by\<close>

definition is_fail :: "string \<Rightarrow> bool" where
  "is_fail l \<longleftrightarrow> has_prefix l ''  [FAIL] ''"

lemmas line_simps = is_fail_def has_prefix_def

definition rr_ok :: "client \<Rightarrow> bool" where
  "rr_ok c \<longleftrightarrow> (\<forall>key. 0 \<le> clRR c key)"

text \<open>
  The failures the program does not call failures: those of the publication that only makes
  sure the watched configuration exists, and of the deletions of the cleanup.
\<close>

definition counted :: "demo_call \<Rightarrow> bool" where
  "counted k \<longleftrightarrow> (case k of
     Publish p ns grp did content t \<Rightarrow> \<not> (p = Http \<and> content = ''initial-value'')
   | Delete p ns grp did \<Rightarrow> \<not> (p = Http \<and> did \<noteq> ''feature-flags'')
   | _ \<Rightarrow> True)"

fun registered :: "proto \<Rightarrow> RegisterOptions list" where
  "registered Http = http_instances"
| "registered Grpc = grpc_instances"
| "registered Tcp = tcp_instances"

definition demo_data :: "(proto \<times> string) list" where
  "demo_data = [(Http, ''application.yaml''), (Http, ''database.properties''), (Http, ''feature-flags''), (Http, ''watch-test''),
     (Grpc, ''grpc-config-test''), (Tcp, ''tcp-config-test'')]"

text \<open>
  The calls of the tests, apart from the connections; \<open>T\<close> are the services and data ids that may
  be created, and says whether the deletions of the cleanup may be called.
\<close>

definition cleanup :: string where
  "cleanup = ''cleanup''"

lemma cleanup_apart [simp]: "cleanup \<noteq> ''feature-flags''" "cleanup \<noteq> ''tcp-config-test''" "cleanup \<noteq> grpc_service"
  "cleanup \<noteq> tcp_service" "grpc_service \<noteq> cleanup" "tcp_service \<noteq> cleanup"
  by (simp_all add: cleanup_def)

definition demo_makes :: "string set \<Rightarrow> demo_call \<Rightarrow> bool" where
  "demo_makes T k \<longleftrightarrow> (case k of
     Register p opts \<Rightarrow> roServiceName opts \<in> T \<and> opts \<in> set (registered p)
   | Publish p ns grp did content t \<Rightarrow> did \<in> T \<and> ns = public \<and> grp = default_group \<and> (p, did) \<in> set demo_data
   | Delete p ns grp did \<Rightarrow> p \<noteq> Grpc \<and> (p, did) \<in> set demo_data \<and> (counted k \<or> cleanup \<in> T)
   | Connect p d \<Rightarrow> False
   | Disconnect p \<Rightarrow> False
   | _ \<Rightarrow> True)"

lemmas call_simps = demo_makes_def counted_def demo_data_def

text \<open>The selections never fail to name an instance while the counters are not negative.\<close>

lemma pick_by_ok:
  assumes "rr_ok c" "xs \<noteq> []"
  shows "rr_ok (fst (pick_by srt rnd st key hk xs c)) \<and> snd (pick_by srt rnd st key hk xs c) \<noteq> None"
proof -
  have "0 \<le> go_mod (clRR c key) (int (length xs))"
    using assms pos_mod_sign [of "int (length xs)" "clRR c key"] spec [of "\<lambda>k. 0 \<le> clRR c k" key]
    by (simp add: rr_ok_def go_mod_def sgn_if)
  then show ?thesis
    using assms by (auto simp: pick_by_def roundRobin_def rr_ok_def Let_def split: option.splits LBStrategy.splits)
qed

lemma select_ok:
  assumes "rr_ok c"
  shows "rr_ok (fst (SelectInstanceWithKey srt rnd dec ns grp svc st hk net c)) \<and>
      snd (SelectInstanceWithKey srt rnd dec ns grp svc st hk net c) \<noteq> Inr None"
    and "rr_ok (fst (GRPCSelectInstanceWithKey srt rnd ns grp svc st hk gnet C c)) \<and>
      snd (GRPCSelectInstanceWithKey srt rnd ns grp svc st hk gnet C c) \<noteq> Inr None"
    and "rr_ok (fst (TCPSelectInstance srt rnd pf jerr ns grp svc st tnet C c)) \<and>
      snd (TCPSelectInstance srt rnd pf jerr ns grp svc st tnet C c) \<noteq> Inr None"
  using pick_by_ok [OF assms] assms
  by (auto simp: SelectInstanceWithKey_def GRPCSelectInstanceWithKey_def TCPSelectInstance_def split: sum.split)

section \<open>The program under an assertion\<close>

text \<open>
  \<open>I n\<close> is the assertion when \<open>n\<close> failures have still to be reported; under \<open>safe\<close> nothing
  panics.
\<close>

locale demo_logic =
  fixes E :: world and T :: "string set" and I :: "nat \<Rightarrow> demo \<Rightarrow> bool" and safe :: bool
  assumes print_law: "I n s \<Longrightarrow> \<not> is_fail l \<Longrightarrow> I n (printed l s)"
    and fail_law: "I (Suc n) s \<Longrightarrow> I n (printed (''  [FAIL] '' @ l) s)"
    and deliver_law: "I n s \<Longrightarrow> I n (delivered j s)"
    and pending_law: "I n s \<Longrightarrow> I n (s\<lparr>dmPending := cs\<rparr>)"
    and call_law: "I n s \<Longrightarrow> demo_makes T k \<Longrightarrow> I (if \<not> good \<and> counted k then Suc n else n) (called k good s)"
    and client_law: "I n s \<Longrightarrow> (rr_ok (dmClient s) \<Longrightarrow> rr_ok c) \<Longrightarrow> I n (s\<lparr>dmClient := c\<rparr>)"
    and rr_law: "safe \<Longrightarrow> I n s \<Longrightarrow> rr_ok (dmClient s)"
    and digest_law: "safe \<Longrightarrow> fetched E p ns grp did s = Inr it \<Longrightarrow> 12 \<le> length (cgMD5 it)"
begin

definition fine :: "stmt \<Rightarrow> bool" where
  "fine m \<longleftrightarrow> triple (I 0) m (\<lambda>f s. I 0 s \<and> (safe \<longrightarrow> f \<noteq> Panic))"

definition owes :: "stmt \<Rightarrow> bool" where
  "owes m \<longleftrightarrow> triple (I (Suc 0)) m (\<lambda>f s. I 0 s \<and> (safe \<longrightarrow> f \<noteq> Panic))"

lemma fine_return: "f = Next \<or> f = Stop \<Longrightarrow> fine (State_Monad.return f)"
  by (auto simp: fine_def triple_def)

lemma fine_block: "(\<And>m. m \<in> set ms \<Longrightarrow> fine m) \<Longrightarrow> fine (block ms)"
proof (induction ms)
  case (Cons m ms)
  then have "fine m" "fine (block ms)" by simp_all
  then show ?case by (auto simp: fine_def triple_def block.simps(2) split_beta)
qed (simp add: fine_return)

lemma fine_for: "(\<And>x. x \<in> set xs \<Longrightarrow> fine (b x)) \<Longrightarrow> fine (for_each b xs)"
proof (induction xs)
  case (Cons x xs)
  then have "fine (b x)" "fine (for_each b xs)" by simp_all
  then show ?case by (fastforce simp: fine_def triple_def for_each.simps(2) split_beta split: flow.split)
qed (simp add: fine_return)

lemma fine_func: "fine m \<Longrightarrow> fine (func m)"
  by (auto simp: fine_def triple_def func_def split_beta)

lemma fine_get: "(\<And>s. fine (f s)) \<Longrightarrow> fine (State_Monad.bind State_Monad.get f)"
  unfolding fine_def by (rule triple_get)

lemma fine_say: "\<not> is_fail l \<Longrightarrow> fine (say E l)"
  by (simp add: fine_def triple_def say_def print_law deliver_law)

lemma fine_sleep: "fine (sleep E)"
  by (simp add: fine_def triple_def sleep_def deliver_law)

lemma fine_ok: "fine (ok E msg)"
  unfolding ok_def by (rule fine_say) (simp add: is_fail_def has_prefix_def)

lemma fine_heading: "fine (heading E title)"
  unfolding heading_def by (rule fine_block) (auto intro!: fine_say simp: is_fail_def has_prefix_def)

lemma owes_fail: "owes (fail E msg)"
  by (simp add: owes_def triple_def fail_def say_def fail_law [simplified] deliver_law)

lemma owes_block: "(\<And>m. m \<in> set ms \<Longrightarrow> fine m) \<Longrightarrow> owes (block (fail E msg # ms))"
  using owes_fail [of msg] fine_block [of ms] by (auto simp: owes_def fine_def triple_def block.simps(2) split_beta)

lemma fine_attempt:
  assumes "demo_makes T k" "counted k" "\<And>s. rr_ok (dmClient s) \<Longrightarrow> rr_ok (fst (f s))"
    and "\<And>e. owes (g (Inl e))" "\<And>x. (\<exists>s. (safe \<longrightarrow> rr_ok (dmClient s)) \<and> snd (f s) = Inr x) \<Longrightarrow> fine (g (Inr x))"
  shows "fine (State_Monad.bind (attempt k f) g)"
proof -
  have "I 0 (snd (run_state (g r) (called k (\<not> isl r) (s\<lparr>dmClient := c\<rparr>)))) \<and>
      (safe \<longrightarrow> fst (run_state (g r) (called k (\<not> isl r) (s\<lparr>dmClient := c\<rparr>))) \<noteq> Panic)"
    if i: "I 0 s" and f: "f s = (c, r)" for s c r
  proof -
    have "I 0 (s\<lparr>dmClient := c\<rparr>)" using client_law [OF i, of c] assms(3) [of s] f by simp
    from call_law [OF this assms(1), of "\<not> isl r"]
    have n: "I (if isl r then Suc 0 else 0) (called k (\<not> isl r) (s\<lparr>dmClient := c\<rparr>))" using assms(2) by simp
    show ?thesis
    proof (cases r)
      case (Inl e)
      with n assms(4) [of e] show ?thesis by (simp add: owes_def triple_def)
    next
      case (Inr x)
      have "\<exists>s. (safe \<longrightarrow> rr_ok (dmClient s)) \<and> snd (f s) = Inr x"
        using rr_law [OF _ i] f Inr by (intro exI [of _ s]) simp
      with n assms(5) [of x] Inr show ?thesis by (simp add: fine_def triple_def)
    qed
  qed
  then show ?thesis by (simp add: fine_def triple_def attempt_def split_beta)
qed

lemma fine_ask:
  assumes "demo_makes T k" "counted k" "\<And>e. owes (g (Inl e))" "\<And>x. (\<exists>s. f s = Inr x) \<Longrightarrow> fine (g (Inr x))"
  shows "fine (State_Monad.bind (ask k f) g)"
  unfolding ask_def by (rule fine_attempt) (auto intro: assms)

lemma fine_quiet:
  assumes "demo_makes T k" "\<not> counted k" "\<And>r. fine (g r)"
  shows "fine (State_Monad.bind (ask k f) g)"
proof -
  have "I 0 (called k good s)" if "I 0 s" for good s
    using call_law [OF that assms(1)] assms(2) by simp
  with assms(3) show ?thesis by (simp add: fine_def triple_def ask_def attempt_def)
qed

lemma fine_on_client: "demo_makes T k \<Longrightarrow> (\<And>c. rr_ok c \<Longrightarrow> rr_ok (f c)) \<Longrightarrow> fine (on_client k f)"
  using call_law [of 0 _ k True] client_law [of 0] by (simp add: fine_def triple_def on_client_def attempt_def)

lemma fine_report: "demo_makes T k \<Longrightarrow> counted k \<Longrightarrow> fine (State_Monad.bind (ask k f) (\<lambda>r. report E r bad good))"
  by (rule fine_ask) (simp_all add: report_def owes_fail fine_ok)

lemma fine_list_instances: "fine (list_instances E meta xs)"
  unfolding list_instances_def
  by (rule fine_for, rule fine_say) (simp add: show_inst_def is_fail_def has_prefix_def)

lemma fine_got: "(safe \<Longrightarrow> 12 \<le> length (cgMD5 it)) \<Longrightarrow> fine (got E (Inr it) bad good)"
  by (simp add: got_def slice_to_def fine_ok) (auto simp: fine_def triple_def)

lemma fine_fetch:
  "demo_makes T (Fetch p ns grp did) \<Longrightarrow> fine (State_Monad.bind (fetch E p ns grp did) (\<lambda>r. got E r bad good))"
  unfolding fetch_def
proof (rule fine_ask)
  show "owes (got E (Inl e) bad good)" for e by (simp add: got_def owes_fail)
  show "fine (got E (Inr x) bad good)" if "\<exists>s. fetched E p ns grp did s = Inr x" for x
    using that digest_law by (blast intro: fine_got)
qed (simp_all add: counted_def)

lemma fine_pick:
  assumes "demo_makes T k" "counted k"
    and "\<And>s. rr_ok (dmClient s) \<Longrightarrow> rr_ok (fst (f s)) \<and> snd (f s) \<noteq> Inr None"
    and "\<And>e. owes (g (Inl e))" "\<And>x. fine (g (Inr (Some x)))" "\<not> safe \<Longrightarrow> fine (g (Inr None))"
  shows "fine (State_Monad.bind (attempt k (\<lambda>s. map_prod id (map_sum err id) (f s))) g)"
proof (rule fine_attempt)
  show "demo_makes T k" "counted k" by fact+
  show "owes (g (Inl e))" for e by fact
  show "rr_ok (fst (map_prod id (map_sum err id) (f s)))" if "rr_ok (dmClient s)" for s
    using assms(3) [OF that] by simp
  show "fine (g (Inr x))" if "\<exists>s. (safe \<longrightarrow> rr_ok (dmClient s)) \<and> snd (map_prod id (map_sum err id) (f s)) = Inr x" for x
  proof (cases x)
    case None
    from that obtain s where s: "safe \<longrightarrow> rr_ok (dmClient s)" "map_sum err id (snd (f s)) = Inr x" by auto
    then have "snd (f s) = Inr None" using None by (cases "snd (f s)") auto
    then have "\<not> safe" using s(1) assms(3) by blast
    with None assms(6) show ?thesis by blast
  qed (simp add: assms(5))
qed

lemma fine_select:
  assumes "\<And>e. owes (g (Inl e))" "\<And>x. fine (g (Inr (Some x)))" "\<not> safe \<Longrightarrow> fine (g (Inr None))"
  shows "fine (State_Monad.bind (select E p ns grp svc st key) g)"
  by (cases p; simp only: select.simps; rule fine_pick; (rule assms | simp add: call_simps select_ok))

lemma fine_chosen: "fine (State_Monad.bind (select E p ns grp svc st key) (\<lambda>r. chosen E r bad pre post))"
proof (rule fine_select)
  show "\<not> safe \<Longrightarrow> fine (chosen E (Inr None) bad pre post)" unfolding chosen_def fine_def triple_def by simp
qed (simp_all add: chosen_def owes_fail fine_ok)

lemma fine_found: "fine (found E (Inr xs) bad pre post)" "owes (found E (Inl e) bad pre post)"
  by (auto simp: found_def owes_fail intro!: fine_block fine_ok fine_list_instances simp del: block.simps)

lemma fine_discover:
  assumes "\<And>e. owes (g (Inl e))" "\<And>xs. fine (g (Inr xs))"
  shows "fine (State_Monad.bind (discover E p ns grp svc hl) g)"
  by (cases p) (auto intro!: fine_ask assms simp: call_simps)

lemma fine_calls:
  "roServiceName opts \<in> T \<Longrightarrow> opts \<in> set (registered p) \<Longrightarrow> fine (State_Monad.bind (register E p opts) (\<lambda>r. report E r bad good))"
  "fine (State_Monad.bind (deregister E p ns grp svc cl ip port) (\<lambda>r. report E r bad good))"
  "fine (State_Monad.bind (beat E p ns grp svc cl ip port) (\<lambda>r. report E r bad good))"
  "fine (State_Monad.bind (health E p up ns grp svc ip port) (\<lambda>r. report E r bad good))"
  "did \<in> T \<Longrightarrow> (p, did) \<in> set demo_data \<Longrightarrow> content \<noteq> ''initial-value'' \<Longrightarrow>
     fine (State_Monad.bind (publish E p public default_group did content t) (\<lambda>r. report E r bad good))"
  "fine (State_Monad.bind (http_delete E public default_group ''feature-flags'') (\<lambda>r. report E r bad good))"
  "fine (State_Monad.bind (tcp_delete E public default_group ''tcp-config-test'') (\<lambda>r. report E r bad good))"
  by (cases p; auto intro!: fine_report simp: call_simps http_delete_def tcp_delete_def)+

lemma fine_Cons: "fine m \<Longrightarrow> fine (block ms) \<Longrightarrow> fine (block (m # ms))"
  using fine_block [of "m # ms"] by (auto simp: fine_def triple_def block.simps(2) split_beta)

lemma fine_Nil: "fine (block [])"
  by (simp add: fine_return)

lemma all_fine_Cons: "fine m \<Longrightarrow> list_all fine ms \<Longrightarrow> list_all fine (m # ms)"
  by simp

lemma all_fine_Nil: "list_all fine []"
  by simp

lemma all_fine_block: "list_all fine ms \<Longrightarrow> fine (block ms)"
  by (rule fine_block) (simp add: list_all_iff)

lemma owes_Cons: "fine (block ms) \<Longrightarrow> owes (block (fail E msg # ms))"
  using owes_fail [of msg] by (auto simp: owes_def fine_def triple_def block.simps(2) split_beta)

lemma owes_stop: "owes (block [fail E msg, State_Monad.return Stop])"
  by (rule owes_block) (simp add: fine_return)

lemma fine_Stop: "fine (State_Monad.return Stop)" "fine (State_Monad.return Next)"
  by (simp_all add: fine_return)

lemma fine_if: "fine m \<Longrightarrow> fine m' \<Longrightarrow> fine (if b then m else m')"
  by simp

lemma fine_sum: "(\<And>e. fine (f e)) \<Longrightarrow> (\<And>x. fine (g x)) \<Longrightarrow> fine (case r of Inl e \<Rightarrow> f e | Inr x \<Rightarrow> g x)"
  by (simp split: sum.split)

lemma fine_option: "fine f \<Longrightarrow> (\<And>x. fine (g x)) \<Longrightarrow> fine (case r of None \<Rightarrow> f | Some x \<Rightarrow> g x)"
  by (simp split: option.split)

text \<open>A call whose answer is told apart.\<close>

lemma fine_answer:
  assumes "demo_makes T k" "counted k" "\<And>e. owes (a e)" "\<And>x. fine (b x)"
  shows "fine (State_Monad.bind (ask k f) (\<lambda>r. case r of Inl e \<Rightarrow> a e | Inr x \<Rightarrow> b x))"
  by (rule fine_ask) (simp_all add: assms)

lemma fine_answers:
  assumes "\<And>e. owes (a e)" "\<And>x. fine (b x)"
  shows "roServiceName opts \<in> T \<Longrightarrow> opts \<in> set (registered p) \<Longrightarrow>
      fine (State_Monad.bind (register E p opts) (\<lambda>r. case r of Inl e \<Rightarrow> a e | Inr x \<Rightarrow> b x))"
    and "fine (State_Monad.bind (health E p up ns grp svc ip port) (\<lambda>r. case r of Inl e \<Rightarrow> a e | Inr x \<Rightarrow> b x))"
    and "did \<in> T \<Longrightarrow> (p, did) \<in> set demo_data \<Longrightarrow> content \<noteq> ''initial-value'' \<Longrightarrow>
      fine (State_Monad.bind (publish E p public default_group did content t) (\<lambda>r. case r of Inl e \<Rightarrow> a e | Inr x \<Rightarrow> b x))"
  by (cases p; auto intro!: fine_answer assms simp: call_simps)+

lemma fine_ping:
  assumes "\<And>e. owes (a e)" "\<And>x. fine (b x)"
  shows "fine (State_Monad.bind (ping E) (\<lambda>r. case r of Inl e \<Rightarrow> a e | Inr x \<Rightarrow> b x))"
  unfolding ping_def by (rule fine_answer) (simp_all add: call_simps assms)

lemmas fine_rules = fine_func all_fine_Cons all_fine_Nil fine_Cons fine_Nil fine_for fine_get fine_heading fine_ok fine_sleep fine_calls fine_fetch
  fine_chosen fine_list_instances owes_fail owes_stop owes_Cons fine_Stop fine_say

lemma fine_testServiceRegistration:
  assumes "{''order-service'', ''user-service''} \<subseteq> T"
  shows "fine (testServiceRegistration E)"
proof -
  have "fine (register_one E p)" if "p \<in> set (enumerate 0 http_instances)" for p
  proof -
    obtain i opts where p: "p = (i, opts)" by (cases p)
    with that have "opts \<in> set (registered Http)" by (auto simp: in_set_enumerate_eq)
    moreover from this have "roServiceName opts \<in> T" using assms by (auto simp: http_instances_def opts_of_def)
    ultimately show ?thesis unfolding p register_one_def prod.case by (intro fine_calls)
  qed
  then show ?thesis unfolding testServiceRegistration_def by (intro fine_rules)
qed

lemma fine_select_one: "fine (select_one E st key bad note i)"
  unfolding select_one_def
proof (rule fine_select)
  show "\<not> safe \<Longrightarrow> fine (case Inr None of Inl e \<Rightarrow> block [fail E (bad @ e), State_Monad.return Stop]
      | Inr None \<Rightarrow> State_Monad.return Panic
      | Inr (Some x) \<Rightarrow> say E (''      Call '' @ itoa (int i + 1) @ note @ '' -> '' @ show_addr (inIP x) (inPort x)))"
    unfolding fine_def triple_def by simp
qed (simp_all only: sum.case option.case owes_stop, rule fine_say, simp add: line_simps)

text \<open>A computation that returns \<^const>\<open>None\<close> for a panic, seen as a statement.\<close>

definition as_stmt :: "'a option prog \<Rightarrow> stmt" where
  "as_stmt m = do { x \<leftarrow> m; State_Monad.return (case x of None \<Rightarrow> Panic | Some _ \<Rightarrow> Next) }"

lemma as_stmt_bind: "as_stmt (State_Monad.bind m f) = State_Monad.bind m (\<lambda>x. as_stmt (f x))"
  unfolding as_stmt_def by (rule bind_assoc)

lemma fine_as_stmt: "fine (as_stmt m) \<longleftrightarrow> triple (I 0) m (\<lambda>r s. I 0 s \<and> (safe \<longrightarrow> r \<noteq> None))"
  by (auto simp: as_stmt_def fine_def triple_def split_beta split: option.splits)

lemma fine_count_calls: "fine (as_stmt (count_calls E n cs))"
proof (induction n arbitrary: cs)
  case 0
  show ?case by (simp add: fine_as_stmt triple_return)
next
  case (Suc n)
  show ?case unfolding count_calls.simps as_stmt_bind
  proof (rule fine_select, unfold sum.case option.case)
    show "owes (as_stmt (do { _ \<leftarrow> fail E (''Weighted select failed: '' @ e); State_Monad.return (Some cs) }))" for e
      using owes_fail [of "''Weighted select failed: '' @ e"] by (simp add: as_stmt_def owes_def triple_def split_beta)
    show "\<not> safe \<Longrightarrow> fine (as_stmt (State_Monad.return None))"
      unfolding fine_as_stmt triple_def by simp
  qed (rule Suc)
qed

lemma fine_count_weighted: "fine (count_weighted E)"
  unfolding count_weighted_def fine_def
proof (rule triple_bind [OF fine_count_calls [unfolded fine_as_stmt]])
  fix r
  have "fine (show_counts E cs)" for cs
    unfolding show_counts_def by (rule fine_get, rule fine_for) (auto intro!: fine_say simp: line_simps)
  then show "triple (\<lambda>s. I 0 s \<and> (safe \<longrightarrow> r \<noteq> None))
      (case r of None \<Rightarrow> State_Monad.return Panic | Some cs \<Rightarrow> show_counts E cs)
      (\<lambda>f s. I 0 s \<and> (safe \<longrightarrow> f \<noteq> Panic))"
    by (auto simp: fine_def triple_def split: option.split)
qed

lemma fine_lb: "fine (say E (''  [LB] '' @ l))" "fine (say E (''  [DNS] '' @ l))"
  by (simp_all add: fine_say line_simps)

lemma fine_testServiceDiscovery: "fine (testServiceDiscovery E)"
  unfolding testServiceDiscovery_def
  by (rule fine_rules fine_discover fine_select_one fine_count_weighted | simp only: sum.case | simp add: line_simps; fail)+

lemma fine_testHeartbeat: "fine (testHeartbeat E)"
  unfolding testHeartbeat_def
  by (rule fine_rules fine_on_client | simp add: line_simps call_simps StartAutoHeartbeat_def StopAutoHeartbeat_def rr_ok_def
      split: option.split; fail)+

lemma fine_testConfigManagement:
  assumes "{''application.yaml'', ''database.properties'', ''feature-flags''} \<subseteq> T"
  shows "fine (testConfigManagement E)"
proof -
  have one: "fine (publish_one E cfg)" "fine (get_one E cfg)" if "cfg \<in> set demo_configs" for cfg
    using that unfolding demo_configs_def publish_one_def get_one_def
    by (auto simp only: list.set insert_iff empty_iff prod.case)
       (rule fine_calls fine_fetch; simp add: assms [simplified] call_simps)+
  show ?thesis unfolding testConfigManagement_def
    by (rule fine_rules | erule one | simp add: assms [simplified] call_simps; fail)+
qed

lemma fine_publish_update:
  assumes "''watch-test'' \<in> T"
  shows "fine (publish_update E i)"
  unfolding publish_update_def Let_def
  by (rule fine_rules fine_answers | simp add: assms call_simps line_simps; fail)+

lemma fine_testConfigWatch:
  assumes "''watch-test'' \<in> T"
  shows "fine (testConfigWatch E)"
proof -
  have quiet: "fine (do { _ \<leftarrow> publish E Http public default_group ''watch-test'' ''initial-value'' ''text'';
      State_Monad.return Next })"
    unfolding publish.simps by (rule fine_quiet) (simp_all add: assms call_simps fine_Stop)
  have watch: "fine (watch_config E ns grp did)" for ns grp did
    using call_law [OF pending_law, where k = "WatchCfg ns grp did" and n = 0 and good = True]
    by (simp add: fine_def triple_def watch_config_def call_simps)
  have cancel: "fine cancel_watch"
    by (simp add: fine_def triple_def cancel_watch_def pending_law)
  show ?thesis unfolding testConfigWatch_def
    by (rule quiet watch cancel fine_rules fine_if fine_publish_update [OF assms] | simp add: line_simps; fail)+
qed

lemma fine_testHealthReporting: "fine (testHealthReporting E)"
  unfolding testHealthReporting_def report_one_def
  by (rule fine_rules fine_answers fine_discover | simp only: sum.case | simp add: line_simps; fail)+

lemma fine_grpc_calls:
  assumes "{grpc_service, ''grpc-config-test''} \<subseteq> T"
  shows "fine (grpc_first E)" "list_all fine (grpc_calls E)"
  unfolding grpc_first_def grpc_calls_def
  by (rule fine_rules fine_answers fine_discover fine_found | simp add: assms [simplified] call_simps grpc_instances_def opts_of_def; fail)+

lemma fine_grpc_session: "{grpc_service, ''grpc-config-test''} \<subseteq> T \<Longrightarrow> fine (block (grpc_first E # grpc_calls E))"
  by (rule all_fine_block) (simp add: fine_grpc_calls)

lemma fine_testDNS: "fine (testDNS E)"
  unfolding testDNS_def
  by (rule fine_rules fine_sum fine_option fine_lb | simp add: line_simps; fail)+

lemma fine_tcp_calls:
  assumes "{tcp_service, ''tcp-config-test''} \<subseteq> T"
  shows "list_all fine (tcp_first E)" "list_all fine (tcp_calls E)"
  unfolding tcp_first_def tcp_calls_def
  by (rule fine_rules fine_answers fine_ping fine_discover fine_found | simp add: assms [simplified] call_simps tcp_instances_def opts_of_def; fail)+

lemma fine_tcp_session: "{tcp_service, ''tcp-config-test''} \<subseteq> T \<Longrightarrow> fine (block (tcp_first E @ tcp_calls E))"
  by (rule all_fine_block) (simp add: fine_tcp_calls)

lemma fine_testCleanup:
  assumes "cleanup \<in> T"
  shows "fine (testCleanup E)"
proof -
  have one: "fine (deregister_one E x)" for x
    by (cases x) (simp only: deregister_one_def prod.case fine_calls)
  have del: "fine (delete_one E did)" if "did \<in> {''application.yaml'', ''database.properties'', ''watch-test''}" for did
    unfolding delete_one_def http_delete_def
    by (rule fine_quiet fine_sum fine_ok fine_say | use that assms in \<open>auto simp: call_simps line_simps\<close>)+
  show ?thesis unfolding testCleanup_def
    by (rule fine_rules fine_on_client one del | simp add: call_simps StopAllHeartbeats_def rr_ok_def; fail)+
qed

end

end
