(* ===== verification/DemoProps.thy ===== *)
theory DemoProps
  imports DemoRun
begin

text \<open>
  The properties of the demo program: what its lines say of its calls, that it closes what it
  opens, and when it reaches its end. (That it takes back what it does is in \<^verbatim>\<open>DemoUndo\<close>.)
\<close>

section \<open>Assertions that outlive the connections\<close>

locale demo_anywhere = demo_logic +
  assumes connect_law: "I n s \<Longrightarrow> I (if good then n else Suc n) (called (Connect p d) good (s\<lparr>dmConns := C\<rparr>))"
    and disconnect_law: "I n s \<Longrightarrow> I n (called (Disconnect p) True (s\<lparr>dmConns := C\<rparr>))"
begin

lemma fine_connect:
  assumes "\<And>e. owes (a e)" "\<And>x. fine (b x)"
  shows "fine (State_Monad.bind (connect E p addr) (\<lambda>r. case r of Inl e \<Rightarrow> a e | Inr x \<Rightarrow> b x))"
proof -
  have "I 0 (snd (run_state (case call_outcome (dwConnErr E) r of Inl e \<Rightarrow> a e | Inr x \<Rightarrow> b x)
        (called (Connect p d) (r = None) (s\<lparr>dmConns := C\<rparr>)))) \<and>
      (safe \<longrightarrow> fst (run_state (case call_outcome (dwConnErr E) r of Inl e \<Rightarrow> a e | Inr x \<Rightarrow> b x)
        (called (Connect p d) (r = None) (s\<lparr>dmConns := C\<rparr>))) \<noteq> Panic)" if "I 0 s" for s r C d
    using connect_law [OF that, of "r = None" p d C] assms
    by (auto simp: call_outcome_def fine_def owes_def triple_def split: option.splits if_splits)
  then show ?thesis by (simp add: fine_def triple_def split_beta Let_def)
qed

lemma fine_defer: "fine m \<Longrightarrow> fine (with_defer (disconnect p) m)"
  using disconnect_law [of 0] by (auto simp: fine_def triple_def with_defer_def split_beta)

lemma fine_testGRPC: "{grpc_service, ''grpc-config-test''} \<subseteq> T \<Longrightarrow> fine (testGRPC E)"
  unfolding testGRPC_def
  by (rule fine_func fine_heading fine_ok fine_connect fine_defer fine_grpc_session owes_Cons fine_Cons fine_Nil fine_Stop fine_say
    | assumption | simp add: line_simps; fail)+

lemma fine_testTCP: "{tcp_service, ''tcp-config-test''} \<subseteq> T \<Longrightarrow> fine (testTCP E)"
  unfolding testTCP_def
  by (rule fine_func fine_heading fine_ok fine_connect fine_defer fine_tcp_session owes_Cons fine_Cons fine_Nil fine_Stop fine_say
    | assumption | simp add: line_simps; fail)+

lemma fine_demo_body: "T = UNIV \<Longrightarrow> fine (demo_body E)"
  unfolding demo_body_def
  by (rule fine_Cons fine_Nil fine_testServiceRegistration fine_testServiceDiscovery fine_testHeartbeat fine_testConfigManagement
      fine_testConfigWatch fine_testHealthReporting fine_testGRPC fine_testDNS fine_testTCP fine_testCleanup fine_say
    | simp add: line_simps rule_line_def; fail)+

lemma fine_run: "T = UNIV \<Longrightarrow> I 0 demo_start \<Longrightarrow> I 0 (snd (demo_run E)) \<and> (safe \<longrightarrow> fst (demo_run E) \<noteq> Panic)"
  using fine_demo_body by (simp add: fine_def triple_def demo_run_def)

end

lemmas step_simps = printed_def called_def delivered_def

section \<open>Every failure is reported\<close>

definition fail_lines :: "demo \<Rightarrow> nat" where
  "fail_lines s = length (filter is_fail (dmOut s))"

definition failed_calls :: "demo \<Rightarrow> nat" where
  "failed_calls s = length (filter (\<lambda>(k, good). \<not> good \<and> counted k) (dmCalls s))"

lemma watch_line_plain: "filter is_fail (map watch_line cs) = []"
  by (simp add: filter_empty_conv watch_line_def line_simps)

interpretation accounts: demo_anywhere E UNIV "\<lambda>n s. failed_calls s = fail_lines s + n" False
  by unfold_locales
     (auto simp: step_simps failed_calls_def fail_lines_def watch_line_plain line_simps counted_def)

text \<open>
  C38. The demo program tells the truth about its calls, whatever the servers answer and however
  its run ends: it prints exactly one failure line for every call of the SDK that fails, apart
  from the publication and the deletions whose errors it means to ignore.
\<close>
theorem demo_reports_failures:
  "length (filter is_fail (dmOut (snd (demo_run E)))) =
   length (filter (\<lambda>(k, good). \<not> good \<and> counted k) (dmCalls (snd (demo_run E))))"
  using accounts.fine_run [of E] by (simp add: failed_calls_def fail_lines_def demo_start_def)

section \<open>The end is reached\<close>

definition digests_long :: "world \<Rightarrow> bool" where
  "digests_long E \<longleftrightarrow> (\<forall>p ns grp did s it. fetched E p ns grp did s = Inr it \<longrightarrow> 12 \<le> length (cgMD5 it))"

interpretation counters: demo_anywhere E UNIV "\<lambda>n s. rr_ok (dmClient s)" "digests_long E"
  by unfold_locales (auto simp: step_simps digests_long_def)

text \<open>A function returns to its caller or panics.\<close>

definition through :: "stmt \<Rightarrow> bool" where
  "through m \<longleftrightarrow> triple (\<lambda>_. True) m (\<lambda>f _. f \<noteq> Stop)"

lemma through_func: "through (func m)"
  by (auto simp: through_def triple_def func_def split_beta)

lemma through_say: "through (say E l)"
  by (simp add: through_def triple_def say_def)

lemma through_Nil: "through (block [])"
  by (simp add: through_def triple_def)

lemma through_Cons: "through m \<Longrightarrow> through (block ms) \<Longrightarrow> through (block (m # ms))"
  by (auto simp: through_def triple_def block.simps(2) split_beta)

lemma through_tests:
  "through (testServiceRegistration E)" "through (testServiceDiscovery E)" "through (testHeartbeat E)"
  "through (testConfigManagement E)" "through (testConfigWatch E)" "through (testHealthReporting E)"
  "through (testGRPC E)" "through (testDNS E)" "through (testTCP E)" "through (testCleanup E)"
  by (simp_all only: testServiceRegistration_def testServiceDiscovery_def testHeartbeat_def testConfigManagement_def
      testConfigWatch_def testHealthReporting_def testGRPC_def testDNS_def testTCP_def testCleanup_def through_func)

lemma run_not_Stop: "fst (demo_run E) \<noteq> Stop"
proof -
  have "through (demo_body E)"
    unfolding demo_body_def by (intro through_Cons through_Nil through_tests through_say)
  then show ?thesis by (simp add: through_def triple_def demo_run_def)
qed

definition says_last :: "stmt \<Rightarrow> bool" where
  "says_last m \<longleftrightarrow> triple (\<lambda>_. True) m (\<lambda>f s. f = Next \<longrightarrow> ''  All tests completed!'' \<in> set (dmOut s))"

lemma says_last_Cons: "says_last (block ms) \<Longrightarrow> says_last (block (m # ms))"
  by (auto simp: says_last_def triple_def block.simps(2) split_beta)

lemma says_last_end: "says_last (block [say E ''  All tests completed!'', say E l])"
  by (simp add: says_last_def triple_def block.simps(2) say_def step_simps split_beta)

lemma run_says_last: "fst (demo_run E) = Next \<Longrightarrow> ''  All tests completed!'' \<in> set (dmOut (snd (demo_run E)))"
proof -
  have "says_last (demo_body E)"
    unfolding demo_body_def by (rule says_last_end says_last_Cons)+
  then show "fst (demo_run E) = Next \<Longrightarrow> ?thesis" by (simp add: says_last_def triple_def demo_run_def)
qed

lemma run_completes: "digests_long E \<Longrightarrow> fst (demo_run E) = Next"
proof -
  assume "digests_long E"
  moreover have "rr_ok (dmClient demo_start)" by (simp add: demo_start_def NewClient_def rr_ok_def)
  ultimately have "fst (demo_run E) \<noteq> Panic" using counters.fine_run [of E] by simp
  with run_not_Stop [of E] show ?thesis by (cases "fst (demo_run E)") simp_all
qed

text \<open>
  The demo program reaches its end: if every configuration that a fetch returns has a
  digest of at least twelve characters (it prints the first twelve), no server, network or
  timing can make it panic, and it announces its completion.
\<close>
theorem demo_completes:
  assumes "digests_long E"
  shows "fst (demo_run E) = Next \<and> ''  All tests completed!'' \<in> set (dmOut (snd (demo_run E)))"
  using run_completes [OF assms] run_says_last by blast

text \<open>
  A world for the witnesses: an HTTP server that accepts everything and serves one instance and
  one configuration, gRPC stubs that do the same, and no TCP server.
\<close>

definition calm_item :: CfgItem where
  "calm_item = \<lparr>cgNamespaceID = public, cgGroupName = default_group, cgDataID = ''app'', cgContent = ''v'',
     cgMD5 = ''0123456789abcdef'', cgType = ''text''\<rparr>"

definition calm_stubs :: grpc_stubs where
  "calm_stubs = \<lparr>callRegister = \<lambda>_. Inr resp_ok, callDeregister = \<lambda>_. Inr resp_ok, callHeartbeat = \<lambda>_. Inr resp_ok,
     callGetInstances = \<lambda>_. Inr \<lparr>ilInstances = [], ilCount = 0\<rparr>,
     callGetConfig = \<lambda>_. Inr \<lparr>giNamespaceId = public, giGroupName = default_group, giDataId = ''app'', giContent = ''v'',
       giMd5 = ''0123456789abcdef'', giType = ''text''\<rparr>,
     callPublishConfig = \<lambda>_. Inr resp_ok, callListenConfig = \<lambda>_. Inl (Internal, []),
     callReportFailure = \<lambda>_. Inr resp_ok, callReportSuccess = \<lambda>_. Inr resp_ok\<rparr>"

definition calm_world :: world where
  "calm_world = \<lparr>dwHttp = \<lambda>_ _. Inr [(''code'', JNum 0), (''hosts'', JArr [JNull])], dwTcp = \<lambda>_ _ _. ReadError ''reset'',
     dwGrpc = \<lambda>_ _. calm_stubs, dwDial = \<lambda>_ addr. if addr = tcpServerAddr then Inl ''refused'' else Inr 1,
     dwRand = \<lambda>_. \<lparr>rndInt = 0, rndFloat = 0, rndKey = []\<rparr>, dwWatch = \<lambda>_. [], dwDeliver = \<lambda>_. 0, dwMapOrder = \<lambda>_ cs. cs,
     dwLookupHost = \<lambda>_ _. Inl ''no such host'', dwLookupCNAME = \<lambda>_ _. Inl ''no such host'', dwReach = \<lambda>_ _. None,
     dwFmt = \<lambda>_. ''1.000000'', dwFmt1 = \<lambda>_. ''1.0'', dwJsonFmt = \<lambda>_. ''1'', dwParse = \<lambda>_. None,
     dwInst = \<lambda>_. Some (cl_inst ''10.0.0.1''), dwCfg = \<lambda>_. Inr calm_item, dwJsonErr = \<lambda>_. [], dwSort = \<lambda>vs. vs,
     dwErr = \<lambda>_. [], dwConnErr = \<lambda>_. [], dwGrpcErr = \<lambda>_. []\<rparr>"

lemma calm_digests: "digests_long calm_world"
proof -
  have "12 \<le> length (cgMD5 it)" if "fetched calm_world p ns grp did s = Inr it" for p ns grp did s it
    using that
    by (cases p) (auto simp: calm_world_def calm_item_def calm_stubs_def client_GetConfig_def do_req_def checkResp_def
        GRPCGetConfig_def with_grpc_def TCPGetConfig_def tcpSend_def map_sum_def split: sum.splits option.splits if_splits)
  then show ?thesis by (simp add: digests_long_def)
qed

theorem demo_completes_witness:
  "fst (demo_run calm_world) = Next \<and> ''  All tests completed!'' \<in> set (dmOut (snd (demo_run calm_world)))"
  by (rule demo_completes [OF calm_digests])

section \<open>What is opened is closed\<close>

definition dials :: "demo \<Rightarrow> nat list" where
  "dials s = concat (map (\<lambda>(k, _). case k of Connect _ (Inr n) \<Rightarrow> [n] | _ \<Rightarrow> []) (dmCalls s))"

definition at_hand :: "nat option \<Rightarrow> nat option \<Rightarrow> demo \<Rightarrow> bool" where
  "at_hand t g s \<longleftrightarrow> coTcp (dmConns s) = t \<and> coGrpc (dmConns s) = g \<and>
     dials s = rev (coClosed (dmConns s)) @ (case t of None \<Rightarrow> [] | Some n \<Rightarrow> [n]) @ (case g of None \<Rightarrow> [] | Some n \<Rightarrow> [n])"

lemma dials_call: "demo_makes T k \<Longrightarrow> dials (called k good s) = dials s"
  by (simp add: dials_def step_simps demo_makes_def split: demo_call.splits)

interpretation hands: demo_logic E UNIV "\<lambda>n. at_hand t g" False
proof unfold_locales
  fix s k good n
  assume "at_hand t g s" "demo_makes UNIV k"
  then show "at_hand t g (called k good s)"
    by (simp add: at_hand_def dials_call) (simp add: step_simps)
qed (auto simp: at_hand_def dials_def step_simps)

text \<open>Statements that leave no connection behind.\<close>

definition tidy :: "stmt \<Rightarrow> bool" where
  "tidy m \<longleftrightarrow> triple (at_hand None None) m (\<lambda>_. at_hand None None)"

lemma tidy_fine: "hands.fine None None m \<Longrightarrow> tidy m"
  by (simp add: hands.fine_def tidy_def)

lemma tidy_Cons: "tidy m \<Longrightarrow> tidy (block ms) \<Longrightarrow> tidy (block (m # ms))"
  by (auto simp: tidy_def triple_def block.simps(2) split_beta)

lemma tidy_Nil: "tidy (block [])"
  by (simp add: tidy_def triple_def)

lemma tidy_func: "tidy m \<Longrightarrow> tidy (func m)"
  by (auto simp: tidy_def triple_def func_def split_beta)

text \<open>A connection, a session that keeps what is held, and the deferred closing.\<close>

lemma tidy_session:
  assumes "p \<noteq> Http" "\<And>e. tidy (a e)" "\<And>t g. hands.fine t g m"
  shows "tidy (State_Monad.bind (connect E p addr)
    (\<lambda>r. case r of Inl e \<Rightarrow> a e | Inr _ \<Rightarrow> block [ok E l, with_defer (disconnect p) m]))"
proof -
  define holds where "holds n = (if p = Grpc then at_hand None (Some n) else at_hand (Some n) None)" for n
  have conn: "triple (at_hand None None) (connect E p addr)
      (\<lambda>r s. case r of Inl _ \<Rightarrow> at_hand None None s | Inr _ \<Rightarrow> \<exists>n. holds n s)"
    using assms(1)
    by (cases p) (auto simp: triple_def holds_def at_hand_def Let_def split_beta call_outcome_def conn_defs step_simps dials_def
        split: sum.splits option.splits)
  have ok: "triple (holds n) (ok E l) (\<lambda>f s. holds n s \<and> f = Next)" for n
    using hands.fine_ok [of _ _ E l] by (auto simp: holds_def hands.fine_def triple_def ok_def say_def)
  have shut: "at_hand None None (snd (run_state (disconnect p) s))" if "holds n s" for n s
    using that assms(1)
    by (cases p) (auto simp: holds_def at_hand_def conn_defs step_simps dials_def)
  have rest: "triple (holds n) (with_defer (disconnect p) m) (\<lambda>_. at_hand None None)" for n
    using assms(3) shut [of n] unfolding holds_def hands.fine_def triple_def with_defer_def
    by (auto simp: split_beta split: if_splits)
  have "triple (holds n) (block [ok E l, with_defer (disconnect p) m]) (\<lambda>_. at_hand None None)" for n
    using ok [of n] rest [of n] by (auto simp: triple_def block.simps(2) split_beta)
  then show ?thesis
    using assms(2) unfolding tidy_def
    by (intro triple_bind [OF conn]) (auto simp: tidy_def triple_def split: sum.splits)
qed

lemma tidy_say: "tidy (say E l)" "tidy (fail E l)" "tidy (State_Monad.return f)"
  by (auto simp: tidy_def triple_def fail_def say_def at_hand_def dials_def step_simps)

lemma tidy_tests:
  "tidy (testServiceRegistration E)" "tidy (testServiceDiscovery E)" "tidy (testHeartbeat E)"
  "tidy (testConfigManagement E)" "tidy (testConfigWatch E)" "tidy (testHealthReporting E)" "tidy (testDNS E)"
  "tidy (testCleanup E)"
  by (rule tidy_fine, rule hands.fine_testServiceRegistration hands.fine_testServiceDiscovery hands.fine_testHeartbeat
      hands.fine_testConfigManagement hands.fine_testConfigWatch hands.fine_testHealthReporting hands.fine_testDNS
      hands.fine_testCleanup, (rule UNIV_I subset_UNIV)?)+

lemma tidy_heading: "tidy (heading E l)"
  by (rule tidy_fine, rule hands.fine_heading)

lemma tidy_testGRPC: "tidy (testGRPC E)"
  unfolding testGRPC_def
  by (intro tidy_func tidy_Cons tidy_Nil tidy_say tidy_heading tidy_session hands.fine_grpc_session subset_UNIV) simp

lemma tidy_testTCP: "tidy (testTCP E)"
  unfolding testTCP_def
  by (intro tidy_func tidy_Cons tidy_Nil tidy_say tidy_heading tidy_session hands.fine_tcp_session subset_UNIV) simp

text \<open>
  C35. The demo program leaves no connection open, whether it completes, gives up a protocol or
  panics: at the end the client holds none, and the connections it has closed are those that
  were established, each closed once and in the order of their dialling.
\<close>
theorem demo_disconnects:
  "coTcp (dmConns (snd (demo_run E))) = None \<and> coGrpc (dmConns (snd (demo_run E))) = None \<and>
   rev (coClosed (dmConns (snd (demo_run E)))) =
     concat (map (\<lambda>(k, _). case k of Connect _ (Inr n) \<Rightarrow> [n] | _ \<Rightarrow> []) (dmCalls (snd (demo_run E))))"
proof -
  have "tidy (demo_body E)"
    unfolding demo_body_def by (intro tidy_Cons tidy_Nil tidy_tests tidy_testGRPC tidy_testTCP tidy_say)
  moreover have "at_hand None None demo_start"
    by (simp add: at_hand_def demo_start_def no_conns_def dials_def)
  ultimately show ?thesis
    unfolding tidy_def triple_def demo_run_def at_hand_def dials_def by simp
qed

end
