(* ===== verification/DemoUndo.thy ===== *)
theory DemoUndo
  imports DemoProps
begin

text \<open>
  The demo program takes back what it does. A creation is live until the call that undoes it;
  each test is shown either to leave what is live alone or to clear what it is meant to clear.
\<close>

section \<open>What is done is undone\<close>

text \<open>The call that takes back what a call has created; over gRPC a configuration cannot be deleted.\<close>

fun undo :: "demo_call \<Rightarrow> demo_call option" where
  "undo (Register p opts) = Some (Deregister p (withDefault (roNamespaceID opts) public)
     (withDefault (roGroupName opts) default_group) (roServiceName opts) (withDefault (roClusterName opts) default_cluster)
     (roIP opts) (roPort opts))"
| "undo (Publish p ns grp did content t) = (if p = Grpc then None else Some (Delete p ns grp did))"
| "undo _ = None"

fun name_of :: "demo_call \<Rightarrow> string" where
  "name_of (Deregister p ns grp svc cl ip port) = svc"
| "name_of (Delete p ns grp did) = did"
| "name_of _ = []"

text \<open>
  What \<open>u\<close> would take back is there: something that it undoes has been created, and \<open>u\<close> has not
  been called since.
\<close>

definition live :: "demo_call \<Rightarrow> demo \<Rightarrow> bool" where
  "live u s \<longleftrightarrow> (\<exists>pre k post. dmCalls s = pre @ (k, True) # post \<and> undo k = Some u \<and> u \<notin> fst ` set post)"

lemma live_called: "live u (called k good s) \<longleftrightarrow> (good \<and> undo k = Some u) \<or> (k \<noteq> u \<and> live u s)"
proof
  assume "live u (called k good s)"
  then obtain pre k' post where l: "dmCalls s @ [(k, good)] = pre @ (k', True) # post" "undo k' = Some u" "u \<notin> fst ` set post"
    by (auto simp: live_def called_def)
  show "(good \<and> undo k = Some u) \<or> (k \<noteq> u \<and> live u s)"
  proof (cases post rule: rev_cases)
    case Nil
    with l show ?thesis by auto
  next
    case (snoc post' e)
    with l have "dmCalls s = pre @ (k', True) # post'" "e = (k, good)" by auto
    with l snoc show ?thesis by (fastforce simp: live_def)
  qed
next
  assume "(good \<and> undo k = Some u) \<or> (k \<noteq> u \<and> live u s)"
  then show "live u (called k good s)"
  proof
    assume "good \<and> undo k = Some u"
    then show ?thesis unfolding live_def
      by (intro exI [of _ "dmCalls s"] exI [of _ k] exI [of _ "[]"]) (simp add: called_def)
  next
    assume "k \<noteq> u \<and> live u s"
    then obtain pre k' post where "dmCalls s = pre @ (k', True) # post" "undo k' = Some u" "u \<notin> fst ` set post" "k \<noteq> u"
      by (auto simp: live_def)
    then show ?thesis unfolding live_def
      by (intro exI [of _ pre] exI [of _ k'] exI [of _ "post @ [(k, good)]"]) (simp add: called_def)
  qed
qed

lemma live_step [simp]: "live u (printed l s) = live u s" "live u (delivered j s) = live u s"
  "live u (s\<lparr>dmClient := c\<rparr>) = live u s" "live u (s\<lparr>dmConns := C\<rparr>) = live u s" "live u (s\<lparr>dmPending := cs\<rparr>) = live u s"
  by (simp_all add: live_def step_simps)

lemma undo_name: "demo_makes T k \<Longrightarrow> undo k = Some u \<Longrightarrow> name_of u \<in> T"
  by (cases k) (auto simp: demo_makes_def split: if_splits)

interpretation spent: demo_anywhere E "- {name_of u}" "\<lambda>_ s. \<not> live u s" False
  by unfold_locales (auto simp: live_called dest: undo_name)

lemma spent_say: "spent.fine u (say E l)" "spent.fine u (fail E l)" "spent.fine u (ok E l)" "spent.fine u (report E r l l')"
  by (auto simp: spent.fine_def triple_def say_def fail_def ok_def report_def split: sum.split)

lemma spent_ask: "undo k = None \<Longrightarrow> (\<And>r. spent.fine u (g r)) \<Longrightarrow> spent.fine u (State_Monad.bind (ask k f) g)"
  by (simp add: spent.fine_def triple_def ask_def attempt_def live_called)

lemma spent_one: "spent.fine u (deregister_one E x)" "spent.fine u (delete_one E did)"
proof -
  show "spent.fine u (deregister_one E x)"
    by (cases x) (simp only: deregister_one_def prod.case spent.fine_calls)
  show "spent.fine u (delete_one E did)"
    unfolding delete_one_def http_delete_def by (intro spent_ask spent.fine_sum spent_say) simp
qed

lemma through_rules: "through (fail E l)" "through (ok E l)" "through (heading E l)" "through (report E r l l')"
  "through (for_each b xs)" "through (on_client k f)"
proof -
  show "through (for_each b xs)"
    by (induction xs) (auto simp: through_def triple_def for_each.simps(2) split_beta split: flow.split)
  show "through (heading E l)"
    unfolding heading_def by (intro through_Cons through_Nil through_say)
qed (auto simp: through_def triple_def say_def fail_def ok_def report_def on_client_def attempt_def split: sum.split)

lemma through_bind: "(\<And>r. through (g r)) \<Longrightarrow> through (State_Monad.bind m g)"
  by (simp add: through_def triple_def split_beta)

subsection \<open>Statements that take back\<close>

definition clears :: "demo_call \<Rightarrow> stmt \<Rightarrow> bool" where
  "clears u m \<longleftrightarrow> triple (\<lambda>_. True) m (\<lambda>f s. f = Next \<longrightarrow> \<not> live u s)"

lemma clears_here: "clears u m \<Longrightarrow> spent.fine u (block ms) \<Longrightarrow> clears u (block (m # ms))"
  by (auto simp: clears_def spent.fine_def triple_def block.simps(2) split_beta)

lemma clears_skip: "clears u (block ms) \<Longrightarrow> clears u (block (m # ms))"
  by (auto simp: clears_def triple_def block.simps(2) split_beta)

lemma clears_within: "clears u m \<Longrightarrow> spent.fine u (block ns) \<Longrightarrow> clears u (block (ms @ m # ns))"
  by (induction ms) (simp_all add: clears_here clears_skip)

lemma clears_func: "clears u m \<Longrightarrow> through m \<Longrightarrow> clears u (func m)"
  by (auto simp: clears_def through_def triple_def func_def split_beta)

lemma clears_ask: "undo u = None \<Longrightarrow> (\<And>r. spent.fine u (g r)) \<Longrightarrow> clears u (State_Monad.bind (ask u f) g)"
  by (simp add: clears_def spent.fine_def triple_def ask_def attempt_def live_called)

lemma clears_for:
  assumes "x \<in> set xs" "clears u (b x)" "\<And>y. through (b y)" "\<And>y. spent.fine u (b y)"
  shows "clears u (for_each b xs)"
  using assms(1)
proof (induction xs)
  case (Cons y ys)
  have "spent.fine u (for_each b ys)" by (rule spent.fine_for) (rule assms(4))
  with Cons assms(2) assms(3) [of y] show ?case
    by (auto simp: clears_def through_def spent.fine_def triple_def for_each.simps(2) split_beta split: flow.splits)
qed simp

lemma clears_report:
  "clears (Deregister p ns grp svc cl ip port) (State_Monad.bind (deregister E p ns grp svc cl ip port) (\<lambda>r. report E r bad good))"
  "clears (Delete Http ns grp did) (State_Monad.bind (http_delete E ns grp did) (\<lambda>r. report E r bad good))"
  "clears (Delete Tcp ns grp did) (State_Monad.bind (tcp_delete E ns grp did) (\<lambda>r. report E r bad good))"
  unfolding http_delete_def tcp_delete_def by (cases p) (simp_all add: clears_ask spent_say)

lemma clears_one:
  "clears (Deregister Http public default_group svc default_cluster ip port) (deregister_one E (svc, ip, port))"
  "clears (Delete Http public default_group did) (delete_one E did)"
  unfolding deregister_one_def delete_one_def http_delete_def prod.case
  by (rule clears_report clears_ask undo.simps | rule spent.fine_sum spent_say)+

lemma one_through: "through (deregister_one E x)" "through (delete_one E did)"
  by (cases x) (auto simp: deregister_one_def delete_one_def through_rules through_say intro!: through_bind split: sum.split)

text \<open>What each part of the program is to take back.\<close>

definition http_undos :: "demo_call list" where
  "http_undos = map (\<lambda>(svc, ip, port). Deregister Http public default_group svc default_cluster ip port) demo_left"

definition data_undos :: "demo_call list" where
  "data_undos = map (Delete Http public default_group) [''application.yaml'', ''database.properties'', ''watch-test'']"

definition flags_undo :: demo_call where
  "flags_undo = Delete Http public default_group ''feature-flags''"

definition grpc_undos :: "demo_call list" where
  "grpc_undos = map (\<lambda>ip. Deregister Grpc public default_group grpc_service default_cluster ip 7070) [''10.0.0.1'', ''10.0.0.2'']"

definition tcp_undos :: "demo_call list" where
  "tcp_undos = Delete Tcp public default_group ''tcp-config-test'' #
     map (\<lambda>ip. Deregister Tcp public default_group tcp_service default_cluster ip 5050) [''10.1.0.1'', ''10.1.0.2'']"

lemma clears_testCleanup:
  assumes "u \<in> set (http_undos @ data_undos)"
  shows "clears u (testCleanup E)"
  unfolding testCleanup_def
proof (rule clears_func)
  let ?data = "for_each (delete_one E) [''application.yaml'', ''database.properties'', ''watch-test'']"
  let ?ms = "[heading E ''10. Cleanup'', on_client StopBeats StopAllHeartbeats, ok E ''Stopped all heartbeats'',
    for_each (deregister_one E) demo_left, ?data]"
  have rest: "spent.fine u (block [?data])" by (intro spent.fine_Cons spent.fine_Nil spent.fine_for spent_one)
  from assms consider x where "u = (\<lambda>(svc, ip, port). Deregister Http public default_group svc default_cluster ip port) x" "x \<in> set demo_left"
    | did where "u = Delete Http public default_group did" "did \<in> set [''application.yaml'', ''database.properties'', ''watch-test'']"
    unfolding http_undos_def data_undos_def set_append set_map by (elim UnE imageE) blast+
  then show "clears u (block ?ms)"
  proof cases
    case 1
    then have "clears u (deregister_one E x)" by (cases x) (simp only: prod.case clears_one)
    with 1 have "clears u (for_each (deregister_one E) demo_left)"
      using clears_for [where b = "deregister_one E", OF _ _ one_through(1) spent_one(1)] by blast
    then show ?thesis using rest by (rule clears_skip [OF clears_skip [OF clears_skip [OF clears_here]]])
  next
    case 2
    then have "clears u ?data"
      using clears_for [where b = "delete_one E", OF _ clears_one(2) one_through(2) spent_one(2)] by blast
    then show ?thesis
      by (rule clears_skip [OF clears_skip [OF clears_skip [OF clears_skip [OF clears_here]]]]) (rule spent.fine_Nil)
  qed
  show "through (block ?ms)" by (intro through_Cons through_Nil through_rules)
qed

lemma clears_testConfigManagement: "clears flags_undo (testConfigManagement E)"
  unfolding testConfigManagement_def flags_undo_def
  by (rule clears_func, (rule clears_here, rule clears_report, rule spent.fine_Nil | rule clears_skip)+,
      (rule through_Cons through_Nil through_rules through_bind)+)

lemma clears_calls:
  "u \<in> set grpc_undos \<Longrightarrow> clears u (block (grpc_calls E))"
  "u \<in> set tcp_undos \<Longrightarrow> clears u (block (tcp_calls E))"
proof -
  have tail: "spent.fine u (block [])"
    "spent.fine u (block [State_Monad.bind (deregister E p ns grp svc cl ip port) (\<lambda>r. report E r bad good)])"
    "spent.fine u (block [State_Monad.bind (tcp_delete E public default_group ''tcp-config-test'') (\<lambda>r. report E r bad good)])"
    "spent.fine u (block [State_Monad.bind (deregister E p ns grp svc cl ip port) (\<lambda>r. report E r bad good),
       State_Monad.bind (tcp_delete E public default_group ''tcp-config-test'') (\<lambda>r. report E r bad' good')])"
    for u p ns grp svc cl ip port bad good bad' good'
    by (intro spent.fine_Cons spent.fine_Nil spent.fine_calls)+
  have grpc: "clears (Deregister Grpc public default_group grpc_service default_cluster ip 7070) (block (grpc_calls E))"
    if "ip \<in> {''10.0.0.1'', ''10.0.0.2''}" for ip
    using that unfolding grpc_calls_def
    by (elim insertE emptyE; hypsubst) ((rule clears_here, rule clears_report, rule tail) | rule clears_skip)+
  have tcp: "clears (Deregister Tcp public default_group tcp_service default_cluster ip 5050) (block (tcp_calls E))"
    if "ip \<in> {''10.1.0.1'', ''10.1.0.2''}" for ip
    using that unfolding tcp_calls_def
    by (elim insertE emptyE; hypsubst) ((rule clears_here, rule clears_report, rule tail) | rule clears_skip)+
  have data: "clears (Delete Tcp public default_group ''tcp-config-test'') (block (tcp_calls E))"
    unfolding tcp_calls_def by ((rule clears_here, rule clears_report, rule tail) | rule clears_skip)+
  show "u \<in> set grpc_undos \<Longrightarrow> clears u (block (grpc_calls E))" using grpc by (auto simp: grpc_undos_def)
  show "u \<in> set tcp_undos \<Longrightarrow> clears u (block (tcp_calls E))" using tcp data by (auto simp: tcp_undos_def)
qed

subsection \<open>The sessions\<close>

text \<open>
  A session takes back what it creates over its protocol: it starts with nothing to take back
  and, unless it panics, ends so.
\<close>

definition settles :: "demo_call \<Rightarrow> stmt \<Rightarrow> bool" where
  "settles u m \<longleftrightarrow> triple (\<lambda>s. \<not> live u s) m (\<lambda>f s. f \<noteq> Panic \<longrightarrow> \<not> live u s)"

lemma settles_func: "settles u m \<Longrightarrow> settles u (func m)"
  by (auto simp: settles_def triple_def func_def split_beta)

lemma settles_after: "spent.fine u m \<Longrightarrow> settles u m' \<Longrightarrow> settles u (block [m, m'])"
  by (auto simp: settles_def spent.fine_def triple_def block.simps(2) split_beta)

lemma settles_defer: "settles u m \<Longrightarrow> settles u (with_defer (disconnect q) m)"
  by (auto simp: settles_def triple_def with_defer_def split_beta live_called)

lemma settles_refused: "settles u (block [fail E a, say E b, State_Monad.return Stop])"
  by (auto simp: settles_def triple_def fail_def say_def block.simps(2) split_beta)

lemma settles_connect:
  assumes "\<And>e. settles u (a e)" "\<And>x. settles u (b x)"
  shows "settles u (State_Monad.bind (connect E q addr) (\<lambda>r. case r of Inl e \<Rightarrow> a e | Inr x \<Rightarrow> b x))"
proof -
  have "triple (\<lambda>s. \<not> live u s) (connect E q addr) (\<lambda>_ s. \<not> live u s)"
    by (simp add: triple_def Let_def split_beta live_called)
  then show ?thesis using assms unfolding settles_def
    by (intro triple_bind) (auto simp: triple_def split: sum.split)
qed

text \<open>The opening calls create at most the first instance, and return if they do not.\<close>

definition opens :: "demo_call \<Rightarrow> stmt \<Rightarrow> bool" where
  "opens u m \<longleftrightarrow> triple (\<lambda>s. \<not> live u s) m (\<lambda>f s. f = Next \<or> \<not> live u s)"

lemma opens_register: "opens u (State_Monad.bind (register E p opts)
    (\<lambda>r. case r of Inl e \<Rightarrow> block [fail E (bad e), State_Monad.return Stop] | Inr _ \<Rightarrow> ok E good))"
proof -
  have "opens u (State_Monad.bind (ask k f)
      (\<lambda>r. case r of Inl e \<Rightarrow> block [fail E (bad e), State_Monad.return Stop] | Inr _ \<Rightarrow> ok E good))"
    for k and f :: "demo \<Rightarrow> string + unit"
    by (auto simp: opens_def triple_def ask_def attempt_def fail_def ok_def say_def live_called block.simps(2) split_beta
        split: sum.split)
  then show ?thesis by (cases p) simp_all
qed

lemma opens_after: "spent.fine u m \<Longrightarrow> opens u (block ms) \<Longrightarrow> opens u (block (m # ms))"
  by (auto simp: opens_def spent.fine_def triple_def block.simps(2) split_beta)

lemma opens_one: "opens u m \<Longrightarrow> opens u (block [m])"
  by (auto simp: opens_def triple_def block.simps(2) split_beta)

lemma settles_session:
  assumes "opens u (block ms)" "clears u (block ns)" "through (block ns)"
  shows "settles u (block (ms @ ns))"
  using assms unfolding opens_def settles_def through_def clears_def triple_def block_append
  by (auto simp: split_beta) (metis flow.exhaust)

lemma through_calls: "through (block (grpc_calls E))" "through (block (tcp_calls E))"
proof -
  have r: "through (found E r a b c)" "through (chosen E q a b c)" "through (got E v a f)" for r q v a b c f
    by (auto simp: found_def chosen_def got_def list_instances_def intro!: through_Cons through_Nil through_rules
        split: sum.split option.split) (simp_all add: through_def triple_def)
  show "through (block (grpc_calls E))" "through (block (tcp_calls E))"
    unfolding grpc_calls_def tcp_calls_def by (intro through_Cons through_Nil through_bind through_rules r)+
qed

lemma settles_testGRPC: "u \<in> set grpc_undos \<Longrightarrow> settles u (testGRPC E)"
proof -
  assume u: "u \<in> set grpc_undos"
  have "opens u (block [grpc_first E])"
    unfolding grpc_first_def by (intro opens_one opens_register)
  then have "settles u (block ([grpc_first E] @ grpc_calls E))"
    by (rule settles_session [OF _ clears_calls(1) [OF u] through_calls(1)])
  then show ?thesis unfolding testGRPC_def append.simps
    by (intro settles_func settles_after settles_connect settles_refused settles_defer spent.fine_heading spent.fine_ok)
qed

lemma settles_testTCP: "u \<in> set tcp_undos \<Longrightarrow> settles u (testTCP E)"
proof -
  assume u: "u \<in> set tcp_undos"
  have "opens u (block (tcp_first E))"
    unfolding tcp_first_def
    by (intro opens_one opens_register opens_after spent.fine_ping spent.owes_stop spent.fine_ok)
  then have "settles u (block (tcp_first E @ tcp_calls E))"
    by (rule settles_session [OF _ clears_calls(2) [OF u] through_calls(2)])
  then show ?thesis unfolding testTCP_def
    by (intro settles_func settles_after settles_connect settles_refused settles_defer spent.fine_heading spent.fine_ok)
qed

subsection \<open>The whole run\<close>

definition on_connection :: "demo_call \<Rightarrow> bool" where
  "on_connection k \<longleftrightarrow> (\<exists>p d. k = Connect p d) \<or> (\<exists>p. k = Disconnect p)"

definition known :: "demo \<Rightarrow> bool" where
  "known s \<longleftrightarrow> (\<forall>(k, good) \<in> set (dmCalls s). demo_makes UNIV k \<or> on_connection k)"

lemma known_called: "known (called k good s) \<longleftrightarrow> known s \<and> (demo_makes UNIV k \<or> on_connection k)"
  by (auto simp: known_def called_def)

interpretation knows: demo_anywhere E UNIV "\<lambda>_. known" False
  by unfold_locales (simp_all add: known_called on_connection_def, simp_all add: known_def step_simps)

definition first_lines :: "world \<Rightarrow> stmt list" where
  "first_lines E = [say E rule_line, say E ''  Benbroo Client SDK - Full Feature Test'', say E rule_line, say E []]"

definition last_lines :: "world \<Rightarrow> stmt list" where
  "last_lines E = [say E [], say E rule_line, say E ''  All tests completed!'', say E rule_line]"

definition http_tests :: "world \<Rightarrow> stmt list" where
  "http_tests E = [testServiceRegistration E, testServiceDiscovery E, testHeartbeat E, testConfigManagement E, testConfigWatch E,
     testHealthReporting E]"

lemma demo_body_grpc: "demo_body E = block ((first_lines E @ http_tests E) @ testGRPC E #
    [testDNS E, testTCP E, testCleanup E] @ last_lines E)"
  by (simp add: demo_body_def first_lines_def http_tests_def last_lines_def)

lemma demo_body_tcp: "demo_body E = block ((first_lines E @ http_tests E @ [testGRPC E, testDNS E]) @ testTCP E #
    testCleanup E # last_lines E)"
  by (simp add: demo_body_def first_lines_def http_tests_def last_lines_def)

context demo_anywhere
begin

lemma all_fine_lines: "list_all fine (first_lines E)" "list_all fine (last_lines E)"
  unfolding first_lines_def last_lines_def
  by (rule all_fine_Cons all_fine_Nil fine_say | simp add: line_simps rule_line_def; fail)+

lemma all_fine_http:
  assumes "{''order-service'', ''user-service'', ''application.yaml'', ''database.properties'', ''feature-flags'', ''watch-test''} \<subseteq> T"
  shows "list_all fine (http_tests E)"
  using assms unfolding http_tests_def
  by (intro all_fine_Cons all_fine_Nil fine_testServiceRegistration fine_testServiceDiscovery fine_testHeartbeat
      fine_testConfigManagement fine_testConfigWatch fine_testHealthReporting) simp_all

end

lemma settled_in:
  assumes "list_all (spent.fine u) ms" "settles u m" "through m" "list_all (spent.fine u) ns"
  shows "triple (\<lambda>s. \<not> live u s) (block (ms @ m # ns)) (\<lambda>f s. f = Next \<longrightarrow> \<not> live u s)"
  using spent.all_fine_block [OF assms(1)] assms(2,3) spent.all_fine_block [OF assms(4)]
  unfolding settles_def through_def spent.fine_def triple_def block_append
  by (auto simp: block.simps(2) split_beta)

definition ends_spent :: "demo_call \<Rightarrow> world \<Rightarrow> bool" where
  "ends_spent u E \<longleftrightarrow> triple (\<lambda>s. \<not> live u s) (demo_body E) (\<lambda>f s. f = Next \<longrightarrow> \<not> live u s)"

lemma ends_spent_grpc: "u \<in> set grpc_undos \<Longrightarrow> ends_spent u E"
  unfolding ends_spent_def demo_body_grpc
  by (rule settled_in)
    (auto simp: grpc_undos_def settles_testGRPC through_tests spent.all_fine_lines
      intro!: spent.all_fine_http spent.fine_testDNS spent.fine_testTCP spent.fine_testCleanup)

lemma ends_spent_tcp: "u \<in> set tcp_undos \<Longrightarrow> ends_spent u E"
  unfolding ends_spent_def demo_body_tcp
  by (rule settled_in)
    (auto simp: tcp_undos_def settles_testTCP through_tests spent.all_fine_lines
      intro!: spent.all_fine_http spent.fine_testDNS spent.fine_testGRPC spent.fine_testCleanup)

lemma ends_spent_clears: "clears u (demo_body E) \<Longrightarrow> ends_spent u E"
  by (simp add: ends_spent_def clears_def triple_def)

lemma ends_spent_http: "u \<in> set (http_undos @ data_undos) \<Longrightarrow> ends_spent u E"
proof (rule ends_spent_clears)
  assume u: "u \<in> set (http_undos @ data_undos)"
  have body: "demo_body E = block ((first_lines E @ http_tests E @ [testGRPC E, testDNS E, testTCP E]) @ testCleanup E # last_lines E)"
    by (simp add: demo_body_def first_lines_def http_tests_def last_lines_def)
  show "clears u (demo_body E)"
    unfolding body by (rule clears_within [OF clears_testCleanup [OF u] spent.all_fine_block [OF spent.all_fine_lines(2)]])
qed

lemma ends_spent_flags: "ends_spent flags_undo E"
proof (rule ends_spent_clears)
  let ?rest = "[testConfigWatch E, testHealthReporting E, testGRPC E, testDNS E, testTCP E, testCleanup E] @ last_lines E"
  have body: "demo_body E = block ((first_lines E @ [testServiceRegistration E, testServiceDiscovery E, testHeartbeat E]) @
      testConfigManagement E # ?rest)"
    by (simp add: demo_body_def first_lines_def last_lines_def)
  have "list_all (spent.fine flags_undo) ?rest"
    using spent.all_fine_lines(2) [of flags_undo E]
    by (auto simp: flags_undo_def intro!: spent.fine_testConfigWatch spent.fine_testHealthReporting spent.fine_testGRPC
        spent.fine_testDNS spent.fine_testTCP spent.fine_testCleanup)
  then show "clears flags_undo (demo_body E)"
    unfolding body by (rule clears_within [OF clears_testConfigManagement spent.all_fine_block])
qed

text \<open>These are all the calls that can be called for.\<close>

definition all_undos :: "demo_call list" where
  "all_undos = flags_undo # (http_undos @ data_undos) @ grpc_undos @ tcp_undos"

lemma registered_undone: "list_all (\<lambda>opts. the (undo (Register p opts)) \<in> set all_undos) (registered p)"
proof (cases p)
  case Http
  show ?thesis unfolding Http by code_simp
next
  case Grpc
  show ?thesis unfolding Grpc by code_simp
next
  case Tcp
  show ?thesis unfolding Tcp by code_simp
qed

lemma published_undone: "list_all (\<lambda>(p, did). p = Grpc \<or> Delete p public default_group did \<in> set all_undos) demo_data"
  by code_simp

lemma undo_listed: "demo_makes UNIV k \<Longrightarrow> undo k = Some u \<Longrightarrow> u \<in> set all_undos"
proof (cases k)
  case (Register p opts)
  assume "demo_makes UNIV k" "undo k = Some u"
  then have "opts \<in> set (registered p)" "u = the (undo (Register p opts))"
    unfolding Register by (simp_all only: demo_makes_def demo_call.case option.sel)
  with registered_undone [of p] show ?thesis by (auto simp: list_all_iff simp del: undo.simps)
next
  case (Publish p ns grp did content t)
  assume "demo_makes UNIV k" "undo k = Some u"
  then have "p \<noteq> Grpc" "(p, did) \<in> set demo_data" "u = Delete p public default_group did"
    unfolding Publish by (auto simp: demo_makes_def split: if_splits)
  with published_undone show ?thesis by (auto simp: list_all_iff)
qed simp_all

lemma run_spent:
  assumes "fst (demo_run E) = Next"
  shows "\<not> live u (snd (demo_run E))"
proof (cases "u \<in> set all_undos")
  case True
  then have "ends_spent u E"
    unfolding all_undos_def using ends_spent_flags ends_spent_http ends_spent_grpc ends_spent_tcp
    by (metis set_ConsD Un_iff set_append)
  moreover have "\<not> live u demo_start" by (simp add: live_def demo_start_def)
  ultimately show ?thesis using assms by (simp add: ends_spent_def triple_def demo_run_def)
next
  case False
  have "known (snd (demo_run E))" using knows.fine_run [of E] by (simp add: known_def demo_start_def)
  then have "undo k \<noteq> Some u" if "(k, True) \<in> set (dmCalls (snd (demo_run E)))" for k
    using that False undo_listed [of k u] by (auto simp: known_def on_connection_def)
  then show ?thesis by (auto simp: live_def)
qed

subsection \<open>What could not be taken back is reported\<close>

definition is_warn :: "string \<Rightarrow> bool" where
  "is_warn l \<longleftrightarrow> has_prefix l ''      [WARN] ''"

text \<open>A deletion of the cleanup that has failed has been warned of.\<close>

definition warned :: "demo \<Rightarrow> bool" where
  "warned s \<longleftrightarrow> (\<forall>ns grp did. (Delete Http ns grp did, False) \<in> set (dmCalls s) \<longrightarrow>
     counted (Delete Http ns grp did) \<or> (\<exists>l \<in> set (dmOut s). is_warn l))"

interpretation warns: demo_anywhere E "- {cleanup}" "\<lambda>_. warned" False
  by unfold_locales (auto simp: warned_def step_simps demo_makes_def)

lemma warns_delete_one: "warns.fine (delete_one E did)"
  by (auto simp: warns.fine_def triple_def delete_one_def http_delete_def ask_def attempt_def say_def ok_def warned_def
      step_simps is_warn_def has_prefix_def split_beta split: sum.split)

lemma warns_testCleanup: "warns.fine (testCleanup E)"
proof -
  have "warns.fine (deregister_one E x)" for x
    by (cases x) (simp only: deregister_one_def prod.case warns.fine_calls)
  then show ?thesis
    unfolding testCleanup_def
    by (intro warns.fine_rules warns.fine_on_client warns_delete_one)
       (simp_all add: call_simps StopAllHeartbeats_def rr_ok_def)
qed

lemma run_warned: "warned (snd (demo_run E))"
proof -
  have "list_all (warns.fine) ((first_lines E @ http_tests E) @ testGRPC E # [testDNS E, testTCP E, testCleanup E] @ last_lines E)"
    using warns.all_fine_http [of E] warns.all_fine_lines [of E]
    by (simp add: cleanup_def warns.fine_testGRPC warns.fine_testDNS warns.fine_testTCP warns_testCleanup
        del: block.simps)
  then have "warns.fine (demo_body E)" unfolding demo_body_grpc by (rule warns.all_fine_block)
  moreover have "warned demo_start" by (simp add: warned_def demo_start_def)
  ultimately show ?thesis by (simp add: warns.fine_def triple_def demo_run_def)
qed

lemma failed_undo_reported:
  assumes "(u, False) \<in> set (dmCalls (snd (demo_run E)))" "u \<in> set all_undos"
  shows "\<exists>l \<in> set (dmOut (snd (demo_run E))). is_fail l \<or> is_warn l"
proof (cases "counted u")
  case True
  then have "filter (\<lambda>(k, good). \<not> good \<and> counted k) (dmCalls (snd (demo_run E))) \<noteq> []"
    using assms(1) by (auto simp: filter_empty_conv)
  moreover have "failed_calls (snd (demo_run E)) = fail_lines (snd (demo_run E))"
    using accounts.fine_run [of E] by (simp add: failed_calls_def fail_lines_def demo_start_def)
  ultimately have "filter is_fail (dmOut (snd (demo_run E))) \<noteq> []"
    by (simp add: failed_calls_def fail_lines_def) (metis length_0_conv)
  then show ?thesis by (auto simp: filter_empty_conv)
next
  case False
  then obtain ns grp did where "u = Delete Http ns grp did"
    using assms(2) by (cases u) (auto simp: counted_def all_undos_def http_undos_def grpc_undos_def tcp_undos_def
        data_undos_def flags_undo_def split: if_splits)
  with assms(1) False run_warned [of E] show ?thesis unfolding warned_def by blast
qed

text \<open>
  C37. The demo program takes back what it does: in a run that reaches its end, for every
  instance it has registered, over any of the protocols, the deregistration under the same
  namespace, group, service, cluster and address is called afterwards, and for every
  configuration it has published over HTTP or TCP the deletion. Whether such a call succeeds is the
  server's affair; but if none does, the program has printed a line that reports a failure
  (\<^verbatim>\<open>[FAIL]\<close>, or \<^verbatim>\<open>[WARN]\<close> for a deletion of the cleanup), so that a run without such a line
  leaves none of them behind. The configuration it publishes over gRPC stays: no run deletes it.
\<close>
theorem demo_undoes_itself:
  assumes "fst (demo_run E) = Next"
  shows "(\<forall>pre k post. dmCalls (snd (demo_run E)) = pre @ (k, True) # post \<longrightarrow>
           (case undo k of None \<Rightarrow> True
            | Some u \<Rightarrow> u \<in> fst ` set post \<and>
                ((u, True) \<in> set post \<or> (\<exists>l \<in> set (dmOut (snd (demo_run E))). is_fail l \<or> is_warn l)))) \<and>
         (\<forall>p ns grp. Delete p ns grp ''grpc-config-test'' \<notin> fst ` set (dmCalls (snd (demo_run E))))"
proof -
  have known: "known (snd (demo_run E))"
    using knows.fine_run [of E] by (simp add: known_def demo_start_def)
  then have grpc: "\<forall>p ns grp. Delete p ns grp ''grpc-config-test'' \<notin> fst ` set (dmCalls (snd (demo_run E)))"
    by (fastforce simp: known_def on_connection_def demo_makes_def demo_data_def)
  have "u \<in> fst ` set post \<and> ((u, True) \<in> set post \<or> (\<exists>l \<in> set (dmOut (snd (demo_run E))). is_fail l \<or> is_warn l))"
    if calls: "dmCalls (snd (demo_run E)) = pre @ (k, True) # post" and u: "undo k = Some u" for pre k post u
  proof -
    have made: "u \<in> fst ` set post" using run_spent [OF assms] calls u by (auto simp: live_def)
    then obtain good where good: "(u, good) \<in> set post" by auto
    have "demo_makes UNIV k" using known calls u by (auto simp: known_def on_connection_def)
    then have "u \<in> set all_undos" using u by (rule undo_listed)
    with good calls made show ?thesis using failed_undo_reported [of u E] by (cases good) auto
  qed
  with grpc show ?thesis by (auto split: option.split)
qed

text \<open>In the calm world the first registration succeeds, and its event stays in the history.\<close>

interpretation logs: demo_anywhere E UNIV "\<lambda>_ s. ev \<in> set (dmCalls s)" False
  by unfold_locales (auto simp: step_simps)

lemma calm_registered: "(Register Http (hd http_instances), True) \<in> set (dmCalls (snd (demo_run calm_world)))"
proof -
  let ?ev = "(Register Http (hd http_instances), True)" and ?E = calm_world
  let ?has = "\<lambda>_ s. ?ev \<in> set (dmCalls s)"
  obtain more where xs: "enumerate 0 http_instances = (0, hd http_instances) # more"
    by (simp add: http_instances_def)
  have all: "\<forall>p \<in> set (enumerate 0 http_instances). logs.fine ?ev (register_one ?E p)"
    by (auto simp: register_one_def in_set_enumerate_eq simp del: register.simps intro!: logs.fine_calls)
  then have more: "logs.fine ?ev (for_each (register_one ?E) more)"
    by (intro logs.fine_for) (simp add: xs)
  have "triple (\<lambda>_. True) (register_one ?E (0, hd http_instances)) (\<lambda>f s. f = Next \<and> ?ev \<in> set (dmCalls s))"
    by (auto simp: triple_def register_one_def ask_def attempt_def calm_world_def client_RegisterInstance_def simple_call_def
        do_req_def checkResp_def call_outcome_def report_def ok_def say_def step_simps)
  then have "triple (\<lambda>_. True) (for_each (register_one ?E) (enumerate 0 http_instances)) ?has"
    using more unfolding xs triple_def logs.fine_def by (auto simp: for_each.simps(2) split_beta)
  then have reg: "triple (\<lambda>_. True) (testServiceRegistration ?E) (\<lambda>f s. f = Next \<longrightarrow> ?ev \<in> set (dmCalls s))"
    unfolding testServiceRegistration_def triple_def by (auto simp: func_def block.simps(2) split_beta heading_def say_def)
  have "logs.fine ?ev (block (tl (http_tests ?E) @ [testGRPC ?E, testDNS ?E, testTCP ?E, testCleanup ?E] @ last_lines ?E))"
    using logs.all_fine_http [of ?ev ?E] logs.all_fine_lines(2) [of ?ev ?E]
    by (intro logs.all_fine_block) (simp add: http_tests_def logs.fine_testGRPC logs.fine_testDNS logs.fine_testTCP logs.fine_testCleanup)
  then have "triple (\<lambda>_. True) (block (http_tests ?E @ [testGRPC ?E, testDNS ?E, testTCP ?E, testCleanup ?E] @ last_lines ?E))
      (\<lambda>f s. f = Next \<longrightarrow> ?ev \<in> set (dmCalls s))"
    using reg unfolding triple_def logs.fine_def http_tests_def by (auto simp: block.simps(2) split_beta)
  then have "triple (\<lambda>_. True) (demo_body ?E) (\<lambda>f s. f = Next \<longrightarrow> ?ev \<in> set (dmCalls s))"
    unfolding demo_body_grpc append_assoc block_append [of "first_lines ?E"] triple_def by (auto simp: split_beta)
  then show ?thesis using run_completes [OF calm_digests] by (simp add: triple_def demo_run_def)
qed

theorem demo_undoes_itself_witness:
  "Deregister Http public default_group ''order-service'' default_cluster ''192.168.1.10'' 8080 \<in>
     fst ` set (dmCalls (snd (demo_run calm_world))) \<and>
   Delete Tcp public default_group ''grpc-config-test'' \<notin> fst ` set (dmCalls (snd (demo_run calm_world)))"
proof -
  let ?k = "Register Http (hd http_instances)"
    and ?u = "Deregister Http public default_group ''order-service'' default_cluster ''192.168.1.10'' 8080"
  note undone = demo_undoes_itself [OF run_completes [OF calm_digests]]
  obtain pre post where calls: "dmCalls (snd (demo_run calm_world)) = pre @ (?k, True) # post"
    using calm_registered by (meson split_list)
  have undo: "undo ?k = Some ?u" by (simp add: http_instances_def opts_of_def withDefault_def)
  have "case undo ?k of None \<Rightarrow> True | Some u \<Rightarrow> u \<in> fst ` set post \<and>
      ((u, True) \<in> set post \<or> (\<exists>l \<in> set (dmOut (snd (demo_run calm_world))). is_fail l \<or> is_warn l))"
    using undone calls by blast
  then have "?u \<in> fst ` set post" unfolding undo option.case by (rule conjunct1)
  then have "?u \<in> fst ` set (dmCalls (snd (demo_run calm_world)))"
    unfolding calls set_append list.set by blast
  with undone show ?thesis by blast
qed

end
