(* ===== verification/DnsTest.thy ===== *)
theory DnsTest
  imports Dns
begin

text \<open>
  \<^verbatim>\<open>src/cmd/dnstest/main.go\<close>: the program that queries the DNS server and prints what comes
  back. \<open>ex i q\<close> is what \<^verbatim>\<open>Exchange\<close> returns for the \<open>i\<close>th query, an error or a message. A run
  is the texts it prints, line by line, and how it ends: a type assertion on a record of
  another type is a panic.
\<close>

datatype ending = Finished | Exited | Crashed

type_synonym stage = "string list \<times> ending option"

text \<open>Stages run in turn until one ends the program.\<close>

fun run_stages :: "stage list \<Rightarrow> string list \<times> ending" where
  "run_stages [] = ([], Finished)"
| "run_stages ((ls, Some e) # stages) = (ls, e)"
| "run_stages ((ls, None) # stages) = (case run_stages stages of (ls', e) \<Rightarrow> (ls @ ls', e))"

definition fqdn :: "string \<Rightarrow> string" where
  "fqdn s = (if has_suffix s ''.'' then s else s @ ''.'')"

definition show_ip :: "ip4 \<Rightarrow> string" where
  "show_ip ip = (case ip of (a, b, c, d) \<Rightarrow>
     itoa (int a) @ ''.'' @ itoa (int b) @ ''.'' @ itoa (int c) @ ''.'' @ itoa (int d))"

definition test_domain :: string where
  "test_domain = ''dns-test.DEFAULT_GROUP.public.benbroo.''"

definition line_feed :: string where
  "line_feed = [CHR 0x0A]"

text \<open>The loops over the answers; the first record of another type ends the program.\<close>

fun a_lines :: "dns_rr list \<Rightarrow> stage" where
  "a_lines [] = ([], None)"
| "a_lines (RR_A _ _ ip # rs) = (case a_lines rs of (ls, e) \<Rightarrow> ((''  A: '' @ show_ip ip) # ls, e))"
| "a_lines (RR_SRV _ _ _ _ _ _ # rs) = ([], Some Crashed)"

fun srv_lines :: "dns_rr list \<Rightarrow> stage" where
  "srv_lines [] = ([], None)"
| "srv_lines (RR_SRV _ _ _ w port target # rs) =
     (case srv_lines rs of (ls, e) \<Rightarrow>
        ((''  SRV: target='' @ target @ '' port='' @ itoa (uint port) @ '' weight='' @ itoa (uint w)) # ls, e))"
| "srv_lines (RR_A _ _ _ # rs) = ([], Some Crashed)"

fun extra_lines :: "dns_rr list \<Rightarrow> string list" where
  "extra_lines [] = []"
| "extra_lines (RR_A name _ ip # rs) = (''  EXTRA A: '' @ name @ '' -> '' @ show_ip ip) # extra_lines rs"
| "extra_lines (RR_SRV _ _ _ _ _ _ # rs) = extra_lines rs"

type_synonym exchange = "nat \<Rightarrow> string \<times> nat \<Rightarrow> string + dns_msg"

definition a_stage :: "exchange \<Rightarrow> stage" where
  "a_stage ex = (case ex 0 (fqdn test_domain, 1) of
     Inl e \<Rightarrow> ([''Error: '' @ e], Some Exited)
   | Inr r \<Rightarrow> apfst ((@) (if mAnswer r = [] then [''No A records found''] else [])) (a_lines (mAnswer r)))"

definition srv_stage :: "exchange \<Rightarrow> stage" where
  "srv_stage ex = (case ex 1 (fqdn test_domain, 33) of
     Inl e \<Rightarrow> ([''Error: '' @ e], Some Exited)
   | Inr r \<Rightarrow> (case srv_lines (mAnswer r) of (ls, end) \<Rightarrow>
        ((if mAnswer r = [] then [''No SRV records found''] else []) @ ls @
           (if end = None then extra_lines (mExtra r) else []), end)))"

definition weighted_stage :: "exchange \<Rightarrow> nat \<Rightarrow> stage" where
  "weighted_stage ex i = (case ex (2 + i) (fqdn test_domain, 1) of
     Inl e \<Rightarrow> ([''Query '' @ itoa (int i + 1) @ '' error: '' @ e], None)
   | Inr r \<Rightarrow> (case mAnswer r of
                [] \<Rightarrow> ([], None)
              | RR_A _ _ ip # _ \<Rightarrow> ([''  Query '' @ itoa (int i + 1) @ '': first answer = '' @ show_ip ip], None)
              | RR_SRV _ _ _ _ _ _ # _ \<Rightarrow> ([], Some Crashed)))"

definition missing_stage :: "exchange \<Rightarrow> stage" where
  "missing_stage ex = (case ex 7 (''nonexistent.DEFAULT_GROUP.public.benbroo.'', 1) of
     Inl e \<Rightarrow> ([''Error: '' @ e], None)
   | Inr r \<Rightarrow> ([''  Answers: '' @ itoa (int (length (mAnswer r))) @ '' (expected 0)''], None))"

definition dnstest_main :: "exchange \<Rightarrow> string list \<times> ending" where
  "dnstest_main ex = run_stages
     ([([''=== DNS A Record Query: '' @ test_domain @ '' ===''], None), a_stage ex,
       ([line_feed @ ''=== DNS SRV Record Query: '' @ test_domain @ '' ===''], None), srv_stage ex,
       ([line_feed @ ''=== Weighted DNS Resolution (5 queries) ===''], None)] @
      map (weighted_stage ex) [0..<5] @
      [([line_feed @ ''=== Non-existent Domain ===''], None), missing_stage ex,
       ([line_feed @ ''DNS test complete!''], None)])"

section \<open>Against the server\<close>

text \<open>
  A query is one question, answered into an empty message from the registry and the counters
  of that moment; a handler that panics sends nothing.
\<close>

definition query_to ::
  "(nat \<Rightarrow> dns_env \<times> ('i, 's) registry \<times> rr_index) \<Rightarrow> exchange" where
  "query_to st i q = (case st i of (e, R, rr) \<Rightarrow>
     (case handleDNS e R [q] (rr, \<lparr>mAnswer = [], mExtra = []\<rparr>) of
        None \<Rightarrow> Inl ''i/o timeout'' | Some (_, m) \<Rightarrow> Inr m))"

definition is_A :: "dns_rr \<Rightarrow> bool" where
  "is_A r \<longleftrightarrow> (case r of RR_A _ _ _ \<Rightarrow> True | _ \<Rightarrow> False)"

lemma a_records_A: "r \<in> set (a_records e name x) \<Longrightarrow> is_A r"
  by (auto simp: a_records_def is_A_def split: option.splits)

lemma answers_of_type:
  "query_to st i (name, 1) = Inr m \<Longrightarrow> list_all is_A (mAnswer m)"
  "query_to st i (name, 33) = Inr m \<Longrightarrow> list_all (\<lambda>r. \<not> is_A r) (mAnswer m)"
proof -
  show "list_all is_A (mAnswer m)" if "query_to st i (name, 1) = Inr m"
    using that by (auto simp: query_to_def handle_question_def handleA_def list_all_iff Let_def dest!: a_records_A
        split: prod.splits option.splits if_splits)
  show "list_all (\<lambda>r. \<not> is_A r) (mAnswer m)" if "query_to st i (name, 33) = Inr m"
    using that by (auto simp: query_to_def handle_question_def handleSRV_def list_all_iff Let_def is_A_def
        split: prod.splits option.splits if_splits)
qed

lemma lines_total:
  "list_all is_A rs \<Longrightarrow> snd (a_lines rs) = None"
  "list_all (\<lambda>r. \<not> is_A r) rs \<Longrightarrow> snd (srv_lines rs) = None"
  by (induction rs, simp, case_tac a; simp add: is_A_def split_beta)+

lemma stages_pass: "\<forall>st \<in> set xs. snd st = None \<Longrightarrow> snd (run_stages (xs @ ys)) = snd (run_stages ys)"
  by (induction xs rule: run_stages.induct) (auto simp: split_beta)

lemma stages_end: "snd (run_stages (st # stages)) = (case snd st of Some e \<Rightarrow> e | None \<Rightarrow> snd (run_stages stages))"
  by (cases st rule: prod.exhaust, cases "snd st") (auto simp: split_beta)

lemma weighted_total: "snd (weighted_stage (query_to st) i) = None"
proof (cases "query_to st (2 + i) (fqdn test_domain, 1)")
  case (Inr m)
  from answers_of_type(1) [OF this] Inr show ?thesis
    by (cases "mAnswer m") (auto simp: weighted_stage_def is_A_def split: dns_rr.splits)
qed (simp add: weighted_stage_def)

lemma first_ends:
  "snd (a_stage (query_to st)) = (if isl (query_to st 0 (fqdn test_domain, 1)) then Some Exited else None)"
  "snd (srv_stage (query_to st)) = (if isl (query_to st 1 (fqdn test_domain, 33)) then Some Exited else None)"
  by (auto simp: a_stage_def srv_stage_def lines_total answers_of_type split_beta split: sum.split)

text \<open>
  C39. The DNS test program does not panic on the answers of this server, whatever is registered
  and whatever the state of the server at each of its queries, since every answer has the type
  that its question asked for: it exits exactly if one of its first two queries gets no answer,
  and finishes otherwise, whatever becomes of the later ones.
\<close>
theorem dnstest_never_panics:
  "snd (dnstest_main (query_to st)) =
     (if isl (query_to st 0 (fqdn test_domain, 1)) \<or> isl (query_to st 1 (fqdn test_domain, 33)) then Exited else Finished)"
proof -
  have missing: "snd (missing_stage (query_to st)) = None" by (simp add: missing_stage_def split: sum.split)
  have later: "snd (run_stages (map (weighted_stage (query_to st)) [0..<5] @ ys)) = snd (run_stages ys)" for ys
    by (rule stages_pass) (auto simp: weighted_total)
  show ?thesis unfolding dnstest_main_def append.simps
    by (simp add: stages_end first_ends later missing del: run_stages.simps(2,3))
qed

end
