(* ===== verification/Console.thy ===== *)
theory Console
  imports GoText
begin

text \<open>
  \<^verbatim>\<open>src/web/console.go\<close>: the routes of the web console. The file server over the embedded files
  is a parameter: from the path below the console and the headers already set to a reply.
\<close>

type_synonym headers = "(string \<times> string) list"

record web_reply =
  wbStatus :: nat
  wbHeaders :: headers
  wbBody :: string

type_synonym file_server = "string \<Rightarrow> headers \<Rightarrow> web_reply"

definition not_found :: web_reply where
  "not_found = \<lparr>wbStatus = 404, wbHeaders = [], wbBody = ''404 page not found''\<rparr>"

text \<open>\<^verbatim>\<open>http.StripPrefix\<close>: a path without the prefix is not found.\<close>

definition strip_prefix :: "string \<Rightarrow> file_server \<Rightarrow> file_server" where
  "strip_prefix p files path hs = (if has_prefix path p then files (drop (length p) path) hs else not_found)"

definition no_cache :: headers where
  "no_cache = [(''Cache-Control'', ''no-cache, no-store, must-revalidate''), (''Pragma'', ''no-cache''), (''Expires'', ''0'')]"

definition redirect_to :: "string \<Rightarrow> web_reply" where
  "redirect_to loc = \<lparr>wbStatus = 301, wbHeaders = [(''Location'', loc)], wbBody = []\<rparr>"

text \<open>The two routes; \<^const>\<open>None\<close> is a request neither of them takes.\<close>

definition console_Register :: "file_server \<Rightarrow> string \<Rightarrow> string \<Rightarrow> web_reply option" where
  "console_Register files meth path =
     (if meth \<noteq> ''GET'' then None
      else if has_prefix path ''/console/'' then Some (strip_prefix ''/console'' files path no_cache)
      else if path = ''/'' then Some (redirect_to ''/console/'')
      else None)"

text \<open>
  The root page leads to the console: a browser that follows its redirection gets the root of
  the embedded files, and no file is ever served without the headers that forbid caching it.
\<close>

lemma root_leads_to_console:
  "\<exists>loc. Option.bind (console_Register files ''GET'' ''/'') (\<lambda>r. map_of (wbHeaders r) ''Location'') = Some loc \<and>
     console_Register files ''GET'' loc = Some (files ''/'' no_cache)"
  by (simp add: console_Register_def redirect_to_def strip_prefix_def has_prefix_def)

lemma console_strips: "console_Register files ''GET'' (''/console/'' @ p) = Some (files (''/'' @ p) no_cache)"
  by (simp add: console_Register_def strip_prefix_def has_prefix_def)

end
