(* ===== verification/Wiring.thy ===== *)
theory Wiring
  imports ServerMain Lifecycle
begin

text \<open>
  Which object holds which: the constructors of all components as allocations, and the part of
  \<^verbatim>\<open>main\<close> (\<^verbatim>\<open>src/cmd/server/main.go\<close>) that composes them. Everywhere else the state of a server
  is one record (\<^verbatim>\<open>App\<close>) that every component reads and writes; here it is shown that the
  pointers \<^verbatim>\<open>main\<close> hands out make it one: there is a single object of each kind, and every
  component that needs one holds it. Loggers are left out.
\<close>

section \<open>Objects\<close>

text \<open>An address is the position of an object in the order of allocation. \<open>'db\<close>: the gorm handle.\<close>

record api_object =
  aoNaming :: nat
  aoConfig :: nat
  aoNamespace :: nat
  aoManager :: nat
  aoSyncer :: "nat option"
  aoChecker :: nat
  aoEvents :: nat
  aoInst :: nat
  aoSvc :: nat
  aoCfg :: nat
  aoAuth :: nat

record checker_object =
  koInst :: nat
  koSvc :: nat
  koEvents :: nat
  koCfg :: Config
  koTimeout :: int

record tcp_object =
  toAddr :: string
  toNaming :: nat
  toConfig :: nat
  toChecker :: nat
  toInst :: nat

record grpc_object =
  goNaming :: nat
  goConfig :: nat
  goChecker :: nat
  goInst :: nat

datatype 'db object =
    OInstances 'db
  | OServices 'db
  | OConfigs 'db
  | ONamespaces 'db
  | ONodes 'db
  | OBus
  | ONaming nat nat nat
  | OConfig nat nat
  | ONamespace nat
  | OManager string "string list" nat
  | OChecker checker_object
  | OAuth auth_manager
  | OApi api_object
  | OSyncer nat
  | ODns DnsConfig nat
  | OTcp tcp_object
  | OGrpc grpc_object

type_synonym 'db heap = "'db object list"

definition alloc :: "'db object \<Rightarrow> 'db heap \<Rightarrow> nat \<times> 'db heap" where
  "alloc x h = (length h, h @ [x])"

section \<open>Constructors\<close>

definition NewInstanceStore :: "'db \<Rightarrow> 'db heap \<Rightarrow> nat \<times> 'db heap" where
  "NewInstanceStore db = alloc (OInstances db)"

definition NewServiceStore :: "'db \<Rightarrow> 'db heap \<Rightarrow> nat \<times> 'db heap" where
  "NewServiceStore db = alloc (OServices db)"

definition NewConfigStore :: "'db \<Rightarrow> 'db heap \<Rightarrow> nat \<times> 'db heap" where
  "NewConfigStore db = alloc (OConfigs db)"

definition NewNamespaceStore :: "'db \<Rightarrow> 'db heap \<Rightarrow> nat \<times> 'db heap" where
  "NewNamespaceStore db = alloc (ONamespaces db)"

definition NewClusterNodeStore :: "'db \<Rightarrow> 'db heap \<Rightarrow> nat \<times> 'db heap" where
  "NewClusterNodeStore db = alloc (ONodes db)"

definition naming_NewService :: "nat \<Rightarrow> nat \<Rightarrow> nat \<Rightarrow> 'db heap \<Rightarrow> nat \<times> 'db heap" where
  "naming_NewService inst svc events = alloc (ONaming inst svc events)"

definition config_NewService :: "nat \<Rightarrow> nat \<Rightarrow> 'db heap \<Rightarrow> nat \<times> 'db heap" where
  "config_NewService cfg events = alloc (OConfig cfg events)"

definition namespace_NewService :: "nat \<Rightarrow> 'db heap \<Rightarrow> nat \<times> 'db heap" where
  "namespace_NewService store = alloc (ONamespace store)"

definition cluster_NewManager :: "string \<Rightarrow> string list \<Rightarrow> nat \<Rightarrow> 'db heap \<Rightarrow> nat \<times> 'db heap" where
  "cluster_NewManager self peers store = alloc (OManager self peers store)"

text \<open>The prober of a checker is its timeout.\<close>

definition newActiveProber :: "int \<Rightarrow> int" where
  "newActiveProber timeoutSec = seconds timeoutSec"

definition health_NewChecker :: "nat \<Rightarrow> nat \<Rightarrow> nat \<Rightarrow> Config \<Rightarrow> 'db heap \<Rightarrow> nat \<times> 'db heap" where
  "health_NewChecker inst svc events cfg =
     alloc (OChecker \<lparr>koInst = inst, koSvc = svc, koEvents = events, koCfg = applyDefaults cfg,
       koTimeout = newActiveProber (ActiveTimeout (applyDefaults cfg))\<rparr>)"

definition auth_NewManager :: "AuthConfig \<Rightarrow> 'db heap \<Rightarrow> nat \<times> 'db heap" where
  "auth_NewManager cfg = alloc (OAuth (NewAuthManager cfg))"

definition api_NewServer ::
  "nat \<Rightarrow> nat \<Rightarrow> nat \<Rightarrow> nat \<Rightarrow> nat \<Rightarrow> nat \<Rightarrow> nat \<Rightarrow> nat \<Rightarrow> nat \<Rightarrow> nat \<Rightarrow> 'db heap \<Rightarrow> nat \<times> 'db heap" where
  "api_NewServer namingSvc configSvc namespaceSvc clusterMgr healthChk events instStore svcStore cfgStore authMgr =
     alloc (OApi \<lparr>aoNaming = namingSvc, aoConfig = configSvc, aoNamespace = namespaceSvc, aoManager = clusterMgr,
       aoSyncer = None, aoChecker = healthChk, aoEvents = events, aoInst = instStore, aoSvc = svcStore,
       aoCfg = cfgStore, aoAuth = authMgr\<rparr>)"

definition NewSyncer :: "nat \<Rightarrow> 'db heap \<Rightarrow> nat \<times> 'db heap" where
  "NewSyncer manager = alloc (OSyncer manager)"

text \<open>The API server gets its syncer after its routes have been registered.\<close>

definition SetSyncer :: "nat \<Rightarrow> nat \<Rightarrow> 'db heap \<Rightarrow> 'db heap" where
  "SetSyncer api syncer h =
     (case h ! api of OApi a \<Rightarrow> h[api := OApi (a\<lparr>aoSyncer := Some syncer\<rparr>)] | _ \<Rightarrow> h)"

definition dns_object :: "DnsConfig \<Rightarrow> nat \<Rightarrow> 'db heap \<Rightarrow> nat \<times> 'db heap" where
  "dns_object cfg namingSvc = alloc (ODns (dns_fill cfg) namingSvc)"

definition tcp_NewServer :: "string \<Rightarrow> nat \<Rightarrow> nat \<Rightarrow> nat \<Rightarrow> nat \<Rightarrow> 'db heap \<Rightarrow> nat \<times> 'db heap" where
  "tcp_NewServer addr namingSvc configSvc healthChk instStore =
     alloc (OTcp \<lparr>toAddr = addr, toNaming = namingSvc, toConfig = configSvc, toChecker = healthChk, toInst = instStore\<rparr>)"

definition grpc_NewServer :: "nat \<Rightarrow> nat \<Rightarrow> nat \<Rightarrow> nat \<Rightarrow> 'db heap \<Rightarrow> nat \<times> 'db heap" where
  "grpc_NewServer namingSvc configSvc healthChk instStore =
     alloc (OGrpc \<lparr>goNaming = namingSvc, goConfig = configSvc, goChecker = healthChk, goInst = instStore\<rparr>)"

section \<open>Composition\<close>

record servers =
  srApi :: nat
  srDns :: nat
  srTcp :: nat
  srGrpc :: nat
  srChecker :: nat
  srManager :: nat
  srSyncer :: nat

definition main_objects :: "AppConfig \<Rightarrow> 'db \<Rightarrow> servers \<times> 'db heap" where
  "main_objects cfg db =
     (let (instStore, h) = NewInstanceStore db [];
          (svcStore, h) = NewServiceStore db h;
          (cfgStore, h) = NewConfigStore db h;
          (nsStore, h) = NewNamespaceStore db h;
          (nodeStore, h) = NewClusterNodeStore db h;
          (events, h) = alloc OBus h;
          (namingSvc, h) = naming_NewService instStore svcStore events h;
          (configSvc, h) = config_NewService cfgStore events h;
          (nsSvc, h) = namespace_NewService nsStore h;
          (clusterMgr, h) = cluster_NewManager (mcSelfAddr cfg) (mcMembers cfg) nodeStore h;
          (healthChecker, h) = health_NewChecker instStore svcStore events (mcHealth cfg) h;
          (authMgr, h) = auth_NewManager (mcAuth cfg) h;
          (server, h) = api_NewServer namingSvc configSvc nsSvc clusterMgr healthChecker events instStore svcStore
                          cfgStore authMgr h;
          (syncer, h) = NewSyncer clusterMgr h;
          h = SetSyncer server syncer h;
          (dnsSrv, h) = dns_object \<lparr>dcPort = dns_port cfg, dcDomain = [], dcTTL = 0\<rparr> namingSvc h;
          (tcpSrv, h) = tcp_NewServer (listen_addr cfg (tcp_port cfg)) namingSvc configSvc healthChecker instStore h;
          (grpcImpl, h) = grpc_NewServer namingSvc configSvc healthChecker instStore h
      in (\<lparr>srApi = server, srDns = dnsSrv, srTcp = tcpSrv, srGrpc = grpcImpl, srChecker = healthChecker,
           srManager = clusterMgr, srSyncer = syncer\<rparr>, h))"

section \<open>One of each\<close>

datatype kind = KInstances | KServices | KConfigs | KNamespaces | KNodes | KBus | KNaming | KConfig | KNamespace
  | KManager | KChecker | KAuth | KApi | KSyncer | KDns | KTcp | KGrpc

fun kind_of :: "'db object \<Rightarrow> kind" where
  "kind_of (OInstances _) = KInstances"
| "kind_of (OServices _) = KServices"
| "kind_of (OConfigs _) = KConfigs"
| "kind_of (ONamespaces _) = KNamespaces"
| "kind_of (ONodes _) = KNodes"
| "kind_of OBus = KBus"
| "kind_of (ONaming _ _ _) = KNaming"
| "kind_of (OConfig _ _) = KConfig"
| "kind_of (ONamespace _) = KNamespace"
| "kind_of (OManager _ _ _) = KManager"
| "kind_of (OChecker _) = KChecker"
| "kind_of (OAuth _) = KAuth"
| "kind_of (OApi _) = KApi"
| "kind_of (OSyncer _) = KSyncer"
| "kind_of (ODns _ _) = KDns"
| "kind_of (OTcp _) = KTcp"
| "kind_of (OGrpc _) = KGrpc"

text \<open>The pointers an object holds, each with the kind its type asks for.\<close>

fun pointers :: "'db object \<Rightarrow> (kind \<times> nat) list" where
  "pointers (ONaming i s b) = [(KInstances, i), (KServices, s), (KBus, b)]"
| "pointers (OConfig c b) = [(KConfigs, c), (KBus, b)]"
| "pointers (ONamespace n) = [(KNamespaces, n)]"
| "pointers (OManager _ _ n) = [(KNodes, n)]"
| "pointers (OChecker k) = [(KInstances, koInst k), (KServices, koSvc k), (KBus, koEvents k)]"
| "pointers (OApi a) = [(KNaming, aoNaming a), (KConfig, aoConfig a), (KNamespace, aoNamespace a), (KManager, aoManager a),
     (KChecker, aoChecker a), (KBus, aoEvents a), (KInstances, aoInst a), (KServices, aoSvc a), (KConfigs, aoCfg a),
     (KAuth, aoAuth a)] @ (case aoSyncer a of None \<Rightarrow> [] | Some s \<Rightarrow> [(KSyncer, s)])"
| "pointers (OSyncer m) = [(KManager, m)]"
| "pointers (ODns _ n) = [(KNaming, n)]"
| "pointers (OTcp t) = [(KNaming, toNaming t), (KConfig, toConfig t), (KChecker, toChecker t), (KInstances, toInst t)]"
| "pointers (OGrpc g) = [(KNaming, goNaming g), (KConfig, goConfig g), (KChecker, goChecker g), (KInstances, goInst g)]"
| "pointers _ = []"

text \<open>Every pointer leads to an object of its kind, and there is one object of each kind.\<close>

definition wired :: "'db heap \<Rightarrow> bool" where
  "wired h \<longleftrightarrow> distinct (map kind_of h) \<and>
     (\<forall>x \<in> set h. \<forall>(k, r) \<in> set (pointers x). r < length h \<and> kind_of (h ! r) = k)"

lemma wired_alloc:
  assumes "wired h" "kind_of x \<notin> kind_of ` set h" "\<forall>(k, r) \<in> set (pointers x). r < length h \<and> kind_of (h ! r) = k"
  shows "wired (snd (alloc x h))"
  using assms by (fastforce simp: wired_def alloc_def nth_append)

text \<open>In a wired heap, two components that hold an object of one kind hold the same object.\<close>

lemma wired_shares:
  assumes "wired h" "x \<in> set h" "y \<in> set h" "(k, r) \<in> set (pointers x)" "(k, s) \<in> set (pointers y)"
  shows "r = s"
proof -
  have target: "i < length h \<and> kind_of (h ! i) = k" if "z \<in> set h" "(k, i) \<in> set (pointers z)" for z i
    using assms(1) that by (auto simp: wired_def)
  note p = target [OF assms(2,4)] target [OF assms(3,5)]
  then have "map kind_of h ! r = map kind_of h ! s" "r < length (map kind_of h)" "s < length (map kind_of h)" by simp_all
  moreover have "distinct (map kind_of h)" using assms(1) by (simp add: wired_def)
  ultimately show ?thesis by (simp only: nth_eq_iff_index_eq)
qed

lemmas constructors = NewInstanceStore_def NewServiceStore_def NewConfigStore_def NewNamespaceStore_def
  NewClusterNodeStore_def naming_NewService_def config_NewService_def namespace_NewService_def cluster_NewManager_def
  health_NewChecker_def auth_NewManager_def api_NewServer_def NewSyncer_def dns_object_def tcp_NewServer_def
  grpc_NewServer_def alloc_def

text \<open>
  What \<^verbatim>\<open>main\<close> builds is wired: the HTTP, TCP, gRPC and DNS servers, the health checker and the
  services work on one registry, one bus and one set of counters, over one database handle; and
  only the API server holds the syncer, which holds the manager the API server holds.
\<close>
theorem main_wired:
  assumes "main_objects cfg db = (s, h)"
  shows "wired h" and "\<exists>a. h ! srApi s = OApi a \<and> aoSyncer a = Some (srSyncer s) \<and> h ! srSyncer s = OSyncer (aoManager a)"
    and "\<And>x. x \<in> set h \<Longrightarrow> (KSyncer, r) \<in> set (pointers x) \<Longrightarrow> kind_of x = KApi"
  using assms
  by (auto simp: main_objects_def constructors SetSyncer_def wired_def Let_def)

end
