(* ===== verification/Interleave.thy ===== *)
theory Interleave
  imports Running
begin

text \<open>
  The operations of the services at the grain at which they interleave in the running program:
  one statement of a store, one publication on the bus, one access to the counters under their
  lock. An operation is a tree of such steps; run alone it is the operation of the service, and
  any number of them in progress at once, from the three servers, the health checker and the
  cluster manager, keep the state in order.
\<close>

section \<open>Operations as steps\<close>

datatype 'a op = Finished | Step "'a \<Rightarrow> 'a \<times> 'a op"

primrec run_op :: "'a op \<Rightarrow> 'a \<Rightarrow> 'a" where
  "run_op Finished = (\<lambda>A. A)"
| "run_op (Step f) = (\<lambda>A. case map_prod id run_op (f A) of (A', rest) \<Rightarrow> rest A')"

lemma run_Step: "run_op (Step f) A = run_op (snd (f A)) (fst (f A))"
  by (simp add: split_beta)

declare run_op.simps(2) [simp del] run_Step [simp]

text \<open>A statement on one of the tables: the continuation learns whether it succeeded.\<close>

definition inst_stmt ::
  "('i inst_table \<Rightarrow> gerr + 'i inst_table) \<Rightarrow> (bool \<Rightarrow> ('i, 's, 'c, 'h, 'n, 'd) app op) \<Rightarrow> ('i, 's, 'c, 'h, 'n, 'd) app op" where
  "inst_stmt f k = Step (\<lambda>A. case f (apInst A) of Inl e \<Rightarrow> (A, k False) | Inr T \<Rightarrow> (A\<lparr>apInst := T\<rparr>, k True))"

definition svc_stmt ::
  "('s svc_table \<Rightarrow> gerr + 's svc_table) \<Rightarrow> (bool \<Rightarrow> ('i, 's, 'c, 'h, 'n, 'd) app op) \<Rightarrow> ('i, 's, 'c, 'h, 'n, 'd) app op" where
  "svc_stmt f k = Step (\<lambda>A. case f (apSvc A) of Inl e \<Rightarrow> (A, k False) | Inr T \<Rightarrow> (A\<lparr>apSvc := T\<rparr>, k True))"

definition cfg_stmt ::
  "(('c, 'h) config_store \<Rightarrow> gerr + ('c, 'h) config_store) \<Rightarrow> (bool \<Rightarrow> ('i, 's, 'c, 'h, 'n, 'd) app op)
   \<Rightarrow> ('i, 's, 'c, 'h, 'n, 'd) app op" where
  "cfg_stmt f k = Step (\<lambda>A. case f (apCfg A) of Inl e \<Rightarrow> (A, k False) | Inr T \<Rightarrow> (A\<lparr>apCfg := T\<rparr>, k True))"

definition ns_stmt :: "('n ns_table \<Rightarrow> gerr + 'n ns_table) \<Rightarrow> ('i, 's, 'c, 'h, 'n, 'd) app op \<Rightarrow> ('i, 's, 'c, 'h, 'n, 'd) app op" where
  "ns_stmt f k = Step (\<lambda>A. case f (apNs A) of Inl e \<Rightarrow> (A, k) | Inr T \<Rightarrow> (A\<lparr>apNs := T\<rparr>, k))"

definition mgr_stmt :: "('d manager \<Rightarrow> 'd manager) \<Rightarrow> ('i, 's, 'c, 'h, 'n, 'd) app op \<Rightarrow> ('i, 's, 'c, 'h, 'n, 'd) app op" where
  "mgr_stmt f k = Step (\<lambda>A. (A\<lparr>apMgr := f (apMgr A)\<rparr>, k))"

definition bus_stmt :: "(bus \<Rightarrow> bus) \<Rightarrow> ('i, 's, 'c, 'h, 'n, 'd) app op \<Rightarrow> ('i, 's, 'c, 'h, 'n, 'd) app op" where
  "bus_stmt f k = Step (\<lambda>A. (A\<lparr>apBus := f (apBus A)\<rparr>, k))"

definition read_stmt :: "('a \<Rightarrow> 'r) \<Rightarrow> ('r \<Rightarrow> 'a op) \<Rightarrow> 'a op" where
  "read_stmt r k = Step (\<lambda>A. (A, k (r A)))"

lemmas stmt_defs = inst_stmt_def svc_stmt_def cfg_stmt_def ns_stmt_def mgr_stmt_def bus_stmt_def read_stmt_def

section \<open>Naming\<close>

definition register_op :: "int \<Rightarrow> ServiceInstance \<Rightarrow> ('i, 's, 'c, 'h, 'n, 'd) app op" where
  "register_op now inst0 =
     (if siServiceName inst0 = [] \<or> siIP inst0 = [] \<or> siPort inst0 \<le> 0 then Finished
      else let inst = register_defaults now inst0
           in svc_stmt (ServiceStore_Create (parent_service inst)) (\<lambda>created.
                if \<not> created then Finished
                else inst_stmt (InstanceStore_Create inst) (\<lambda>stored.
                       if \<not> stored then Finished
                       else bus_stmt (PublishServiceChange (siNamespaceID inst) (siGroupName inst) (siServiceName inst)) Finished)))"

definition deregister_op :: "inst_key \<Rightarrow> ('i, 's, 'c, 'h, 'n, 'd) app op" where
  "deregister_op k =
     inst_stmt (InstanceStore_Delete k) (\<lambda>deleted.
       if \<not> deleted then Finished
       else case k of (ns, grp, svc, cl, ip, port) \<Rightarrow> bus_stmt (PublishServiceChange ns grp svc) Finished)"

definition update_op :: "ServiceInstance \<Rightarrow> ('i, 's, 'c, 'h, 'n, 'd) app op" where
  "update_op inst =
     inst_stmt (InstanceStore_Update inst) (\<lambda>updated.
       if \<not> updated then Finished
       else bus_stmt (PublishServiceChange (siNamespaceID inst) (siGroupName inst) (siServiceName inst)) Finished)"

definition beat_op :: "inst_key \<Rightarrow> ('i, 's, 'c, 'h, 'n, 'd) app op" where
  "beat_op k = inst_stmt (InstanceStore_UpdateHeartbeat k) (\<lambda>_. Finished)"

definition create_service_op :: "Service \<Rightarrow> ('i, 's, 'c, 'h, 'n, 'd) app op" where
  "create_service_op svc =
     svc_stmt (ServiceStore_Create (svc\<lparr>svNamespaceID := or_else (svNamespaceID svc) ''public'',
       svGroupName := or_else (svGroupName svc) ''DEFAULT_GROUP''\<rparr>)) (\<lambda>_. Finished)"

definition health_config_op :: "svc_key \<Rightarrow> health_cols \<Rightarrow> ('i, 's, 'c, 'h, 'n, 'd) app op" where
  "health_config_op k cols = svc_stmt (ServiceStore_UpdateHealthConfig k cols) (\<lambda>_. Finished)"

section \<open>Configurations and namespaces\<close>

definition publish_op :: "string \<Rightarrow> string \<Rightarrow> string \<Rightarrow> string \<Rightarrow> string \<Rightarrow> ('i, 's, 'c, 'h, 'n, 'd) app op" where
  "publish_op ns0 grp0 did content typ0 =
     (if did = [] then Finished
      else let ns = or_else ns0 ''public''; grp = or_else grp0 ''DEFAULT_GROUP''; typ = or_else typ0 ''text''
           in cfg_stmt (ConfigStore_Publish (new_item ns grp did content typ)
                  (new_history ns grp did content (CalcMD5 content) ''U'')) (\<lambda>stored.
                if \<not> stored then Finished else bus_stmt (PublishConfigChange ns grp did) Finished))"

text \<open>The content for the history is read before the transaction of the deletion.\<close>

definition delete_config_op :: "string \<Rightarrow> string \<Rightarrow> string \<Rightarrow> ('i, 's, 'c, 'h, 'n, 'd) app op" where
  "delete_config_op ns0 grp0 did =
     (let ns = or_else ns0 ''public''; grp = or_else grp0 ''DEFAULT_GROUP''
      in read_stmt (\<lambda>A. case ConfigStore_Get (ns, grp, did) (apCfg A) of
             Inl e \<Rightarrow> ([], CalcMD5 []) | Inr it \<Rightarrow> (ciContent it, ciMD5 it)) (\<lambda>(content, md5sum).
           cfg_stmt (ConfigStore_Delete (ns, grp, did) (new_history ns grp did content md5sum ''D'')) (\<lambda>deleted.
             if \<not> deleted then Finished else bus_stmt (PublishConfigChange ns grp did) Finished)))"

definition ns_create_op :: "string \<Rightarrow> string \<Rightarrow> string \<Rightarrow> ('i, 's, 'c, 'h, 'n, 'd) app op" where
  "ns_create_op i name desc =
     (if i = [] \<or> name = [] then Finished else ns_stmt (NamespaceStore_Create (new_ns i name desc)) Finished)"

definition ns_delete_op :: "string \<Rightarrow> ('i, 's, 'c, 'h, 'n, 'd) app op" where
  "ns_delete_op i = (if i = ''public'' then Finished else ns_stmt (NamespaceStore_Delete i) Finished)"

definition ns_update_op :: "string \<Rightarrow> string \<Rightarrow> string \<Rightarrow> ('i, 's, 'c, 'h, 'n, 'd) app op" where
  "ns_update_op i name desc =
     read_stmt (\<lambda>A. NamespaceStore_Get i (apNs A)) (\<lambda>r.
       case r of
         Inl e \<Rightarrow> Finished
       | Inr ns \<Rightarrow> ns_stmt (NamespaceStore_Update
           (ns\<lparr>nsName := (if name \<noteq> [] then name else nsName ns), nsDescription := desc\<rparr>)) Finished)"

section \<open>Health\<close>

definition mark_op ::
  "ServiceInstance \<Rightarrow> bool \<Rightarrow> ('i, 's, 'c, 'h, 'n, 'd) app op \<Rightarrow> ('i, 's, 'c, 'h, 'n, 'd) app op" where
  "mark_op inst h k =
     inst_stmt (InstanceStore_UpdateHealthy (siID inst) h) (\<lambda>_.
       bus_stmt (PublishServiceChange (siNamespaceID inst) (siGroupName inst) (siServiceName inst)) k)"

text \<open>
  The counters change under the lock of the checker, which is released for a mark; whether
  there is one is decided by them and by the instance as the pass has read it.
\<close>

definition result_op ::
  "ServiceInstance \<Rightarrow> bool \<Rightarrow> ('i, 's, 'c, 'h, 'n, 'd) app op \<Rightarrow> ('i, 's, 'c, 'h, 'n, 'd) app op" where
  "result_op inst healthy k =
     Step (\<lambda>A. let i = siID inst in
       if healthy
       then let A1 = A\<lparr>apFails := (apFails A)(i := 0), apSuccess := (apSuccess A)(i := apSuccess A i + 1)\<rparr>
            in (A1, if \<not> siHealthy inst \<and> RecoveryThreshold (apHealth A) \<le> apSuccess A1 i then mark_op inst True k else k)
       else let A1 = A\<lparr>apSuccess := (apSuccess A)(i := 0), apFails := (apFails A)(i := apFails A i + 1)\<rparr>
            in (A1, if siHealthy inst \<and> FailThreshold (apHealth A) \<le> apFails A1 i then mark_op inst False k else k))"

definition check_op ::
  "(string \<rightharpoonup> Service) \<Rightarrow> check_env \<Rightarrow> ServiceInstance \<Rightarrow> ('i, 's, 'c, 'h, 'n, 'd) app op \<Rightarrow> ('i, 's, 'c, 'h, 'n, 'd) app op" where
  "check_op m e inst k =
     (if skips m inst then k
      else read_stmt apHealth (\<lambda>cfg.
        if seconds (RemoveTimeout cfg) < elapsed_since (ceNow e) (siLastBeat inst)
        then (if siHealthy inst then mark_op inst False k else k)
        else let p = plan_for (service_of m inst) inst
             in result_op inst (Probe e (ppProto p) (siIP inst) (ppPort p) (ppPath p)) k))"

fun checks_op ::
  "(string \<rightharpoonup> Service) \<Rightarrow> (nat \<times> ServiceInstance) list \<Rightarrow> (nat \<Rightarrow> check_env) \<Rightarrow> ('i, 's, 'c, 'h, 'n, 'd) app op" where
  "checks_op m [] envs = Finished"
| "checks_op m ((j, inst) # rest) envs = check_op m (envs j) inst (checks_op m rest envs)"

definition pass_op :: "(nat \<Rightarrow> check_env) \<Rightarrow> ('i, 's, 'c, 'h, 'n, 'd) app op" where
  "pass_op envs =
     read_stmt (\<lambda>A. ServiceStore_ListAll (apSvc A)) (\<lambda>r.
       case r of
         Inl e \<Rightarrow> Finished
       | Inr services \<Rightarrow>
           read_stmt (\<lambda>A. InstanceStore_ListAll (apInst A)) (\<lambda>r.
             case r of
               Inl e \<Rightarrow> Finished
             | Inr instances \<Rightarrow> checks_op (service_map services) (enumerate 0 instances) envs))"

definition tracker_op ::
  "(tracker \<Rightarrow> tracker \<times> int) \<Rightarrow> (int \<Rightarrow> ('i, 's, 'c, 'h, 'n, 'd) app op) \<Rightarrow> ('i, 's, 'c, 'h, 'n, 'd) app op" where
  "tracker_op f k = Step (\<lambda>A. case f (apPassive A) of (tr, n) \<Rightarrow> (A\<lparr>apPassive := tr\<rparr>, k n))"

definition report_failure_op ::
  "int \<Rightarrow> int \<Rightarrow> nat \<Rightarrow> string \<Rightarrow> string \<Rightarrow> string \<Rightarrow> ('i, 's, 'c, 'h, 'n, 'd) app op" where
  "report_failure_op t1 t2 i ns grp svc =
     tracker_op (\<lambda>tr. (tracker_ReportFailure t1 i tr, 0)) (\<lambda>_.
       read_stmt (\<lambda>A. passive_limits (ns, grp, svc) (checker_of A)) (\<lambda>(window, threshold).
         tracker_op (FailureCount t2 i window) (\<lambda>count.
           if threshold \<le> count
           then inst_stmt (InstanceStore_UpdateHealthy i False) (\<lambda>_. bus_stmt (PublishServiceChange ns grp svc) Finished)
           else Finished)))"

definition report_success_op :: "nat \<Rightarrow> ('i, 's, 'c, 'h, 'n, 'd) app op" where
  "report_success_op i = tracker_op (\<lambda>tr. (tracker_ReportSuccess i tr, 0)) (\<lambda>_. Finished)"

section \<open>The cluster manager\<close>

fun mark_down_op ::
  "string \<Rightarrow> int \<Rightarrow> ClusterNode list \<Rightarrow> ('i, 's, 'c, 'h, 'n, 'd) app op \<Rightarrow> ('i, 's, 'c, 'h, 'n, 'd) app op" where
  "mark_down_op self now [] k = k"
| "mark_down_op self now (nd # rest) k =
     (if cnAddress nd \<noteq> self \<and> expired now nd
      then mgr_stmt (\<lambda>M. M\<lparr>mgStore := mark_down (cnAddress nd) (mgStore M)\<rparr>) (mark_down_op self now rest k)
      else mark_down_op self now rest k)"

definition tick_op :: "int \<Rightarrow> int \<Rightarrow> ('i, 's, 'c, 'h, 'n, 'd) app op" where
  "tick_op t1 t2 =
     (let beat = mgr_stmt (updateSelfHeartbeat t2) Finished
      in read_stmt (\<lambda>A. (mgSelf (apMgr A), ClusterNodeStore_List (mgStore (apMgr A)))) (\<lambda>(self, r).
           case r of
             Inl e \<Rightarrow> beat
           | Inr nodes \<Rightarrow> mark_down_op self t1 nodes (mgr_stmt (\<lambda>M. M\<lparr>mgNodes := nodes\<rparr>) beat)))"

section \<open>One operation alone\<close>

datatype service_call =
    SRegister int ServiceInstance
  | SDeregister inst_key
  | SUpdate ServiceInstance
  | SBeat inst_key
  | SCreateService Service
  | SHealthConfig svc_key health_cols
  | SPublish string string string string string
  | SDelete string string string
  | SNsCreate string string string
  | SNsDelete string
  | SNsUpdate string string string
  | SFailure int int nat string string string
  | SSuccess nat
  | SPass "nat \<Rightarrow> check_env"
  | STick int int

fun call_op :: "service_call \<Rightarrow> ('i, 's, 'c, 'h, 'n, 'd) app op" where
  "call_op (SRegister now inst) = register_op now inst"
| "call_op (SDeregister k) = deregister_op k"
| "call_op (SUpdate inst) = update_op inst"
| "call_op (SBeat k) = beat_op k"
| "call_op (SCreateService svc) = create_service_op svc"
| "call_op (SHealthConfig k cols) = health_config_op k cols"
| "call_op (SPublish ns grp did content typ) = publish_op ns grp did content typ"
| "call_op (SDelete ns grp did) = delete_config_op ns grp did"
| "call_op (SNsCreate i name desc) = ns_create_op i name desc"
| "call_op (SNsDelete i) = ns_delete_op i"
| "call_op (SNsUpdate i name desc) = ns_update_op i name desc"
| "call_op (SFailure t1 t2 i ns grp svc) = report_failure_op t1 t2 i ns grp svc"
| "call_op (SSuccess i) = report_success_op i"
| "call_op (SPass envs) = pass_op envs"
| "call_op (STick t1 t2) = tick_op t1 t2"

fun call_whole :: "service_call \<Rightarrow> ('i, 's, 'c, 'h, 'n, 'd) app \<Rightarrow> ('i, 's, 'c, 'h, 'n, 'd) app" where
  "call_whole (SRegister now inst) A = fst (with_registry (RegisterInstance now inst) A)"
| "call_whole (SDeregister k) A = fst (with_registry (DeregisterInstance k) A)"
| "call_whole (SUpdate inst) A = fst (with_registry (UpdateInstance inst) A)"
| "call_whole (SBeat k) A = fst (with_registry (Heartbeat k) A)"
| "call_whole (SCreateService svc) A = fst (with_registry (CreateService svc) A)"
| "call_whole (SHealthConfig k cols) A =
     (case ServiceStore_UpdateHealthConfig k cols (apSvc A) of Inl e \<Rightarrow> A | Inr T \<Rightarrow> A\<lparr>apSvc := T\<rparr>)"
| "call_whole (SPublish ns grp did content typ) A = fst (with_config (PublishConfig ns grp did content typ) A)"
| "call_whole (SDelete ns grp did) A = fst (with_config (DeleteConfig ns grp did) A)"
| "call_whole (SNsCreate i name desc) A = fst (with_namespaces (ns_Create i name desc) A)"
| "call_whole (SNsDelete i) A = fst (with_namespaces (ns_Delete i) A)"
| "call_whole (SNsUpdate i name desc) A = fst (with_namespaces (ns_Update i name desc) A)"
| "call_whole (SFailure t1 t2 i ns grp svc) A = with_checker (ReportFailure t1 t2 i ns grp svc) A"
| "call_whole (SSuccess i) A = with_checker (ReportSuccess i) A"
| "call_whole (SPass envs) A = with_checker (runActiveCheck envs) A"
| "call_whole (STick t1 t2) A = A\<lparr>apMgr := heartbeat_tick t1 t2 (apMgr A)\<rparr>"

lemma run_registry:
  "run_op (register_op now inst) A = fst (with_registry (RegisterInstance now inst) A)"
  "run_op (deregister_op k) A = fst (with_registry (DeregisterInstance k) A)"
  "run_op (update_op inst) A = fst (with_registry (UpdateInstance inst) A)"
  "run_op (beat_op k) A = fst (with_registry (Heartbeat k) A)"
  "run_op (create_service_op svc) A = fst (with_registry (CreateService svc) A)"
  by (simp_all add: register_op_def deregister_op_def update_op_def beat_op_def create_service_op_def stmt_defs
      with_registry_def registry_of_def naming_defs Let_def split: sum.split prod.split)

lemma run_publish:
  "run_op (publish_op ns grp did content typ) A = fst (with_config (PublishConfig ns grp did content typ) A)"
  by (simp add: publish_op_def cfg_stmt_def bus_stmt_def with_config_def config_of_def PublishConfig_def Let_def
      split: sum.split)

lemma run_delete: "run_op (delete_config_op ns0 grp0 did) A = fst (with_config (DeleteConfig ns0 grp0 did) A)"
proof -
  obtain content md5sum where old: "(case ConfigStore_Get (or_else ns0 ''public'', or_else grp0 ''DEFAULT_GROUP'', did) (apCfg A) of
      Inl e \<Rightarrow> ([], CalcMD5 []) | Inr it \<Rightarrow> (ciContent it, ciMD5 it)) = (content, md5sum)"
    by fastforce
  show ?thesis
    unfolding delete_config_op_def DeleteConfig_def with_config_def Let_def config_of_simps read_stmt_def cfg_stmt_def
      bus_stmt_def run_Step fst_conv snd_conv old prod.case
    by (simp add: config_of_def split: sum.split)
qed

lemma run_namespaces:
  "run_op (ns_create_op i name desc) A = fst (with_namespaces (ns_Create i name desc) A)"
  "run_op (ns_delete_op i) A = fst (with_namespaces (ns_Delete i) A)"
  "run_op (ns_update_op i name desc) A = fst (with_namespaces (ns_Update i name desc) A)"
  by (simp_all add: ns_create_op_def ns_delete_op_def ns_update_op_def stmt_defs with_namespaces_def ns_Create_def
      ns_Delete_def ns_Update_def keep_on_err_def split: sum.split)

lemmas checker_view = with_checker_def checker_of_def Let_def

lemma run_mark:
  "run_op (mark_op inst True k) A = run_op k (with_checker (markHealthy inst) A)"
  "run_op (mark_op inst False k) A = run_op k (with_checker (markUnhealthy inst) A)"
  by (simp_all add: mark_op_def stmt_defs checker_view markHealthy_def markUnhealthy_def publish_for_def set_healthy_def
      split: sum.split)

lemma run_result: "run_op (result_op inst healthy k) A = run_op k (with_checker (processActiveResult inst healthy) A)"
  by (cases A) (simp add: result_op_def run_mark processActiveResult_def checker_view)

lemma with_checker_id: "with_checker (\<lambda>C. C) A = A"
  by (simp add: checker_view)

lemma with_checker_cong: "f (checker_of A) = g (checker_of A) \<Longrightarrow> with_checker f A = with_checker g A"
  by (simp add: with_checker_def)

lemma checker_of_fields [simp]:
  "hkCfg (checker_of A) = apHealth A" "hkSvc (checker_of A) = apSvc A" "hkInst (checker_of A) = apInst A"
  by (simp_all add: checker_of_def)

lemma run_check: "run_op (check_op m e inst k) A = run_op k (with_checker (check_instance m e inst) A)"
proof -
  let ?late = "seconds (RemoveTimeout (apHealth A)) < elapsed_since (ceNow e) (siLastBeat inst)"
  let ?p = "plan_for (service_of m inst) inst"
  have "with_checker (check_instance m e inst) A =
      with_checker (if skips m inst then (\<lambda>C. C)
        else if ?late then (if siHealthy inst then markUnhealthy inst else (\<lambda>C. C))
        else processActiveResult inst (Probe e (ppProto ?p) (siIP inst) (ppPort ?p) (ppPath ?p))) A"
    by (rule with_checker_cong) (simp add: check_instance_def Let_def)
  then show ?thesis
    by (simp add: check_op_def read_stmt_def run_mark run_result with_checker_id Let_def)
qed

lemma with_checker_comp: "with_checker g (with_checker f A) = with_checker (\<lambda>C. g (f C)) A"
  by (simp only: with_checker_def [of g "with_checker f A"] with_checker_view) (simp add: with_checker_def Let_def)

lemma run_checks:
  "run_op (checks_op m xs envs) A = with_checker (fold (\<lambda>(j, inst). check_instance m (envs j) inst) xs) A"
proof (induction xs arbitrary: A)
  case Nil
  then show ?case by (simp add: with_checker_id id_def)
next
  case (Cons x xs)
  then show ?case by (cases x) (simp add: run_check with_checker_comp comp_def)
qed

lemma run_pass: "run_op (pass_op envs) A = with_checker (runActiveCheck envs) A"
proof (cases "ServiceStore_ListAll (apSvc A)")
  case (Inl e)
  then have "with_checker (runActiveCheck envs) A = with_checker (\<lambda>C. C) A"
    by (intro with_checker_cong) (simp add: runActiveCheck_def)
  then show ?thesis using Inl by (simp add: pass_op_def read_stmt_def with_checker_id)
next
  case svcs: (Inr services)
  show ?thesis
  proof (cases "InstanceStore_ListAll (apInst A)")
    case (Inl e)
    then have "with_checker (runActiveCheck envs) A = with_checker (\<lambda>C. C) A"
      using svcs by (intro with_checker_cong) (simp add: runActiveCheck_def)
    then show ?thesis using svcs Inl by (simp add: pass_op_def read_stmt_def with_checker_id)
  next
    case (Inr instances)
    then have "with_checker (runActiveCheck envs) A = with_checker
        (fold (\<lambda>(j, inst). check_instance (service_map services) (envs j) inst) (enumerate 0 instances)) A"
      using svcs by (intro with_checker_cong) (simp add: runActiveCheck_def)
    then show ?thesis using svcs Inr by (simp add: pass_op_def read_stmt_def run_checks)
  qed
qed

lemma run_failure: "run_op (report_failure_op t1 t2 i ns grp svc) A = with_checker (ReportFailure t1 t2 i ns grp svc) A"
proof -
  let ?tr = "tracker_ReportFailure t1 i (apPassive A)"
  obtain window threshold where limits: "passive_limits (ns, grp, svc) (checker_of A) = (window, threshold)" by fastforce
  then have limits': "passive_limits (ns, grp, svc) (checker_of (A\<lparr>apPassive := ?tr\<rparr>)) = (window, threshold)"
    by (simp add: passive_limits_def)
  obtain tr count where count: "FailureCount t2 i window ?tr = (tr, count)" by fastforce
  have whole: "with_checker (ReportFailure t1 t2 i ns grp svc) A = with_checker (\<lambda>C. if threshold \<le> count
      then publish_for ns grp svc (set_healthy i False (C\<lparr>hkPassive := tr\<rparr>)) else C\<lparr>hkPassive := tr\<rparr>) A"
    using limits count by (intro with_checker_cong) (simp add: ReportFailure_def checker_of_def)
  show ?thesis
    unfolding whole report_failure_op_def tracker_op_def read_stmt_def run_Step
    using limits' count
    by (cases "threshold \<le> count")
       (simp_all add: inst_stmt_def bus_stmt_def checker_view publish_for_def set_healthy_def split: sum.split)
qed

lemma run_success: "run_op (report_success_op i) A = with_checker (ReportSuccess i) A"
  by (simp add: report_success_op_def tracker_op_def ReportSuccess_def checker_view)

lemma run_mark_down:
  "run_op (mark_down_op self now xs k) A =
     run_op k (A\<lparr>apMgr := (apMgr A)\<lparr>mgStore := fold (\<lambda>nd T. if cnAddress nd = self then T
       else if expired now nd then mark_down (cnAddress nd) T else T) xs (mgStore (apMgr A))\<rparr>\<rparr>)"
  by (induction xs arbitrary: A) (simp_all add: stmt_defs)

lemma run_tick: "run_op (tick_op t1 t2) A = A\<lparr>apMgr := heartbeat_tick t1 t2 (apMgr A)\<rparr>"
  by (simp add: tick_op_def stmt_defs run_mark_down heartbeat_tick_def refreshNodes_def Let_def split: sum.split)

text \<open>
  Each operation, run without interruption, is the operation of its service.
\<close>
lemma alone_whole: "run_op (call_op c) A = call_whole c A"
  by (cases c) (simp_all add: run_registry run_publish run_delete run_namespaces run_pass run_failure run_success run_tick health_config_op_def
      stmt_defs split: sum.split)

section \<open>Many at once\<close>

text \<open>
  The operations in progress, each with the steps it has left. A step is one step of one of
  them, or the start of another operation: a request arrives, a ticker fires.
\<close>

inductive pool_step ::
  "('i, 's, 'c, 'h, 'n, 'd) app \<times> ('i, 's, 'c, 'h, 'n, 'd) app op list
   \<Rightarrow> ('i, 's, 'c, 'h, 'n, 'd) app \<times> ('i, 's, 'c, 'h, 'n, 'd) app op list \<Rightarrow> bool" where
  start: "pool_step (A, ops) (A, ops @ [call_op c])"
| go: "i < length ops \<Longrightarrow> ops ! i = Step f \<Longrightarrow> f A = (A', rest) \<Longrightarrow> pool_step (A, ops) (A', ops[i := rest])"

inductive pool_reach ::
  "('i, 's, 'c, 'h, 'n, 'd) app \<Rightarrow> ('i, 's, 'c, 'h, 'n, 'd) app \<times> ('i, 's, 'c, 'h, 'n, 'd) app op list \<Rightarrow> bool" for A where
  idle: "pool_reach A (A, [])"
| busy: "pool_reach A s \<Longrightarrow> pool_step s t \<Longrightarrow> pool_reach A t"

inductive_cases pool_stepE: "pool_step s t"

text \<open>An operation is safe if each of its steps keeps a state in order, whatever the steps before it have met.\<close>

inductive safe :: "('i, 's, 'c, 'h, 'n, 'd) app op \<Rightarrow> bool" where
  done_safe: "safe Finished"
| step_safe: "(\<And>A. app_ok A \<Longrightarrow> app_ok (fst (f A)) \<and> safe (snd (f A))) \<Longrightarrow> safe (Step f)"

inductive_cases safe_StepE: "safe (Step f)"

named_theorems safe_intros "the steps of the operations are safe"

lemmas safe_intros_done [safe_intros] = done_safe

lemma read_safe [safe_intros]: "(\<And>r. safe (k r)) \<Longrightarrow> safe (read_stmt r' k)"
  by (auto simp: read_stmt_def intro: step_safe)

lemma bus_service_safe [safe_intros]: "safe k \<Longrightarrow> safe (bus_stmt (PublishServiceChange ns grp svc) k)"
  by (auto simp: bus_stmt_def ok_defs view_defs intro!: step_safe svc_bus.publish_ok)

lemma bus_config_safe [safe_intros]: "safe k \<Longrightarrow> safe (bus_stmt (PublishConfigChange ns grp did) k)"
  by (auto simp: bus_stmt_def ok_defs view_defs intro!: step_safe cfg_bus.publish_ok)

lemma inst_safe:
  "(\<And>T T'. wf_inst T \<Longrightarrow> f T = Inr T' \<Longrightarrow> wf_inst T') \<Longrightarrow> (\<And>b. safe (k b)) \<Longrightarrow> safe (inst_stmt f k)"
  by (auto simp: inst_stmt_def ok_defs view_defs intro!: step_safe split: sum.split)

lemma svc_safe:
  "(\<And>T T'. wf_svc T \<Longrightarrow> f T = Inr T' \<Longrightarrow> wf_svc T') \<Longrightarrow> (\<And>b. safe (k b)) \<Longrightarrow> safe (svc_stmt f k)"
  by (auto simp: svc_stmt_def ok_defs view_defs intro!: step_safe split: sum.split)

lemma cfg_safe:
  "(\<And>T T'. wf_config_store T \<Longrightarrow> f T = Inr T' \<Longrightarrow> wf_config_store T') \<Longrightarrow> (\<And>b. safe (k b)) \<Longrightarrow> safe (cfg_stmt f k)"
  by (auto simp: cfg_stmt_def ok_defs view_defs intro!: step_safe split: sum.split)

lemma mgr_safe:
  "(\<And>M. wf_node (mgStore M) \<Longrightarrow> wf_node (mgStore (f M))) \<Longrightarrow> safe k \<Longrightarrow> safe (mgr_stmt f k)"
  by (auto simp: mgr_stmt_def ok_defs view_defs intro!: step_safe)

lemma ns_safe: "(\<And>T T'. wf_ns T \<Longrightarrow> f T = Inr T' \<Longrightarrow> wf_ns T') \<Longrightarrow> safe k \<Longrightarrow> safe (ns_stmt f k)"
  by (auto simp: ns_stmt_def ok_defs view_defs intro!: step_safe split: sum.split)

lemma tracker_safe [safe_intros]: "(\<And>n. safe (k n)) \<Longrightarrow> safe (tracker_op f k)"
  by (auto simp: tracker_op_def ok_defs view_defs intro!: step_safe split: prod.split)

lemma table_safe [safe_intros]:
  "(\<And>b. safe (k b)) \<Longrightarrow> safe (inst_stmt (InstanceStore_Create inst) k)"
  "(\<And>b. safe (k b)) \<Longrightarrow> safe (inst_stmt (InstanceStore_Delete ik) k)"
  "(\<And>b. safe (k b)) \<Longrightarrow> safe (inst_stmt (InstanceStore_Update inst) k)"
  "(\<And>b. safe (k b)) \<Longrightarrow> safe (inst_stmt (InstanceStore_UpdateHeartbeat ik) k)"
  "(\<And>b. safe (k b)) \<Longrightarrow> safe (inst_stmt (InstanceStore_UpdateHealthy i h) k)"
  "(\<And>b. safe (k b)) \<Longrightarrow> safe (svc_stmt (ServiceStore_Create svc) k)"
  "(\<And>b. safe (k b)) \<Longrightarrow> safe (svc_stmt (ServiceStore_UpdateHealthConfig sk cols) k)"
  "(\<And>b. safe (k b)) \<Longrightarrow> safe (cfg_stmt (ConfigStore_Publish item hist) k)"
  "(\<And>b. safe (k b)) \<Longrightarrow> safe (cfg_stmt (ConfigStore_Delete ck hist) k)"
  by (rule inst_safe svc_safe cfg_safe, erule (1) keeps_wf, assumption)+

lemma ns_table_safe [safe_intros]:
  "safe k \<Longrightarrow> safe (ns_stmt (NamespaceStore_Create ns) k)"
  "safe k \<Longrightarrow> safe (ns_stmt (NamespaceStore_Update ns) k)"
  "safe k \<Longrightarrow> safe (ns_stmt (NamespaceStore_Delete i) k)"
  by (rule ns_safe, erule (1) keeps_wf, assumption)+

lemma mark_safe [safe_intros]: "safe k \<Longrightarrow> safe (mark_op inst h k)"
  unfolding mark_op_def by (intro safe_intros)

lemma result_safe [safe_intros]: "safe k \<Longrightarrow> safe (result_op inst h k)"
  unfolding result_op_def
  by (rule step_safe) (auto simp: Let_def ok_defs view_defs add_increasing2 mark_safe)

lemma check_safe [safe_intros]: "safe k \<Longrightarrow> safe (check_op m e inst k)"
  unfolding check_op_def by (auto simp: Let_def intro!: safe_intros)

lemma checks_safe [safe_intros]: "safe (checks_op m xs envs)"
  by (induction m xs envs rule: checks_op.induct) (simp_all add: safe_intros)

lemma mark_down_safe [safe_intros]: "safe k \<Longrightarrow> safe (mark_down_op self now xs k)"
  by (induction self now xs k rule: mark_down_op.induct) (simp_all add: mgr_safe mark_down_ok)

lemma tick_safe [safe_intros]: "safe (tick_op t1 t2)"
  unfolding tick_op_def Let_def
  by (auto intro!: read_safe mark_down_safe mgr_safe done_safe simp: updateSelfHeartbeat_def upsert_node_ok split: sum.split)

lemma call_safe: "safe (call_op c)"
  by (cases c)
     (auto simp: register_op_def deregister_op_def update_op_def beat_op_def create_service_op_def health_config_op_def
        publish_op_def delete_config_op_def ns_create_op_def ns_delete_op_def ns_update_op_def report_failure_op_def
        report_success_op_def pass_op_def Let_def intro!: safe_intros split: sum.split prod.split)

lemma pool_safe:
  assumes "pool_reach A s" "app_ok A"
  shows "app_ok (fst s) \<and> (\<forall>op \<in> set (snd s). safe op)"
  using assms
proof (induction rule: pool_reach.induct)
  case (busy s t)
  from busy(2) show ?case
  proof cases
    case (start B ops c)
    then show ?thesis using busy(3,4) call_safe by auto
  next
    case (go i ops f B B' rest)
    then have "safe (Step f)" using busy(3,4) nth_mem [of i ops] by auto
    then have "app_ok (fst (f B)) \<and> safe (snd (f B))" using busy(3,4) go(1) by (auto elim: safe_StepE)
    then have "app_ok B'" "safe rest" using go(5) by simp_all
    then show ?thesis using go(1,2) busy(3,4) by (auto dest: set_update_subset_insert [THEN subsetD])
  qed
qed simp

lemma go_first: "pool_reach A0 (A, Step f # ops) \<Longrightarrow> pool_reach A0 (fst (f A), snd (f A) # ops)"
  by (erule busy) (use go [of 0 "Step f # ops" f A "fst (f A)" "snd (f A)"] in simp)

lemma go_second: "pool_reach A0 (A, op # Step f # ops) \<Longrightarrow> pool_reach A0 (fst (f A), op # snd (f A) # ops)"
  by (erule busy) (use go [of 1 "op # Step f # ops" f A "fst (f A)" "snd (f A)"] in simp)

lemma go_read: "pool_reach A0 (A, read_stmt r k # ops) \<Longrightarrow> pool_reach A0 (A, k (r A) # ops)"
  unfolding read_stmt_def by (drule go_first) simp

lemma go_inst: "pool_reach A0 (A, inst_stmt f k # ops) \<Longrightarrow> f (apInst A) = Inr T \<Longrightarrow> pool_reach A0 (A\<lparr>apInst := T\<rparr>, k True # ops)"
  unfolding inst_stmt_def by (drule go_first) simp

lemma run_safe: "safe op \<Longrightarrow> app_ok A \<Longrightarrow> app_ok (run_op op A)"
  by (induction arbitrary: A rule: safe.induct) simp_all

text \<open>
  C4. Whatever is going on at once: in every state that the operations of the services reach from
  the start of a server, step by step and interleaved in any way, the tables obey their laws, no
  two instances have one address key (as the database compares keys) and no two one id, and the
  thresholds are usable; and each operation, run from there without interruption, is the operation
  of its service and ends in such a state again. (A step is one statement of a store, one access to the
  counters under their lock, or one publication on a bus that, as in the program, nobody has subscribed to.)
\<close>
theorem every_interleaving_is_ok:
  assumes "stores_ok st" "pool_reach (boot nows cfg st) (A, ops)"
  shows "app_ok A \<and> (\<forall>k. size (filter_mset (inst_where (t_coll (apInst A)) k) (rows (apInst A))) \<le> 1) \<and>
    (\<forall>i. size (filter_mset (\<lambda>x. siID x = i) (rows (apInst A))) \<le> 1) \<and> cfg_usable (apHealth A) \<and>
    (\<forall>c. run_op (call_op c) A = call_whole c A \<and> app_ok (call_whole c A))"
proof -
  have ok: "app_ok A" using pool_safe [OF assms(2) boot_ok [OF assms(1)]] by simp
  have "run_op (call_op c) A = call_whole c A \<and> app_ok (call_whole c A)" for c
    using run_safe [OF call_safe ok, of c] by (simp only: alone_whole)
  with app_ok_facts [OF ok] show ?thesis by blast
qed

text \<open>A server that starts on empty tables in memory, a pass that has begun while a registration is in progress.\<close>

theorem every_interleaving_is_ok_witness:
  "\<exists>A ops. pool_reach (boot (\<lambda>_. 0) default_config (meStores demo_main () [])) (A, ops) \<and> length ops = 2 \<and> app_ok A"
proof -
  let ?A = "boot (\<lambda>_. 0) default_config (meStores demo_main () [])"
  have st: "stores_ok (meStores demo_main () [])"
    by (simp add: stores_ok_def demo_main_def demo_cfg_def wf_table_def wf_rows_def wf_config_store_def ids_unique_def
        key_unique_def mem_ops)
  have two: "pool_reach ?A (?A, ([] @ [call_op (SPass all_fail)]) @ [call_op (SRegister 7 demo_inst)])"
    by (rule busy [OF busy [OF idle start] start])
  from every_interleaving_is_ok [OF st] two have "app_ok ?A" by blast
  with go_read [OF two [unfolded append_Nil append_Cons call_op.simps pass_op_def]] show ?thesis
    by (intro exI [of _ ?A] exI conjI) (assumption, simp_all)
qed

text \<open>
  A heartbeat does not save an instance from a pass that has begun: the pass judges it by the
  row it has read. If the last heartbeat in that row has timed out, then there is a run in which
  a new heartbeat is stored after the pass has read the rows, and the instance is marked
  unhealthy after that, on the table with the new heartbeat.
\<close>
theorem beat_during_pass_is_lost:
  fixes A :: "('i, 's, 'c, 'h, 'n, 'd) app" and envs :: "nat \<Rightarrow> check_env"
  assumes "updates_succeed (apInst A)" "ServiceStore_ListAll (apSvc A) = Inr services"
    and "InstanceStore_ListAll (apInst A) = Inr [inst]" "\<not> skips (service_map services) inst" "siHealthy inst"
    and "seconds (RemoveTimeout (apHealth A)) < elapsed_since (ceNow (envs 0)) (siLastBeat inst)"
  shows "\<exists>B T. pool_reach A (B, [Finished, Finished]) \<and> InstanceStore_UpdateHeartbeat (inst_key inst) (apInst A) = Inr T \<and>
    InstanceStore_UpdateHealthy (siID inst) False T = Inr (apInst B)"
proof -
  obtain T where T: "InstanceStore_UpdateHeartbeat (inst_key inst) (apInst A) = Inr T"
    unfolding InstanceStore_UpdateHeartbeat_def by (rule tb_update_succeeds [OF assms(1)])
  then have "updates_succeed T" using assms(1) by (simp add: InstanceStore_UpdateHeartbeat_def tb_update_keeps_up)
  then obtain T' where T': "InstanceStore_UpdateHealthy (siID inst) False T = Inr T'"
    unfolding InstanceStore_UpdateHealthy_def by (rule tb_update_succeeds)
  let ?A1 = "A\<lparr>apInst := T\<rparr>"
  have "pool_reach A (A, [pass_op envs, beat_op (inst_key inst)])"
    using busy [OF busy [OF idle start [of _ _ "SPass envs"]] start [of _ _ "SBeat (inst_key inst)"]] by simp
  from go_read [OF this [unfolded pass_op_def]]
  have "pool_reach A (A, [read_stmt (\<lambda>A. InstanceStore_ListAll (apInst A)) (\<lambda>r. case r of Inl e \<Rightarrow> Finished
      | Inr xs \<Rightarrow> checks_op (service_map services) (enumerate 0 xs) envs), beat_op (inst_key inst)])"
    by (simp add: assms(2))
  from go_read [OF this] have "pool_reach A (A, [check_op (service_map services) (envs 0) inst Finished, beat_op (inst_key inst)])"
    by (simp add: assms(3))
  from go_second [OF this [unfolded beat_op_def inst_stmt_def]]
  have "pool_reach A (?A1, [check_op (service_map services) (envs 0) inst Finished, Finished])" by (simp add: T)
  then have "pool_reach A (?A1, [read_stmt apHealth (\<lambda>cfg.
      if seconds (RemoveTimeout cfg) < elapsed_since (ceNow (envs 0)) (siLastBeat inst)
      then (if siHealthy inst then mark_op inst False Finished else Finished)
      else let p = plan_for (service_of (service_map services) inst) inst
           in result_op inst (Probe (envs 0) (ppProto p) (siIP inst) (ppPort p) (ppPath p)) Finished), Finished])"
    by (simp add: check_op_def assms(4))
  from go_read [OF this] have "pool_reach A (?A1, [mark_op inst False Finished, Finished])" by (simp add: assms(5,6))
  from go_inst [OF this [unfolded mark_op_def]] T' have
    "pool_reach A (?A1\<lparr>apInst := T'\<rparr>, [bus_stmt (PublishServiceChange (siNamespaceID inst) (siGroupName inst)
        (siServiceName inst)) Finished, Finished])" by simp
  from go_first [OF this [unfolded bus_stmt_def]] obtain B where "pool_reach A (B, [Finished, Finished])" "apInst B = T'"
    by simp
  with T T' show ?thesis by blast
qed

end
