(* ===== verification/PeerSync.thy ===== *)
theory PeerSync
  imports ApiServer
begin

text \<open>
  One node tells another: the request that \<^verbatim>\<open>sendEvent\<close> (\<^verbatim>\<open>src/pkg/cluster/sync.go\<close>) posts, as
  the handler \<^verbatim>\<open>clusterSync\<close> (\<^verbatim>\<open>src/pkg/api/server.go\<close>) of the peer receives it. Between them
  is the text of the body: printed on one side, decoded on the other.
\<close>

section \<open>The body of a notification\<close>

definition event_utf8 :: "SyncEvent \<Rightarrow> bool" where
  "event_utf8 ev \<longleftrightarrow> valid_utf8 (seType ev) \<and> valid_utf8 (seNamespace ev) \<and> valid_utf8 (seGroup ev) \<and>
     valid_utf8 (seService ev) \<and> valid_utf8 (seDataID ev) \<and> valid_utf8 (seSource ev) \<and>
     int64_min \<le> seTimestamp ev \<and> seTimestamp ev \<le> int64_max"

lemma valid_event_keys: "valid_utf8 ''type''" "valid_utf8 ''namespace''" "valid_utf8 ''group''" "valid_utf8 ''service''"
  "valid_utf8 ''dataId''" "valid_utf8 ''source''" "valid_utf8 ''timestamp''"
  "valid_utf8 ''service_change''" "valid_utf8 ''config_change''" "valid_utf8 []"
  by (rule ascii_valid_utf8, simp add: ascii_def)+

text \<open>A field that is left out because it is empty is decoded as empty.\<close>

lemma read_event:
  assumes "int64_min \<le> seTimestamp ev" "seTimestamp ev \<le> int64_max"
  shows "read_SyncEvent (event_members ev) = Some ev"
proof -
  have "dec_int (VNum (itoa (seTimestamp ev))) = Some (seTimestamp ev)" by (rule dec_int_itoa [OF assms])
  then show ?thesis
    unfolding read_SyncEvent_def event_members_def str_field_def int_field_def field_def
    by (simp add: is_field_def to_lower_def lower_char_def dec_str_def)
qed

lemma event_received:
  assumes "event_utf8 ev"
  shows "Option.bind (decode_members (srBody (sync_send addr ev))) read_SyncEvent = Some ev"
proof -
  have ok: "json_ok 10000 (VObj (event_members ev))"
    using assms by (auto simp: event_members_def event_utf8_def valid_event_keys num_ok_itoa)
  show ?thesis
    using assms unfolding sync_send_def by (simp add: decode_printed [OF ok] event_utf8_def read_event del: json_text.simps)
qed

section \<open>The peer\<close>

text \<open>The request as the peer's router gets it: no form, no query, the body.\<close>

definition posted :: "sync_request \<Rightarrow> greq" where
  "posted r = \<lparr>rqForm = (\<lambda>_. None), rqQuery = (\<lambda>_. None), rqBody = srBody r\<rparr>"

definition received ::
  "http_env \<Rightarrow> ('c, 'h) poll_event list \<Rightarrow> sync_request \<Rightarrow> ('i, 's, 'c, 'h, 'n, 'd) app
   \<Rightarrow> ('i, 's, 'c, 'h, 'n, 'd) app \<times> response outcome" where
  "received e evs r B = serve e evs ''POST'' ''/v1/cluster/sync'' (posted r) B"

lemma received_event:
  "event_utf8 ev \<Longrightarrow> received e evs (sync_send addr ev) B = (B\<lparr>apBus := apply_event ev (apBus B)\<rparr>, Answered reply_ok)"
  by (simp add: received_def serve_def route_eval clusterSync_def posted_def event_received)

text \<open>What a peer has left alone: everything but the buffers of its channels.\<close>

definition woken :: "nat list \<Rightarrow> ('i, 's, 'c, 'h, 'n, 'd) app \<Rightarrow> ('i, 's, 'c, 'h, 'n, 'd) app" where
  "woken cs B = B\<lparr>apBus := (apBus B)\<lparr>busChans := (busChans (apBus B))\<lparr>ch_full :=
     (\<lambda>c. c \<in> set cs \<or> ch_full (busChans (apBus B)) c)\<rparr>\<rparr>\<rparr>"

lemma service_event_wakes:
  assumes "bus_ok b"
  shows "PublishServiceChange ns grp svc b =
    b\<lparr>busChans := (busChans b)\<lparr>ch_full := (\<lambda>c. c \<in> set (subs_at (serviceSubs b) (serviceKey ns grp svc)) \<or> ch_full (busChans b) c)\<rparr>\<rparr>"
  using svc_bus.publish_effect [OF assms, of ns grp svc] by (simp add: PublishServiceChange_def)

lemma config_event_wakes:
  assumes "bus_ok b"
  shows "PublishConfigChange ns grp did b =
    b\<lparr>busChans := (busChans b)\<lparr>ch_full := (\<lambda>c. c \<in> set (subs_at (configSubs b) (serviceKey ns grp did)) \<or> ch_full (busChans b) c)\<rparr>\<rparr>"
  using cfg_bus.publish_effect [OF assms, of ns grp did] by (simp add: PublishConfigChange_def)

section \<open>The announcements\<close>

lemma broadcast_events: "set (broadcastEvent ev M) \<subseteq> {sync_send addr ev | addr. True}"
  by (auto simp: broadcastEvent_def)

lemma announced_service:
  assumes "r \<in> set (NotifyServiceChange now ns grp svc M)" "valid_utf8 ns" "valid_utf8 grp" "valid_utf8 svc"
    and "valid_utf8 (mgSelf M)" "int64_min \<le> now" "now \<le> int64_max" "bus_ok (apBus B)"
  shows "received e evs r B = (woken (subs_at (serviceSubs (apBus B)) (serviceKey ns grp svc)) B, Answered reply_ok)"
proof -
  define ev where "ev = \<lparr>seType = ''service_change'', seNamespace = ns, seGroup = grp, seService = svc,
    seDataID = [], seSource = mgSelf M, seTimestamp = now\<rparr>"
  have "\<exists>addr. r = sync_send addr ev"
    using assms(1) broadcast_events by (auto simp: NotifyServiceChange_def SelfAddr_def ev_def)
  moreover have "event_utf8 ev" using assms(2-7) by (simp add: ev_def event_utf8_def valid_event_keys)
  ultimately show ?thesis
    using service_event_wakes [OF assms(8), of ns grp svc]
    by (auto simp: received_event apply_event_def ev_def woken_def)
qed

lemma announced_config:
  assumes "r \<in> set (NotifyConfigChange now ns grp did M)" "valid_utf8 ns" "valid_utf8 grp" "valid_utf8 did"
    and "valid_utf8 (mgSelf M)" "int64_min \<le> now" "now \<le> int64_max" "bus_ok (apBus B)"
  shows "received e evs r B = (woken (subs_at (configSubs (apBus B)) (serviceKey ns grp did)) B, Answered reply_ok)"
proof -
  define ev where "ev = \<lparr>seType = ''config_change'', seNamespace = ns, seGroup = grp, seService = [],
    seDataID = did, seSource = mgSelf M, seTimestamp = now\<rparr>"
  have "\<exists>addr. r = sync_send addr ev"
    using assms(1) broadcast_events by (auto simp: NotifyConfigChange_def SelfAddr_def ev_def)
  moreover have "event_utf8 ev" using assms(2-7) by (simp add: ev_def event_utf8_def valid_event_keys)
  ultimately show ?thesis
    using config_event_wakes [OF assms(8), of ns grp did]
    by (auto simp: received_event apply_event_def ev_def woken_def)
qed

lemma notified_urls:
  "map srURL (NotifyServiceChange now ns grp svc M) =
     map (\<lambda>a. ''http://'' @ a @ ''/v1/cluster/sync'') (filter (\<lambda>a. a \<noteq> mgSelf M) (up_addrs (mgNodes M)))"
  "map srURL (NotifyConfigChange now ns grp did M) =
     map (\<lambda>a. ''http://'' @ a @ ''/v1/cluster/sync'') (filter (\<lambda>a. a \<noteq> mgSelf M) (up_addrs (mgNodes M)))"
  by (simp_all add: NotifyServiceChange_def NotifyConfigChange_def broadcast_recipients)

lemma publish_notifies_peers:
  assumes "apSyncer A" "publishConfig e q A = (A', r)" "rsStatus r = 200"
  shows "apOutbox A' = apOutbox A @ NotifyConfigChange (ckMilli (heClocks e)) (DefaultPostForm q ''tenant'' ''public'')
    (DefaultPostForm q ''group'' ''DEFAULT_GROUP'') (PostForm q ''dataId'') (apMgr A)"
proof -
  let ?pub = "PublishConfig (DefaultPostForm q ''tenant'' ''public'') (DefaultPostForm q ''group'' ''DEFAULT_GROUP'')
    (PostForm q ''dataId'') (PostForm q ''content'') (DefaultPostForm q ''type'' ''text'')"
  obtain A1 x where w: "with_config ?pub A = (A1, x)" by (cases "with_config ?pub A") blast
  then have "apOutbox A1 = apOutbox A" "apMgr A1 = apMgr A" "apSyncer A1 = apSyncer A"
    by (auto simp: with_config_def split: prod.splits)
  with assms w show ?thesis
    by (cases x) (auto simp: publishConfig_def notify_config_def reply_error_def)
qed

text \<open>What a handler has sent, and to whom.\<close>

definition announced ::
  "('i, 's, 'c, 'h, 'n, 'd) app \<Rightarrow> ('i, 's, 'c, 'h, 'n, 'd) app \<Rightarrow> sync_request list" where
  "announced A A' = drop (length (apOutbox A)) (apOutbox A')"

text \<open>
  C27. A change that one node accepts over HTTP wakes the subscribers on the others: after a
  registration, or a publication, that is answered with 200, the node has posted exactly one
  request to every other node that is up; and the server that receives the body of such a request,
  in whatever state it is, answers 200 and has put a token into the channel of every
  subscriber of that service (that configuration), and changed nothing else. The names, and the
  address of the sender, are UTF-8, the clock of the sender is in the range of 64 bits, and no
  channel of the receiver's bus is broken (none ever is: C3). A configuration is announced under the
  tenant of the form, not under the default that an empty one stands for.
\<close>
theorem announced_change_wakes_peers:
  assumes "apSyncer A" "bus_ok (apBus B)" "valid_utf8 (mgSelf (apMgr A))"
    and "int64_min \<le> ckMilli (heClocks e)" "ckMilli (heClocks e) \<le> int64_max"
    and "registerInstance e q A = (A1, r1) \<and> rsStatus r1 = 200 \<and>
         ns1 = or_else (DefaultPostForm q ''namespaceId'' ''public'') ''public'' \<and>
         grp1 = or_else (DefaultPostForm q ''groupName'' ''DEFAULT_GROUP'') ''DEFAULT_GROUP'' \<and> svc = PostForm q ''serviceName''"
    and "publishConfig e p A = (A2, r2) \<and> rsStatus r2 = 200 \<and>
         ns2 = DefaultPostForm p ''tenant'' ''public'' \<and> grp2 = DefaultPostForm p ''group'' ''DEFAULT_GROUP'' \<and> did = PostForm p ''dataId''"
    and "list_all valid_utf8 [ns1, grp1, svc, ns2, grp2, did]"
  defines "peers \<equiv> map (\<lambda>a. ''http://'' @ a @ ''/v1/cluster/sync'')
    (filter (\<lambda>a. a \<noteq> mgSelf (apMgr A)) (up_addrs (mgNodes (apMgr A))))"
  shows "map srURL (announced A A1) = peers \<and> map srURL (announced A A2) = peers \<and>
    (\<forall>m \<in> set (announced A A1).
       received e' evs m B = (woken (subs_at (serviceSubs (apBus B)) (serviceKey ns1 grp1 svc)) B, Answered reply_ok)) \<and>
    (\<forall>m \<in> set (announced A A2).
       received e' evs m B = (woken (subs_at (configSubs (apBus B)) (serviceKey ns2 grp2 did)) B, Answered reply_ok))"
proof -
  have "apOutbox A1 = apOutbox A @ NotifyServiceChange (ckMilli (heClocks e)) ns1 grp1 svc (apMgr A)"
    using register_notifies_peers [OF assms(1), of e q A1 r1] assms(6) by simp
  then have a1: "announced A A1 = NotifyServiceChange (ckMilli (heClocks e)) ns1 grp1 svc (apMgr A)"
    by (simp add: announced_def)
  have "apOutbox A2 = apOutbox A @ NotifyConfigChange (ckMilli (heClocks e)) ns2 grp2 did (apMgr A)"
    using publish_notifies_peers [OF assms(1), of e p A2 r2] assms(7) by simp
  then have a2: "announced A A2 = NotifyConfigChange (ckMilli (heClocks e)) ns2 grp2 did (apMgr A)"
    by (simp add: announced_def)
  note wakes = announced_service [OF _ _ _ _ assms(3-5,2)] announced_config [OF _ _ _ _ assms(3-5,2)]
  show ?thesis
    using assms(8) unfolding a1 a2 peers_def notified_urls by (auto intro: wakes)
qed

text \<open>
  Three nodes that are up: the service and the configuration are announced to the two others, one
  of which has a subscriber of each.
\<close>

definition demo_peer ::
  "(ServiceInstance list, Service list, ConfigItem list, ConfigHistory list, Namespace list, ClusterNode list) app" where
  "demo_peer = demo_app\<lparr>apBus := fold bus_step [SubService ''public'' ''DEFAULT_GROUP'' ''pay'',
     SubConfig ''public'' ''DEFAULT_GROUP'' ''app'', SubService ''public'' ''DEFAULT_GROUP'' ''order''] NewEventBus\<rparr>"

definition demo_registration :: greq where
  "demo_registration = demo_req [(''serviceName'', ''pay''), (''ip'', ''10.0.0.9''), (''port'', ''80'')]"

definition demo_publication :: greq where
  "demo_publication = demo_req [(''dataId'', ''app''), (''content'', ''k=v'')]"

lemma demo_accepted:
  "rsStatus (snd (registerInstance demo_env demo_registration demo_app)) = 200"
  "rsStatus (snd (publishConfig demo_env demo_publication demo_app)) = 200"
proof -
  have p: "siPort (form_instance demo_env demo_registration) = 80"
    by (simp add: form_instance_def demo_registration_def demo_req_def DefaultPostForm_def) code_simp
  show "rsStatus (snd (registerInstance demo_env demo_registration demo_app)) = 200"
    using p by (simp add: registerInstance_def with_registry_def registry_of_def RegisterInstance_def ServiceStore_Create_def
        InstanceStore_Create_def demo_app_def mem_ops Let_def reply_ok_def reply_def)
      (simp add: form_instance_def demo_registration_def demo_req_def PostForm_def)
  show "rsStatus (snd (publishConfig demo_env demo_publication demo_app)) = 200"
    by (simp add: publishConfig_def with_config_def config_of_def PublishConfig_def ConfigStore_Publish_def upsert_item_def
        cs_tx_def demo_app_def demo_cfg_def mem_ops Let_def reply_def demo_publication_def demo_req_def PostForm_def)
qed

theorem announced_change_wakes_peers_witness:
  "map srURL (announced demo_app (fst (registerInstance demo_env demo_registration demo_app))) =
     [''http://10.0.0.3:8848/v1/cluster/sync'', ''http://10.0.0.2:8848/v1/cluster/sync''] \<and>
   received demo_env [] (hd (announced demo_app (fst (registerInstance demo_env demo_registration demo_app)))) demo_peer =
     (woken [0] demo_peer, Answered reply_ok) \<and>
   received demo_env [] (hd (announced demo_app (fst (publishConfig demo_env demo_publication demo_app)))) demo_peer =
     (woken [1] demo_peer, Answered reply_ok)"
proof -
  obtain A1 r1 where r: "registerInstance demo_env demo_registration demo_app = (A1, r1)"
    by (cases "registerInstance demo_env demo_registration demo_app") blast
  obtain A2 r2 where p: "publishConfig demo_env demo_publication demo_app = (A2, r2)"
    by (cases "publishConfig demo_env demo_publication demo_app") blast
  have ups: "filter (\<lambda>a. a \<noteq> mgSelf (apMgr demo_app)) (up_addrs (mgNodes (apMgr demo_app))) = [''10.0.0.3:8848'', ''10.0.0.2:8848'']"
    using demo_ups by (simp add: demo_app_def) (simp add: demo_mgr_def NewManager_def)
  have bus: "bus_ok (apBus demo_peer)" by (simp add: demo_peer_def del: fold.simps) (rule bus_run_ok, simp)
  have r': "registerInstance demo_env demo_registration demo_app = (A1, r1) \<and> rsStatus r1 = 200 \<and>
      ''public'' = or_else (DefaultPostForm demo_registration ''namespaceId'' ''public'') ''public'' \<and>
      ''DEFAULT_GROUP'' = or_else (DefaultPostForm demo_registration ''groupName'' ''DEFAULT_GROUP'') ''DEFAULT_GROUP'' \<and>
      ''pay'' = PostForm demo_registration ''serviceName''"
    using r demo_accepted(1) by (simp add: demo_registration_def demo_req_def DefaultPostForm_def PostForm_def or_else_def)
  have p': "publishConfig demo_env demo_publication demo_app = (A2, r2) \<and> rsStatus r2 = 200 \<and>
      ''public'' = DefaultPostForm demo_publication ''tenant'' ''public'' \<and>
      ''DEFAULT_GROUP'' = DefaultPostForm demo_publication ''group'' ''DEFAULT_GROUP'' \<and> ''app'' = PostForm demo_publication ''dataId''"
    using p demo_accepted(2) by (simp add: demo_publication_def demo_req_def DefaultPostForm_def PostForm_def)
  have u: "valid_utf8 (mgSelf (apMgr demo_app))" "int64_min \<le> ckMilli (heClocks demo_env)" "ckMilli (heClocks demo_env) \<le> int64_max"
    "list_all valid_utf8 [''public'', ''DEFAULT_GROUP'', ''pay'', ''public'', ''DEFAULT_GROUP'', ''app'']"
    by (simp_all add: demo_app_def demo_mgr_def NewManager_def demo_env_def int64_min_def int64_max_def ascii_valid_utf8 ascii_def)
  have subs: "subs_at (serviceSubs (apBus demo_peer)) (serviceKey ''public'' ''DEFAULT_GROUP'' ''pay'') = [0]"
    "subs_at (configSubs (apBus demo_peer)) (serviceKey ''public'' ''DEFAULT_GROUP'' ''app'') = [1]"
    by (simp_all add: demo_peer_def demo_app_def SubscribeService_def SubscribeConfig_def NewEventBus_def make_chan_def
        no_chans_def serviceKey_def subs_at_def)
  note all = announced_change_wakes_peers [of demo_app demo_peer demo_env, OF _ bus u(1,2,3) r' p' u(4), of demo_env "[]", unfolded ups subs]
  have "apSyncer demo_app" by (simp add: demo_app_def)
  note all = all [OF this]
  have "announced demo_app A1 \<noteq> []" "announced demo_app A2 \<noteq> []" using all by auto
  then show ?thesis using all r p by simp
qed

end
