(* ===== verification/Spec2Isabelle.thy ===== *)
theory Spec2Isabelle
  imports HttpWatch TcpConns Lifecycle EventRace DemoUndo DnsTest Console GrpcWire Wiring Interleave PeerSync
begin

text \<open>
  Benbroo is a service registry and configuration centre written in Go. A node keeps
  instances, services, configurations and namespaces in MySQL, serves them over HTTP, a TCP
  line protocol, gRPC and DNS, probes the instances, knows the other nodes of its cluster, and
  comes with a client SDK. This development models that program and proves what makes its
  parts correct, alone and together.

  \<^bold>\<open>The parts and their theories.\<close> A theory models the file it names; its records are the
  structs, its definitions the functions of the same names.

  \<^item> Go's library, as far as the program computes with it: \<^verbatim>\<open>GoText\<close> (\<^verbatim>\<open>strings\<close>, \<^verbatim>\<open>strconv\<close>,
    UTF-8 runes), \<^verbatim>\<open>GoFloat\<close> (weights as \<^verbatim>\<open>float64\<close>), \<^verbatim>\<open>GoHash\<close> (MD5, CRC-32, SHA-256, HMAC,
    base64), \<^verbatim>\<open>GoJson\<close> (\<^verbatim>\<open>encoding/json\<close>). Strings are byte lists, integers are bounded with
    their wrap-around (\<^verbatim>\<open>int64\<close>) or words.
  \<^item> \<^verbatim>\<open>Model\<close> (\<^verbatim>\<open>pkg/model\<close>): the rows. \<^verbatim>\<open>Gorm\<close>: a table as a handle whose operations are
    parameters, and \<open>gorm_table\<close>, what the program relies on of gorm and MySQL. \<^verbatim>\<open>MemTable\<close>: an
    executable table with those laws, on which the witnesses run. \<^verbatim>\<open>Storage\<close> (\<^verbatim>\<open>pkg/storage\<close>):
    the five stores as queries on tables. \<^verbatim>\<open>StoreInv\<close>: what they keep, and transactions (\<^verbatim>\<open>Tx\<close>). \<^verbatim>\<open>Db\<close>: the connection.
  \<^item> \<^verbatim>\<open>EventBus\<close> and \<^verbatim>\<open>EventRace\<close> (\<^verbatim>\<open>pkg/subscribe\<close>): channels and subscriptions; the
    interleaving of a publication with a cancellation.
  \<^item> \<^verbatim>\<open>Naming\<close>, \<^verbatim>\<open>ConfigSvc\<close>, \<^verbatim>\<open>NamespaceSvc\<close>, \<^verbatim>\<open>Health\<close>, \<^verbatim>\<open>Cluster\<close>, \<^verbatim>\<open>Auth\<close>: the services
    (\<^verbatim>\<open>pkg/naming\<close>, \<^verbatim>\<open>config\<close>, \<^verbatim>\<open>namespace\<close>, \<^verbatim>\<open>health\<close>, \<^verbatim>\<open>cluster\<close>, \<^verbatim>\<open>auth\<close>) as functions on the
    tables and the bus. A result is \<open>Inl\<close> an error or \<open>Inr\<close> a value.
  \<^item> \<^verbatim>\<open>App\<close>: the state all of them share, and each service's view of it. \<^verbatim>\<open>ApiServer\<close>,
    \<^verbatim>\<open>TcpServer\<close>, \<^verbatim>\<open>GrpcServer\<close>, \<^verbatim>\<open>Dns\<close> (\<^verbatim>\<open>pkg/api\<close>, \<^verbatim>\<open>tcpserver\<close>, \<^verbatim>\<open>grpcserver\<close>, \<^verbatim>\<open>dns\<close>): the
    handlers of the four protocols on that state. \<^verbatim>\<open>TcpConns\<close>: the life of TCP connections.
    \<^verbatim>\<open>PeerSync\<close>: a notification from the handler that sends it to the handler of the peer that
    receives it, through the text of its body.
  \<^item> \<^verbatim>\<open>GrpcStubs\<close>: the generated code between the gRPC client and the server (stubs, handlers,
    descriptions, registration). \<^verbatim>\<open>GrpcWire\<close>: a call through it is a call of the method.
  \<^item> \<^verbatim>\<open>ServerMain\<close> (\<^verbatim>\<open>cmd/server\<close>), \<^verbatim>\<open>Console\<close> (\<^verbatim>\<open>web\<close>): configuration, ports and the composition of
    a node; the routes of its web console. \<^verbatim>\<open>Wiring\<close>: the objects \<^verbatim>\<open>main\<close> allocates and the pointers
    between them, one of each kind, which is what lets \<^verbatim>\<open>App\<close> be one record.
    \<^verbatim>\<open>Running\<close>: a node at work, as a step relation over the events of all protocols, the
    health checker and the cluster manager. \<^verbatim>\<open>Interleave\<close>: the same at the grain of single
    statements, with any number of operations in progress. \<^verbatim>\<open>Lifecycle\<close>: the loops and the
    shutdown of a node, in the order \<^verbatim>\<open>main\<close> gives it, with the wait of \<^verbatim>\<open>GracefulStop\<close> for the
    RPCs in progress.
  \<^item> \<^verbatim>\<open>Client\<close>, \<^verbatim>\<open>ClientConn\<close>, \<^verbatim>\<open>TcpClient\<close>, \<^verbatim>\<open>GrpcClient\<close> (\<^verbatim>\<open>pkg/client\<close>): the SDK, as the
    request a call sends and what it makes of the answer; a watch is a loop over the answers it
    gets. \<^verbatim>\<open>HttpJson\<close>: the bodies of HTTP answers, as the server prints and the client decodes
    them. \<^verbatim>\<open>Protocols\<close>, \<^verbatim>\<open>Watching\<close> and \<^verbatim>\<open>HttpWatch\<close> put the SDK and the server together.
  \<^item> \<^verbatim>\<open>DemoClient\<close>, \<^verbatim>\<open>DemoTests\<close>, \<^verbatim>\<open>DemoMain\<close> (\<^verbatim>\<open>cmd/client\<close>): the demo program, as statements of a
    state monad over the client, its connections, the lines printed and the calls made. \<^verbatim>\<open>DemoRun\<close>
    goes through the program under an arbitrary assertion, \<^verbatim>\<open>DemoProps\<close> and \<^verbatim>\<open>DemoUndo\<close> have the properties.
    \<^verbatim>\<open>DnsTest\<close> (\<^verbatim>\<open>cmd/dnstest\<close>): the program that queries the DNS server, and that server behind it.

  \<^bold>\<open>How they interact.\<close> The services share the tables and publish on one bus. A handler reads
  its request into the arguments of a service, runs the service on its view of the state
  (\<open>with_registry\<close>, \<open>with_config\<close>, \<open>with_checker\<close>, \<open>with_namespaces\<close>) and writes the answer.
  The HTTP handlers also hand changes to the syncer, whose requests collect in \<open>apOutbox\<close> with
  their printed bodies; the handler of a peer decodes them and publishes on its own bus. A client call and a handler meet in the bytes or messages
  between them, so a theorem on both is one on their composition.

  \<^bold>\<open>What the lemmas show.\<close> Contracts of stores with a unique key (locales \<open>keyed_rows\<close>,
  \<open>keyed_store\<close>, \<open>id_rows\<close>, interpreted on the five stores); of a bus topic (\<open>topic_bus\<close>,
  interpreted on services and configurations); of threshold counters (\<open>streak\<close>); of filled-in
  configurations (\<open>defaults\<close>); of the rounds of a watch (\<open>watcher\<close>, interpreted on HTTP and gRPC);
  of an assertion that the demo program keeps (\<open>demo_logic\<close>, \<open>demo_anywhere\<close>, interpreted for its
  accounts, its counters, its connections and its history). On them: registration, discovery, deregistration and publishing
  do exactly what they announce and leave all other rows alone; the long poll returns exactly
  the difference, at the deadline at the latest; failures are counted exactly in their window
  and mark at their threshold; the three protocols have one effect and show one result; JSON,
  names and tokens survive a round trip; the strategies of load balancing are what their names
  say, or are shown not to be; every state a node reaches from its start is in order; the
  default namespace stays, as far as its guard goes; a changed configuration reaches an HTTP watch
  in its next round; a change that one node accepts wakes the subscribers on the others; and the
  demo program reports every failure, closes what it opens and calls for the removal of what it
  has registered and published, whatever the servers answer.

  \<^bold>\<open>Bounds and fuel.\<close> Loops are folds, structural recursion or recursion with a termination
  proof (runes, JSON strings, hash blocks, binary search). The server's own string splitting
  would loop on an empty separator: \<open>go_split\<close> is a partial function, and it is proved to
  return for the one-byte separators it is called with. A watch runs over the list of answers it gets, a loop with a
  ticker over its ticks, so that no fuel is needed. JSON nesting is
  bounded by Go's own limit of 10000; a TCP line by the scanner's buffer of one mebibyte. The
  ring of consistent hashing has 160 points per instance, as in the code. The age of a
  heartbeat saturates at 64 bits as \<^verbatim>\<open>time.Time.Sub\<close> does, and the negated window of a failure
  count wraps as a \<^verbatim>\<open>time.Duration\<close> does.

  \<^bold>\<open>What is assumed.\<close> \<open>gorm_table\<close> and, where a theorem needs a database that is up,
  \<open>updates_succeed\<close>. A table compares strings by its collation, an arbitrary equivalence: the
  database the program creates (\<^verbatim>\<open>db.go\<close>, \<^verbatim>\<open>sql/schema.sql\<close>) has \<^verbatim>\<open>utf8mb4_unicode_ci\<close>, which
  ignores case, and no property asks for another; some witnesses run on an exact table, others
  on one that ignores case. Inserted structs carry no id of their own, as everywhere in the program.
  Names and texts that cross a protocol are UTF-8 where a theorem says so, since JSON and protobuf
  alter other bytes. Parameters without any assumption: the clock, the network of the probes,
  the random numbers, the map iteration order of Go, JSON and YAML error texts, the parsing and
  printing of floats (a round trip is a hypothesis where it matters), SQL's \<^verbatim>\<open>LIKE\<close>,
  \<^verbatim>\<open>ToUpper\<close> outside ASCII, the form parsing of gin, the messages of miekg/dns. Of the gRPC
  transport, \<open>delivers\<close>: the handler of the named method runs on the message that was sent, which
  holds for messages below the 4 MB that a receiver accepts and within the deadlines of the calls.
  Of the reading and printing of floats in JSON, \<open>float_codec\<close>: zero is read as zero, a 64-bit
  number as some float, and a float is printed as a number. A handler runs as a whole in \<^verbatim>\<open>Running\<close>; \<^verbatim>\<open>Interleave\<close>
  takes the operations of the services apart into their statements, and the invariants hold there too.

  \<^bold>\<open>Not modelled.\<close> The embedded files of the web console (its routes are in \<^verbatim>\<open>Console\<close>), the
  descriptors and the reflection of the generated messages, the log lines, the delivery of
  signals, timeouts of connections, and the encoding of requests by \<^verbatim>\<open>net/http\<close>.
\<close>

end
